(* ===== verification/FL_Prelude.thy ===== *)
theory FL_Prelude
  imports Main "HOL-Library.Word"
begin

text \<open>
  Prelude of the framelink development.  It fixes the machine-integer types of the C++
  sources, the result codes of the public header \<^verbatim>\<open>include/framelink.h\<close>, the convention
  for out-parameters, and the little-endian byte codec that the session, memory and
  rendezvous wire formats share, with the generic lemmas about them.
\<close>

unbundle bit_operations_syntax

section \<open>Machine integers\<close>

type_synonym u8 = "8 word"
type_synonym u16 = "16 word"
type_synonym u32 = "32 word"
type_synonym u64 = "64 word"

text \<open>\<^verbatim>\<open>int64_t\<close>: a 64-bit pattern that the code reads through \<^const>\<open>sint\<close>.\<close>
type_synonym i64 = "64 word"

abbreviation UINT32_MAX :: u32 where "UINT32_MAX \<equiv> - 1"
abbreviation UINT64_MAX :: u64 where "UINT64_MAX \<equiv> - 1"
abbreviation INT64_MAX :: i64 where "INT64_MAX \<equiv> 0x7FFFFFFFFFFFFFFF"
abbreviation INT64_MIN :: i64 where "INT64_MIN \<equiv> 0x8000000000000000"

text \<open>The raw values of \<^verbatim>\<open>flFormat\<close>.\<close>
abbreviation FL_FORMAT_BGRA8 :: u32 where "FL_FORMAT_BGRA8 \<equiv> 1"
abbreviation FL_FORMAT_NV12 :: u32 where "FL_FORMAT_NV12 \<equiv> 2"
abbreviation FL_FORMAT_RGB10A2 :: u32 where "FL_FORMAT_RGB10A2 \<equiv> 3"
abbreviation FL_FORMAT_RGBA8 :: u32 where "FL_FORMAT_RGBA8 \<equiv> 4"

named_theorems wire_simps \<open>evaluation rules of the little-endian byte codec\<close>
named_theorems out_simps \<open>behaviour of out-parameters\<close>

text \<open>Signed reading of 64-bit patterns: where the exact result is in range, it is the result.\<close>

lemma take_bit_LENGTH [simp]: "LENGTH('a) \<le> n \<Longrightarrow> take_bit n (v :: 'a::len word) = v"
  by (rule bit_word_eqI) (auto simp: bit_take_bit_iff dest: bit_imp_le_length)

lemma sint_range64: "- (2 ^ 63) \<le> sint (a :: u64)" "sint (a :: u64) < 2 ^ 63"
  using sint_ge [of a] sint_lt [of a] by simp_all

lemma uint_nonneg64: "0 \<le> sint (a :: u64) \<Longrightarrow> uint a = sint a"
  using sint_range64 [of a] by (simp add: uint_sint take_bit_int_eq_self_iff)

lemma sint_add64:
  "- (2 ^ 63) \<le> sint a + sint b \<Longrightarrow> sint a + sint b < 2 ^ 63 \<Longrightarrow>
   sint (a + b :: u64) = sint a + sint b"
  by (simp add: sint_word_add signed_take_bit_int_eq_self_iff)

lemma sint_diff64:
  "- (2 ^ 63) \<le> sint a - sint b \<Longrightarrow> sint a - sint b < 2 ^ 63 \<Longrightarrow>
   sint (a - b :: u64) = sint a - sint b"
  by (simp add: sint_word_diff signed_take_bit_int_eq_self_iff)

lemma sint_neg64: "0 \<le> sint a \<Longrightarrow> sint (- a :: u64) = - sint a"
  using sint_range64 [of a] by (simp add: sint_word_minus signed_take_bit_int_eq_self_iff)

text \<open>Unsigned results that do not wrap.\<close>

lemma unat_add64: "unat a + unat b < 2 ^ 64 \<Longrightarrow> unat (a + b :: u64) = unat a + unat b"
  by (simp add: unat_word_ariths)

lemma unat_mult64: "unat a * unat b < 2 ^ 64 \<Longrightarrow> unat (a * b :: u64) = unat a * unat b"
  by (simp add: unat_word_ariths)

lemma unat_Suc64: "w \<noteq> UINT64_MAX \<Longrightarrow> unat (w + 1) = Suc (unat w)"
proof -
  assume w: "w \<noteq> UINT64_MAX"
  then have "unat w \<noteq> unat UINT64_MAX" by (metis word_unat_eq_iff)
  moreover have "unat UINT64_MAX = 2 ^ 64 - 1" by (simp add: unsigned_minus_1_eq_mask mask_eq_exp_minus_1)
  moreover have "unat w < 2 ^ 64" using unsigned_less [of w, where ?'a = nat] by simp
  ultimately show ?thesis by (subst unat_add64) simp_all
qed

lemma next_value:
  assumes "(r::u64) < UINT64_MAX - 1"
  shows "r + 1 \<noteq> 0" "r + 1 \<noteq> UINT64_MAX" "r < r + 1" "v \<le> r \<Longrightarrow> v \<le> r + 1"
proof -
  have u: "unat r < 2 ^ 64 - 2" using assms by (simp add: word_less_nat_alt)
  have M: "unat UINT64_MAX = 2 ^ 64 - 1" by (simp add: unsigned_minus_1_eq_mask mask_eq_exp_minus_1)
  have "r \<noteq> UINT64_MAX" using u M by auto
  then have s: "unat (r + 1) = Suc (unat r)" by (rule unat_Suc64)
  show "r + 1 \<noteq> 0" using s by (auto simp: word_unat_eq_iff simp del: unat_Suc64)
  show "r + 1 \<noteq> UINT64_MAX" 
  proof
    assume "r + 1 = UINT64_MAX"
    with s M have "Suc (unat r) = 2 ^ 64 - 1" by simp
    with u show False by simp
  qed
  show "r < r + 1" using s by (simp add: word_less_nat_alt)
  show "v \<le> r + 1" if "v \<le> r" using s that by (simp add: word_le_nat_alt)
qed

lemma unat_ucast32_64 [simp]: "unat (ucast (v :: u32) :: u64) = unat v"
  using unsigned_less [of v, where ?'a = nat] by (simp add: unsigned_ucast_eq take_bit_nat_eq_self)

lemma ucast_ucast_up [simp]: "ucast (ucast (v :: u32) :: u64) = v"
  by (rule bit_word_eqI) (auto simp: bit_ucast_iff dest: bit_imp_le_length)

text \<open>The element a first-match loop stops at.\<close>

lemma find_in_set: "find P xs = Some x \<Longrightarrow> x \<in> set xs \<and> P x"
  by (auto simp: find_Some_iff)

section \<open>Fixed tables\<close>

text \<open>The index of the first element a scan stops at.\<close>
fun scan :: "('a \<Rightarrow> bool) \<Rightarrow> 'a list \<Rightarrow> nat option" where
  "scan P [] = None"
| "scan P (x # xs) = (if P x then Some 0 else map_option Suc (scan P xs))"

lemma scan_SomeD: "scan P xs = Some j \<Longrightarrow> j < length xs \<and> P (xs ! j)"
  by (induction xs arbitrary: j) (auto split: if_splits)

lemma scan_None_iff: "scan P xs = None \<longleftrightarrow> (\<forall>x \<in> set xs. \<not> P x)"
  by (induction xs) auto

lemma length_filter_update:
  "j < length xs \<Longrightarrow>
   length (filter P (xs[j := x])) + of_bool (P (xs ! j)) = length (filter P xs) + of_bool (P x)"
proof (induction xs arbitrary: j)
  case (Cons a xs)
  then show ?case by (cases j) auto
qed simp

lemma in_set_updateD: "x \<in> set (xs[j := y]) \<Longrightarrow> x = y \<or> x \<in> set xs"
  using set_update_subset_insert by fastforce

lemma distinct_update:
  assumes "distinct (map f (filter P xs))" "j < length xs" "P y \<Longrightarrow> f y \<notin> f ` {x \<in> set xs. P x}"
  shows "distinct (map f (filter P (xs[j := y])))"
proof -
  have eq: "xs = take j xs @ xs ! j # drop (Suc j) xs" using assms(2) by (rule id_take_nth_drop)
  have "distinct (map f (filter P (take j xs @ drop (Suc j) xs)))"
    using assms(1) by (subst (asm) eq) (auto split: if_splits)
  moreover have "f y \<notin> f ` {x \<in> set (take j xs @ drop (Suc j) xs). P x}" if "P y"
    using assms(3) [OF that] by (auto dest: in_set_takeD in_set_dropD)
  moreover have "xs[j := y] = take j xs @ y # drop (Suc j) xs" using assms(2) by (rule upd_conv_take_nth_drop)
  ultimately show ?thesis by (auto simp: image_iff)
qed

lemma filter_set_insert:
  assumes "j < length xs" "\<not> P (xs ! j)" "P y"
  shows "{x \<in> set (xs[j := y]). P x} = insert y {x \<in> set xs. P x}"
proof -
  obtain S where S: "set xs = insert (xs ! j) S" "S = set (take j xs @ drop (Suc j) xs)"
    by (metis assms(1) id_take_nth_drop list.simps(15) set_append Un_insert_right)
  have "xs[j := y] = take j xs @ y # drop (Suc j) xs" using assms(1) by (rule upd_conv_take_nth_drop)
  then have "set (xs[j := y]) = insert y S" by (simp add: S(2))
  then show ?thesis unfolding S(1) using assms(2,3) by auto
qed

lemma filter_set_remove:
  assumes "j < length xs" "P (xs ! j)" "\<not> P y" "distinct (map f (filter P xs))"
  shows "f ` {x \<in> set (xs[j := y]). P x} = f ` {x \<in> set xs. P x} - {f (xs ! j)}"
proof -
  define S where "S = set (take j xs @ drop (Suc j) xs)"
  have eq: "xs = take j xs @ xs ! j # drop (Suc j) xs" using assms(1) by (rule id_take_nth_drop)
  have s: "set xs = insert (xs ! j) S" unfolding S_def by (subst eq) simp
  have "f (xs ! j) \<notin> f ` {x \<in> S. P x}"
    using assms(4) unfolding S_def by (subst (asm) eq) (auto simp: assms(2))
  moreover have "xs[j := y] = take j xs @ y # drop (Suc j) xs" using assms(1) by (rule upd_conv_take_nth_drop)
  then have "set (xs[j := y]) = insert y S" by (simp add: S_def)
  ultimately show ?thesis unfolding s using assms(2,3) by (auto simp: image_iff)
qed

section \<open>Result codes\<close>

datatype flResult =
    FL_OK | FL_TIMEOUT | FL_DISCONNECTED | FL_VERSION_MISMATCH | FL_FORMAT_UNSUPPORTED
  | FL_ADAPTER_MISMATCH | FL_ACCESS_DENIED | FL_NOT_FOUND | FL_BUSY | FL_INVALID | FL_OOM
  | FL_INTERNAL

text \<open>
  Pointer parameters are options (\<open>None\<close> is the null pointer).  An out-parameter is a
  cell: the model receives its old contents and returns its new ones, so that "the output
  is unchanged on failure" is a statement about the returned cell.
\<close>

definition assign :: "'a option \<Rightarrow> 'a \<Rightarrow> 'a option" where
  "assign cell v = (case cell of None \<Rightarrow> None | Some _ \<Rightarrow> Some v)"

lemma assign_simps [simp, out_simps]:
  "assign None v = None"
  "assign (Some x) v = Some v"
  by (simp_all add: assign_def)

section \<open>Timed polling loops\<close>

text \<open>
  The loop \<^verbatim>\<open>for (uint32_t waited = 0;; waited += step) { body; if (waited >= timeoutMs) return expired; sleep }\<close>
  that the socket connect, the producer's slot search and the consumer's frame wait share.  The body of
  round \<open>k\<close> either returns a result or goes on with a new state.  The counter is a 32-bit word, so the loop
  may run forever: \<open>None\<close> is a call that never returns.  The third component counts the rounds.
\<close>

partial_function (option) timed_loop ::
  "u32 \<Rightarrow> u32 \<Rightarrow> (nat \<Rightarrow> 's \<Rightarrow> 'r option \<times> 's) \<Rightarrow> 'r \<Rightarrow> nat \<Rightarrow> u32 \<Rightarrow> 's \<Rightarrow> ('r \<times> 's \<times> nat) option" where
  "timed_loop step timeoutMs body expired k waited s =
     (case body k s of
        (Some r, s') \<Rightarrow> Some (r, s', Suc k)
      | (None, s') \<Rightarrow>
          if waited \<ge> timeoutMs then Some (expired, s', Suc k)
          else timed_loop step timeoutMs body expired (Suc k) (waited + step) s')"

lemma step_div:
  assumes "(d::nat) \<noteq> 0" "w < t"
  shows "Suc ((t - (w + d) + d - 1) div d) \<le> (t - w + d - 1) div d"
proof (cases "w + d \<le> t")
  case True
  then have eq: "t - w + d - 1 = (t - (w + d) + d - 1) + d" using assms by simp
  show ?thesis unfolding eq div_add_self2 [OF assms(1)] by simp
next
  case False
  then have "(t - (w + d) + d - 1) div d = 0" using assms(1) by simp
  moreover have "1 \<le> (t - w + d - 1) div d" using assms by (simp add: div_greater_zero_iff Suc_le_eq)
  ultimately show ?thesis by simp
qed

lemma timed_loop_returns:
  assumes "step \<noteq> 0" "unat timeoutMs + unat step < 2 ^ 32" "unat waited < unat timeoutMs + unat step"
  shows "\<exists>r s' k'. timed_loop step timeoutMs body expired k waited s = Some (r, s', k') \<and>
    k' \<le> Suc k + (unat timeoutMs - unat waited + unat step - 1) div unat step"
  using assms(3)
proof (induction "unat timeoutMs - unat waited" arbitrary: waited k s rule: less_induct)
  case less
  obtain ro s1 where b: "body k s = (ro, s1)" by (cases "body k s")
  show ?case
  proof (cases "ro = None \<and> \<not> waited \<ge> timeoutMs")
    case False
    then show ?thesis by (subst timed_loop.simps) (auto simp: b split: option.splits)
  next
    case True
    then have lt: "unat waited < unat timeoutMs" by (simp add: word_le_nat_alt)
    have st: "unat step \<noteq> 0" using assms(1) by (metis unat_eq_zero)
    have w: "unat (waited + step) = unat waited + unat step"
      using assms(2) lt by (simp add: unat_word_ariths)
    have "unat timeoutMs - unat (waited + step) < unat timeoutMs - unat waited"
      "unat (waited + step) < unat timeoutMs + unat step" using w lt st by linarith+
    from less.hyps [OF this, of "Suc k" s1] obtain r s' k' where
      "timed_loop step timeoutMs body expired (Suc k) (waited + step) s1 = Some (r, s', k')"
      "k' \<le> Suc (Suc k) + (unat timeoutMs - unat (waited + step) + unat step - 1) div unat step" by blast
    moreover have "(unat timeoutMs - unat waited + unat step - 1) div unat step \<ge>
        Suc ((unat timeoutMs - unat (waited + step) + unat step - 1) div unat step)"
      using step_div [OF st lt] w by simp
    moreover have "timed_loop step timeoutMs body expired k waited s =
        timed_loop step timeoutMs body expired (Suc k) (waited + step) s1"
      using True by (subst timed_loop.simps) (simp add: b)
    ultimately show ?thesis by (intro exI [of _ r] exI [of _ s'] exI [of _ k']) simp
  qed
qed

text \<open>A property that every unfinished round keeps held when the last round began.\<close>

lemma timed_loop_invariant:
  assumes "timed_loop step timeoutMs body expired k waited s = Some (r, s', k')" "P s"
    "\<And>k s s1. P s \<Longrightarrow> body k s = (None, s1) \<Longrightarrow> P s1"
  shows "r = expired \<and> P s' \<or> (\<exists>k s. P s \<and> body k s = (Some r, s'))"
proof -
  have "(\<forall>k s s1. P s \<longrightarrow> body k s = (None, s1) \<longrightarrow> P s1) \<longrightarrow> P s \<longrightarrow>
      fst y = expired \<and> P (fst (snd y)) \<or> (\<exists>k s. P s \<and> body k s = (Some (fst y), fst (snd y)))"
    if "timed_loop step timeoutMs body expired k waited s = Some y" for y
    using that
  proof (induction rule: timed_loop.raw_induct [rotated, consumes 1, case_names round])
    case (round rec step timeoutMs body expired k waited s y)
    show ?case
    proof (intro impI)
      assume keep: "\<forall>k s s1. P s \<longrightarrow> body k s = (None, s1) \<longrightarrow> P s1" and "P s"
      obtain ro s1 where b: "body k s = (ro, s1)" by (cases "body k s")
      consider (ret) r where "ro = Some r" | (over) "ro = None" "timeoutMs \<le> waited"
        | (again) "ro = None" "\<not> timeoutMs \<le> waited" by (cases ro) auto
      then show "fst y = expired \<and> P (fst (snd y)) \<or> (\<exists>k s. P s \<and> body k s = (Some (fst y), fst (snd y)))"
      proof cases
        case ret
        then have "y = (r, s1, Suc k)" using round.hyps b by simp
        then show ?thesis using b ret \<open>P s\<close> by auto
      next
        case over
        then have "y = (expired, s1, Suc k)" using round.hyps b by simp
        then show ?thesis using keep \<open>P s\<close> b over(1) by auto
      next
        case again
        then have "rec step timeoutMs body expired (Suc k) (waited + step) s1 = Some y" using round.hyps b by simp
        from round.IH [OF this] show ?thesis using keep \<open>P s\<close> b again(1) by blast
      qed
    qed
  qed
  with assms show ?thesis by fastforce
qed

text \<open>
  With an even step the counter never reaches \<^verbatim>\<open>UINT32_MAX\<close>: such a timeout never expires, and the loop does not
  return while no round finishes.
\<close>

lemma timed_loop_diverges:
  assumes "\<And>k s. P s \<Longrightarrow> \<exists>s1. body k s = (None, s1) \<and> P s1" "P s" "even (uint waited)"
  shows "timed_loop 2 UINT32_MAX body expired k waited s = None"
proof -
  have "step = 2 \<longrightarrow> timeoutMs = UINT32_MAX \<longrightarrow> (\<forall>k s. P s \<longrightarrow> (\<exists>s1. body k s = (None, s1) \<and> P s1)) \<longrightarrow> P s \<longrightarrow>
      even (uint waited) \<longrightarrow> False"
    if "timed_loop step timeoutMs body expired k waited s = Some y" for step timeoutMs y
    using that
  proof (induction rule: timed_loop.raw_induct [rotated, consumes 1, case_names round])
    case (round rec step timeoutMs body expired k waited s y)
    show ?case
    proof (intro impI)
      assume a: "step = 2" "timeoutMs = UINT32_MAX" "\<forall>k s. P s \<longrightarrow> (\<exists>s1. body k s = (None, s1) \<and> P s1)" "P s" "even (uint waited)"
      obtain s1 where b: "body k s = (None, s1)" "P s1" using a(3,4) by blast
      have "odd (uint UINT32_MAX)" by (simp add: unsigned_minus_1_eq_mask mask_eq_exp_minus_1)
      then have "waited \<noteq> UINT32_MAX" using a(5) by auto
      then have "\<not> timeoutMs \<le> waited" using a(2) by (metis word_order.extremum_uniqueI)
      then have "rec step timeoutMs body expired (Suc k) (waited + step) s1 = Some y" using round.hyps b by simp
      moreover have "even (uint (waited + step))"
        using a(1,5) by (simp add: uint_word_ariths take_bit_eq_mod dvd_mod_iff)
      ultimately show False using round.IH a(1-3) b(2) by blast
    qed
  qed
  then show ?thesis using assms by (metis not_None_eq)
qed

section \<open>Little-endian bytes\<close>

text \<open>
  \<open>le_put n v\<close> is the loop \<^verbatim>\<open>for(i<n) { *p++ = uint8_t(v); v >>= 8; }\<close>, and
  \<open>le_get_from\<close> the loop \<^verbatim>\<open>for(i<n) v |= T(*p++) << (8*i)\<close> over the unread bytes.
\<close>

fun le_put :: "nat \<Rightarrow> 'a::len word \<Rightarrow> u8 list" where
  "le_put 0 v = []"
| "le_put (Suc n) v = ucast v # le_put n (drop_bit 8 v)"

fun le_get_from :: "nat \<Rightarrow> nat \<Rightarrow> 'a::len word \<Rightarrow> u8 list \<Rightarrow> 'a word \<times> u8 list" where
  "le_get_from i 0 v p = (v, p)"
| "le_get_from i (Suc n) v [] = (v, [])"
| "le_get_from i (Suc n) v (b # p) =
     le_get_from (Suc i) n (v OR push_bit (8 * i) (ucast b)) p"

definition le_get :: "nat \<Rightarrow> u8 list \<Rightarrow> 'a::len word \<times> u8 list" where
  "le_get n p = le_get_from 0 n 0 p"

text \<open>The value of a byte string: the closed form of the read loop.\<close>

fun le_val :: "u8 list \<Rightarrow> 'a::len word" where
  "le_val [] = 0"
| "le_val (b # bs) = ucast b OR push_bit 8 (le_val bs)"

lemma length_le_put [simp]: "length (le_put n v) = n"
  by (induction n arbitrary: v) auto

lemma le_get_from_val:
  "n \<le> length p \<Longrightarrow>
   le_get_from i n v p = (v OR push_bit (8 * i) (le_val (take n p)), drop n p)"
proof (induction i n v p rule: le_get_from.induct)
  case (3 i n v b p)
  then show ?case
    by (simp add: ac_simps)
qed auto

lemma le_get_val: "n \<le> length p \<Longrightarrow> le_get n p = (le_val (take n p), drop n p)"
  by (simp add: le_get_def le_get_from_val)

lemma le_val_le_put: "le_val (le_put n (v :: 'a::len word)) = take_bit (8 * n) v"
proof (induction n arbitrary: v)
  case (Suc n)
  have "le_val (le_put (Suc n) v) = ucast (ucast v :: u8) OR push_bit 8 (take_bit (8 * n) (drop_bit 8 v))"
    by (simp add: Suc.IH)
  also have "\<dots> = take_bit (8 * Suc n) v"
    by (rule bit_word_eqI)
      (auto simp: bit_or_iff bit_push_bit_iff bit_take_bit_iff bit_drop_bit_eq bit_ucast_iff)
  finally show ?case .
qed auto

lemma le_get_le_put [wire_simps]:
  "le_get n (le_put n (v :: 'a::len word) @ xs) = (take_bit (8 * n) v, xs)"
  by (simp add: le_get_val le_val_le_put)

text \<open>The other direction: a byte string is the encoding of its value, as long as it fits.\<close>

lemma bit_le_val_iff:
  "bit (le_val bs :: 'a::len word) k \<longleftrightarrow>
   k < LENGTH('a) \<and> k < 8 * length bs \<and> bit (bs ! (k div 8)) (k mod 8)"
proof (induction bs arbitrary: k)
  case (Cons b bs)
  show ?case
  proof (cases "k < 8")
    case True
    then show ?thesis
      by (auto simp: bit_or_iff bit_push_bit_iff bit_ucast_iff)
  next
    case False
    then have "k div 8 = Suc ((k - 8) div 8)" and "k mod 8 = (k - 8) mod 8"
      by (simp_all add: le_div_geq le_mod_geq)
    with False show ?thesis
      by (auto simp: bit_or_iff bit_push_bit_iff bit_ucast_iff Cons.IH
          dest: bit_imp_le_length)
  qed
qed simp

lemma le_put_le_val:
  assumes "8 * length bs \<le> LENGTH('a)"
  shows "le_put (length bs) (le_val bs :: 'a::len word) = bs"
  using assms
proof (induction bs)
  case (Cons b bs)
  have "ucast (le_val (b # bs) :: 'a word) = b"
    using Cons.prems by (intro bit_word_eqI)
      (auto simp: bit_or_iff bit_push_bit_iff bit_ucast_iff)
  moreover have "drop_bit 8 (le_val (b # bs) :: 'a word) = le_val bs"
    using Cons.prems by (intro bit_word_eqI)
      (auto simp: bit_drop_bit_eq bit_or_iff bit_push_bit_iff bit_ucast_iff bit_le_val_iff
        dest: bit_imp_le_length)
  ultimately show ?case
    using Cons by simp
qed simp

lemma le_put_take:
  "8 * n \<le> LENGTH('a) \<Longrightarrow> n \<le> length bs \<Longrightarrow>
   le_put n (le_val (take n bs) :: 'a::len word) = take n bs"
  using le_put_le_val [where bs = "take n bs" and 'a = 'a] by simp

lemma take_bit_le_val [simp]:
  "8 * length bs \<le> n \<Longrightarrow> take_bit n (le_val bs :: 'a::len word) = le_val bs"
  by (rule bit_word_eqI) (auto simp: bit_take_bit_iff bit_le_val_iff)

text \<open>Widening the result type does not change a value that fits the narrow one.\<close>

lemma ucast_le_val:
  "8 * length bs \<le> LENGTH('b) \<Longrightarrow>
   ucast (le_val bs :: 'b::len word) = (le_val bs :: 'a::len word)"
  by (rule bit_word_eqI) (auto simp: bit_ucast_iff bit_le_val_iff)

lemma ucast_ucast_le_val [simp]:
  "8 * length bs \<le> LENGTH('b) \<Longrightarrow>
   ucast (ucast (le_val bs :: 'a::len word) :: 'b::len word) = (le_val bs :: 'a word)"
  by (rule bit_word_eqI) (auto simp: bit_ucast_iff bit_le_val_iff)

lemma take_bit_ucast_id [simp]:
  "LENGTH('b) \<le> n \<Longrightarrow> take_bit n (ucast (v :: 'b::len word) :: 'a::len word) = ucast v"
  by (rule bit_word_eqI) (auto simp: bit_take_bit_iff bit_ucast_iff dest: bit_imp_le_length)

lemma take_drop_append:
  "b = a + n \<Longrightarrow> take n (drop a p) @ take m (drop b p) = take (n + m) (drop a p)"
  "take n p @ take m (drop n p) = take (n + m) p"
  by (simp_all add: take_add add.commute [of n a])

lemma take_drop_rest: "b = a + n \<Longrightarrow> take n (drop a p) @ drop b p = drop a p" "take n p @ drop n p = p"
  by (metis add.commute append_take_drop_id drop_drop) simp

section \<open>Wire codecs as an interface\<close>

text \<open>
  What every fixed-size message format of the program promises its users: a valid value has
  an encoding of the announced size, decoding it gives the value back, and the decoder
  accepts nothing but the encodings of valid values.
\<close>

locale wire_codec =
  fixes valid :: "'a \<Rightarrow> bool"
    and enc :: "'a \<Rightarrow> u8 list"
    and dec :: "u8 list \<Rightarrow> 'a option"
    and wire_size :: nat
  assumes enc_size: "valid x \<Longrightarrow> length (enc x) = wire_size"
    and dec_enc: "valid x \<Longrightarrow> dec (enc x) = Some x"
    and dec_sound: "dec bs = Some x \<Longrightarrow> valid x \<and> enc x = bs"
begin

lemma dec_iff: "dec bs = Some x \<longleftrightarrow> valid x \<and> enc x = bs"
  using dec_enc dec_sound by blast

lemma enc_inj: "valid x \<Longrightarrow> valid y \<Longrightarrow> enc x = enc y \<Longrightarrow> x = y"
  using dec_enc by (metis option.inject)

lemma dec_inj: "dec bs = Some x \<Longrightarrow> dec bs' = Some x \<Longrightarrow> bs = bs'"
  by (simp add: dec_iff)

lemma dec_size: "dec bs = Some x \<Longrightarrow> length bs = wire_size"
  using enc_size by (auto simp: dec_iff)

lemma dec_wrong_size: "length bs \<noteq> wire_size \<Longrightarrow> dec bs = None"
  using dec_size by (cases "dec bs") auto

end

end
