(* ===== verification/FL_ReadLedger.thy ===== *)
theory FL_ReadLedger
  imports FL_Prelude
begin

text \<open>
  The reader ledger, \<^verbatim>\<open>src/fl_read_ledger.hpp\<close>: a ring of at most 16 retained frames, a table
  of at most 256 reader tokens, and the ordered retirement rule that a completed later frame
  cannot retire an earlier frame that still has a reader.  The token counter is process-wide
  in the source, so it is an argument and a result of the operations that draw from it.
\<close>

section \<open>Data\<close>

abbreviation FL_MAX_POOL_SIZE :: nat where "FL_MAX_POOL_SIZE \<equiv> 16"
abbreviation MaxReaders :: nat where "MaxReaders \<equiv> 256"

text \<open>Images are opaque handles; \<open>None\<close> is the null pointer.\<close>
type_synonym flImage = "nat option"

record flFrame =
  fr_slot :: u32
  fr_image :: flImage
  fr_ptsNs :: i64
  fr_sequence :: u64
  fr_readyValue :: u64

record LedgerFrame =
  lf_frame :: flFrame
  lf_generation :: u64
  lf_readers :: nat

record LedgerReader =
  rd_token :: u64
  rd_frame :: nat
  rd_pending :: bool

record Retirement =
  rt_generation :: u64
  rt_value :: u64

record ReadLedger =
  lg_frames :: "LedgerFrame list"
  lg_readers :: "LedgerReader list"
  lg_head :: nat
  lg_count :: nat
  lg_generation :: u64
  lg_lastValue :: u64

definition zero_frame :: flFrame where
  "zero_frame = \<lparr>fr_slot = 0, fr_image = None, fr_ptsNs = 0, fr_sequence = 0, fr_readyValue = 0\<rparr>"

definition free_frame :: LedgerFrame where
  "free_frame = \<lparr>lf_frame = zero_frame, lf_generation = 0, lf_readers = 0\<rparr>"

definition free_reader :: LedgerReader where
  "free_reader = \<lparr>rd_token = 0, rd_frame = 0, rd_pending = False\<rparr>"

definition ledger_init :: ReadLedger where
  "ledger_init = \<lparr>lg_frames = replicate FL_MAX_POOL_SIZE free_frame,
     lg_readers = replicate MaxReaders free_reader, lg_head = 0, lg_count = 0,
     lg_generation = 0, lg_lastValue = 0\<rparr>"

section \<open>Operations\<close>

text \<open>
  \<^verbatim>\<open>token()\<close>: the compare-exchange loop draws one value from the shared counter; at exhaustion it
  fails closed with 0 and leaves the counter alone.  The result is the token and the new counter.
\<close>
definition ledger_token :: "u64 \<Rightarrow> u64 \<times> u64" where
  "ledger_token nextToken =
     (if nextToken \<noteq> UINT64_MAX then (nextToken, nextToken + 1) else (0, nextToken))"

definition ledger_find :: "ReadLedger \<Rightarrow> u64 \<Rightarrow> bool \<Rightarrow> nat option" where
  "ledger_find l t pending =
     (if t = 0 then None else scan (\<lambda>r. rd_token r = t \<and> rd_pending r = pending) (lg_readers l))"

text \<open>\<^verbatim>\<open>r = {t, f}; ++frames_[f].readers;\<close>\<close>
definition put_reader :: "ReadLedger \<Rightarrow> nat \<Rightarrow> nat \<Rightarrow> u64 \<Rightarrow> ReadLedger" where
  "put_reader l j f t =
     l\<lparr>lg_readers := (lg_readers l)[j := \<lparr>rd_token = t, rd_frame = f, rd_pending = False\<rparr>],
       lg_frames := (lg_frames l)[f := (lg_frames l ! f)\<lparr>lf_readers := lf_readers (lg_frames l ! f) + 1\<rparr>]\<rparr>"

definition addReader :: "ReadLedger \<Rightarrow> u64 \<Rightarrow> nat \<Rightarrow> u64 \<Rightarrow> flResult \<times> ReadLedger \<times> u64 \<times> u64" where
  "addReader l next f out =
     (case scan (\<lambda>r. rd_token r = 0) (lg_readers l) of
        None \<Rightarrow> (FL_BUSY, l, next, out)
      | Some j \<Rightarrow>
          let (t, next') = ledger_token next
          in if t = 0 then (FL_INTERNAL, l, next', out)
             else (FL_OK, put_reader l j f t, next', t))"

definition ledger_empty :: "ReadLedger \<Rightarrow> bool" where
  "ledger_empty l \<longleftrightarrow> lg_count l = 0"

definition resetEpoch :: "ReadLedger \<Rightarrow> ReadLedger" where
  "resetEpoch l = (if ledger_empty l then l\<lparr>lg_generation := 0, lg_lastValue := 0\<rparr> else l)"

text \<open>The ring position of the \<open>i\<close>-th retained frame.\<close>
definition ring_pos :: "ReadLedger \<Rightarrow> nat \<Rightarrow> nat" where
  "ring_pos l i = (lg_head l + i) mod FL_MAX_POOL_SIZE"

definition ledger_acquire ::
  "ReadLedger \<Rightarrow> u64 \<Rightarrow> u64 \<Rightarrow> flFrame \<Rightarrow> u64 \<Rightarrow> flResult \<times> ReadLedger \<times> u64 \<times> u64" where
  "ledger_acquire l next generation frame out =
     (if generation = 0 \<or> fr_image frame = None \<or> fr_readyValue frame = 0 \<or>
        unat (fr_slot frame) \<ge> FL_MAX_POOL_SIZE then (FL_INVALID, l, next, out)
      else if lg_count l = FL_MAX_POOL_SIZE then (FL_BUSY, l, next, out)
      else if lg_generation l \<noteq> generation \<and> lg_count l \<noteq> 0 then (FL_BUSY, l, next, out)
      else if lg_generation l = generation \<and> fr_readyValue frame \<le> lg_lastValue l then (FL_INVALID, l, next, out)
      else if list_ex (\<lambda>i. fr_slot (lf_frame (lg_frames l ! ring_pos l i)) = fr_slot frame) [0..<lg_count l]
        then (FL_BUSY, l, next, out)
      else
        let f = ring_pos l (lg_count l);
            staged = l\<lparr>lg_frames := (lg_frames l)
              [f := \<lparr>lf_frame = frame, lf_generation = generation, lf_readers = 0\<rparr>]\<rparr>;
            (result, l', next', out') = addReader staged next f out
        in if result \<noteq> FL_OK
           then (result, l'\<lparr>lg_frames := (lg_frames l')[f := free_frame]\<rparr>, next', out')
           else (FL_OK, l'\<lparr>lg_generation := generation, lg_lastValue := fr_readyValue frame,
                   lg_count := lg_count l' + 1\<rparr>, next', out'))"

definition ledger_retain :: "ReadLedger \<Rightarrow> u64 \<Rightarrow> u64 \<Rightarrow> u64 \<Rightarrow> flResult \<times> ReadLedger \<times> u64 \<times> u64" where
  "ledger_retain l next source out =
     (case ledger_find l source False of
        None \<Rightarrow> (FL_INVALID, l, next, out)
      | Some j \<Rightarrow> addReader l next (rd_frame (lg_readers l ! j)) out)"

definition ledger_get :: "ReadLedger \<Rightarrow> u64 \<Rightarrow> flFrame \<Rightarrow> u64 \<Rightarrow> flResult \<times> flFrame \<times> u64" where
  "ledger_get l t out generation =
     (case ledger_find l t False of
        None \<Rightarrow> (FL_INVALID, out, generation)
      | Some j \<Rightarrow>
          let f = lg_frames l ! rd_frame (lg_readers l ! j)
          in (FL_OK, lf_frame f, lf_generation f))"

text \<open>\<^verbatim>\<open>--frames_[r->frame].readers; *r = {};\<close>, shared by the two completion paths.\<close>
definition drop_reader :: "ReadLedger \<Rightarrow> nat \<Rightarrow> ReadLedger" where
  "drop_reader l j =
     (let f = rd_frame (lg_readers l ! j)
      in l\<lparr>lg_frames := (lg_frames l)[f := (lg_frames l ! f)\<lparr>lf_readers := lf_readers (lg_frames l ! f) - 1\<rparr>],
           lg_readers := (lg_readers l)[j := free_reader]\<rparr>)"

definition ledger_complete :: "ReadLedger \<Rightarrow> u64 \<Rightarrow> flResult \<times> ReadLedger" where
  "ledger_complete l t =
     (case ledger_find l t False of None \<Rightarrow> (FL_INVALID, l) | Some j \<Rightarrow> (FL_OK, drop_reader l j))"

definition ledger_defer :: "ReadLedger \<Rightarrow> u64 \<Rightarrow> flResult \<times> ReadLedger" where
  "ledger_defer l t =
     (case ledger_find l t False of None \<Rightarrow> (FL_INVALID, l)
      | Some j \<Rightarrow> (FL_OK, l\<lparr>lg_readers := (lg_readers l)[j := (lg_readers l ! j)\<lparr>rd_pending := True\<rparr>]\<rparr>))"

definition finishDeferred :: "ReadLedger \<Rightarrow> u64 \<Rightarrow> flResult \<times> ReadLedger" where
  "finishDeferred l t =
     (case ledger_find l t True of None \<Rightarrow> (FL_INVALID, l) | Some j \<Rightarrow> (FL_OK, drop_reader l j))"

text \<open>The scan of \<^verbatim>\<open>retirement()\<close> over the retained frames, oldest first; the reader count breaks it.\<close>
fun retire_scan :: "LedgerFrame list \<Rightarrow> Retirement \<Rightarrow> Retirement" where
  "retire_scan [] result = result"
| "retire_scan (f # fs) result =
     (if lf_readers f \<noteq> 0 then result
      else retire_scan fs \<lparr>rt_generation = lf_generation f, rt_value = fr_readyValue (lf_frame f)\<rparr>)"

definition live_frames :: "ReadLedger \<Rightarrow> LedgerFrame list" where
  "live_frames l = map (\<lambda>i. lg_frames l ! ring_pos l i) [0..<lg_count l]"

definition retirement :: "ReadLedger \<Rightarrow> Retirement" where
  "retirement l = retire_scan (live_frames l) \<lparr>rt_generation = 0, rt_value = 0\<rparr>"

text \<open>\<^verbatim>\<open>f = {}; head_ = (head_ + 1) % frames_.size(); --count_;\<close>\<close>
definition pop_frame :: "ReadLedger \<Rightarrow> ReadLedger" where
  "pop_frame l = l\<lparr>lg_frames := (lg_frames l)[lg_head l := free_frame],
     lg_head := (lg_head l + 1) mod FL_MAX_POOL_SIZE, lg_count := lg_count l - 1\<rparr>"

function retire_loop :: "u64 \<Rightarrow> ReadLedger \<Rightarrow> ReadLedger" where
  "retire_loop value l =
     (if lg_count l = 0 then l
      else
        let f = lg_frames l ! lg_head l
        in if lf_readers f \<noteq> 0 \<or> fr_readyValue (lf_frame f) > value then l
           else retire_loop value (pop_frame l))"
  by pat_completeness auto
termination
  by (relation "measure (\<lambda>(v, l). lg_count l)") (auto simp: pop_frame_def)

declare retire_loop.simps [simp del]

definition ledger_retired :: "ReadLedger \<Rightarrow> Retirement \<Rightarrow> flResult \<times> ReadLedger" where
  "ledger_retired l value =
     (let ready = retirement l
      in if rt_value value = 0 \<or> rt_value value \<noteq> rt_value ready \<or> rt_generation value \<noteq> rt_generation ready
         then (FL_INVALID, l)
         else (FL_OK, retire_loop (rt_value value) l))"

section \<open>Invariant and abstraction\<close>

abbreviation live_reader :: "LedgerReader \<Rightarrow> bool" where "live_reader r \<equiv> rd_token r \<noteq> 0"

definition reader_count :: "LedgerReader list \<Rightarrow> nat \<Rightarrow> nat" where
  "reader_count rs k = length (filter (\<lambda>r. live_reader r \<and> rd_frame r = k) rs)"

definition live_positions :: "ReadLedger \<Rightarrow> nat list" where
  "live_positions l = map (ring_pos l) [0..<lg_count l]"

text \<open>
  Shape of the arrays: the reader counts agree with the token table, and the ring entries that
  hold no frame are cleared.
\<close>
definition ledger_shape :: "ReadLedger \<Rightarrow> bool" where
  "ledger_shape l \<longleftrightarrow> length (lg_frames l) = FL_MAX_POOL_SIZE \<and> length (lg_readers l) = MaxReaders \<and>
     lg_head l < FL_MAX_POOL_SIZE \<and> lg_count l \<le> FL_MAX_POOL_SIZE \<and>
     (\<forall>k \<in> set (live_positions l). lf_readers (lg_frames l ! k) = reader_count (lg_readers l) k) \<and>
     (\<forall>r \<in> set (lg_readers l). live_reader r \<longrightarrow> rd_frame r \<in> set (live_positions l)) \<and>
     (\<forall>k < FL_MAX_POOL_SIZE. k \<notin> set (live_positions l) \<longrightarrow> lg_frames l ! k = free_frame)"

text \<open>Tokens are distinct and were all drawn from the counter.\<close>
definition ledger_tokens :: "ReadLedger \<Rightarrow> u64 \<Rightarrow> bool" where
  "ledger_tokens l next \<longleftrightarrow> next \<noteq> 0 \<and>
     (\<forall>i < length (lg_readers l). \<forall>j < length (lg_readers l).
        live_reader (lg_readers l ! i) \<and> rd_token (lg_readers l ! i) = rd_token (lg_readers l ! j) \<longrightarrow> i = j) \<and>
     (\<forall>r \<in> set (lg_readers l). live_reader r \<longrightarrow> rd_token r < next)"

text \<open>
  One timeline: ready values increase along the queue and never exceed the last one taken, every
  retained frame is of the current generation, and no slot is retained twice.
\<close>
definition timeline_ok :: "(flFrame \<times> u64) list \<Rightarrow> u64 \<Rightarrow> u64 \<Rightarrow> bool" where
  "timeline_ok q generation lastValue \<longleftrightarrow>
     sorted_wrt (<) (map (\<lambda>(f, g). fr_readyValue f) q) \<and>
     (\<forall>(f, g) \<in> set q. fr_readyValue f \<noteq> 0 \<and> fr_readyValue f \<le> lastValue \<and> g = generation \<and> g \<noteq> 0) \<and>
     distinct (map (\<lambda>(f, g). fr_slot f) q)"

definition ledger_view :: "ReadLedger \<Rightarrow> (flFrame \<times> u64) list" where
  "ledger_view l = map (\<lambda>k. (lf_frame (lg_frames l ! k), lf_generation (lg_frames l ! k))) (live_positions l)"

definition ledger_timeline :: "ReadLedger \<Rightarrow> bool" where
  "ledger_timeline l \<longleftrightarrow> timeline_ok (ledger_view l) (lg_generation l) (lg_lastValue l)"

definition ledger_inv :: "ReadLedger \<Rightarrow> u64 \<Rightarrow> bool" where
  "ledger_inv l next \<longleftrightarrow> ledger_shape l \<and> ledger_tokens l next \<and> ledger_timeline l"

text \<open>
  The abstract ledger: the queue of retained frames, oldest first, each with its media generation
  and the set of its outstanding tokens.
\<close>
record retained =
  rn_frame :: flFrame
  rn_generation :: u64
  rn_tokens :: "u64 set"

definition tokens_of :: "LedgerReader list \<Rightarrow> nat \<Rightarrow> u64 set" where
  "tokens_of rs k = set (map rd_token (filter (\<lambda>r. live_reader r \<and> rd_frame r = k) rs))"

definition ledger_entry :: "ReadLedger \<Rightarrow> nat \<Rightarrow> retained" where
  "ledger_entry l k = \<lparr>rn_frame = lf_frame (lg_frames l ! k),
     rn_generation = lf_generation (lg_frames l ! k), rn_tokens = tokens_of (lg_readers l) k\<rparr>"

definition ledger_abs :: "ReadLedger \<Rightarrow> retained list" where
  "ledger_abs l = map (ledger_entry l) (live_positions l)"

text \<open>What each operation does to the abstract ledger.\<close>

definition spec_acquire :: "retained list \<Rightarrow> u64 \<Rightarrow> flFrame \<Rightarrow> u64 \<Rightarrow> retained list" where
  "spec_acquire q g f t = q @ [\<lparr>rn_frame = f, rn_generation = g, rn_tokens = {t}\<rparr>]"

definition spec_retain :: "retained list \<Rightarrow> u64 \<Rightarrow> u64 \<Rightarrow> retained list" where
  "spec_retain q source t =
     map (\<lambda>r. if source \<in> rn_tokens r then r\<lparr>rn_tokens := insert t (rn_tokens r)\<rparr> else r) q"

definition spec_complete :: "retained list \<Rightarrow> u64 \<Rightarrow> retained list" where
  "spec_complete q t = map (\<lambda>r. r\<lparr>rn_tokens := rn_tokens r - {t}\<rparr>) q"

definition spec_retire :: "retained list \<Rightarrow> retained list" where
  "spec_retire q = dropWhile (\<lambda>r. rn_tokens r = {}) q"

definition spec_retirement :: "retained list \<Rightarrow> Retirement" where
  "spec_retirement q =
     (let unread = takeWhile (\<lambda>r. rn_tokens r = {}) q
      in if unread = [] then \<lparr>rt_generation = 0, rt_value = 0\<rparr>
         else \<lparr>rt_generation = rn_generation (last unread), rt_value = fr_readyValue (rn_frame (last unread))\<rparr>)"

definition live_tokens :: "ReadLedger \<Rightarrow> u64 set" where
  "live_tokens l = rd_token ` {r \<in> set (lg_readers l). live_reader r}"

definition pending_tokens :: "ReadLedger \<Rightarrow> u64 set" where
  "pending_tokens l = rd_token ` {r \<in> set (lg_readers l). live_reader r \<and> rd_pending r}"

text \<open>The conditions under which acquisition goes on to draw a token.\<close>

definition acquire_admits :: "ReadLedger \<Rightarrow> u64 \<Rightarrow> flFrame \<Rightarrow> bool" where
  "acquire_admits l g f \<longleftrightarrow> g \<noteq> 0 \<and> fr_image f \<noteq> None \<and> fr_readyValue f \<noteq> 0 \<and>
     unat (fr_slot f) < FL_MAX_POOL_SIZE \<and> lg_count l \<noteq> FL_MAX_POOL_SIZE \<and>
     (lg_generation l = g \<or> lg_count l = 0) \<and> (lg_generation l = g \<longrightarrow> lg_lastValue l < fr_readyValue f) \<and>
     (\<forall>r \<in> set (ledger_abs l). fr_slot (rn_frame r) \<noteq> fr_slot f)"

definition stage_frame :: "ReadLedger \<Rightarrow> u64 \<Rightarrow> flFrame \<Rightarrow> ReadLedger" where
  "stage_frame l g f = l\<lparr>lg_frames := (lg_frames l)[ring_pos l (lg_count l) :=
     \<lparr>lf_frame = f, lf_generation = g, lf_readers = 0\<rparr>]\<rparr>"

text \<open>The ledger with one more frame that nobody reads yet: what acquisition stages and commits.\<close>
definition push_frame :: "ReadLedger \<Rightarrow> u64 \<Rightarrow> flFrame \<Rightarrow> ReadLedger" where
  "push_frame l g f = l\<lparr>lg_frames := (lg_frames l)[ring_pos l (lg_count l) :=
       \<lparr>lf_frame = f, lf_generation = g, lf_readers = 0\<rparr>],
     lg_generation := g, lg_lastValue := fr_readyValue f, lg_count := lg_count l + 1\<rparr>"

text \<open>
  Sequences of calls.  \<open>EvElsewhere\<close> is a token drawn by another ledger of the process,
  \<open>EvRetire\<close> is the peek-then-acknowledge pair.  \<open>ledger_exec\<close> runs one event on the model and
  \<open>spec_exec\<close> on the abstract ledger (where it is defined by the token counter alone).
\<close>

datatype ledger_event =
    EvAcquire u64 flFrame | EvRetain u64 | EvComplete u64 | EvDefer u64 | EvFinish u64
  | EvRetire | EvReset | EvElsewhere

definition ledger_exec :: "ledger_event \<Rightarrow> ReadLedger \<Rightarrow> u64 \<Rightarrow> flResult \<times> ReadLedger \<times> u64" where
  "ledger_exec ev l next = (case ev of
     EvAcquire g f \<Rightarrow> let (r, l', next', out) = ledger_acquire l next g f 0 in (r, l', next')
   | EvRetain t \<Rightarrow> let (r, l', next', out) = ledger_retain l next t 0 in (r, l', next')
   | EvComplete t \<Rightarrow> let (r, l') = ledger_complete l t in (r, l', next)
   | EvDefer t \<Rightarrow> let (r, l') = ledger_defer l t in (r, l', next)
   | EvFinish t \<Rightarrow> let (r, l') = finishDeferred l t in (r, l', next)
   | EvRetire \<Rightarrow> let (r, l') = ledger_retired l (retirement l) in (r, l', next)
   | EvReset \<Rightarrow> (FL_OK, resetEpoch l, next)
   | EvElsewhere \<Rightarrow> (FL_OK, l, snd (ledger_token next)))"

fun spec_exec :: "ledger_event \<Rightarrow> u64 \<Rightarrow> retained list \<Rightarrow> retained list" where
  "spec_exec (EvAcquire g f) t q = spec_acquire q g f t"
| "spec_exec (EvRetain s) t q = spec_retain q s t"
| "spec_exec (EvComplete s) t q = spec_complete q s"
| "spec_exec (EvFinish s) t q = spec_complete q s"
| "spec_exec EvRetire t q = spec_retire q"
| "spec_exec ev t q = q"

fun ledger_execs :: "ledger_event list \<Rightarrow> ReadLedger \<Rightarrow> u64 \<Rightarrow> ReadLedger \<times> u64" where
  "ledger_execs [] l next = (l, next)"
| "ledger_execs (ev # evs) l next = (let (r, l', next') = ledger_exec ev l next in ledger_execs evs l' next')"

text \<open>A small run: two frames are acquired, the older one is completed and retired.\<close>

definition example_frame :: "u32 \<Rightarrow> u64 \<Rightarrow> flFrame" where
  "example_frame slot value = \<lparr>fr_slot = slot, fr_image = Some 7, fr_ptsNs = 0, fr_sequence = 0, fr_readyValue = value\<rparr>"

definition example_first :: ReadLedger where
  "example_first = fst (ledger_execs [EvAcquire 1 (example_frame 0 10)] ledger_init 1)"

definition example_held :: ReadLedger where
  "example_held = fst (ledger_execs [EvAcquire 1 (example_frame 1 20)] example_first 2)"

definition example_done :: ReadLedger where
  "example_done = fst (ledger_execs [EvComplete 1] example_held 3)"

definition example_drained :: ReadLedger where
  "example_drained = fst (ledger_execs [EvComplete 2] example_done 3)"

definition example_retired :: ReadLedger where
  "example_retired = fst (ledger_execs [EvRetire] example_done 3)"

text \<open>
  A run of the ledger with the values published so far on the current media generation: each
  acknowledged retirement is published, and a change of generation starts a new timeline.
\<close>

inductive ledger_run :: "ReadLedger \<Rightarrow> u64 \<Rightarrow> u64 list \<Rightarrow> bool" where
  run_start: "next \<noteq> 0 \<Longrightarrow> ledger_run ledger_init next []"
| run_step: "ledger_run l next pub \<Longrightarrow> ledger_exec ev l next = (r, l', next') \<Longrightarrow>
    ledger_run l' next'
      (if lg_generation l' \<noteq> lg_generation l then []
       else if ev = EvRetire \<and> r = FL_OK then rt_value (retirement l) # pub else pub)"

section \<open>Lemmas on tables\<close>

lemma reader_count_update:
  "j < length rs \<Longrightarrow>
   reader_count (rs[j := r]) k + of_bool (live_reader (rs ! j) \<and> rd_frame (rs ! j) = k) =
   reader_count rs k + of_bool (live_reader r \<and> rd_frame r = k)"
  unfolding reader_count_def by (rule length_filter_update)

lemma tokens_of_nth:
  "tokens_of rs k = {rd_token (rs ! i) |i. i < length rs \<and> live_reader (rs ! i) \<and> rd_frame (rs ! i) = k}"
  by (auto simp: tokens_of_def in_set_conv_nth)

lemma reader_count_zero: "reader_count rs k = 0 \<longleftrightarrow> tokens_of rs k = {}"
  by (auto simp: reader_count_def tokens_of_def filter_empty_conv)

section \<open>Ring positions\<close>

lemma ring_pos_less [simp]: "ring_pos l i < FL_MAX_POOL_SIZE"
  by (simp add: ring_pos_def)

lemma ring_pos_inj:
  assumes "i < FL_MAX_POOL_SIZE" "j < FL_MAX_POOL_SIZE" "ring_pos l i = ring_pos l j"
  shows "i = j"
proof -
  have le: "i = j" if "i \<le> j" "j < 16" "(h + i) mod 16 = (h + j) mod 16" for h i j :: nat
  proof -
    from that have "16 dvd (h + j) - (h + i)" by (metis add_le_cancel_left mod_eq_dvd_iff_nat)
    then have "16 dvd j - i" by simp
    moreover have "j - i < 16" using that(2) by simp
    ultimately have "j - i = 0" using nat_dvd_not_less by blast
    with that(1) show ?thesis by simp
  qed
  show ?thesis
    using assms le [of i j "lg_head l"] le [of j i "lg_head l"]
    by (cases "i \<le> j") (auto simp: ring_pos_def)
qed

lemma distinct_live_positions: "lg_count l \<le> FL_MAX_POOL_SIZE \<Longrightarrow> distinct (live_positions l)"
  by (auto simp: live_positions_def distinct_map inj_on_def intro: ring_pos_inj)

lemma live_frames_positions: "live_frames l = map ((!) (lg_frames l)) (live_positions l)"
  by (simp add: live_frames_def live_positions_def)

lemma next_pos_free:
  "lg_count l < FL_MAX_POOL_SIZE \<Longrightarrow> ring_pos l (lg_count l) \<notin> set (live_positions l)"
proof
  assume c: "lg_count l < FL_MAX_POOL_SIZE" and "ring_pos l (lg_count l) \<in> set (live_positions l)"
  then obtain i where "i < lg_count l" "ring_pos l (lg_count l) = ring_pos l i"
    by (auto simp: live_positions_def)
  with c ring_pos_inj [of "lg_count l" i l] show False by simp
qed

lemma live_positions_bound: "k \<in> set (live_positions l) \<Longrightarrow> k < FL_MAX_POOL_SIZE"
  by (auto simp: live_positions_def)

lemma live_positions_cong:
  "lg_head l' = lg_head l \<Longrightarrow> lg_count l' = lg_count l \<Longrightarrow> live_positions l' = live_positions l"
  by (simp add: live_positions_def ring_pos_def)

lemma length_ledger_abs [simp]: "length (ledger_abs l) = lg_count l"
  by (simp add: ledger_abs_def live_positions_def)

section \<open>The counter\<close>

lemma ledger_token_ok:
  assumes "next \<noteq> 0" "ledger_token next = (t, next')" "t \<noteq> 0"
  shows "t = next \<and> next' = next + 1 \<and> t < next' \<and> next' \<noteq> 0"
proof -
  from assms have nm: "next \<noteq> UINT64_MAX" and t: "t = next" "next' = next + 1"
    by (auto simp: ledger_token_def split: if_splits)
  with t unat_Suc64 [OF nm] show ?thesis by (auto simp: word_less_nat_alt)
qed

lemma ledger_token_fail: "ledger_token next = (0, next') \<Longrightarrow> next \<noteq> 0 \<Longrightarrow> next' = next"
  by (auto simp: ledger_token_def split: if_splits)

text \<open>Another ledger may draw tokens in between: the invariant survives a growing counter.\<close>

lemma ledger_inv_counter_mono: "ledger_inv l next \<Longrightarrow> next \<le> next' \<Longrightarrow> ledger_inv l next'"
  by (auto simp: ledger_inv_def ledger_tokens_def elim: less_le_trans)

section \<open>Adding a reader\<close>

lemma tokens_of_put:
  assumes "j < length rs" "rd_token (rs ! j) = 0" "t \<noteq> 0"
  shows "tokens_of (rs[j := \<lparr>rd_token = t, rd_frame = f, rd_pending = b\<rparr>]) k =
    (if k = f then insert t (tokens_of rs k) else tokens_of rs k)"
proof (intro set_eqI iffI)
  fix x assume "x \<in> tokens_of (rs[j := \<lparr>rd_token = t, rd_frame = f, rd_pending = b\<rparr>]) k"
  then show "x \<in> (if k = f then insert t (tokens_of rs k) else tokens_of rs k)"
    using assms by (auto simp: tokens_of_nth nth_list_update split: if_splits)
next
  fix x assume x: "x \<in> (if k = f then insert t (tokens_of rs k) else tokens_of rs k)"
  show "x \<in> tokens_of (rs[j := \<lparr>rd_token = t, rd_frame = f, rd_pending = b\<rparr>]) k"
  proof (cases "x = t \<and> k = f")
    case True
    then show ?thesis using assms by (auto simp: tokens_of_nth intro!: exI [of _ j])
  next
    case False
    with x obtain i where "i < length rs" "live_reader (rs ! i)" "rd_frame (rs ! i) = k" "x = rd_token (rs ! i)"
      by (auto simp: tokens_of_nth split: if_splits)
    with assms show ?thesis by (auto simp: tokens_of_nth nth_list_update intro!: exI [of _ i])
  qed
qed

lemma reader_count_put:
  assumes "j < length rs" "rd_token (rs ! j) = 0" "t \<noteq> 0"
  shows "reader_count (rs[j := \<lparr>rd_token = t, rd_frame = f, rd_pending = b\<rparr>]) k =
    reader_count rs k + of_bool (k = f)"
  using reader_count_update [OF assms(1), of "\<lparr>rd_token = t, rd_frame = f, rd_pending = b\<rparr>" k] assms(2,3)
  by auto

lemma put_reader_positions [simp]: "live_positions (put_reader l j f t) = live_positions l"
  by (rule live_positions_cong) (simp_all add: put_reader_def)

lemma put_reader_shape:
  assumes "ledger_shape l" "f \<in> set (live_positions l)" "j < length (lg_readers l)"
    "rd_token (lg_readers l ! j) = 0" "t \<noteq> 0"
  shows "ledger_shape (put_reader l j f t)"
proof -
  have f: "f < length (lg_frames l)" using assms(1,2) live_positions_bound by (simp add: ledger_shape_def)
  have counts: "lf_readers (lg_frames (put_reader l j f t) ! k) = reader_count (lg_readers (put_reader l j f t)) k"
    if "k \<in> set (live_positions l)" for k
    using that assms f by (simp add: put_reader_def reader_count_put nth_list_update ledger_shape_def)
  have refs: "rd_frame r \<in> set (live_positions l)"
    if "r \<in> set (lg_readers (put_reader l j f t))" "live_reader r" for r
    using that assms(1,2) by (auto simp: put_reader_def ledger_shape_def dest!: in_set_updateD)
  have idle: "lg_frames (put_reader l j f t) ! k = free_frame"
    if "k < FL_MAX_POOL_SIZE" "k \<notin> set (live_positions l)" for k
    using that assms(1,2) by (cases "k = f") (auto simp: put_reader_def ledger_shape_def)
  show ?thesis
    using assms(1) counts refs idle unfolding ledger_shape_def put_reader_positions
    by (simp add: put_reader_def)
qed

lemma put_reader_tokens:
  assumes "ledger_tokens l next" "j < length (lg_readers l)" "next < next'"
  shows "ledger_tokens (put_reader l j f next) next'"
proof -
  let ?rs = "lg_readers l"
  have n: "next \<noteq> 0" and lt: "\<And>r. r \<in> set ?rs \<Longrightarrow> live_reader r \<Longrightarrow> rd_token r < next"
    and inj: "\<And>i k. i < length ?rs \<Longrightarrow> k < length ?rs \<Longrightarrow> live_reader (?rs ! i) \<Longrightarrow>
        rd_token (?rs ! i) = rd_token (?rs ! k) \<Longrightarrow> i = k"
    using assms(1) by (auto simp: ledger_tokens_def)
  have fresh: "rd_token (?rs ! i) \<noteq> next" if "i < length ?rs" for i
    using lt [of "?rs ! i"] that n by force
  have "i = k" if "i < length ?rs" "k < length ?rs"
      "live_reader (lg_readers (put_reader l j f next) ! i)"
      "rd_token (lg_readers (put_reader l j f next) ! i) = rd_token (lg_readers (put_reader l j f next) ! k)" for i k
  proof (cases "i = j \<or> k = j")
    case True
    with that fresh [of i] fresh [of k] assms(2) show ?thesis
      by (cases "i = j"; cases "k = j") (simp_all add: put_reader_def)
  next
    case False
    with that inj [of i k] show ?thesis by (simp add: put_reader_def)
  qed
  moreover have "rd_token r < next'" if "r \<in> set (lg_readers (put_reader l j f next))" "live_reader r" for r
  proof (cases "r \<in> set ?rs")
    case True
    show ?thesis using lt [OF True that(2)] assms(3) by (rule less_trans)
  next
    case False
    with that assms(3) show ?thesis by (auto simp: put_reader_def dest!: in_set_updateD)
  qed
  moreover have "next' \<noteq> 0" using assms(3) by auto
  moreover have "length (lg_readers (put_reader l j f next)) = length ?rs" by (simp add: put_reader_def)
  ultimately show ?thesis unfolding ledger_tokens_def by (metis (no_types, lifting))
qed

lemma put_reader_view: "ledger_view (put_reader l j f t) = ledger_view l"
  unfolding ledger_view_def put_reader_positions
  by (cases "f < length (lg_frames l)") (auto simp: put_reader_def nth_list_update list_update_beyond)

section \<open>Dropping a reader\<close>

lemma ledger_shapeI:
  assumes "length (lg_frames l) = FL_MAX_POOL_SIZE" "length (lg_readers l) = MaxReaders"
    "lg_head l < FL_MAX_POOL_SIZE" "lg_count l \<le> FL_MAX_POOL_SIZE"
    "\<And>k. k \<in> set (live_positions l) \<Longrightarrow> lf_readers (lg_frames l ! k) = reader_count (lg_readers l) k"
    "\<And>r. r \<in> set (lg_readers l) \<Longrightarrow> live_reader r \<Longrightarrow> rd_frame r \<in> set (live_positions l)"
    "\<And>k. k < FL_MAX_POOL_SIZE \<Longrightarrow> k \<notin> set (live_positions l) \<Longrightarrow> lg_frames l ! k = free_frame"
  shows "ledger_shape l"
  unfolding ledger_shape_def using assms by blast

lemma ledger_shape_sizes:
  "ledger_shape l \<Longrightarrow> length (lg_frames l) = FL_MAX_POOL_SIZE"
  "ledger_shape l \<Longrightarrow> length (lg_readers l) = MaxReaders"
  "ledger_shape l \<Longrightarrow> lg_head l < FL_MAX_POOL_SIZE"
  "ledger_shape l \<Longrightarrow> lg_count l \<le> FL_MAX_POOL_SIZE"
  by (simp_all add: ledger_shape_def)

lemma drop_reader_fields [simp]:
  "length (lg_frames (drop_reader l j)) = length (lg_frames l)"
  "lg_head (drop_reader l j) = lg_head l" "lg_count (drop_reader l j) = lg_count l"
  "lg_generation (drop_reader l j) = lg_generation l" "lg_lastValue (drop_reader l j) = lg_lastValue l"
  by (simp_all add: drop_reader_def Let_def)

lemma drop_reader_positions [simp]: "live_positions (drop_reader l j) = live_positions l"
  by (rule live_positions_cong) (simp_all add: drop_reader_def Let_def)

lemma drop_reader_readers [simp]: "lg_readers (drop_reader l j) = (lg_readers l)[j := free_reader]"
  by (simp add: drop_reader_def Let_def)

lemma drop_reader_shape:
  assumes "ledger_shape l" "j < length (lg_readers l)" "live_reader (lg_readers l ! j)"
  shows "ledger_shape (drop_reader l j)"
proof -
  let ?f = "rd_frame (lg_readers l ! j)"
  have f: "?f \<in> set (live_positions l)" using assms by (simp add: ledger_shape_def)
  then have fl: "?f < length (lg_frames l)" using assms(1) live_positions_bound by (simp add: ledger_shape_def)
  have counts: "lf_readers (lg_frames (drop_reader l j) ! k) = reader_count (lg_readers (drop_reader l j)) k"
    if "k \<in> set (live_positions l)" for k
    using that assms fl reader_count_update [OF assms(2), of free_reader k]
    by (cases "k = ?f") (auto simp: drop_reader_def Let_def free_reader_def ledger_shape_def)
  have refs: "rd_frame r \<in> set (live_positions l)"
    if "r \<in> set (lg_readers (drop_reader l j))" "live_reader r" for r
    using that assms(1) by (auto simp: free_reader_def ledger_shape_def dest!: in_set_updateD)
  have idle: "lg_frames (drop_reader l j) ! k = free_frame"
    if "k < FL_MAX_POOL_SIZE" "k \<notin> set (live_positions l)" for k
    using that assms(1) f by (cases "k = ?f") (auto simp: drop_reader_def Let_def ledger_shape_def)
  show ?thesis
    by (rule ledger_shapeI) (use counts refs idle ledger_shape_sizes [OF assms(1)] in auto)
qed

lemma drop_reader_tokens: "ledger_tokens l next \<Longrightarrow> ledger_tokens (drop_reader l j) next"
proof -
  let ?rs = "lg_readers l"
  assume inv: "ledger_tokens l next"
  have "i = k" if "i < length ?rs" "k < length ?rs" "live_reader (?rs[j := free_reader] ! i)"
      "rd_token (?rs[j := free_reader] ! i) = rd_token (?rs[j := free_reader] ! k)" for i k
    using that inv by (cases "i = j"; cases "k = j") (auto simp: free_reader_def ledger_tokens_def)
  moreover have "rd_token r < next" if "r \<in> set (?rs[j := free_reader])" "live_reader r" for r
    using that inv by (auto simp: free_reader_def ledger_tokens_def dest!: in_set_updateD)
  ultimately show ?thesis
    using inv unfolding ledger_tokens_def drop_reader_readers length_list_update by (metis (no_types, lifting))
qed

lemma drop_reader_view: "ledger_view (drop_reader l j) = ledger_view l"
  unfolding ledger_view_def drop_reader_positions
  by (cases "rd_frame (lg_readers l ! j) < length (lg_frames l)")
    (auto simp: drop_reader_def Let_def nth_list_update list_update_beyond)

lemma tokens_of_drop:
  assumes "ledger_tokens l next" "j < length (lg_readers l)" "live_reader (lg_readers l ! j)"
  shows "tokens_of ((lg_readers l)[j := free_reader]) k = tokens_of (lg_readers l) k - {rd_token (lg_readers l ! j)}"
proof -
  have "rd_token (lg_readers l ! i) \<noteq> rd_token (lg_readers l ! j)"
    if "i < length (lg_readers l)" "i \<noteq> j" for i
    using assms that by (auto simp: ledger_tokens_def)
  then have "(\<exists>i. x = rd_token ((lg_readers l)[j := free_reader] ! i) \<and> i < length (lg_readers l) \<and>
      live_reader ((lg_readers l)[j := free_reader] ! i) \<and> rd_frame ((lg_readers l)[j := free_reader] ! i) = k) \<longleftrightarrow>
    (\<exists>i. x = rd_token (lg_readers l ! i) \<and> i < length (lg_readers l) \<and> live_reader (lg_readers l ! i) \<and>
      rd_frame (lg_readers l ! i) = k) \<and> x \<noteq> rd_token (lg_readers l ! j)" for x
    using assms(2,3) by (metis (no_types, lifting) LedgerReader.select_convs(1) free_reader_def nth_list_update_eq nth_list_update_neq)
  then show ?thesis by (auto simp: tokens_of_nth)
qed

section \<open>Pushing a frame without readers\<close>

lemma push_frame_fields [simp]:
  "lg_readers (push_frame l g f) = lg_readers l" "length (lg_frames (push_frame l g f)) = length (lg_frames l)"
  "lg_head (push_frame l g f) = lg_head l" "lg_count (push_frame l g f) = lg_count l + 1"
  "lg_generation (push_frame l g f) = g" "lg_lastValue (push_frame l g f) = fr_readyValue f"
  by (simp_all add: push_frame_def)

lemma push_frame_positions: "live_positions (push_frame l g f) = live_positions l @ [ring_pos l (lg_count l)]"
  by (simp add: push_frame_def live_positions_def ring_pos_def)

lemma push_frame_nth:
  assumes "ledger_shape l" "lg_count l < FL_MAX_POOL_SIZE"
  shows "k \<in> set (live_positions l) \<Longrightarrow> lg_frames (push_frame l g f) ! k = lg_frames l ! k"
    "lg_frames (push_frame l g f) ! ring_pos l (lg_count l) = \<lparr>lf_frame = f, lf_generation = g, lf_readers = 0\<rparr>"
  using assms next_pos_free [OF assms(2)] by (auto simp: push_frame_def ledger_shape_def nth_list_update)

lemma no_reader_outside:
  assumes "ledger_shape l" "k \<notin> set (live_positions l)"
  shows "reader_count (lg_readers l) k = 0" "tokens_of (lg_readers l) k = {}"
  using assms by (auto simp: ledger_shape_def reader_count_def tokens_of_def filter_empty_conv)

lemma push_frame_shape:
  assumes "ledger_shape l" "lg_count l < FL_MAX_POOL_SIZE"
  shows "ledger_shape (push_frame l g f)"
proof -
  have counts: "lf_readers (lg_frames (push_frame l g f) ! k) = reader_count (lg_readers (push_frame l g f)) k"
    if "k \<in> set (live_positions l @ [ring_pos l (lg_count l)])" for k
    using that push_frame_nth [OF assms] no_reader_outside(1) [OF assms(1) next_pos_free [OF assms(2)]] assms(1)
    by (auto simp: ledger_shape_def)
  have idle: "lg_frames (push_frame l g f) ! k = free_frame"
    if "k < FL_MAX_POOL_SIZE" "k \<notin> set (live_positions l @ [ring_pos l (lg_count l)])" for k
    using that assms(1) by (auto simp: push_frame_def ledger_shape_def)
  show ?thesis
    by (rule ledger_shapeI) (use counts idle ledger_shape_sizes [OF assms(1)] assms in
      \<open>auto simp: push_frame_positions ledger_shape_def\<close>)
qed

lemma push_frame_view:
  assumes "ledger_shape l" "lg_count l < FL_MAX_POOL_SIZE"
  shows "ledger_view (push_frame l g f) = ledger_view l @ [(f, g)]"
  using push_frame_nth [OF assms] by (simp add: ledger_view_def push_frame_positions)

lemma timeline_snoc:
  assumes "timeline_ok q g' lv" "g' = g \<or> q = []" "g' = g \<Longrightarrow> lv < fr_readyValue f" "g \<noteq> 0"
    "fr_readyValue f \<noteq> 0" "fr_slot f \<notin> fr_slot ` fst ` set q"
  shows "timeline_ok (q @ [(f, g)]) g (fr_readyValue f)"
proof (cases "q = []")
  case True
  then show ?thesis using assms by (simp add: timeline_ok_def)
next
  case False
  then have g: "g' = g" "lv < fr_readyValue f" using assms(2,3) by auto
  have "fr_readyValue a < fr_readyValue f" if "(a, b) \<in> set q" for a b
    using assms(1) that g(2) by (auto simp: timeline_ok_def intro: le_less_trans)
  then have "sorted_wrt (<) (map (\<lambda>(f, g). fr_readyValue f) (q @ [(f, g)]))"
    and "\<forall>(a, b) \<in> set (q @ [(f, g)]). fr_readyValue a \<noteq> 0 \<and> fr_readyValue a \<le> fr_readyValue f \<and> b = g \<and> b \<noteq> 0"
    using assms(1,4,5) g(1) by (auto simp: timeline_ok_def sorted_wrt_append intro: less_imp_le)
  moreover have "distinct (map (\<lambda>(f, g). fr_slot f) (q @ [(f, g)]))"
    using assms(1,6) by (auto simp: timeline_ok_def image_iff split: prod.splits)
  ultimately show ?thesis by (simp only: timeline_ok_def)
qed

lemma push_frame_abs:
  assumes "ledger_shape l" "lg_count l < FL_MAX_POOL_SIZE"
  shows "ledger_abs (push_frame l g f) = ledger_abs l @ [\<lparr>rn_frame = f, rn_generation = g, rn_tokens = {}\<rparr>]"
  using push_frame_nth [OF assms] no_reader_outside(2) [OF assms(1) next_pos_free [OF assms(2)]]
  by (simp add: ledger_abs_def ledger_entry_def push_frame_positions)

section \<open>Popping a frame without readers\<close>

lemma pop_frame_fields [simp]:
  "lg_readers (pop_frame l) = lg_readers l" "length (lg_frames (pop_frame l)) = length (lg_frames l)"
  "lg_head (pop_frame l) = (lg_head l + 1) mod FL_MAX_POOL_SIZE" "lg_count (pop_frame l) = lg_count l - 1"
  "lg_generation (pop_frame l) = lg_generation l" "lg_lastValue (pop_frame l) = lg_lastValue l"
  by (simp_all add: pop_frame_def)

lemma ring_pos_pop: "ring_pos (pop_frame l) i = ring_pos l (Suc i)"
  by (simp add: ring_pos_def pop_frame_def mod_simps)

lemma pop_frame_positions:
  assumes "lg_count l \<noteq> 0" "lg_head l < FL_MAX_POOL_SIZE"
  shows "live_positions l = lg_head l # live_positions (pop_frame l)"
proof -
  obtain n where n: "lg_count l = Suc n" using assms by (cases "lg_count l") auto
  have "live_positions l = ring_pos l 0 # map (\<lambda>i. ring_pos l (Suc i)) [0..<n]"
    unfolding live_positions_def n by (simp add: upt_rec [of 0] map_Suc_upt [symmetric] del: map_Suc_upt upt_Suc)
  also have "\<dots> = lg_head l # live_positions (pop_frame l)"
    using assms n unfolding live_positions_def ring_pos_pop by (simp add: pop_frame_def ring_pos_def)
  finally show ?thesis .
qed

lemma pop_frame_nth:
  assumes "ledger_shape l" "lg_count l \<noteq> 0" "k \<in> set (live_positions (pop_frame l))"
  shows "lg_frames (pop_frame l) ! k = lg_frames l ! k"
proof -
  have "distinct (lg_head l # live_positions (pop_frame l))"
    using assms distinct_live_positions [of l] pop_frame_positions [of l] by (simp add: ledger_shape_def)
  with assms(3) have "k \<noteq> lg_head l" by auto
  then show ?thesis by (simp add: pop_frame_def)
qed

lemma pop_frame_shape:
  assumes "ledger_shape l" "lg_count l \<noteq> 0" "lf_readers (lg_frames l ! lg_head l) = 0"
  shows "ledger_shape (pop_frame l)"
proof -
  have pos: "live_positions l = lg_head l # live_positions (pop_frame l)"
    using assms by (intro pop_frame_positions) (auto simp: ledger_shape_def)
  have none: "reader_count (lg_readers l) (lg_head l) = 0"
    using assms(1,3) pos by (simp add: ledger_shape_def)
  have counts: "lf_readers (lg_frames (pop_frame l) ! k) = reader_count (lg_readers l) k"
    if "k \<in> set (live_positions (pop_frame l))" for k
    using that assms(1) pop_frame_nth [OF assms(1,2) that] pos by (simp add: ledger_shape_def)
  have refs: "rd_frame r \<in> set (live_positions (pop_frame l))"
    if "r \<in> set (lg_readers l)" "live_reader r" for r
    using that assms(1) none pos by (auto simp: ledger_shape_def reader_count_def filter_empty_conv)
  have idle: "lg_frames (pop_frame l) ! k = free_frame"
    if "k < FL_MAX_POOL_SIZE" "k \<notin> set (live_positions (pop_frame l))" for k
    using that assms(1) pos by (cases "k = lg_head l") (auto simp: pop_frame_def ledger_shape_def)
  show ?thesis
    by (rule ledger_shapeI) (use counts refs idle ledger_shape_sizes [OF assms(1)] in auto)
qed

lemma pop_frame_view:
  assumes "ledger_shape l" "lg_count l \<noteq> 0"
  shows "ledger_view l =
    (lf_frame (lg_frames l ! lg_head l), lf_generation (lg_frames l ! lg_head l)) # ledger_view (pop_frame l)"
  using assms pop_frame_nth [OF assms] pop_frame_positions [of l] by (simp add: ledger_view_def ledger_shape_def)

lemma pop_frame_abs:
  assumes "ledger_shape l" "lg_count l \<noteq> 0"
  shows "ledger_abs l = \<lparr>rn_frame = lf_frame (lg_frames l ! lg_head l),
      rn_generation = lf_generation (lg_frames l ! lg_head l),
      rn_tokens = tokens_of (lg_readers l) (lg_head l)\<rparr> # ledger_abs (pop_frame l)"
  using assms pop_frame_nth [OF assms] pop_frame_positions [of l] by (simp add: ledger_abs_def ledger_entry_def ledger_shape_def)

lemma timeline_tl: "timeline_ok (x # q) g lv \<Longrightarrow> timeline_ok q g lv"
  by (auto simp: timeline_ok_def)

lemma pop_frame_inv:
  assumes "ledger_inv l next" "lg_count l \<noteq> 0" "lf_readers (lg_frames l ! lg_head l) = 0"
  shows "ledger_inv (pop_frame l) next"
  using assms pop_frame_shape [of l] pop_frame_view [of l]
  by (auto simp: ledger_inv_def ledger_timeline_def ledger_tokens_def dest: timeline_tl)

lemma retire_loop_pop:
  "retire_loop v l = (if lg_count l = 0 \<or> lf_readers (lg_frames l ! lg_head l) \<noteq> 0 \<or>
     fr_readyValue (lf_frame (lg_frames l ! lg_head l)) > v then l else retire_loop v (pop_frame l))"
  by (subst retire_loop.simps) (simp add: Let_def)

lemma head_unread:
  assumes "ledger_shape l" "lg_count l \<noteq> 0"
  shows "tokens_of (lg_readers l) (lg_head l) = {} \<longleftrightarrow> lf_readers (lg_frames l ! lg_head l) = 0"
  using assms pop_frame_positions [of l] by (simp add: ledger_shape_def flip: reader_count_zero)

lemma retire_loop_spec:
  "ledger_inv l next \<Longrightarrow> ledger_inv (retire_loop v l) next \<and>
   ledger_abs (retire_loop v l) = dropWhile (\<lambda>r. rn_tokens r = {} \<and> fr_readyValue (rn_frame r) \<le> v) (ledger_abs l)"
proof (induction "lg_count l" arbitrary: l)
  case 0
  then have "ledger_abs l = []" using length_ledger_abs [of l] by (metis length_0_conv)
  then show ?case using 0 by (subst (1 2) retire_loop_pop) simp
next
  case (Suc n)
  let ?h = "lg_frames l ! lg_head l"
  have c: "lg_count l \<noteq> 0" and sh: "ledger_shape l" using Suc by (auto simp: ledger_inv_def)
  note abs = pop_frame_abs [OF sh c] and unread = head_unread [OF sh c]
  show ?case
  proof (cases "lf_readers ?h = 0 \<and> fr_readyValue (lf_frame ?h) \<le> v")
    case True
    have "ledger_inv (pop_frame l) next" using Suc.prems c True by (intro pop_frame_inv) auto
    moreover have "n = lg_count (pop_frame l)" using Suc.hyps(2) by (simp add: pop_frame_def)
    moreover have "retire_loop v l = retire_loop v (pop_frame l)"
      using True c by (subst retire_loop_pop) (auto dest: leD)
    ultimately show ?thesis using Suc.hyps(1) [of "pop_frame l"] True abs unread by simp
  next
    case False
    then have "retire_loop v l = l" by (subst retire_loop_pop) auto
    with False Suc.prems abs unread show ?thesis by auto
  qed
qed

section \<open>The operations implement the abstract ledger\<close>

lemma ledger_inv_init: "next \<noteq> 0 \<Longrightarrow> ledger_inv ledger_init next" "ledger_abs ledger_init = []"
  by (simp_all add: ledger_inv_def ledger_shape_def ledger_tokens_def ledger_timeline_def timeline_ok_def
      ledger_view_def ledger_abs_def live_positions_def ledger_init_def free_reader_def)

lemma put_reader_fields [simp]:
  "lg_readers (put_reader l j f t) = (lg_readers l)[j := \<lparr>rd_token = t, rd_frame = f, rd_pending = False\<rparr>]"
  "lg_head (put_reader l j f t) = lg_head l" "lg_count (put_reader l j f t) = lg_count l"
  "lg_generation (put_reader l j f t) = lg_generation l" "lg_lastValue (put_reader l j f t) = lg_lastValue l"
  by (simp_all add: put_reader_def)

lemma put_reader_inv:
  assumes "ledger_inv l next" "f \<in> set (live_positions l)" "j < length (lg_readers l)"
    "rd_token (lg_readers l ! j) = 0" "next \<noteq> UINT64_MAX"
  shows "ledger_inv (put_reader l j f next) (next + 1)"
proof -
  have "next \<noteq> 0" using assms(1) by (simp add: ledger_inv_def ledger_tokens_def)
  moreover have "next < next + 1" using unat_Suc64 [OF assms(5)] by (simp add: word_less_nat_alt)
  ultimately show ?thesis
    using assms put_reader_shape put_reader_tokens put_reader_view
    by (simp add: ledger_inv_def ledger_timeline_def)
qed

lemma ledger_tokens_cong: "lg_readers l' = lg_readers l \<Longrightarrow> ledger_tokens l' next = ledger_tokens l next"
  by (simp only: ledger_tokens_def)

lemma put_reader_abs:
  assumes "j < length (lg_readers l)" "rd_token (lg_readers l ! j) = 0" "t \<noteq> 0"
  shows "ledger_abs (put_reader l j f t) =
    map (\<lambda>k. if k = f then (ledger_entry l k)\<lparr>rn_tokens := insert t (tokens_of (lg_readers l) k)\<rparr> else ledger_entry l k)
      (live_positions l)"
proof -
  have frames: "lf_frame (lg_frames (put_reader l j f t) ! k) = lf_frame (lg_frames l ! k)"
    "lf_generation (lg_frames (put_reader l j f t) ! k) = lf_generation (lg_frames l ! k)" for k
    by (cases "f < length (lg_frames l)"; simp add: put_reader_def nth_list_update list_update_beyond)+
  show ?thesis
    unfolding ledger_abs_def put_reader_positions
    by (rule map_cong) (simp_all add: ledger_entry_def frames tokens_of_put [OF assms])
qed

lemma drop_reader_inv:
  assumes "ledger_inv l next" "j < length (lg_readers l)" "live_reader (lg_readers l ! j)"
  shows "ledger_inv (drop_reader l j) next"
  using assms drop_reader_shape drop_reader_tokens drop_reader_view
  by (simp add: ledger_inv_def ledger_timeline_def)

lemma drop_reader_abs:
  assumes "ledger_inv l next" "j < length (lg_readers l)" "live_reader (lg_readers l ! j)"
  shows "ledger_abs (drop_reader l j) = spec_complete (ledger_abs l) (rd_token (lg_readers l ! j))"
proof -
  have frames: "lf_frame (lg_frames (drop_reader l j) ! k) = lf_frame (lg_frames l ! k)"
    "lf_generation (lg_frames (drop_reader l j) ! k) = lf_generation (lg_frames l ! k)" for k
    by (cases "rd_frame (lg_readers l ! j) < length (lg_frames l)";
        simp add: drop_reader_def Let_def nth_list_update list_update_beyond)+
  have "ledger_tokens l next" using assms(1) by (simp add: ledger_inv_def)
  from tokens_of_drop [OF this assms(2,3)] show ?thesis
    unfolding ledger_abs_def spec_complete_def drop_reader_positions
    by (simp add: ledger_entry_def frames)
qed

lemma ledger_find_SomeD:
  "ledger_find l t p = Some j \<Longrightarrow> j < length (lg_readers l) \<and> live_reader (lg_readers l ! j) \<and>
     rd_token (lg_readers l ! j) = t \<and> rd_pending (lg_readers l ! j) = p \<and> t \<noteq> 0"
  by (auto simp: ledger_find_def dest: scan_SomeD split: if_splits)

lemma ledger_find_None:
  assumes "ledger_tokens l next"
  shows "ledger_find l t False = None \<longleftrightarrow> t \<notin> live_tokens l - pending_tokens l"
    "ledger_find l t True = None \<longleftrightarrow> t \<notin> pending_tokens l"
proof -
  have inj: "r = s" if "r \<in> set (lg_readers l)" "s \<in> set (lg_readers l)" "live_reader r" "rd_token r = rd_token s" for r s
    using that assms unfolding ledger_tokens_def in_set_conv_nth by metis
  show "ledger_find l t False = None \<longleftrightarrow> t \<notin> live_tokens l - pending_tokens l"
    by (auto simp: ledger_find_def scan_None_iff live_tokens_def pending_tokens_def dest: inj)
  show "ledger_find l t True = None \<longleftrightarrow> t \<notin> pending_tokens l"
    by (auto simp: ledger_find_def scan_None_iff pending_tokens_def)
qed

lemma live_tokens_abs:
  "ledger_shape l \<Longrightarrow> live_tokens l = (\<Union>r \<in> set (ledger_abs l). rn_tokens r)"
  by (fastforce simp: live_tokens_def ledger_abs_def ledger_entry_def tokens_of_def ledger_shape_def)

lemma addReader_cases:
  assumes "next \<noteq> 0"
  obtains (ok) j where "addReader l next f out = (FL_OK, put_reader l j f next, next + 1, next)"
      "j < length (lg_readers l)" "rd_token (lg_readers l ! j) = 0" "next \<noteq> UINT64_MAX"
    | (busy) "addReader l next f out = (FL_BUSY, l, next, out)" "\<forall>r \<in> set (lg_readers l). live_reader r"
    | (exhausted) "addReader l next f out = (FL_INTERNAL, l, next, out)" "next = UINT64_MAX"
proof (cases "scan (\<lambda>r. rd_token r = 0) (lg_readers l)")
  case None
  then have "addReader l next f out = (FL_BUSY, l, next, out)" by (simp add: addReader_def)
  with None show ?thesis using busy by (simp add: scan_None_iff)
next
  case (Some j)
  then show ?thesis
    using ok [of j] exhausted assms scan_SomeD [OF Some]
    by (cases "next = UINT64_MAX") (simp_all add: addReader_def ledger_token_def)
qed

lemma same_frame_iff:
  assumes "ledger_inv l next" "j < length (lg_readers l)" "live_reader (lg_readers l ! j)"
  shows "rd_token (lg_readers l ! j) \<in> tokens_of (lg_readers l) k \<longleftrightarrow> k = rd_frame (lg_readers l ! j)"
  using assms by (auto simp: tokens_of_nth ledger_inv_def ledger_tokens_def)

lemma retain_refines:
  assumes "ledger_inv l next" "ledger_find l source False = Some j"
    "ledger_retain l next source out = (FL_OK, l', next', out')"
  shows "ledger_inv l' next' \<and> ledger_abs l' = spec_retain (ledger_abs l) source out' \<and> out' = next \<and> next' = next + 1"
proof -
  note f = ledger_find_SomeD [OF assms(2)]
  let ?f = "rd_frame (lg_readers l ! j)"
  have n0: "next \<noteq> 0" and live: "?f \<in> set (live_positions l)"
    using assms(1) f by (auto simp: ledger_inv_def ledger_tokens_def ledger_shape_def)
  from assms(2,3) have add: "addReader l next ?f out = (FL_OK, l', next', out')"
    by (simp add: ledger_retain_def)
  from n0 show ?thesis
  proof (cases rule: addReader_cases [where l = l and f = ?f and out = out])
    case (ok i)
    have "source \<in> tokens_of (lg_readers l) k \<longleftrightarrow> k = ?f" for k
      using same_frame_iff [OF assms(1), of j k] f by simp
    then have "ledger_abs l' = spec_retain (ledger_abs l) source next"
      using ok(1) add put_reader_abs [OF ok(2,3) n0, of ?f]
      by (simp add: spec_retain_def ledger_abs_def ledger_entry_def)
    moreover have "ledger_inv l' (next + 1)"
      using ok add put_reader_inv [OF assms(1) live ok(2,3,4)] by simp
    ultimately show ?thesis using ok add by simp
  qed (use add in simp_all)
qed

lemma retain_fails:
  assumes "ledger_inv l next" "ledger_retain l next source out = (r, l', next', out')" "r \<noteq> FL_OK"
  shows "l' = l \<and> next' = next \<and> out' = out"
proof -
  have n0: "next \<noteq> 0" using assms(1) by (simp add: ledger_inv_def ledger_tokens_def)
  show ?thesis
  proof (cases "ledger_find l source False")
    case (Some j)
    from n0 show ?thesis
      by (cases rule: addReader_cases [where l = l and f = "rd_frame (lg_readers l ! j)" and out = out])
        (use assms(2,3) Some in \<open>auto simp: ledger_retain_def\<close>)
  qed (use assms in \<open>auto simp: ledger_retain_def\<close>)
qed

lemma push_frame_inv:
  assumes "ledger_inv l next" "lg_count l < FL_MAX_POOL_SIZE" "g \<noteq> 0" "fr_readyValue f \<noteq> 0"
    "lg_generation l = g \<or> lg_count l = 0" "lg_generation l = g \<Longrightarrow> lg_lastValue l < fr_readyValue f"
    "\<forall>r \<in> set (ledger_abs l). fr_slot (rn_frame r) \<noteq> fr_slot f"
  shows "ledger_inv (push_frame l g f) next"
proof -
  have sh: "ledger_shape l" using assms(1) by (simp add: ledger_inv_def)
  have "timeline_ok (ledger_view l @ [(f, g)]) g (fr_readyValue f)"
  proof (rule timeline_snoc)
    show "timeline_ok (ledger_view l) (lg_generation l) (lg_lastValue l)"
      using assms(1) by (simp add: ledger_inv_def ledger_timeline_def)
    show "lg_generation l = g \<or> ledger_view l = []"
      using assms(5) by (auto simp: ledger_view_def live_positions_def)
    show "fr_slot f \<notin> fr_slot ` fst ` set (ledger_view l)"
      using assms(7) by (auto simp: ledger_view_def ledger_abs_def ledger_entry_def)
  qed (rule assms(6,3,4); assumption?)+
  then show ?thesis
    using assms(1,2) push_frame_shape [OF sh assms(2)] push_frame_view [OF sh assms(2)]
    by (simp add: ledger_inv_def ledger_timeline_def ledger_tokens_cong [of "push_frame l g f" l "next"])
qed

lemma slot_scan:
  "list_ex (\<lambda>i. fr_slot (lf_frame (lg_frames l ! ring_pos l i)) = s) [0..<lg_count l] \<longleftrightarrow>
   (\<exists>r \<in> set (ledger_abs l). fr_slot (rn_frame r) = s)"
  by (auto simp: list_ex_iff ledger_abs_def ledger_entry_def live_positions_def)

lemma acquire_admitted:
  assumes "acquire_admits l g f"
  shows "ledger_acquire l next g f out =
    (let (result, l', next', out') = addReader (stage_frame l g f) next (ring_pos l (lg_count l)) out
     in if result \<noteq> FL_OK
        then (result, l'\<lparr>lg_frames := (lg_frames l')[ring_pos l (lg_count l) := free_frame]\<rparr>, next', out')
        else (FL_OK, l'\<lparr>lg_generation := g, lg_lastValue := fr_readyValue f, lg_count := lg_count l' + 1\<rparr>, next', out'))"
proof -
  have "\<not> fr_readyValue f \<le> lg_lastValue l" if "lg_generation l = g"
    using assms that by (auto simp: acquire_admits_def)
  with assms show ?thesis
    unfolding ledger_acquire_def slot_scan by (auto simp: acquire_admits_def stage_frame_def Let_def not_le)
qed

lemma acquire_rejected:
  "\<not> acquire_admits l g f \<Longrightarrow> fst (ledger_acquire l next g f out) \<in> {FL_INVALID, FL_BUSY} \<and>
   snd (ledger_acquire l next g f out) = (l, next, out)"
  unfolding ledger_acquire_def slot_scan by (auto simp: acquire_admits_def not_le)

lemma stage_then_put:
  "(put_reader (stage_frame l g f) j k t)\<lparr>lg_generation := g, lg_lastValue := fr_readyValue f, lg_count := lg_count l + 1\<rparr> =
   put_reader (push_frame l g f) j k t"
  by (simp add: put_reader_def stage_frame_def push_frame_def)

lemma unstage:
  assumes "ledger_shape l" "lg_count l < FL_MAX_POOL_SIZE"
  shows "(stage_frame l g f)\<lparr>lg_frames := (lg_frames (stage_frame l g f))[ring_pos l (lg_count l) := free_frame]\<rparr> = l"
proof -
  have "lg_frames l ! ring_pos l (lg_count l) = free_frame"
    using assms next_pos_free [OF assms(2)] by (simp add: ledger_shape_def)
  then have "(lg_frames l)[ring_pos l (lg_count l) := free_frame] = lg_frames l"
    by (metis list_update_id)
  then show ?thesis by (simp add: stage_frame_def)
qed

lemma acquire_cases:
  assumes "ledger_inv l next"
  obtains (ok) l' where "ledger_acquire l next g f out = (FL_OK, l', next + 1, next)" "acquire_admits l g f"
      "ledger_inv l' (next + 1)" "ledger_abs l' = spec_acquire (ledger_abs l) g f next" "next \<noteq> UINT64_MAX"
    | (failed) r where "ledger_acquire l next g f out = (r, l, next, out)" "r \<in> {FL_INVALID, FL_BUSY, FL_INTERNAL}"
      "acquire_admits l g f \<Longrightarrow> next = UINT64_MAX \<or> (\<forall>r \<in> set (lg_readers l). live_reader r)"
proof (cases "acquire_admits l g f")
  case False
  then show ?thesis using failed acquire_rejected [OF False, of "next" out]
    by (cases "ledger_acquire l next g f out") auto
next
  case True
  have sh: "ledger_shape l" and n0: "next \<noteq> 0"
    using assms by (auto simp: ledger_inv_def ledger_tokens_def)
  have c: "lg_count l < FL_MAX_POOL_SIZE"
    using True ledger_shape_sizes(4) [OF sh] by (simp add: acquire_admits_def)
  let ?p = "ring_pos l (lg_count l)" and ?s = "stage_frame l g f" and ?P = "push_frame l g f"
  note eq = acquire_admitted [OF True, of "next" out]
  from n0 show ?thesis
  proof (cases rule: addReader_cases [where l = ?s and f = ?p and out = out])
    case (ok j)
    have P: "ledger_inv ?P next"
      using assms c True by (intro push_frame_inv) (auto simp: acquire_admits_def)
    have j: "j < length (lg_readers ?P)" "rd_token (lg_readers ?P ! j) = 0"
      using ok(2,3) by (simp_all add: stage_frame_def)
    have "ledger_inv (put_reader ?P j ?p next) (next + 1)"
      by (rule put_reader_inv [OF P _ j ok(4)]) (simp add: push_frame_positions)
    moreover have "ledger_abs (put_reader ?P j ?p next) = spec_acquire (ledger_abs l) g f next"
      using put_reader_abs [OF j n0, of ?p] push_frame_abs [OF sh c, where g = g and f = f] next_pos_free [OF c]
        no_reader_outside(2) [OF sh next_pos_free [OF c]]
      by (auto simp: spec_acquire_def ledger_abs_def push_frame_positions ledger_entry_def intro!: map_cong)
    moreover have "ledger_acquire l next g f out = (FL_OK, put_reader ?P j ?p next, next + 1, next)"
      using ok(1) stage_then_put [where l = l and g = g and f = f and j = j and k = ?p and t = "next"] by (simp add: eq stage_frame_def)
    ultimately show ?thesis using that(1) [of "put_reader ?P j ?p next"] True ok(4) by blast
  next
    case busy
    then have "ledger_acquire l next g f out = (FL_BUSY, l, next, out)"
      using unstage [OF sh c] by (simp add: eq)
    with busy(2) show ?thesis using failed by (simp add: stage_frame_def)
  next
    case exhausted
    then have "ledger_acquire l next g f out = (FL_INTERNAL, l, next, out)"
      using unstage [OF sh c] by (simp add: acquire_admitted [OF True])
    with exhausted(2) show ?thesis using failed by simp
  qed
qed

section \<open>Retirement\<close>

lemma retire_scan_last:
  "retire_scan fs result =
    (let done = takeWhile (\<lambda>f. lf_readers f = 0) fs
     in if done = [] then result
        else \<lparr>rt_generation = lf_generation (last done), rt_value = fr_readyValue (lf_frame (last done))\<rparr>)"
  by (induction fs arbitrary: result) (auto simp: Let_def)

lemma retirement_spec:
  assumes "ledger_shape l"
  shows "retirement l = spec_retirement (ledger_abs l)"
proof -
  have "tokens_of (lg_readers l) k = {} \<longleftrightarrow> lf_readers (lg_frames l ! k) = 0" if "k \<in> set (live_positions l)" for k
    using assms that by (simp add: ledger_shape_def flip: reader_count_zero)
  then have "takeWhile (\<lambda>k. tokens_of (lg_readers l) k = {}) (live_positions l) =
      takeWhile (\<lambda>k. lf_readers (lg_frames l ! k) = 0) (live_positions l)"
    by (rule takeWhile_cong [OF refl])
  then show ?thesis
    by (simp add: retirement_def live_frames_positions retire_scan_last spec_retirement_def Let_def
        ledger_abs_def takeWhile_map comp_def ledger_entry_def last_map)
qed

lemma abs_view: "map (\<lambda>r. (rn_frame r, rn_generation r)) (ledger_abs l) = ledger_view l"
  by (simp add: ledger_abs_def ledger_view_def ledger_entry_def)

lemma abs_sorted:
  assumes "ledger_inv l next"
  shows "sorted_wrt (\<lambda>r s. fr_readyValue (rn_frame r) < fr_readyValue (rn_frame s)) (ledger_abs l)"
  using assms unfolding ledger_inv_def ledger_timeline_def timeline_ok_def abs_view [symmetric]
  by (simp add: sorted_wrt_map comp_def)

lemma abs_values:
  assumes "ledger_inv l next" "r \<in> set (ledger_abs l)"
  shows "fr_readyValue (rn_frame r) \<noteq> 0" "fr_readyValue (rn_frame r) \<le> lg_lastValue l"
    "rn_generation r = lg_generation l" "rn_generation r \<noteq> 0"
  using assms unfolding ledger_inv_def ledger_timeline_def timeline_ok_def abs_view [symmetric] by auto

lemma last_takeWhile_max:
  assumes "sorted_wrt (\<lambda>r s. (f r :: 'a::order) < f s) q" "x \<in> set (takeWhile P q)"
  shows "f x \<le> f (last (takeWhile P q))"
proof -
  have "sorted_wrt (\<lambda>r s. f r < f s) (takeWhile P q)"
    using assms(1) by (metis sorted_wrt_append takeWhile_dropWhile_id)
  with assms(2) show ?thesis
  proof (induction "takeWhile P q" arbitrary: x rule: rev_induct)
    case (snoc y ys)
    then show ?case by (metis (no_types, lifting) less_imp_le order_refl last_snoc sorted_wrt_append
      Un_iff set_append set_ConsD empty_iff empty_set list.set_intros(1))
  qed simp
qed

lemma dropWhile_same_prefix:
  assumes "\<forall>x \<in> set (takeWhile P q). Q x"
  shows "dropWhile (\<lambda>x. P x \<and> Q x) q = dropWhile P q"
  using assms by (induction q) auto

lemma retired_ok:
  assumes "ledger_inv l next" "rt_value (retirement l) \<noteq> 0"
  shows "\<exists>l'. ledger_retired l (retirement l) = (FL_OK, l') \<and> ledger_inv l' next \<and>
    ledger_abs l' = spec_retire (ledger_abs l)"
proof -
  let ?v = "rt_value (retirement l)" and ?q = "ledger_abs l" and ?P = "\<lambda>r. rn_tokens r = {}"
  have ret: "retirement l = spec_retirement ?q"
    using assms(1) by (simp add: retirement_spec ledger_inv_def)
  have "fr_readyValue (rn_frame r) \<le> ?v" if r: "r \<in> set (takeWhile ?P ?q)" for r
  proof -
    have "takeWhile ?P ?q \<noteq> []" using r by auto
    then have "?v = fr_readyValue (rn_frame (last (takeWhile ?P ?q)))"
      by (simp add: ret spec_retirement_def Let_def)
    with last_takeWhile_max [OF abs_sorted [OF assms(1)] r] show ?thesis by simp
  qed
  then have "dropWhile (\<lambda>r. ?P r \<and> fr_readyValue (rn_frame r) \<le> ?v) ?q = spec_retire ?q"
    unfolding spec_retire_def by (intro dropWhile_same_prefix) blast
  then show ?thesis
    using retire_loop_spec [OF assms(1), of ?v] assms(2) by (simp add: ledger_retired_def Let_def)
qed

lemma retired_stale:
  assumes "v \<noteq> retirement l \<or> rt_value v = 0"
  shows "ledger_retired l v = (FL_INVALID, l)"
  using assms by (cases v; cases "retirement l") (auto simp: ledger_retired_def Let_def)

section \<open>The ledger as an interface\<close>

text \<open>
  What the channel relies on: retained frames carry increasing ready values, the peeked retirement
  is the one of the longest prefix nobody reads, and acknowledging it removes that prefix.
\<close>

locale reader_ledger =
  fixes inv :: "'l \<Rightarrow> u64 \<Rightarrow> bool"
    and view :: "'l \<Rightarrow> retained list"
    and peek :: "'l \<Rightarrow> Retirement"
    and ack :: "'l \<Rightarrow> Retirement \<Rightarrow> flResult \<times> 'l"
  assumes values_sorted:
      "inv l n \<Longrightarrow> sorted_wrt (\<lambda>r s. fr_readyValue (rn_frame r) < fr_readyValue (rn_frame s)) (view l)"
    and values_nonzero: "inv l n \<Longrightarrow> r \<in> set (view l) \<Longrightarrow> fr_readyValue (rn_frame r) \<noteq> 0"
    and peek_spec: "inv l n \<Longrightarrow> peek l = spec_retirement (view l)"
    and ack_ok: "inv l n \<Longrightarrow> rt_value (peek l) \<noteq> 0 \<Longrightarrow>
      \<exists>l'. ack l (peek l) = (FL_OK, l') \<and> inv l' n \<and> view l' = spec_retire (view l)"
    and ack_stale: "v \<noteq> peek l \<or> rt_value v = 0 \<Longrightarrow> ack l v = (FL_INVALID, l)"
begin

lemma peek_zero_iff:
  assumes "inv l n"
  shows "rt_value (peek l) = 0 \<longleftrightarrow> view l = [] \<or> rn_tokens (hd (view l)) \<noteq> {}"
proof (cases "view l")
  case Nil
  then show ?thesis by (simp add: peek_spec [OF assms] spec_retirement_def)
next
  case (Cons r q)
  have "last (takeWhile (\<lambda>r. rn_tokens r = {}) (view l)) \<in> set (view l)" if "rn_tokens r = {}"
    using that Cons last_in_set [of "takeWhile (\<lambda>r. rn_tokens r = {}) (view l)"]
    by (metis (mono_tags, lifting) list.discI set_takeWhileD takeWhile.simps(2))
  then show ?thesis
    using Cons values_nonzero [OF assms] by (auto simp: peek_spec [OF assms] spec_retirement_def Let_def)
qed

lemma peek_below_remaining:
  assumes "inv l n" "r \<in> set (spec_retire (view l))"
  shows "rt_value (peek l) < fr_readyValue (rn_frame r)"
proof (cases "takeWhile (\<lambda>r. rn_tokens r = {}) (view l) = []")
  case True
  have "r \<in> set (view l)" using assms(2) by (auto simp: spec_retire_def dest: set_dropWhileD)
  then have "fr_readyValue (rn_frame r) \<noteq> 0" by (rule values_nonzero [OF assms(1)])
  then show ?thesis using True by (simp add: peek_spec [OF assms(1)] spec_retirement_def word_neq_0_conv)
next
  case False
  let ?t = "takeWhile (\<lambda>r. rn_tokens r = {}) (view l)"
  have "sorted_wrt (\<lambda>r s. fr_readyValue (rn_frame r) < fr_readyValue (rn_frame s)) (?t @ spec_retire (view l))"
    using values_sorted [OF assms(1)] by (simp add: spec_retire_def)
  then have "fr_readyValue (rn_frame (last ?t)) < fr_readyValue (rn_frame r)"
    using False assms(2) by (simp add: sorted_wrt_append)
  then show ?thesis using False by (simp add: peek_spec [OF assms(1)] spec_retirement_def Let_def)
qed

lemma unread_remaining: "r \<in> set (view l) \<Longrightarrow> rn_tokens r \<noteq> {} \<Longrightarrow> r \<in> set (spec_retire (view l))"
  unfolding spec_retire_def by (metis (mono_tags, lifting) Un_iff set_append set_takeWhileD takeWhile_dropWhile_id)

lemma peek_below_readers:
  assumes "inv l n" "r \<in> set (view l)" "rn_tokens r \<noteq> {}"
  shows "rt_value (peek l) < fr_readyValue (rn_frame r)"
  using peek_below_remaining [OF assms(1) unread_remaining [OF assms(2,3)]] .

lemma ack_drained:
  assumes "inv l n" "view l \<noteq> []" "\<forall>r \<in> set (view l). rn_tokens r = {}"
  shows "\<exists>l'. ack l (peek l) = (FL_OK, l') \<and> view l' = [] \<and>
    rt_value (peek l) = fr_readyValue (rn_frame (last (view l)))"
proof -
  have all: "takeWhile (\<lambda>r. rn_tokens r = {}) (view l) = view l" using assms(3) by (simp add: takeWhile_eq_all_conv)
  have "rt_value (peek l) = fr_readyValue (rn_frame (last (view l)))"
    using assms(2) unfolding peek_spec [OF assms(1)] spec_retirement_def all Let_def by simp
  moreover have "rt_value (peek l) \<noteq> 0" using assms peek_zero_iff [OF assms(1)] by simp
  ultimately show ?thesis using ack_ok [OF assms(1)] assms(3) by (auto simp: spec_retire_def)
qed

end

interpretation ledger: reader_ledger ledger_inv ledger_abs retirement ledger_retired
proof
  show "retirement l = spec_retirement (ledger_abs l)" if "ledger_inv l n" for l n
    using that by (simp add: retirement_spec ledger_inv_def)
qed (rule abs_sorted abs_values(1) retired_ok retired_stale; assumption)+

section \<open>Events\<close>

lemma complete_cases:
  assumes "ledger_inv l next"
  shows "ledger_complete l t = (r, l') \<Longrightarrow> ledger_inv l' next \<and>
      (if t \<in> live_tokens l - pending_tokens l then r = FL_OK \<and> ledger_abs l' = spec_complete (ledger_abs l) t
       else r = FL_INVALID \<and> l' = l)"
    "finishDeferred l t = (r, l') \<Longrightarrow> ledger_inv l' next \<and>
      (if t \<in> pending_tokens l then r = FL_OK \<and> ledger_abs l' = spec_complete (ledger_abs l) t
       else r = FL_INVALID \<and> l' = l)"
proof -
  have tok: "ledger_tokens l next" using assms by (simp add: ledger_inv_def)
  show "ledger_inv l' next \<and> (if t \<in> live_tokens l - pending_tokens l
      then r = FL_OK \<and> ledger_abs l' = spec_complete (ledger_abs l) t else r = FL_INVALID \<and> l' = l)"
    if "ledger_complete l t = (r, l')"
    using that assms ledger_find_None(1) [OF tok, of t]
    by (auto simp: ledger_complete_def drop_reader_inv drop_reader_abs split: option.splits dest!: ledger_find_SomeD)
  show "ledger_inv l' next \<and> (if t \<in> pending_tokens l
      then r = FL_OK \<and> ledger_abs l' = spec_complete (ledger_abs l) t else r = FL_INVALID \<and> l' = l)"
    if "finishDeferred l t = (r, l')"
    using that assms ledger_find_None(2) [OF tok, of t]
    by (auto simp: finishDeferred_def drop_reader_inv drop_reader_abs split: option.splits dest!: ledger_find_SomeD)
qed

lemma defer_view:
  assumes "ledger_inv l next" "j < length (lg_readers l)"
  defines "d \<equiv> l\<lparr>lg_readers := (lg_readers l)[j := (lg_readers l ! j)\<lparr>rd_pending := True\<rparr>]\<rparr>"
  shows "ledger_inv d next" "ledger_abs d = ledger_abs l"
proof -
  have nth: "rd_token (lg_readers d ! i) = rd_token (lg_readers l ! i)"
    "rd_frame (lg_readers d ! i) = rd_frame (lg_readers l ! i)" if "i < length (lg_readers l)" for i
    using that assms(2) by (cases "i = j"; simp add: d_def)+
  have len: "length (lg_readers d) = length (lg_readers l)" by (simp add: d_def)
  have pos: "live_positions d = live_positions l" by (rule live_positions_cong) (simp_all add: d_def)
  have frames: "lg_frames d = lg_frames l" by (simp add: d_def)
  have tk: "tokens_of (lg_readers d) k = tokens_of (lg_readers l) k" for k
  proof -
    have "(x = rd_token (lg_readers d ! i) \<and> i < length (lg_readers l) \<and> live_reader (lg_readers d ! i) \<and>
        rd_frame (lg_readers d ! i) = k) \<longleftrightarrow> (x = rd_token (lg_readers l ! i) \<and> i < length (lg_readers l) \<and>
        live_reader (lg_readers l ! i) \<and> rd_frame (lg_readers l ! i) = k)" for x i
      by (cases "i < length (lg_readers l)") (simp_all add: nth)
    then show ?thesis unfolding tokens_of_nth len by (rule Collect_cong [OF ex_cong1])
  qed
  have rc: "reader_count (lg_readers d) k = reader_count (lg_readers l) k" for k
    using reader_count_update [OF assms(2), of "(lg_readers l ! j)\<lparr>rd_pending := True\<rparr>" k] by (simp add: d_def)
  have all: "(\<forall>r \<in> set (lg_readers d). live_reader r \<longrightarrow> P (rd_token r) (rd_frame r)) \<longleftrightarrow>
      (\<forall>r \<in> set (lg_readers l). live_reader r \<longrightarrow> P (rd_token r) (rd_frame r))" for P
    unfolding all_set_conv_all_nth len using nth by simp
  have "ledger_shape d"
    using assms(1) all [of "\<lambda>t f. f \<in> set (live_positions l)"]
    unfolding ledger_inv_def ledger_shape_def pos frames rc len by (auto simp: d_def)
  moreover have "ledger_tokens d next"
    using assms(1) all [of "\<lambda>t f. t < next"] nth(1)
    unfolding ledger_inv_def ledger_tokens_def len by (metis (no_types, lifting))
  moreover have "ledger_view d = ledger_view l" by (simp add: ledger_view_def pos frames)
  ultimately show "ledger_inv d next"
    using assms(1) by (simp add: ledger_inv_def ledger_timeline_def) (simp add: d_def)
  show "ledger_abs d = ledger_abs l" by (simp add: ledger_abs_def pos ledger_entry_def frames tk)
qed

lemma resetEpoch_view:
  assumes "ledger_inv l next"
  shows "ledger_inv (resetEpoch l) next" "ledger_abs (resetEpoch l) = ledger_abs l"
proof -
  let ?d = "l\<lparr>lg_generation := 0, lg_lastValue := 0\<rparr>"
  have pos: "live_positions ?d = live_positions l" by (rule live_positions_cong) simp_all
  have "ledger_shape ?d = ledger_shape l" "ledger_tokens ?d next = ledger_tokens l next"
    by (simp_all add: ledger_shape_def ledger_tokens_def pos)
  moreover have "ledger_timeline ?d" if "lg_count l = 0"
    using that by (simp add: ledger_timeline_def ledger_view_def live_positions_def timeline_ok_def)
  ultimately show "ledger_inv (resetEpoch l) next"
    using assms by (auto simp: resetEpoch_def ledger_empty_def ledger_inv_def)
  show "ledger_abs (resetEpoch l) = ledger_abs l"
    by (simp add: resetEpoch_def ledger_abs_def pos ledger_entry_def)
qed

lemma exec_refines:
  assumes "ledger_inv l next" "ledger_exec ev l next = (r, l', next')"
  shows "ledger_inv l' next' \<and> next \<le> next' \<and>
    (if r = FL_OK then ledger_abs l' = spec_exec ev next (ledger_abs l) else l' = l \<and> next' = next)"
proof -
  have n0: "next \<noteq> 0" using assms(1) by (simp add: ledger_inv_def ledger_tokens_def)
  have up: "next \<le> next + 1" if "next \<noteq> UINT64_MAX"
    using unat_Suc64 [OF that] by (simp add: word_le_nat_alt)
  show ?thesis
  proof (cases ev)
    case (EvAcquire g f)
    from assms(1) show ?thesis
      by (cases rule: acquire_cases [where g = g and f = f and out = 0])
        (use assms EvAcquire up in \<open>auto simp: ledger_exec_def\<close>)
  next
    case (EvRetain s)
    obtain out' where e: "ledger_retain l next s 0 = (r, l', next', out')"
      using assms(2) EvRetain by (auto simp: ledger_exec_def split: prod.splits)
    show ?thesis
    proof (cases "r = FL_OK")
      case True
      with e obtain j where "ledger_find l s False = Some j"
        by (auto simp: ledger_retain_def split: option.splits)
      from retain_refines [OF assms(1) this e [unfolded True]] True EvRetain
      show ?thesis using n0 ledger_inv_def ledger_tokens_def up by (cases "next = UINT64_MAX") auto
    next
      case False
      with retain_fails [OF assms(1) e] assms(1) show ?thesis by simp
    qed
  next
    case (EvComplete t)
    then show ?thesis
      using assms complete_cases(1) [OF assms(1), of t r l'] by (auto simp: ledger_exec_def split: prod.splits if_splits)
  next
    case (EvFinish t)
    then show ?thesis
      using assms complete_cases(2) [OF assms(1), of t r l'] by (auto simp: ledger_exec_def split: prod.splits if_splits)
  next
    case (EvDefer t)
    then show ?thesis
      using assms defer_view [OF assms(1)]
      by (auto simp: ledger_exec_def ledger_defer_def split: option.splits dest!: ledger_find_SomeD)
  next
    case EvRetire
    then show ?thesis
      using assms ledger.ack_ok [OF assms(1)] ledger.ack_stale [of "retirement l" l]
      by (cases "rt_value (retirement l) = 0") (auto simp: ledger_exec_def)
  next
    case EvReset
    then show ?thesis using assms resetEpoch_view [OF assms(1)] by (simp add: ledger_exec_def)
  next
    case EvElsewhere
    then show ?thesis
      using assms up ledger_inv_counter_mono [OF assms(1)]
      by (auto simp: ledger_exec_def ledger_token_def split: if_splits)
  qed
qed

lemma acquire_counters:
  "ledger_acquire l next g f out = (FL_OK, l', next', out') \<Longrightarrow>
   lg_generation l' = g \<and> lg_lastValue l' = fr_readyValue f \<and> (lg_generation l = g \<longrightarrow> lg_lastValue l < fr_readyValue f)"
  by (auto simp: ledger_acquire_def Let_def not_le split: if_splits prod.splits)

lemma addReader_counters:
  "addReader l next f out = (r, l', next', out') \<Longrightarrow> lg_generation l' = lg_generation l \<and> lg_lastValue l' = lg_lastValue l"
  by (auto simp: addReader_def Let_def split: option.splits if_splits prod.splits)

lemma retire_loop_counters:
  "lg_generation (retire_loop v l) = lg_generation l \<and> lg_lastValue (retire_loop v l) = lg_lastValue l"
proof (induction v l rule: retire_loop.induct)
  case (1 v l)
  then show ?case by (subst (1 2) retire_loop_pop) auto
qed

lemma exec_counters:
  assumes "ledger_exec ev l next = (r, l', next')" "\<forall>g f. ev \<noteq> EvAcquire g f" "ev \<noteq> EvReset"
  shows "lg_generation l' = lg_generation l \<and> lg_lastValue l' = lg_lastValue l"
  using assms
  by (cases ev) (auto simp: ledger_exec_def ledger_retain_def ledger_complete_def ledger_defer_def finishDeferred_def
      ledger_retired_def retire_loop_counters Let_def split: prod.splits option.splits if_splits
      dest: addReader_counters)

lemma spec_exec_tokens:
  "(\<Union>r \<in> set (spec_exec ev next q). rn_tokens r) \<subseteq> insert next (\<Union>r \<in> set q. rn_tokens r)"
  by (cases ev) (auto simp: spec_acquire_def spec_retain_def spec_complete_def spec_retire_def
      split: if_splits dest: set_dropWhileD)

lemma exec_keeps_dead:
  assumes "ledger_inv l next" "ledger_exec ev l next = (r, l', next')" "t < next" "t \<notin> live_tokens l"
  shows "t < next' \<and> t \<notin> live_tokens l'"
proof -
  note ref = exec_refines [OF assms(1,2)]
  have "live_tokens l' \<subseteq> insert next (live_tokens l)"
    using ref assms(1) spec_exec_tokens [of ev "next" "ledger_abs l"] live_tokens_abs [of l] live_tokens_abs [of l']
    by (cases "r = FL_OK") (auto simp: ledger_inv_def)
  with assms(3,4) ref show ?thesis by auto
qed

lemma execs_keep_dead:
  "ledger_inv l next \<Longrightarrow> ledger_execs evs l next = (l', next') \<Longrightarrow> t < next \<Longrightarrow> t \<notin> live_tokens l \<Longrightarrow>
   ledger_inv l' next' \<and> t < next' \<and> t \<notin> live_tokens l'"
proof (induction evs arbitrary: l "next")
  case (Cons ev evs)
  obtain r l1 n1 where e: "ledger_exec ev l next = (r, l1, n1)" by (cases "ledger_exec ev l next") auto
  have "ledger_inv l1 n1" using exec_refines [OF Cons.prems(1) e] by simp
  moreover have "ledger_execs evs l1 n1 = (l', next')" using Cons.prems(2) e by simp
  moreover have "t < n1" "t \<notin> live_tokens l1" using exec_keeps_dead [OF Cons.prems(1) e Cons.prems(3,4)] by auto
  ultimately show ?case by (rule Cons.IH)
qed simp

lemma live_token_below: "ledger_inv l next \<Longrightarrow> t \<in> live_tokens l \<Longrightarrow> t < next"
  by (auto simp: ledger_inv_def ledger_tokens_def live_tokens_def)

lemma complete_kills:
  assumes "ledger_inv l next" "ledger_complete l t = (FL_OK, l')"
  shows "ledger_inv l' next \<and> t < next \<and> t \<notin> live_tokens l'"
proof -
  have c: "ledger_inv l' next" "t \<in> live_tokens l" "ledger_abs l' = spec_complete (ledger_abs l) t"
    using complete_cases(1) [OF assms] by (auto split: if_splits)
  then show ?thesis
    using live_tokens_abs [of l'] live_token_below [OF assms(1)] by (auto simp: ledger_inv_def spec_complete_def)
qed

lemma dead_token_rejected:
  assumes "ledger_inv l next" "t \<notin> live_tokens l"
  shows "ledger_complete l t = (FL_INVALID, l)" "ledger_defer l t = (FL_INVALID, l)"
    "finishDeferred l t = (FL_INVALID, l)" "ledger_retain l n t out = (FL_INVALID, l, n, out)"
    "ledger_get l t f g = (FL_INVALID, f, g)"
proof -
  have "pending_tokens l \<subseteq> live_tokens l" by (auto simp: pending_tokens_def live_tokens_def)
  then have "ledger_find l t False = None" "ledger_find l t True = None"
    using assms ledger_find_None [of l "next"] by (auto simp: ledger_inv_def)
  then show "ledger_complete l t = (FL_INVALID, l)" "ledger_defer l t = (FL_INVALID, l)"
    "finishDeferred l t = (FL_INVALID, l)" "ledger_retain l n t out = (FL_INVALID, l, n, out)"
    "ledger_get l t f g = (FL_INVALID, f, g)"
    by (simp_all add: ledger_complete_def ledger_defer_def finishDeferred_def ledger_retain_def ledger_get_def)
qed

lemma retirement_is_frame:
  assumes "ledger_inv l next" "rt_value (retirement l) \<noteq> 0"
  shows "rt_value (retirement l) \<le> lg_lastValue l" "lg_generation l \<noteq> 0"
proof -
  let ?t = "takeWhile (\<lambda>r. rn_tokens r = {}) (ledger_abs l)"
  have ret: "retirement l = spec_retirement (ledger_abs l)"
    using assms(1) by (simp add: retirement_spec ledger_inv_def)
  with assms(2) have ne: "?t \<noteq> []" by (auto simp: spec_retirement_def)
  then have "last ?t \<in> set (ledger_abs l)" by (metis last_in_set set_takeWhileD)
  with ne ret abs_values [OF assms(1), of "last ?t"]
  show "rt_value (retirement l) \<le> lg_lastValue l" "lg_generation l \<noteq> 0"
    by (auto simp: spec_retirement_def Let_def)
qed

lemma get_canonical:
  assumes "ledger_inv l next" "r \<in> set (ledger_abs l)" "t \<in> rn_tokens r" "ledger_find l t False \<noteq> None"
  shows "ledger_get l t f g = (FL_OK, rn_frame r, rn_generation r)"
proof -
  obtain j where j: "ledger_find l t False = Some j" using assms(4) by auto
  obtain k where k: "r = ledger_entry l k" using assms(2) by (auto simp: ledger_abs_def)
  have "k = rd_frame (lg_readers l ! j)"
    using same_frame_iff [OF assms(1), of j k] ledger_find_SomeD [OF j] assms(3) k by (simp add: ledger_entry_def)
  then show ?thesis using j k by (simp add: ledger_get_def ledger_entry_def Let_def)
qed

text \<open>What a run maintains about the values it has published on the current timeline.\<close>

lemma run_invariant:
  "ledger_run l next pub \<Longrightarrow> ledger_inv l next \<and> (lg_generation l = 0 \<longrightarrow> pub = []) \<and>
   (\<forall>v \<in> set pub. v \<le> lg_lastValue l \<and> (\<forall>r \<in> set (ledger_abs l). v < fr_readyValue (rn_frame r)))"
proof (induction rule: ledger_run.induct)
  case (run_start "next")
  then show ?case using ledger_inv_init by simp
next
  case (run_step l "next" pub ev r l' next')
  then have inv: "ledger_inv l next" and g0: "lg_generation l = 0 \<longrightarrow> pub = []"
    and below: "\<And>v r. v \<in> set pub \<Longrightarrow> r \<in> set (ledger_abs l) \<Longrightarrow> v < fr_readyValue (rn_frame r)"
    and bound: "\<And>v. v \<in> set pub \<Longrightarrow> v \<le> lg_lastValue l" by auto
  note ref = exec_refines [OF inv run_step.hyps(2)]
  show ?case
  proof (cases "lg_generation l' \<noteq> lg_generation l \<or> r \<noteq> FL_OK")
    case True
    then show ?thesis using ref run_step.IH by auto
  next
    case False
    then have gen: "lg_generation l' = lg_generation l" and ok: "r = FL_OK"
      and abs: "ledger_abs l' = spec_exec ev next (ledger_abs l)" using ref by auto
    show ?thesis
    proof (cases ev)
      case (EvAcquire g f)
      then have f: "lg_generation l' = g" "lg_lastValue l' = fr_readyValue f" "lg_lastValue l < fr_readyValue f"
        using run_step.hyps(2) acquire_counters [of l "next" g f 0 l' next'] gen ok
        by (auto simp: ledger_exec_def split: prod.splits)
      have "v < fr_readyValue f" if "v \<in> set pub" for v using bound [OF that] f(3) by (rule le_less_trans)
      with f show ?thesis
        using ref gen g0 EvAcquire abs below by (auto simp: spec_acquire_def intro: less_imp_le)
    next
      case EvRetire
      have lastv: "lg_lastValue l' = lg_lastValue l" using exec_counters [OF run_step.hyps(2)] EvRetire by simp
      have nz: "rt_value (retirement l) \<noteq> 0"
        using run_step.hyps(2) EvRetire ok by (auto simp: ledger_exec_def ledger_retired_def Let_def split: if_splits)
      note q = retirement_is_frame [OF inv nz]
      have "rt_value (retirement l) < fr_readyValue (rn_frame r)" if "r \<in> set (ledger_abs l')" for r
        using that ledger.peek_below_remaining [OF inv] EvRetire abs by simp
      moreover have "set (ledger_abs l') \<subseteq> set (ledger_abs l)"
        using EvRetire abs by (auto simp: spec_retire_def dest: set_dropWhileD)
      ultimately show ?thesis using ref gen q lastv below bound EvRetire ok by auto
    next
      case EvReset
      then have "l' = resetEpoch l" using run_step.hyps(2) by (simp add: ledger_exec_def)
      then have "pub = [] \<or> l' = l" using gen g0 by (auto simp: resetEpoch_def split: if_splits)
      then show ?thesis using ref run_step.IH EvReset gen by auto
    qed (use ref gen g0 abs below bound exec_counters [OF run_step.hyps(2)] in
        \<open>auto simp: spec_retain_def spec_complete_def split: if_splits\<close>)
  qed
qed

lemma example_facts:
  "ledger_exec (EvAcquire 1 (example_frame 0 10)) ledger_init 1 = (FL_OK, example_first, 2)"
  "ledger_exec (EvAcquire 1 (example_frame 1 20)) example_first 2 = (FL_OK, example_held, 3)"
  "ledger_exec (EvComplete 1) example_held 3 = (FL_OK, example_done, 3)"
  "ledger_exec EvRetire example_done 3 = (FL_OK, example_retired, 3)"
  unfolding example_first_def example_held_def example_done_def example_retired_def by code_simp+

lemma example_values:
  "lg_generation ledger_init = 0" "lg_generation example_first = 1" "lg_generation example_held = 1"
  "lg_generation example_done = 1" "lg_generation example_retired = 1"
  "retirement example_done = \<lparr>rt_generation = 1, rt_value = 10\<rparr>"
  "map (fr_readyValue \<circ> rn_frame) (ledger_abs example_done) = [10, 20]"
  "2 \<in> live_tokens example_retired" "pending_tokens example_retired = {}"
  unfolding example_first_def example_held_def example_done_def example_retired_def by code_simp+

lemma example_inv:
  "ledger_inv example_held 3" "ledger_inv example_done 3" "ledger_run example_retired 3 [10]"
proof -
  have r0: "ledger_run ledger_init 1 []" by (rule run_start) simp
  have r1: "ledger_run example_first 2 []" using run_step [OF r0 example_facts(1)] by (simp add: example_values)
  have r2: "ledger_run example_held 3 []" using run_step [OF r1 example_facts(2)] by (simp add: example_values)
  have r3: "ledger_run example_done 3 []" using run_step [OF r2 example_facts(3)] by (simp add: example_values)
  show "ledger_run example_retired 3 [10]" using run_step [OF r3 example_facts(4)] by (simp add: example_values)
  show "ledger_inv example_held 3" "ledger_inv example_done 3" using r2 r3 run_invariant by blast+
qed

section \<open>Properties\<close>

text \<open>
  C8. Refinement.  Every call on the ledger keeps the ledger's invariant and does to the queue of
  retained frames exactly what the abstract ledger says: acquisition appends a frame held by one
  fresh token, retain adds a fresh token to the frame of its source, completion removes its token
  and nothing else, retirement drops the longest prefix nobody reads, and a call that fails
  changes nothing at all.
\<close>
theorem ledger_refines_spec:
  assumes "ledger_inv l next" "ledger_exec ev l next = (r, l', next')"
  shows "ledger_inv l' next' \<and> next \<le> next' \<and>
    (if r = FL_OK then ledger_abs l' = spec_exec ev next (ledger_abs l) else l' = l \<and> next' = next)"
  using assms by (rule exec_refines)

theorem ledger_refines_spec_witness:
  "ledger_inv example_done 3 \<and> ledger_abs example_done = spec_exec (EvComplete 1) 3 (ledger_abs example_held)"
  using ledger_refines_spec [OF example_inv(1) example_facts(3)] by simp

text \<open>
  C4. Retirement safety.  In every run of the ledger, the frame of an outstanding token is still
  retained, belongs to the current media generation, and its ready value lies strictly above every
  value the run has published on this timeline and above the value the ledger offers next; while
  the token is not deferred, \<^verbatim>\<open>get\<close> returns exactly that retained frame and its generation.
\<close>
theorem retirement_never_passes_a_reader:
  assumes "ledger_run l next pub" "t \<in> live_tokens l"
  shows "\<exists>r \<in> set (ledger_abs l). t \<in> rn_tokens r \<and> rn_generation r = lg_generation l \<and>
    (\<forall>v \<in> set pub. v < fr_readyValue (rn_frame r)) \<and>
    rt_value (retirement l) < fr_readyValue (rn_frame r) \<and>
    (t \<notin> pending_tokens l \<longrightarrow> ledger_get l t f g = (FL_OK, rn_frame r, rn_generation r))"
proof -
  have inv: "ledger_inv l next" using run_invariant [OF assms(1)] by simp
  then have tok: "ledger_tokens l next" and sh: "ledger_shape l" by (auto simp: ledger_inv_def)
  obtain r where r: "r \<in> set (ledger_abs l)" "t \<in> rn_tokens r"
    using assms(2) live_tokens_abs [OF sh] by auto
  have "ledger_get l t f g = (FL_OK, rn_frame r, rn_generation r)" if "t \<notin> pending_tokens l"
    using that assms(2) ledger_find_None(1) [OF tok, of t] get_canonical [OF inv r] by auto
  moreover have "rt_value (retirement l) < fr_readyValue (rn_frame r)"
    using ledger.peek_below_readers [OF inv r(1)] r(2) by auto
  ultimately show ?thesis
    using r run_invariant [OF assms(1)] abs_values(3) [OF inv r(1)] by blast
qed

theorem retirement_never_passes_a_reader_witness:
  "\<exists>r \<in> set (ledger_abs example_retired). 2 \<in> rn_tokens r \<and> 10 < fr_readyValue (rn_frame r) \<and>
    ledger_get example_retired 2 zero_frame 0 = (FL_OK, rn_frame r, rn_generation r)"
  using retirement_never_passes_a_reader [OF example_inv(3) example_values(8), of zero_frame 0] example_values(9)
  by auto

text \<open>
  Single use.  A token that has been completed is never accepted again, whatever calls follow
  on this ledger and however many tokens other ledgers draw in between.
\<close>
theorem completed_token_stays_dead:
  assumes "ledger_inv l next" "ledger_complete l t = (FL_OK, l1)" "ledger_execs evs l1 next = (l2, next2)"
  shows "ledger_complete l2 t = (FL_INVALID, l2) \<and> ledger_defer l2 t = (FL_INVALID, l2) \<and>
    finishDeferred l2 t = (FL_INVALID, l2) \<and> ledger_retain l2 next2 t out = (FL_INVALID, l2, next2, out) \<and>
    ledger_get l2 t f g = (FL_INVALID, f, g)"
proof -
  have "ledger_inv l2 next2 \<and> t \<notin> live_tokens l2"
    using complete_kills [OF assms(1,2)] execs_keep_dead [OF _ assms(3)] by blast
  then show ?thesis using dead_token_rejected by blast
qed

theorem completed_token_stays_dead_witness:
  "ledger_complete example_retired 1 = (FL_INVALID, example_retired)"
proof -
  have c: "ledger_complete example_held 1 = (FL_OK, example_done)"
    using example_facts(3) by (auto simp: ledger_exec_def split: prod.splits)
  have "ledger_execs [EvRetire] example_done 3 = (example_retired, 3)" using example_facts(4) by simp
  from completed_token_stays_dead [OF example_inv(1) c this] show ?thesis by simp
qed

text \<open>
  Progress of retirement.  When the last outstanding token of a non-empty ledger is gone, the
  peeked retirement is the ready value of the newest frame, and acknowledging it empties the ledger;
  acknowledging anything but the current retirement is refused without a change.
\<close>
theorem drained_ledger_retires:
  assumes "ledger_inv l next" "ledger_abs l \<noteq> []" "live_tokens l = {}"
  shows "rt_value (retirement l) = fr_readyValue (rn_frame (last (ledger_abs l))) \<and>
    (\<exists>l'. ledger_retired l (retirement l) = (FL_OK, l') \<and> ledger_empty l') \<and>
    (\<forall>v. v \<noteq> retirement l \<longrightarrow> ledger_retired l v = (FL_INVALID, l))"
proof -
  have "\<forall>r \<in> set (ledger_abs l). rn_tokens r = {}"
    using assms(1,3) live_tokens_abs [of l] by (auto simp: ledger_inv_def)
  from ledger.ack_drained [OF assms(1,2) this] obtain l' where
    "ledger_retired l (retirement l) = (FL_OK, l')" "ledger_abs l' = []"
    "rt_value (retirement l) = fr_readyValue (rn_frame (last (ledger_abs l)))" by blast
  moreover have "ledger_empty l'" using calculation(2) length_ledger_abs [of l'] by (simp add: ledger_empty_def)
  ultimately show ?thesis using ledger.ack_stale by blast
qed

theorem drained_ledger_retires_witness:
  "rt_value (retirement example_drained) = 20"
proof -
  have "ledger_exec (EvComplete 2) example_done 3 = (FL_OK, example_drained, 3)" "live_tokens example_drained = {}"
    "map (fr_readyValue \<circ> rn_frame) (ledger_abs example_drained) = [10, 20]"
    unfolding example_first_def example_held_def example_done_def example_drained_def by code_simp+
  moreover from this have "ledger_inv example_drained 3" using exec_refines [OF example_inv(2)] by blast
  ultimately show ?thesis
    using drained_ledger_retires [of example_drained 3] by (cases "ledger_abs example_drained" rule: rev_cases) auto
qed

end
