(* ===== verification/FL_BufferRefs.thy ===== *)
theory FL_BufferRefs
  imports FL_Prelude
begin

text \<open>
  Producer-local buffer references, \<^verbatim>\<open>src/fl_buffer_refs.hpp\<close>: a table of at most 256 tokens,
  a counter per ring slot and a total.  The counters are what the producer's fast path reads
  (\<^verbatim>\<open>busy\<close>, \<^verbatim>\<open>empty\<close>), so the invariant ties them to the table.  The token counter is
  process-wide and passed explicitly.
\<close>

section \<open>Data and operations\<close>

record RefEntry =
  re_token :: u64
  re_slot :: u32

record BufferReferences =
  br_entries :: "RefEntry list"
  br_counts :: "u32 list"
  br_total :: u32

definition free_entry :: RefEntry where
  "free_entry = \<lparr>re_token = 0, re_slot = 0\<rparr>"

definition refs_init :: BufferReferences where
  "refs_init = \<lparr>br_entries = replicate 256 free_entry, br_counts = replicate 16 0, br_total = 0\<rparr>"

definition refs_busy :: "BufferReferences \<Rightarrow> u32 \<Rightarrow> bool" where
  "refs_busy br slot \<longleftrightarrow> unat slot < 16 \<and> br_counts br ! unat slot \<noteq> 0"

definition refs_empty :: "BufferReferences \<Rightarrow> bool" where
  "refs_empty br \<longleftrightarrow> br_total br = 0"

definition refs_retain ::
  "BufferReferences \<Rightarrow> u64 \<Rightarrow> u32 \<Rightarrow> u64 \<Rightarrow> flResult \<times> BufferReferences \<times> u64 \<times> u64" where
  "refs_retain br next slot out =
     (if unat slot \<ge> 16 then (FL_INVALID, br, next, out)
      else case scan (\<lambda>e. re_token e = 0) (br_entries br) of
        None \<Rightarrow> (FL_BUSY, br, next, out)
      | Some j \<Rightarrow>
          if next = UINT64_MAX then (FL_INTERNAL, br, next, out)
          else (FL_OK,
            \<lparr>br_entries = (br_entries br)[j := \<lparr>re_token = next, re_slot = slot\<rparr>],
              br_counts = (br_counts br)[unat slot := br_counts br ! unat slot + 1],
              br_total = br_total br + 1\<rparr>,
            next + 1, next))"

definition refs_release :: "BufferReferences \<Rightarrow> u64 \<Rightarrow> flResult \<times> BufferReferences" where
  "refs_release br token =
     (if token = 0 then (FL_INVALID, br)
      else case scan (\<lambda>e. re_token e = token) (br_entries br) of
        None \<Rightarrow> (FL_INVALID, br)
      | Some j \<Rightarrow>
          let slot = unat (re_slot (br_entries br ! j))
          in (FL_OK,
            \<lparr>br_entries = (br_entries br)[j := free_entry],
              br_counts = (br_counts br)[slot := br_counts br ! slot - 1],
              br_total = br_total br - 1\<rparr>))"

section \<open>Invariant and abstraction\<close>

abbreviation live_entry :: "RefEntry \<Rightarrow> bool" where "live_entry e \<equiv> re_token e \<noteq> 0"

definition entries_of :: "RefEntry list \<Rightarrow> nat \<Rightarrow> nat" where
  "entries_of es s = length (filter (\<lambda>e. live_entry e \<and> unat (re_slot e) = s) es)"

definition live_total :: "RefEntry list \<Rightarrow> nat" where
  "live_total es = length (filter live_entry es)"

definition refs_inv :: "BufferReferences \<Rightarrow> u64 \<Rightarrow> bool" where
  "refs_inv br next \<longleftrightarrow> next \<noteq> 0 \<and> length (br_entries br) = 256 \<and> length (br_counts br) = 16 \<and>
     (\<forall>s < 16. unat (br_counts br ! s) = entries_of (br_entries br) s) \<and>
     unat (br_total br) = live_total (br_entries br) \<and>
     (\<forall>e \<in> set (br_entries br). live_entry e \<longrightarrow> unat (re_slot e) < 16 \<and> re_token e < next) \<and>
     distinct (map re_token (filter live_entry (br_entries br)))"

text \<open>The references that are out, as a set of token/slot pairs.\<close>
definition refs_abs :: "BufferReferences \<Rightarrow> (u64 \<times> u32) set" where
  "refs_abs br = (\<lambda>e. (re_token e, re_slot e)) ` {e \<in> set (br_entries br). live_entry e}"

definition example_refs :: BufferReferences where
  "example_refs = fst (snd (refs_retain refs_init 1 3 0))"

section \<open>Lemmas\<close>

lemma entries_update:
  "j < length es \<Longrightarrow> entries_of (es[j := e]) s + of_bool (live_entry (es ! j) \<and> unat (re_slot (es ! j)) = s) =
     entries_of es s + of_bool (live_entry e \<and> unat (re_slot e) = s)"
  "j < length es \<Longrightarrow> live_total (es[j := e]) + of_bool (live_entry (es ! j)) = live_total es + of_bool (live_entry e)"
  unfolding entries_of_def live_total_def by (rule length_filter_update; assumption)+

lemma entries_bounds: "entries_of es s \<le> length es" "live_total es \<le> length es"
  by (simp_all add: entries_of_def live_total_def)

lemma unat_incr32: "unat (w :: u32) \<le> 256 \<Longrightarrow> unat (w + 1) = unat w + 1"
  by (simp add: unat_word_ariths)

lemma unat_decr32: "unat (w :: u32) \<noteq> 0 \<Longrightarrow> unat (w - 1) = unat w - 1"
  by (metis One_nat_def unat_1 unat_eq_zero unat_minus_one)

lemma refs_invI:
  assumes "next \<noteq> 0" "length (br_entries br) = 256" "length (br_counts br) = 16"
    "\<And>s. s < 16 \<Longrightarrow> unat (br_counts br ! s) = entries_of (br_entries br) s"
    "unat (br_total br) = live_total (br_entries br)"
    "\<And>e. e \<in> set (br_entries br) \<Longrightarrow> live_entry e \<Longrightarrow> unat (re_slot e) < 16 \<and> re_token e < next"
    "distinct (map re_token (filter live_entry (br_entries br)))"
  shows "refs_inv br next"
  unfolding refs_inv_def using assms by blast

lemma retain_ok:
  assumes inv: "refs_inv br next" and slot: "unat slot < 16" and j: "scan (\<lambda>e. re_token e = 0) (br_entries br) = Some j"
    and nm: "next \<noteq> UINT64_MAX"
  defines "br' \<equiv> \<lparr>br_entries = (br_entries br)[j := \<lparr>re_token = next, re_slot = slot\<rparr>],
      br_counts = (br_counts br)[unat slot := br_counts br ! unat slot + 1], br_total = br_total br + 1\<rparr>"
  shows "refs_inv br' (next + 1) \<and> refs_abs br' = insert (next, slot) (refs_abs br)"
proof -
  let ?es = "br_entries br" and ?e = "\<lparr>re_token = next, re_slot = slot\<rparr>"
  have jl: "j < length ?es" "re_token (?es ! j) = 0" using scan_SomeD [OF j] by auto
  have n0: "next \<noteq> 0" and lt: "next < next + 1" using inv unat_Suc64 [OF nm] by (auto simp: refs_inv_def word_less_nat_alt)
  have es: "entries_of (?es[j := ?e]) s = entries_of ?es s + of_bool (unat slot = s)" for s
    using entries_update(1) [OF jl(1), of ?e s] jl(2) n0 by simp
  have tot: "live_total (?es[j := ?e]) = live_total ?es + 1"
    using entries_update(2) [OF jl(1), of ?e] jl(2) n0 by simp
  have "refs_inv br' (next + 1)"
  proof (rule refs_invI)
    show "unat (br_counts br' ! s) = entries_of (br_entries br') s" if "s < 16" for s
      using that inv entries_bounds(1) [of ?es s] es
      by (cases "s = unat slot") (simp_all add: br'_def refs_inv_def unat_incr32)
    show "unat (br_total br') = live_total (br_entries br')"
      using inv entries_bounds(2) [of ?es] tot by (simp add: br'_def refs_inv_def unat_incr32)
    show "unat (re_slot e) < 16 \<and> re_token e < next + 1" if "e \<in> set (br_entries br')" "live_entry e" for e
    proof (cases "e = ?e")
      case False
      then have "e \<in> set ?es" using that(1) by (auto simp: br'_def dest!: in_set_updateD)
      with inv that(2) have "unat (re_slot e) < 16" "re_token e < next" by (auto simp: refs_inv_def)
      then show ?thesis using less_trans [OF _ lt] by blast
    qed (use lt slot in simp)
    show "distinct (map re_token (filter live_entry (br_entries br')))"
      unfolding br'_def BufferReferences.simps
      by (rule distinct_update) (use inv jl(1) in \<open>auto simp: refs_inv_def\<close>)
    show "next + 1 \<noteq> 0" using lt by auto
  qed (use inv in \<open>simp_all add: br'_def refs_inv_def\<close>)
  moreover have "{e \<in> set (?es[j := ?e]). live_entry e} = insert ?e {e \<in> set ?es. live_entry e}"
    using jl n0 by (intro filter_set_insert) auto
  then have "refs_abs br' = insert (next, slot) (refs_abs br)" by (simp add: refs_abs_def br'_def)
  ultimately show ?thesis by simp
qed

lemma release_ok:
  assumes inv: "refs_inv br next" and t: "token \<noteq> 0" and j: "scan (\<lambda>e. re_token e = token) (br_entries br) = Some j"
  defines "slot \<equiv> re_slot (br_entries br ! j)"
  defines "br' \<equiv> \<lparr>br_entries = (br_entries br)[j := free_entry],
      br_counts = (br_counts br)[unat slot := br_counts br ! unat slot - 1], br_total = br_total br - 1\<rparr>"
  shows "refs_inv br' next \<and> (token, slot) \<in> refs_abs br \<and> refs_abs br' = refs_abs br - {(token, slot)}"
proof -
  let ?es = "br_entries br"
  have jl: "j < length ?es" "re_token (?es ! j) = token" using scan_SomeD [OF j] by auto
  then have jm: "?es ! j \<in> set ?es" by simp
  have slot: "unat slot < 16" using inv jm jl t by (auto simp: refs_inv_def slot_def)
  have es: "entries_of (?es[j := free_entry]) s + of_bool (unat slot = s) = entries_of ?es s" for s
    using entries_update(1) [OF jl(1), of free_entry s] jl(2) t by (simp add: free_entry_def slot_def)
  have tot: "live_total (?es[j := free_entry]) + 1 = live_total ?es"
    using entries_update(2) [OF jl(1), of free_entry] jl(2) t by (simp add: free_entry_def)
  have "refs_inv br' next"
  proof (rule refs_invI)
    show "unat (br_counts br' ! s) = entries_of (br_entries br') s" if "s < 16" for s
      using that inv es [of s] by (cases "s = unat slot") (auto simp: br'_def refs_inv_def unat_decr32)
    show "unat (br_total br') = live_total (br_entries br')"
      using inv tot by (auto simp: br'_def refs_inv_def unat_decr32)
    show "unat (re_slot e) < 16 \<and> re_token e < next" if "e \<in> set (br_entries br')" "live_entry e" for e
      using that inv by (auto simp: br'_def refs_inv_def free_entry_def dest!: in_set_updateD)
    show "distinct (map re_token (filter live_entry (br_entries br')))"
      unfolding br'_def BufferReferences.simps
      by (rule distinct_update) (use inv jl(1) in \<open>auto simp: refs_inv_def free_entry_def\<close>)
  qed (use inv in \<open>simp_all add: br'_def refs_inv_def\<close>)
  moreover have "(token, slot) \<in> refs_abs br" using jm jl t by (auto simp: refs_abs_def slot_def)
  moreover have "refs_abs br' = refs_abs br - {(token, slot)}"
  proof -
    have d: "distinct (map (\<lambda>e. (re_token e, re_slot e)) (filter live_entry ?es))"
      using inv by (auto simp: refs_inv_def distinct_map inj_on_def)
    have "(\<lambda>e. (re_token e, re_slot e)) ` {e \<in> set (?es[j := free_entry]). live_entry e} =
        (\<lambda>e. (re_token e, re_slot e)) ` {e \<in> set ?es. live_entry e} - {(re_token (?es ! j), re_slot (?es ! j))}"
      by (rule filter_set_remove [OF jl(1) _ _ d]) (use jl(2) t in \<open>simp_all add: free_entry_def\<close>)
    then show ?thesis using jl(2) by (simp add: refs_abs_def br'_def slot_def)
  qed
  ultimately show ?thesis by simp
qed

lemma retain_cases:
  assumes "refs_inv br next" "refs_retain br next slot out = (r, br', next', out')"
  shows "refs_inv br' next' \<and> (if r = FL_OK
      then unat slot < 16 \<and> refs_abs br' = insert (next, slot) (refs_abs br) \<and> out' = next \<and> next' = next + 1
      else br' = br \<and> next' = next \<and> out' = out)"
proof (cases "unat slot < 16 \<and> next \<noteq> UINT64_MAX")
  case True
  then show ?thesis
    using assms retain_ok [OF assms(1), of slot]
    by (cases "scan (\<lambda>e. re_token e = 0) (br_entries br)") (auto simp: refs_retain_def)
next
  case False
  then show ?thesis using assms by (auto simp: refs_retain_def split: if_splits option.splits)
qed

lemma release_cases:
  assumes "refs_inv br next" "refs_release br token = (r, br')"
  shows "refs_inv br' next \<and> (if r = FL_OK
      then \<exists>slot. (token, slot) \<in> refs_abs br \<and> refs_abs br' = refs_abs br - {(token, slot)}
      else r = FL_INVALID \<and> br' = br \<and> (\<forall>slot. (token, slot) \<notin> refs_abs br))"
proof (cases "token = 0")
  case True
  then show ?thesis using assms by (auto simp: refs_release_def refs_abs_def)
next
  case False
  show ?thesis
  proof (cases "scan (\<lambda>e. re_token e = token) (br_entries br)")
    case None
    then have "(token, slot) \<notin> refs_abs br" for slot by (auto simp: scan_None_iff refs_abs_def)
    with None False assms show ?thesis by (simp add: refs_release_def)
  next
    case (Some j)
    with release_ok [OF assms(1) False Some] False assms(2) show ?thesis by (auto simp: refs_release_def Let_def)
  qed
qed

lemma counters_exact:
  assumes "refs_inv br next"
  shows "refs_busy br slot \<longleftrightarrow> (\<exists>t. (t, slot) \<in> refs_abs br)" "refs_empty br \<longleftrightarrow> refs_abs br = {}"
proof -
  have slots: "unat (re_slot e) < 16" if "e \<in> set (br_entries br)" "live_entry e" for e
    using assms that by (simp add: refs_inv_def)
  have count: "unat (br_counts br ! s) = entries_of (br_entries br) s" if "s < 16" for s
    using assms that by (simp add: refs_inv_def)
  have total: "unat (br_total br) = live_total (br_entries br)"
    using assms by (simp add: refs_inv_def)
  have "(\<exists>t. (t, slot) \<in> refs_abs br) \<longleftrightarrow> (\<exists>e \<in> set (br_entries br). live_entry e \<and> re_slot e = slot)"
    by (auto simp: refs_abs_def)
  also have "\<dots> \<longleftrightarrow> unat slot < 16 \<and> (\<exists>e \<in> set (br_entries br). live_entry e \<and> unat (re_slot e) = unat slot)"
    using slots by (metis word_unat_eq_iff)
  also have "\<dots> \<longleftrightarrow> unat slot < 16 \<and> entries_of (br_entries br) (unat slot) \<noteq> 0"
    by (auto simp: entries_of_def filter_empty_conv)
  also have "\<dots> \<longleftrightarrow> refs_busy br slot"
    using count [of "unat slot"] unfolding refs_busy_def by (metis unat_eq_zero)
  finally show "refs_busy br slot \<longleftrightarrow> (\<exists>t. (t, slot) \<in> refs_abs br)" by simp
  have "refs_empty br \<longleftrightarrow> live_total (br_entries br) = 0"
    using total unfolding refs_empty_def by (metis unat_eq_zero)
  then show "refs_empty br \<longleftrightarrow> refs_abs br = {}"
    by (auto simp: live_total_def refs_abs_def filter_empty_conv)
qed

lemma refs_inv_init: "next \<noteq> 0 \<Longrightarrow> refs_inv refs_init next" "refs_abs refs_init = {}"
  by (auto simp: refs_inv_def refs_init_def refs_abs_def free_entry_def entries_of_def live_total_def)

lemma refs_token_unique:
  assumes "refs_inv br next"
  shows "(t, s) \<in> refs_abs br \<Longrightarrow> (t, s') \<in> refs_abs br \<Longrightarrow> s = s'"
    "(t, s) \<in> refs_abs br \<Longrightarrow> t < next"
  using assms by (auto simp: refs_abs_def refs_inv_def distinct_map dest: inj_onD)

section \<open>References as an interface\<close>

text \<open>
  What the producer's slot search and resize gate rely on: the two queries answer from the set of
  references that are out, a reference only disappears when its own token is released.
\<close>

locale reference_table =
  fixes inv :: "'r \<Rightarrow> u64 \<Rightarrow> bool"
    and out_refs :: "'r \<Rightarrow> (u64 \<times> u32) set"
    and slot_busy :: "'r \<Rightarrow> u32 \<Rightarrow> bool"
    and release :: "'r \<Rightarrow> u64 \<Rightarrow> flResult \<times> 'r"
  assumes busy_iff: "inv r n \<Longrightarrow> slot_busy r s \<longleftrightarrow> (\<exists>t. (t, s) \<in> out_refs r)"
    and token_unique: "inv r n \<Longrightarrow> (t, s) \<in> out_refs r \<Longrightarrow> (t, s') \<in> out_refs r \<Longrightarrow> s = s'"
    and release_spec: "inv r n \<Longrightarrow> release r t = (res, r') \<Longrightarrow> inv r' n \<and>
      (if res = FL_OK then \<exists>s. (t, s) \<in> out_refs r \<and> out_refs r' = out_refs r - {(t, s)}
       else res = FL_INVALID \<and> r' = r \<and> (\<forall>s. (t, s) \<notin> out_refs r))"
begin

lemma release_twice:
  assumes "inv r n" "release r t = (FL_OK, r')" "release r' t = (res, r'')"
  shows "res = FL_INVALID \<and> r'' = r'"
proof -
  obtain s where s: "inv r' n" "(t, s) \<in> out_refs r" "out_refs r' = out_refs r - {(t, s)}"
    using release_spec [OF assms(1,2)] by auto
  then have "(t, s') \<notin> out_refs r'" for s' using token_unique [OF assms(1)] by auto
  then show ?thesis using release_spec [OF s(1) assms(3)] by (auto split: if_splits)
qed

lemma other_reference_keeps_busy:
  assumes "inv r n" "(u, s) \<in> out_refs r" "u \<noteq> t" "release r t = (res, r')"
  shows "slot_busy r' s"
proof -
  have "inv r' n" "(u, s) \<in> out_refs r'"
    using release_spec [OF assms(1,4)] assms(2,3) by (auto split: if_splits)
  then show ?thesis using busy_iff by blast
qed

end

interpretation refs: reference_table refs_inv refs_abs refs_busy refs_release
proof
  show "refs_busy r s \<longleftrightarrow> (\<exists>t. (t, s) \<in> refs_abs r)" if "refs_inv r n" for r n s
    using that by (rule counters_exact(1))
qed (rule refs_token_unique(1) release_cases; assumption)+

section \<open>Properties\<close>

text \<open>
  Reference accounting.  The atomic counters the producer polls agree with the token table:
  a slot is busy exactly while a token for it is out, and the table is empty exactly when no token
  is out.  A successful retain adds one fresh token for the given slot; a failing one changes
  nothing; the token is the old value of the process-wide counter, so it was never issued before.
\<close>
theorem buffer_reference_accounting:
  assumes "refs_inv br next" "refs_retain br next slot out = (r, br', next', out')"
  shows "refs_inv br' next' \<and>
    (refs_busy br' s \<longleftrightarrow> (\<exists>t. (t, s) \<in> refs_abs br')) \<and> (refs_empty br' \<longleftrightarrow> refs_abs br' = {}) \<and>
    (if r = FL_OK then unat slot < 16 \<and> refs_abs br' = insert (out', slot) (refs_abs br) \<and>
        (\<forall>s'. (out', s') \<notin> refs_abs br) \<and> refs_busy br' slot
     else br' = br \<and> next' = next \<and> out' = out)"
proof -
  note c = retain_cases [OF assms]
  have "(next, s') \<notin> refs_abs br" for s' using refs_token_unique(2) [OF assms(1), of "next" s'] by auto
  with c counters_exact [of br' next'] show ?thesis by auto
qed

theorem buffer_reference_accounting_witness:
  "refs_busy example_refs 3 \<and> \<not> refs_busy example_refs 4 \<and> refs_inv example_refs 2"
proof -
  have e: "refs_retain refs_init 1 3 0 = (FL_OK, example_refs, 2, 1)" unfolding example_refs_def by code_simp
  have "refs_inv refs_init 1" by (rule refs_inv_init) simp
  from buffer_reference_accounting [OF this e, of 4] show ?thesis by (simp add: refs_inv_init)
qed

text \<open>
  A reference is released once.  Releasing a token that is out removes exactly that reference
  and the same release is refused afterwards; another reference to the slot keeps the slot busy.
\<close>
theorem buffer_reference_single_release:
  assumes "refs_inv br next" "refs_release br token = (FL_OK, br')"
  shows "refs_inv br' next \<and> refs_release br' token = (FL_INVALID, br') \<and>
    (\<exists>slot. (token, slot) \<in> refs_abs br \<and> refs_abs br' = refs_abs br - {(token, slot)}) \<and>
    (\<forall>u s. u \<noteq> token \<and> (u, s) \<in> refs_abs br \<longrightarrow> refs_busy br' s)"
proof -
  obtain r br'' where e: "refs_release br' token = (r, br'')" by (cases "refs_release br' token")
  show ?thesis
    using release_cases [OF assms] refs.release_twice [OF assms e] e
      refs.other_reference_keeps_busy [OF assms(1) _ _ assms(2)] by auto
qed

theorem buffer_reference_single_release_witness:
  "\<exists>br'. refs_release example_refs 1 = (FL_OK, br') \<and> refs_release br' 1 = (FL_INVALID, br')"
proof -
  have e: "refs_retain refs_init 1 3 0 = (FL_OK, example_refs, 2, 1)" unfolding example_refs_def by code_simp
  have inv: "refs_inv example_refs 2" using retain_cases [OF refs_inv_init(1) e] by simp
  have "fst (refs_release example_refs 1) = FL_OK" unfolding example_refs_def by code_simp
  then obtain br' where "refs_release example_refs 1 = (FL_OK, br')" by (metis prod.collapse)
  with buffer_reference_single_release [OF inv this] show ?thesis by blast
qed

end
