(* ===== verification/FL_SyncFd.thy ===== *)
theory FL_SyncFd
  imports FL_Prelude "HOL-Library.Multiset"
begin

text \<open>
  Sync-file descriptors of a channel, \<^verbatim>\<open>src/fl_sync_fd.hpp\<close>: the fence of the pending frame, the
  fence of the held frame, and the first-in first-out queue of announced releases, each a watermark
  value with the fence that has to signal before the value counts.  Descriptors are the C \<^verbatim>\<open>int\<close>,
  negative for none.  What the kernel reports for a descriptor is the parameter \<open>signalled\<close>; the
  operations return the descriptors they close, in order.
\<close>

type_synonym fd = int

section \<open>Data and operations\<close>

record SyncFds =
  sy_pending :: fd
  sy_held :: fd
  sy_releases :: "(u64 \<times> fd) list"

definition sync_init :: SyncFds where
  "sync_init = \<lparr>sy_pending = -1, sy_held = -1, sy_releases = []\<rparr>"

text \<open>\<open>signalled fd\<close> stands for \<^verbatim>\<open>poll(&p,1,0)>0 && (p.revents&POLLIN)\<close>.\<close>
definition fenceReady :: "(fd \<Rightarrow> bool) \<Rightarrow> fd \<Rightarrow> bool" where
  "fenceReady signalled fd \<longleftrightarrow> (if fd < 0 then True else signalled fd)"

text \<open>\<^verbatim>\<open>if(fd>=0)close(fd)\<close>\<close>
definition closing :: "fd \<Rightarrow> fd list" where
  "closing fd = (if fd \<ge> 0 then [fd] else [])"

definition sync_clear :: "SyncFds \<Rightarrow> SyncFds \<times> fd list" where
  "sync_clear sy =
     (\<lparr>sy_pending = -1, sy_held = -1, sy_releases = []\<rparr>,
      closing (sy_pending sy) @ closing (sy_held sy) @ concat (map (\<lambda>r. closing (snd r)) (sy_releases sy)))"

fun advance_loop :: "(fd \<Rightarrow> bool) \<Rightarrow> (u64 \<times> fd) list \<Rightarrow> u64 \<Rightarrow> fd list \<Rightarrow> (u64 \<times> fd) list \<times> u64 \<times> fd list" where
  "advance_loop signalled [] consumed closed = ([], consumed, closed)"
| "advance_loop signalled (r # rs) consumed closed =
     (if fenceReady signalled (snd r)
      then advance_loop signalled rs (if fst r > consumed then fst r else consumed) (closed @ closing (snd r))
      else (r # rs, consumed, closed))"

definition sync_advance :: "(fd \<Rightarrow> bool) \<Rightarrow> SyncFds \<Rightarrow> u64 \<Rightarrow> SyncFds \<times> u64 \<times> fd list" where
  "sync_advance signalled sy consumed =
     (let (rs, c, closed) = advance_loop signalled (sy_releases sy) consumed []
      in (sy\<lparr>sy_releases := rs\<rparr>, c, closed))"

text \<open>The descriptors a channel's fence state owns.\<close>
definition sync_owned :: "SyncFds \<Rightarrow> fd list" where
  "sync_owned sy = closing (sy_pending sy) @ closing (sy_held sy) @ concat (map (\<lambda>r. closing (snd r)) (sy_releases sy))"

definition example_sync :: SyncFds where
  "example_sync = \<lparr>sy_pending = 4, sy_held = -1, sy_releases = [(3, 7), (5, -1), (8, 9)]\<rparr>"

section \<open>Lemmas\<close>

lemma advance_loop_spec:
  "advance_loop signalled rs c closed =
    (let done = takeWhile (\<lambda>r. fenceReady signalled (snd r)) rs
     in (drop (length done) rs, foldl max c (map fst done), closed @ concat (map (\<lambda>r. closing (snd r)) done)))"
  by (induction rs arbitrary: c closed) (auto simp: Let_def max_def not_less intro: antisym)

lemma foldl_max_ge: "(c :: u64) \<le> foldl max c vs" "v \<in> set vs \<Longrightarrow> v \<le> foldl max c vs"
proof -
  have ge: "(c :: u64) \<le> foldl max c vs" for c vs by (induction vs arbitrary: c) (auto intro: max.coboundedI1 order_trans)
  then show "c \<le> foldl max c vs" .
  show "v \<le> foldl max c vs" if "v \<in> set vs"
    using that
  proof (induction vs arbitrary: c)
    case (Cons a vs)
    show ?case
    proof (cases "v = a")
      case True
      then show ?thesis using ge [of "max c a"] by simp
    qed (use Cons in simp)
  qed simp
qed

lemma foldl_max_in: "foldl max (c :: u64) vs \<in> insert c (set vs)"
proof (induction vs arbitrary: c)
  case (Cons a vs)
  show ?case using Cons [of "max c a"] by (auto simp: max_def split: if_splits)
qed simp

lemma foldl_max_less: "(c :: u64) < b \<Longrightarrow> (\<forall>v \<in> set vs. v < b) \<Longrightarrow> foldl max c vs < b"
  using foldl_max_in [of c vs] by auto

lemma sync_advance_parts:
  assumes "sync_advance signalled sy c = (sy', c', closed)"
  obtains dn where "sy_releases sy = dn @ sy_releases sy'" "\<forall>r \<in> set dn. fenceReady signalled (snd r)"
    "c' = foldl max c (map fst dn)" "closed = concat (map (\<lambda>r. closing (snd r)) dn)"
    "sy_pending sy' = sy_pending sy" "sy_held sy' = sy_held sy"
    "sy_releases sy' = [] \<or> \<not> fenceReady signalled (snd (hd (sy_releases sy')))"
proof
  let ?d = "takeWhile (\<lambda>r. fenceReady signalled (snd r)) (sy_releases sy)"
  have e: "sy_releases sy' = dropWhile (\<lambda>r. fenceReady signalled (snd r)) (sy_releases sy)"
    "c' = foldl max c (map fst ?d)" "closed = concat (map (\<lambda>r. closing (snd r)) ?d)"
    "sy_pending sy' = sy_pending sy" "sy_held sy' = sy_held sy"
    using assms by (auto simp: sync_advance_def advance_loop_spec Let_def dropWhile_eq_drop)
  show "sy_releases sy = ?d @ sy_releases sy'" by (simp add: e)
  show "\<forall>r \<in> set ?d. fenceReady signalled (snd r)" by (auto dest: set_takeWhileD)
  show "sy_releases sy' = [] \<or> \<not> fenceReady signalled (snd (hd (sy_releases sy')))"
    unfolding e by (metis hd_dropWhile)
qed (use assms in \<open>auto simp: sync_advance_def advance_loop_spec Let_def\<close>)

section \<open>Properties\<close>

text \<open>
  Ordered release.  Advancing the queue applies exactly the longest prefix of announced releases
  whose fences have all signalled: the watermark becomes the maximum of its old value and theirs, so it
  never moves backwards; the first release that is left over has not signalled, whatever is ready behind
  it; and every descriptor is conserved: what was owned is afterwards either still owned or closed, once.
\<close>
theorem advance_applies_signalled_prefix:
  assumes "sync_advance signalled sy c = (sy', c', closed)"
  shows "\<exists>dn. sy_releases sy = dn @ sy_releases sy' \<and> (\<forall>r \<in> set dn. fenceReady signalled (snd r)) \<and>
      c' = foldl max c (map fst dn) \<and> c \<le> c' \<and> (\<forall>r \<in> set dn. fst r \<le> c') \<and>
      (sy_releases sy' = [] \<or> \<not> fenceReady signalled (snd (hd (sy_releases sy')))) \<and>
      mset (sync_owned sy) = mset closed + mset (sync_owned sy')"
proof -
  obtain dn where d: "sy_releases sy = dn @ sy_releases sy'" "\<forall>r \<in> set dn. fenceReady signalled (snd r)"
    "c' = foldl max c (map fst dn)" "closed = concat (map (\<lambda>r. closing (snd r)) dn)"
    "sy_pending sy' = sy_pending sy" "sy_held sy' = sy_held sy"
    "sy_releases sy' = [] \<or> \<not> fenceReady signalled (snd (hd (sy_releases sy')))"
    using assms by (rule sync_advance_parts)
  have "mset (sync_owned sy) = mset closed + mset (sync_owned sy')"
    by (simp add: sync_owned_def d)
  moreover have "c \<le> c'" "\<forall>r \<in> set dn. fst r \<le> c'" using foldl_max_ge [where c = c and vs = "map fst dn"] d(3) by auto
  ultimately show ?thesis using d by (intro exI [of _ dn]) simp
qed

theorem advance_applies_signalled_prefix_witness:
  "sync_advance (\<lambda>fd. fd = 7) example_sync 1 = (example_sync\<lparr>sy_releases := [(8, 9)]\<rparr>, 5, [7]) \<and>
   mset (sync_owned example_sync) = mset [7] + mset (sync_owned (example_sync\<lparr>sy_releases := [(8, 9)]\<rparr>))"
proof -
  have e: "sync_advance (\<lambda>fd. fd = 7) example_sync 1 = (example_sync\<lparr>sy_releases := [(8, 9)]\<rparr>, 5, [7])"
    by (simp add: sync_advance_def example_sync_def fenceReady_def closing_def)
  then show ?thesis using advance_applies_signalled_prefix [OF e] by blast
qed

end
