(* ===== verification/FL_Ipc.thy ===== *)
theory FL_Ipc
  imports FL_SyncFd
begin

text \<open>
  The POSIX control channel, \<^verbatim>\<open>src/fl_ipc.h\<close> and \<^verbatim>\<open>src/fl_ipc_posix.cpp\<close>: message framing over a
  sequenced-packet socket with descriptors as ancillary data, address construction, the connect loop and
  the adoption of a delegated socket.  The kernel is a parameter: \<^verbatim>\<open>sendmsg\<close> is a function from the bytes
  and descriptors to its return value, the datagrams \<^verbatim>\<open>recvmsg\<close> will deliver are the socket's inbox (an
  empty inbox is end of file), and what the socket calls of adoption answer is a record.
\<close>

section \<open>Data\<close>

abbreviation kMagic :: u32 where "kMagic \<equiv> 0x314B4C46"
abbreviation kMaxPool :: nat where "kMaxPool \<equiv> 16"
abbreviation kBufferSize :: nat where "kBufferSize \<equiv> 65536"
abbreviation kMaxFds :: nat where "kMaxFds \<equiv> 64"
abbreviation headerSize :: nat where "headerSize \<equiv> 12"

text \<open>\<^verbatim>\<open>enum class MsgType : uint32_t\<close>; a received type is whatever the peer wrote.\<close>
type_synonym MsgType = u32
abbreviation MsgHello :: MsgType where "MsgHello \<equiv> 1"
abbreviation MsgRingDesc :: MsgType where "MsgRingDesc \<equiv> 2"
abbreviation MsgFrameReady :: MsgType where "MsgFrameReady \<equiv> 3"
abbreviation MsgFrameReleased :: MsgType where "MsgFrameReleased \<equiv> 4"
abbreviation MsgRequestGeometry :: MsgType where "MsgRequestGeometry \<equiv> 5"
abbreviation MsgBusy :: MsgType where "MsgBusy \<equiv> 6"
abbreviation MsgBye :: MsgType where "MsgBye \<equiv> 7"
abbreviation MsgFrameReadyMetadata :: MsgType where "MsgFrameReadyMetadata \<equiv> 8"

record Message =
  ms_type :: MsgType
  ms_payload :: "u8 list"
  ms_fds :: "fd list"

text \<open>One control header of a received datagram: \<open>cm_rights\<close> says that it is a well-formed SCM_RIGHTS header.\<close>
record Cmsg =
  cm_rights :: bool
  cm_fds :: "fd list"

text \<open>What \<^verbatim>\<open>recvmsg\<close> returns: an error, or bytes, control headers and the truncation flags.\<close>
record Datagram =
  dg_error :: bool
  dg_bytes :: "u8 list"
  dg_cmsgs :: "Cmsg list"
  dg_trunc :: bool

text \<open>
  \<^verbatim>\<open>class Channel\<close>: the descriptor (-1 for a null handle), the connected flag and the peer's process id,
  with the two directions of the socket it names.
\<close>
record IpcChannel =
  ic_fd :: fd
  ic_connected :: bool
  ic_peerPid :: u32
  ic_inbox :: "Datagram list"
  ic_sent :: "(u8 list \<times> fd list) list"

type_synonym sendmsg = "u8 list \<Rightarrow> fd list \<Rightarrow> int"

definition ipc_null :: IpcChannel where
  "ipc_null = \<lparr>ic_fd = -1, ic_connected = False, ic_peerPid = 0, ic_inbox = [], ic_sent = []\<rparr>"

section \<open>Operations\<close>

definition ipc_header :: "MsgType \<Rightarrow> nat \<Rightarrow> u8 list" where
  "ipc_header type sz = le_put 4 kMagic @ le_put 4 type @ le_put 4 (of_nat sz :: u32)"

definition sendWithFds ::
  "sendmsg \<Rightarrow> IpcChannel \<Rightarrow> MsgType \<Rightarrow> u8 list option \<Rightarrow> nat \<Rightarrow> fd list option \<Rightarrow> nat \<Rightarrow> bool \<times> IpcChannel" where
  "sendWithFds sendmsg ch type payload sz fds fdCount =
     (if \<not> ic_connected ch \<or> fdCount > kMaxFds \<or> (fdCount \<noteq> 0 \<and> fds = None) \<or> (sz \<noteq> 0 \<and> payload = None)
      then (False, ch)
      else if sz > kBufferSize - headerSize then (False, ch)
      else
        let bytes = ipc_header type sz @ (if sz \<noteq> 0 then take sz (the payload) else []);
            rights = (if fdCount \<noteq> 0 then take fdCount (the fds) else []);
            n = sendmsg bytes rights
        in if n < 0 then (False, ch\<lparr>ic_connected := False\<rparr>)
           else (n = int (headerSize + sz), ch\<lparr>ic_sent := ic_sent ch @ [(bytes, rights)]\<rparr>))"

definition ipc_send :: "sendmsg \<Rightarrow> IpcChannel \<Rightarrow> MsgType \<Rightarrow> u8 list \<Rightarrow> bool \<times> IpcChannel" where
  "ipc_send sendmsg ch type payload = sendWithFds sendmsg ch type (Some payload) (length payload) None 0"

text \<open>The descriptors of all well-formed SCM_RIGHTS headers, collected before anything is validated.\<close>
definition collect_fds :: "Cmsg list \<Rightarrow> fd list" where
  "collect_fds cms = concat (map cm_fds (filter cm_rights cms))"

text \<open>The result is the message, the channel and the descriptors closed.\<close>
definition ipc_recv :: "IpcChannel \<Rightarrow> Message option \<times> IpcChannel \<times> fd list" where
  "ipc_recv ch =
     (if \<not> ic_connected ch then (None, ch, [])
      else case ic_inbox ch of
        [] \<Rightarrow> (None, ch\<lparr>ic_connected := False\<rparr>, [])
      | d # rest \<Rightarrow>
          let n = length (dg_bytes d);
              fds = (if dg_error d then [] else collect_fds (dg_cmsgs d));
              reject = (None, ch\<lparr>ic_inbox := rest, ic_connected := False\<rparr>, fds)
          in if dg_error d \<or> n < headerSize \<or> dg_trunc d \<or> length fds > kMaxFds then reject
             else
               let (magic, p1) = le_get 4 (dg_bytes d);
                   (type, p2) = le_get 4 p1;
                   (payloadSize, p3) = le_get 4 p2
               in if magic \<noteq> kMagic \<or> unat (payloadSize :: u32) > n - headerSize then reject
                  else (Some \<lparr>ms_type = type, ms_payload = take (unat payloadSize) p3, ms_fds = fds\<rparr>,
                        ch\<lparr>ic_inbox := rest\<rparr>, []))"

definition ipc_close :: "IpcChannel \<Rightarrow> IpcChannel \<times> fd list" where
  "ipc_close ch = (ch\<lparr>ic_fd := -1, ic_connected := False\<rparr>, if ic_fd ch \<noteq> -1 then [ic_fd ch] else [])"

text \<open>How the kernel presents a sent datagram to the receiver.\<close>
definition delivered :: "u8 list \<times> fd list \<Rightarrow> Datagram" where
  "delivered d = \<lparr>dg_error = False, dg_bytes = fst d,
     dg_cmsgs = (if snd d = [] then [] else [\<lparr>cm_rights = True, cm_fds = snd d\<rparr>]), dg_trunc = False\<rparr>"

text \<open>
  \<^verbatim>\<open>fillAddr\<close>: the abstract-namespace address, as the bytes of \<^verbatim>\<open>sun_path\<close> that the returned length covers.
  \<^verbatim>\<open>sizeof(sun_path)\<close> is 108.
\<close>
definition fillAddr :: "string \<Rightarrow> string" where
  "fillAddr name =
     (let path = ''framelink.'' @ name;
          n = (if length path < 108 - 1 then length path else 108 - 2)
      in CHR 0x00 # take n path)"

text \<open>
  One round of \<^verbatim>\<open>Channel::connect\<close>: the socket call fails, the connect succeeds on a descriptor, or it
  is refused (and the descriptor is closed).
\<close>
datatype connect_try = NoSocket | Connected fd | Refused fd

definition connect_round :: "(nat \<Rightarrow> connect_try) \<Rightarrow> nat \<Rightarrow> fd list \<Rightarrow> IpcChannel option \<times> fd list" where
  "connect_round attempt k closed =
     (case attempt k of
        NoSocket \<Rightarrow> (Some ipc_null, closed)
      | Connected fd \<Rightarrow> (Some (ipc_null\<lparr>ic_fd := fd, ic_connected := True\<rparr>), closed)
      | Refused fd \<Rightarrow> (None, closed @ [fd]))"

definition ipc_connect :: "(nat \<Rightarrow> connect_try) \<Rightarrow> u32 \<Rightarrow> (IpcChannel \<times> fd list \<times> nat) option" where
  "ipc_connect attempt timeoutMs = timed_loop 25 timeoutMs (connect_round attempt) ipc_null 0 0 []"

text \<open>
  \<^verbatim>\<open>adoptConnectedFd\<close>: what the socket calls answer for the descriptor.  The flags are the words the
  code reads and writes back; the timeout is the \<^verbatim>\<open>timeval\<close> it installs.  The options are the
  values of \<^verbatim>\<open>SO_TYPE\<close>, of the peer's family and of \<^verbatim>\<open>SO_PEERCRED\<close>, or the failure of the call.
\<close>
record SocketFacts =
  sf_type :: "int option"
  sf_family :: "int option"
  sf_getfd :: int
  sf_getfl :: int
  sf_setfd :: bool
  sf_setfl :: bool
  sf_rcvtimeo :: bool
  sf_sndtimeo :: bool
  sf_cred :: "u32 option"

abbreviation SOCK_SEQPACKET :: int where "SOCK_SEQPACKET \<equiv> 5"
abbreviation AF_UNIX :: int where "AF_UNIX \<equiv> 1"

definition adopt_timeval :: "u32 \<Rightarrow> nat \<times> nat" where
  "adopt_timeval timeoutMs = (unat timeoutMs div 1000, (unat timeoutMs mod 1000) * 1000)"

text \<open>The result is the channel, the descriptors closed and the bound installed on the socket.\<close>
definition adoptConnectedFd :: "SocketFacts \<Rightarrow> fd \<Rightarrow> u32 \<Rightarrow> IpcChannel \<times> fd list \<times> (nat \<times> nat) option" where
  "adoptConnectedFd sf fd timeoutMs =
     (if fd < 0 \<or> timeoutMs = 0 \<or> timeoutMs > 60000 then (ipc_null, closing fd, None)
      else if sf_type sf \<noteq> Some SOCK_SEQPACKET \<or> sf_family sf \<noteq> Some AF_UNIX then (ipc_null, closing fd, None)
      else if sf_getfd sf < 0 \<or> sf_getfl sf < 0 \<or> \<not> sf_setfd sf \<or> \<not> sf_setfl sf then (ipc_null, closing fd, None)
      else if \<not> sf_rcvtimeo sf \<or> \<not> sf_sndtimeo sf then (ipc_null, closing fd, None)
      else (ipc_null\<lparr>ic_peerPid := (case sf_cred sf of None \<Rightarrow> 0 | Some pid \<Rightarrow> pid), ic_fd := fd, ic_connected := True\<rparr>,
            [], Some (adopt_timeval timeoutMs)))"

section \<open>Lemmas\<close>

lemma length_ipc_header [simp]: "length (ipc_header type sz) = 12"
  by (simp add: ipc_header_def)

lemma recv_header:
  assumes "sz < 2 ^ 32"
  shows "le_get 4 (ipc_header type sz @ p) = (kMagic, le_put 4 type @ le_put 4 (of_nat sz :: u32) @ p)"
    "le_get 4 (le_put 4 type @ le_put 4 (of_nat sz :: u32) @ p) = (type, le_put 4 (of_nat sz :: u32) @ p)"
    "le_get 4 (le_put 4 (of_nat sz :: u32) @ p) = ((of_nat sz :: u32), p)"
  by (simp_all add: ipc_header_def le_get_le_put)

lemma unat_of_nat32: "sz < 2 ^ 32 \<Longrightarrow> unat (of_nat sz :: u32) = sz"
  by (simp add: unat_of_nat take_bit_nat_eq_self)

lemma ipc_recv_cases:
  assumes "ic_connected ch" "ic_inbox ch = d # rest" "\<not> dg_error d"
  shows "(\<exists>m. ipc_recv ch = (Some m, ch\<lparr>ic_inbox := rest\<rparr>, []) \<and> ms_fds m = collect_fds (dg_cmsgs d) \<and>
      length (ms_fds m) \<le> kMaxFds \<and> length (ms_payload m) + headerSize \<le> length (dg_bytes d)) \<or>
    ipc_recv ch = (None, ch\<lparr>ic_inbox := rest, ic_connected := False\<rparr>, collect_fds (dg_cmsgs d))"
proof (cases "length (dg_bytes d) < headerSize \<or> dg_trunc d \<or> length (collect_fds (dg_cmsgs d)) > kMaxFds")
  case True
  then show ?thesis using assms by (auto simp: ipc_recv_def Let_def)
next
  case False
  obtain magic p1 type p2 psz p3 where g: "(le_get 4 (dg_bytes d) :: u32 \<times> _) = (magic, p1)"
    "(le_get 4 p1 :: u32 \<times> _) = (type, p2)" "(le_get 4 p2 :: u32 \<times> _) = (psz, p3)" by (meson surj_pair)
  have len: "12 \<le> length (dg_bytes d)" using False by simp
  have "p1 = drop 4 (dg_bytes d)" using g(1) len by (simp add: le_get_val)
  then have "p2 = drop 8 (dg_bytes d)" using g(2) len by (simp add: le_get_val)
  then have "p3 = drop 12 (dg_bytes d)" using g(3) len by (simp add: le_get_val)
  then show ?thesis
    using assms False g by (cases "magic \<noteq> kMagic \<or> unat psz > length (dg_bytes d) - headerSize")
      (auto simp: ipc_recv_def Let_def)
qed

lemma collect_delivered [simp]: "collect_fds (dg_cmsgs (delivered d)) = snd d"
  by (simp add: collect_fds_def delivered_def)

lemma recv_delivered:
  assumes "ic_connected ch" "ic_inbox ch = delivered (ipc_header type (length payload) @ payload, fds) # rest"
    "length payload \<le> kBufferSize - headerSize" "length fds \<le> kMaxFds"
  shows "ipc_recv ch = (Some \<lparr>ms_type = type, ms_payload = payload, ms_fds = fds\<rparr>, ch\<lparr>ic_inbox := rest\<rparr>, [])"
proof -
  have sz: "length payload < 2 ^ 32" using assms(3) by simp
  let ?d = "delivered (ipc_header type (length payload) @ payload, fds)"
  have d: "dg_bytes ?d = ipc_header type (length payload) @ payload" "\<not> dg_error ?d" "\<not> dg_trunc ?d"
    by (simp_all add: delivered_def)
  show ?thesis
    using assms(1,4) unfolding ipc_recv_def assms(2) list.case
    by (simp add: Let_def d recv_header [OF sz] unat_of_nat32 [OF sz])
qed

lemma sendWithFds_ok:
  assumes "ic_connected ch" "length payload \<le> kBufferSize - headerSize" "length fds \<le> kMaxFds"
    "sendmsg (ipc_header type (length payload) @ payload) fds = int (headerSize + length payload)"
  shows "sendWithFds sendmsg ch type (Some payload) (length payload) (Some fds) (length fds) =
    (True, ch\<lparr>ic_sent := ic_sent ch @ [(ipc_header type (length payload) @ payload, fds)]\<rparr>)"
proof -
  have p: "(if length payload \<noteq> 0 then take (length payload) (the (Some payload)) else []) = payload"
    "(if length fds \<noteq> 0 then take (length fds) (the (Some fds)) else []) = fds" by auto
  show ?thesis using assms unfolding sendWithFds_def p by (simp add: Let_def)
qed

section \<open>Properties\<close>

text \<open>
  Framing round trip.  A message that fits the buffer and that the kernel accepts whole arrives
  at the peer with the same type, the same payload bytes and the same descriptors, in order; the peer
  stays connected and closes nothing.
\<close>
theorem ipc_message_roundtrip:
  assumes "ic_connected a" "ic_connected b"
    "length payload \<le> kBufferSize - headerSize" "length fds \<le> kMaxFds"
    "\<forall>bytes rights. sendmsg bytes rights = int (length bytes)"
  shows "\<exists>a' d. sendWithFds sendmsg a type (Some payload) (length payload) (Some fds) (length fds) = (True, a') \<and>
    ic_sent a' = ic_sent a @ [d] \<and>
    ipc_recv (b\<lparr>ic_inbox := delivered d # rest\<rparr>) =
      (Some \<lparr>ms_type = type, ms_payload = payload, ms_fds = fds\<rparr>, b\<lparr>ic_inbox := rest\<rparr>, [])"
  using assms sendWithFds_ok [OF assms(1,3,4), of sendmsg type]
    recv_delivered [of "b\<lparr>ic_inbox := delivered (ipc_header type (length payload) @ payload, fds) # rest\<rparr>"
      type payload fds rest]
  by simp

theorem ipc_message_roundtrip_witness:
  "\<exists>a' d. sendWithFds (\<lambda>bytes rights. int (length bytes)) (ipc_null\<lparr>ic_connected := True\<rparr>) MsgFrameReleased
      (Some [1, 2, 3]) 3 (Some [9]) 1 = (True, a') \<and> ic_sent a' = [d] \<and>
    fst (ipc_recv (ipc_null\<lparr>ic_connected := True, ic_inbox := [delivered d]\<rparr>)) =
      Some \<lparr>ms_type = MsgFrameReleased, ms_payload = [1, 2, 3], ms_fds = [9]\<rparr>"
  using ipc_message_roundtrip [of "ipc_null\<lparr>ic_connected := True\<rparr>" "ipc_null\<lparr>ic_connected := True\<rparr>" "[1, 2, 3]" "[9]"
      "\<lambda>bytes rights. int (length bytes)" MsgFrameReleased "[]"]
  by (auto simp: ipc_null_def numeral_3_eq_3)



text \<open>
  Connecting always returns.  For every timeout that leaves room for one more step of the 32-bit
  counter the connect loop ends after at most one attempt per started 25 ms and one more, and when it gives up the
  channel is unconnected.
\<close>
theorem ipc_connect_returns:
  assumes "unat timeoutMs + 25 < 2 ^ 32"
  shows "\<exists>ch closed k. ipc_connect attempt timeoutMs = Some (ch, closed, k) \<and>
    k \<le> Suc ((unat timeoutMs + 24) div 25) \<and>
    (ch = ipc_null \<or> (\<exists>k' fd. attempt k' = Connected fd \<and> ch = ipc_null\<lparr>ic_fd := fd, ic_connected := True\<rparr>))"
proof -
  obtain r s' k' where l: "timed_loop 25 timeoutMs (connect_round attempt) ipc_null 0 0 [] = Some (r, s', k')"
    "k' \<le> Suc 0 + (unat timeoutMs - unat (0 :: u32) + unat (25 :: u32) - 1) div unat (25 :: u32)"
    using timed_loop_returns [of 25 timeoutMs 0 "connect_round attempt" ipc_null 0 "[]"] assms by auto
  have "r = ipc_null \<or> (\<exists>k s. True \<and> connect_round attempt k s = (Some r, s'))"
    using timed_loop_invariant [OF l(1), of "\<lambda>_. True"] by auto
  then have "r = ipc_null \<or> (\<exists>k' fd. attempt k' = Connected fd \<and> r = ipc_null\<lparr>ic_fd := fd, ic_connected := True\<rparr>)"
  proof
    assume "\<exists>k s. True \<and> connect_round attempt k s = (Some r, s')"
    then obtain k s where "connect_round attempt k s = (Some r, s')" by blast
    then show ?thesis by (cases "attempt k") (auto simp: connect_round_def)
  qed simp
  with l show ?thesis by (auto simp: ipc_connect_def)
qed

theorem ipc_connect_returns_witness:
  "\<exists>ch closed k. ipc_connect (\<lambda>k. Refused (int k)) 300 = Some (ch, closed, k) \<and> k \<le> 13"
proof -
  have "unat (300 :: u32) + 25 < 2 ^ 32" by simp
  from ipc_connect_returns [OF this, of "\<lambda>k. Refused (int k)"] show ?thesis by auto
qed

text \<open>
  Addresses.  Channel names of at most 96 bytes have distinct socket addresses.  The bound is
  sharp: longer names are cut silently, so two channels with different names can share an address.
\<close>
theorem fillAddr_names:
  "(length a \<le> 96 \<and> length b \<le> 96 \<and> fillAddr a = fillAddr b \<longrightarrow> a = b) \<and>
   fillAddr (replicate 96 CHR ''a'' @ ''0'') = fillAddr (replicate 96 CHR ''a'' @ ''1'')"
proof (intro conjI impI)
  assume "length a \<le> 96 \<and> length b \<le> 96 \<and> fillAddr a = fillAddr b"
  then show "a = b" by (auto simp: fillAddr_def)
qed (simp add: fillAddr_def)

theorem fillAddr_names_witness: "fillAddr ''video.0'' \<noteq> fillAddr ''video.1''"
  using fillAddr_names [of "''video.0''" "''video.1''"] by auto

end
