(* ===== verification/FL_Protocol.thy ===== *)
theory FL_Protocol
  imports FL_Ipc
begin

text \<open>
  The wire structures of \<^verbatim>\<open>src/fl_protocol.h\<close> as byte layouts (packed to 4, little endian), the reading
  of a payload as a structure (\<^verbatim>\<open>Message::as<T>\<close>), and the feature words and frame metadata of
  \<^verbatim>\<open>src/fl_metadata.hpp\<close>.
\<close>

section \<open>Structures\<close>

record HelloMsg =
  hm_version :: u32
  hm_pid :: u32
  hm_luidValid :: u32
  hm_pad :: u32
  hm_luid :: "u8 list"

record RingDescMsg =
  rd_width :: u32
  rd_height :: u32
  rd_format :: u32
  rd_poolSize :: u32
  rd_generation :: u64
  rd_texture :: "u64 list"
  rd_readyFence :: u64
  rd_consumedFence :: u64
  rd_stride :: "u64 list"
  rd_offset :: "u64 list"
  rd_modifier :: u64
  rd_fourcc :: u32
  rd_pad :: u32
  rd_planeCount :: "u32 list"
  rd_planeStride :: "u64 list"
  rd_planeOffset :: "u64 list"

record GeometryMsg =
  gm_width :: u32
  gm_height :: u32
  gm_format :: u32
  gm_pad :: u32

record FrameReadyMsg =
  fm_slot :: u32
  fm_pad :: u32
  fm_readyValue :: u64
  fm_ptsNs :: i64

record flFrameMetadata =
  md_version :: u32
  md_flags :: u32
  md_dtsNs :: i64
  md_durationNs :: u64
  md_streamGeneration :: u64
  md_reserved0 :: u32
  md_reserved1 :: u32

text \<open>The plane arrays are stored flat, plane \<open>p\<close> of slot \<open>i\<close> at \<open>4 * i + p\<close>, as C lays them out.\<close>

definition zero_metadata :: flFrameMetadata where
  "zero_metadata = \<lparr>md_version = 0, md_flags = 0, md_dtsNs = 0, md_durationNs = 0, md_streamGeneration = 0,
     md_reserved0 = 0, md_reserved1 = 0\<rparr>"

definition zero_frameReady :: FrameReadyMsg where
  "zero_frameReady = \<lparr>fm_slot = 0, fm_pad = 0, fm_readyValue = 0, fm_ptsNs = 0\<rparr>"

definition zero_ringDesc :: RingDescMsg where
  "zero_ringDesc = \<lparr>rd_width = 0, rd_height = 0, rd_format = 0, rd_poolSize = 0, rd_generation = 0,
     rd_texture = replicate 16 0, rd_readyFence = 0, rd_consumedFence = 0, rd_stride = replicate 16 0,
     rd_offset = replicate 16 0, rd_modifier = 0, rd_fourcc = 0, rd_pad = 0, rd_planeCount = replicate 16 0,
     rd_planeStride = replicate 64 0, rd_planeOffset = replicate 64 0\<rparr>"

section \<open>Byte layouts\<close>

definition put_array :: "nat \<Rightarrow> 'a::len word list \<Rightarrow> u8 list" where
  "put_array n xs = concat (map (le_put n) xs)"

fun get_array :: "nat \<Rightarrow> nat \<Rightarrow> u8 list \<Rightarrow> 'a::len word list \<times> u8 list" where
  "get_array n 0 p = ([], p)"
| "get_array n (Suc k) p = (let (x, q) = le_get n p; (xs, r) = get_array n k q in (x # xs, r))"

definition hello_bytes :: "HelloMsg \<Rightarrow> u8 list" where
  "hello_bytes h = le_put 4 (hm_version h) @ le_put 4 (hm_pid h) @ le_put 4 (hm_luidValid h) @
     le_put 4 (hm_pad h) @ hm_luid h"

definition hello_of :: "u8 list \<Rightarrow> HelloMsg option" where
  "hello_of p =
     (if length p < 24 then None
      else
        let (version, p1) = le_get 4 p; (pid, p2) = le_get 4 p1; (luidValid, p3) = le_get 4 p2; (pad, p4) = le_get 4 p3
        in Some \<lparr>hm_version = version, hm_pid = pid, hm_luidValid = luidValid, hm_pad = pad, hm_luid = take 8 p4\<rparr>)"

definition geometry_bytes :: "GeometryMsg \<Rightarrow> u8 list" where
  "geometry_bytes g = le_put 4 (gm_width g) @ le_put 4 (gm_height g) @ le_put 4 (gm_format g) @ le_put 4 (gm_pad g)"

definition geometry_of :: "u8 list \<Rightarrow> GeometryMsg option" where
  "geometry_of p =
     (if length p < 16 then None
      else let (w, p1) = le_get 4 p; (h, p2) = le_get 4 p1; (f, p3) = le_get 4 p2; (pad, p4) = le_get 4 p3
           in Some \<lparr>gm_width = w, gm_height = h, gm_format = f, gm_pad = pad\<rparr>)"

definition frame_bytes :: "FrameReadyMsg \<Rightarrow> u8 list" where
  "frame_bytes f = le_put 4 (fm_slot f) @ le_put 4 (fm_pad f) @ le_put 8 (fm_readyValue f) @ le_put 8 (fm_ptsNs f)"

definition get_frame :: "u8 list \<Rightarrow> FrameReadyMsg \<times> u8 list" where
  "get_frame p =
     (let (slot, p1) = le_get 4 p; (pad, p2) = le_get 4 p1; (v, p3) = le_get 8 p2; (pts, p4) = le_get 8 p3
      in (\<lparr>fm_slot = slot, fm_pad = pad, fm_readyValue = v, fm_ptsNs = pts\<rparr>, p4))"

definition frame_of :: "u8 list \<Rightarrow> FrameReadyMsg option" where
  "frame_of p = (if length p < 24 then None else Some (fst (get_frame p)))"

definition metadata_bytes :: "flFrameMetadata \<Rightarrow> u8 list" where
  "metadata_bytes m = le_put 4 (md_version m) @ le_put 4 (md_flags m) @ le_put 8 (md_dtsNs m) @
     le_put 8 (md_durationNs m) @ le_put 8 (md_streamGeneration m) @ le_put 4 (md_reserved0 m) @ le_put 4 (md_reserved1 m)"

definition get_metadata :: "u8 list \<Rightarrow> flFrameMetadata \<times> u8 list" where
  "get_metadata p =
     (let (version, p1) = le_get 4 p; (flags, p2) = le_get 4 p1; (dts, p3) = le_get 8 p2; (dur, p4) = le_get 8 p3;
          (gen, p5) = le_get 8 p4; (r0, p6) = le_get 4 p5; (r1, p7) = le_get 4 p6
      in (\<lparr>md_version = version, md_flags = flags, md_dtsNs = dts, md_durationNs = dur, md_streamGeneration = gen,
           md_reserved0 = r0, md_reserved1 = r1\<rparr>, p7))"

definition ring_bytes :: "RingDescMsg \<Rightarrow> u8 list" where
  "ring_bytes r = le_put 4 (rd_width r) @ le_put 4 (rd_height r) @ le_put 4 (rd_format r) @ le_put 4 (rd_poolSize r) @
     le_put 8 (rd_generation r) @ put_array 8 (rd_texture r) @ le_put 8 (rd_readyFence r) @ le_put 8 (rd_consumedFence r) @
     put_array 8 (rd_stride r) @ put_array 8 (rd_offset r) @ le_put 8 (rd_modifier r) @ le_put 4 (rd_fourcc r) @
     le_put 4 (rd_pad r) @ put_array 4 (rd_planeCount r) @ put_array 8 (rd_planeStride r) @ put_array 8 (rd_planeOffset r)"

definition ring_of :: "u8 list \<Rightarrow> RingDescMsg option" where
  "ring_of p =
     (if length p < 1528 then None
      else
        let (w, p1) = le_get 4 p; (h, p2) = le_get 4 p1; (f, p3) = le_get 4 p2; (n, p4) = le_get 4 p3;
            (gen, p5) = le_get 8 p4; (tex, p6) = get_array 8 16 p5; (rf, p7) = le_get 8 p6; (cf, p8) = le_get 8 p7;
            (str, p9) = get_array 8 16 p8; (ofs, p10) = get_array 8 16 p9; (mdf, p11) = le_get 8 p10;
            (fcc, p12) = le_get 4 p11; (pad, p13) = le_get 4 p12; (pc, p14) = get_array 4 16 p13;
            (ps, p15) = get_array 8 64 p14; (po, p16) = get_array 8 64 p15
        in Some \<lparr>rd_width = w, rd_height = h, rd_format = f, rd_poolSize = n, rd_generation = gen, rd_texture = tex,
             rd_readyFence = rf, rd_consumedFence = cf, rd_stride = str, rd_offset = ofs, rd_modifier = mdf,
             rd_fourcc = fcc, rd_pad = pad, rd_planeCount = pc, rd_planeStride = ps, rd_planeOffset = po\<rparr>)"

definition ring_shape :: "RingDescMsg \<Rightarrow> bool" where
  "ring_shape r \<longleftrightarrow> length (rd_texture r) = 16 \<and> length (rd_stride r) = 16 \<and> length (rd_offset r) = 16 \<and>
     length (rd_planeCount r) = 16 \<and> length (rd_planeStride r) = 64 \<and> length (rd_planeOffset r) = 64"

section \<open>Features and metadata\<close>

abbreviation FL_MAP_CPU :: u32 where "FL_MAP_CPU \<equiv> 0x1"
abbreviation FL_GPU_SYNC :: u32 where "FL_GPU_SYNC \<equiv> 0x2"
abbreviation FL_DEFER_RELEASE :: u32 where "FL_DEFER_RELEASE \<equiv> 0x4"
abbreviation FL_GPU_RENDER :: u32 where "FL_GPU_RENDER \<equiv> 0x8"
abbreviation FL_TRACK_ARRIVAL :: u32 where "FL_TRACK_ARRIVAL \<equiv> 0x10"
abbreviation FL_REQUIRE_FRAME_METADATA :: u32 where "FL_REQUIRE_FRAME_METADATA \<equiv> 0x20"

abbreviation FL_FRAME_METADATA_VERSION :: u32 where "FL_FRAME_METADATA_VERSION \<equiv> 1"
abbreviation FL_FRAME_HAS_DTS :: u32 where "FL_FRAME_HAS_DTS \<equiv> 1"
abbreviation FL_FRAME_HAS_DURATION :: u32 where "FL_FRAME_HAS_DURATION \<equiv> 2"
abbreviation FL_FRAME_DISCONT :: u32 where "FL_FRAME_DISCONT \<equiv> 4"
abbreviation FrameMetadataFeature :: u32 where "FrameMetadataFeature \<equiv> 1"

definition localFeatures :: "u32 \<Rightarrow> u32" where
  "localFeatures flags =
     FrameMetadataFeature OR (if flags AND FL_REQUIRE_FRAME_METADATA \<noteq> 0 then push_bit 16 FrameMetadataFeature else 0)"

definition compatibleFeatures :: "u32 \<Rightarrow> u32 \<Rightarrow> bool" where
  "compatibleFeatures local peer \<longleftrightarrow>
     drop_bit 16 local AND NOT (peer AND 0xffff) = 0 \<and> drop_bit 16 peer AND NOT (local AND 0xffff) = 0"

definition validateMetadata :: "flFrameMetadata \<Rightarrow> flResult" where
  "validateMetadata m =
     (if md_version m \<noteq> FL_FRAME_METADATA_VERSION then FL_VERSION_MISMATCH
      else if md_flags m AND NOT (FL_FRAME_HAS_DTS OR FL_FRAME_HAS_DURATION OR FL_FRAME_DISCONT) \<noteq> 0 \<or>
        md_reserved0 m \<noteq> 0 \<or> md_reserved1 m \<noteq> 0 \<or> md_streamGeneration m = 0 then FL_INVALID
      else if (if md_flags m AND FL_FRAME_HAS_DTS \<noteq> 0 then sint (md_dtsNs m) < 0 else md_dtsNs m \<noteq> 0) then FL_INVALID
      else if (if md_flags m AND FL_FRAME_HAS_DURATION \<noteq> 0 then md_durationNs m > INT64_MAX else md_durationNs m \<noteq> 0)
        then FL_INVALID
      else FL_OK)"

text \<open>The result is the decoded frame, \<open>None\<close> for a null pointer, and the metadata out-parameter.\<close>
definition decodeFrame :: "Message \<Rightarrow> bool \<Rightarrow> FrameReadyMsg option \<times> flFrameMetadata" where
  "decodeFrame m required =
     (if ms_type m = MsgFrameReady
      then (if \<not> required \<and> length (ms_payload m) = 24 then frame_of (ms_payload m) else None, zero_metadata)
      else if ms_type m \<noteq> MsgFrameReadyMetadata \<or> length (ms_payload m) \<noteq> 64 then (None, zero_metadata)
      else
        let (fr, rest) = get_frame (ms_payload m); (md, _) = get_metadata rest
        in if validateMetadata md \<noteq> FL_OK then (None, zero_metadata) else (Some fr, md))"

definition sendFrame :: "sendmsg \<Rightarrow> IpcChannel \<Rightarrow> FrameReadyMsg \<Rightarrow> flFrameMetadata \<Rightarrow> fd \<Rightarrow> bool \<times> IpcChannel" where
  "sendFrame sendmsg link frame metadata fence =
     (let extended = frame_bytes frame @ metadata_bytes metadata;
          type = (if md_version metadata \<noteq> 0 then MsgFrameReadyMetadata else MsgFrameReady);
          data = (if md_version metadata \<noteq> 0 then extended else frame_bytes frame)
      in sendWithFds sendmsg link type (Some data) (length data)
           (if fence \<ge> 0 then Some [fence] else None) (if fence \<ge> 0 then 1 else 0))"

definition example_metadata :: flFrameMetadata where
  "example_metadata = \<lparr>md_version = 1, md_flags = 5, md_dtsNs = 40, md_durationNs = 0, md_streamGeneration = 2,
     md_reserved0 = 0, md_reserved1 = 0\<rparr>"

section \<open>Lemmas\<close>

lemma length_put_array [simp]: "length (put_array n xs) = n * length xs"
  by (induction xs) (auto simp: put_array_def)

lemma get_put_array [wire_simps]:
  "k = length xs \<Longrightarrow> 8 * n = LENGTH('a) \<Longrightarrow> get_array n k (put_array n (xs :: 'a::len word list) @ p) = (xs, p)"
  by (induction xs arbitrary: k) (auto simp: put_array_def le_get_le_put)

lemma length_struct_bytes [simp]:
  "length (frame_bytes f) = 24" "length (metadata_bytes m) = 40" "length (geometry_bytes g) = 16"
  by (simp_all add: frame_bytes_def metadata_bytes_def geometry_bytes_def)

lemma length_ring_bytes: "ring_shape r \<Longrightarrow> length (ring_bytes r) = 1528"
  by (simp add: ring_bytes_def ring_shape_def)

lemma get_frame_bytes [simp]: "get_frame (frame_bytes f @ p) = (f, p)"
  by (simp add: get_frame_def frame_bytes_def le_get_le_put)

lemma get_metadata_bytes [simp]: "get_metadata (metadata_bytes m @ p) = (m, p)"
  by (simp add: get_metadata_def metadata_bytes_def le_get_le_put)

lemma frame_of_bytes [simp]: "frame_of (frame_bytes f) = Some f"
  using get_frame_bytes [of f "[]"] by (simp add: frame_of_def)

lemma geometry_of_bytes [simp]: "geometry_of (geometry_bytes g) = Some g"
  using le_get_le_put [where xs = "[]" and 'a = 32 and n = 4 and v = "gm_pad g"]
  by (simp add: geometry_of_def geometry_bytes_def le_get_le_put)

lemma hello_of_bytes: "length (hm_luid h) = 8 \<Longrightarrow> hello_of (hello_bytes h) = Some h"
  by (simp add: hello_of_def hello_bytes_def le_get_le_put)

lemma ring_of_bytes:
  assumes "ring_shape r"
  shows "ring_of (ring_bytes r) = Some r"
proof -
  have "get_array 8 64 (put_array 8 (rd_planeOffset r)) = (rd_planeOffset r, [])"
    using get_put_array [of 64 "rd_planeOffset r" 8 "[]"] assms by (simp add: ring_shape_def)
  then show ?thesis
    using length_ring_bytes [OF assms] assms
    by (simp add: ring_of_def) (simp add: ring_bytes_def ring_shape_def le_get_le_put get_put_array)
qed

lemma sendFrame_sent:
  fixes fr :: FrameReadyMsg and md :: flFrameMetadata
  assumes "ic_connected a" "\<forall>bytes rights. sendmsg bytes rights = int (length bytes)"
  defines "data \<equiv> if md_version md \<noteq> 0 then frame_bytes fr @ metadata_bytes md else frame_bytes fr"
  defines "type \<equiv> if md_version md \<noteq> 0 then MsgFrameReadyMetadata else MsgFrameReady"
  shows "sendFrame sendmsg a fr md fence =
    (True, a\<lparr>ic_sent := ic_sent a @ [(ipc_header type (length data) @ data, closing fence)]\<rparr>)"
proof -
  have "length data = (if md_version md \<noteq> 0 then 64 else 24)" by (simp add: data_def)
  then have "data \<noteq> []" by (metis list.size(3) zero_neq_numeral)
  moreover have "length data \<le> 64" by (simp add: data_def)
  ultimately show ?thesis
    using assms(1,2) unfolding sendFrame_def sendWithFds_def
    by (simp add: Let_def closing_def flip: data_def type_def)
qed

lemma decodeFrame_sent:
  assumes "md_version md = 0 \<longrightarrow> md = zero_metadata \<and> \<not> required" "md_version md \<noteq> 0 \<longrightarrow> validateMetadata md = FL_OK"
  shows "decodeFrame \<lparr>ms_type = (if md_version md \<noteq> 0 then MsgFrameReadyMetadata else MsgFrameReady),
      ms_payload = (if md_version md \<noteq> 0 then frame_bytes fr @ metadata_bytes md else frame_bytes fr), ms_fds = fds\<rparr> required =
    (Some fr, md)"
proof (cases "md_version md = 0")
  case True
  then show ?thesis using assms(1) by (simp add: decodeFrame_def)
next
  case False
  have "get_metadata (metadata_bytes md) = (md, [])" using get_metadata_bytes [of md "[]"] by simp
  with False show ?thesis using assms(2) by (simp add: decodeFrame_def)
qed

lemma features_half:
  "drop_bit 16 x AND NOT (y AND 0xffff) = 0 \<longleftrightarrow> (\<forall>i < 16. bit x (i + 16) \<longrightarrow> bit y i)" for x y :: u32
proof -
  have m: "(0xffff :: u32) = mask 16" by (simp add: mask_eq_exp_minus_1)
  have "drop_bit 16 x AND NOT (y AND mask 16) = 0 \<longleftrightarrow>
      (\<forall>i < 32. \<not> (bit x (i + 16) \<and> \<not> (bit y i \<and> i < 16)))"
    by (auto simp: bit_eq_iff bit_and_iff bit_or_iff bit_not_iff bit_drop_bit_eq bit_mask_iff add.commute [of 16])
  also have "\<dots> \<longleftrightarrow> (\<forall>i < 16. bit x (i + 16) \<longrightarrow> bit y i)"
    using bit_imp_le_length [where 'a = 32 and w = x] by force
  finally show ?thesis unfolding m .
qed

lemma localFeatures_bits:
  "bit (localFeatures f) i \<longleftrightarrow> i = 0 \<or> i = 16 \<and> f AND FL_REQUIRE_FRAME_METADATA \<noteq> 0"
proof -
  define w :: u32 where "w = push_bit 16 1"
  have "bit w i \<longleftrightarrow> i = 16" unfolding w_def bit_push_bit_iff by (auto simp: bit_1_iff)
  then show ?thesis unfolding localFeatures_def w_def [symmetric] by (auto simp: bit_or_iff bit_1_iff)
qed

section \<open>Properties\<close>

text \<open>
  A submitted frame arrives as it was submitted.  For a frame without metadata, or with metadata the
  validator accepts, what the producer hands to \<^verbatim>\<open>sendFrame\<close> is what the consumer's \<^verbatim>\<open>recv\<close> and
  \<^verbatim>\<open>decodeFrame\<close> produce: the same slot, ready value and timestamp, the same metadata, and the ready fence as the
  only descriptor, exactly when there is one.
\<close>
theorem frame_roundtrip:
  assumes "ic_connected a" "ic_connected b" "\<forall>bytes rights. sendmsg bytes rights = int (length bytes)"
    "md = zero_metadata \<and> \<not> required \<or> validateMetadata md = FL_OK"
  shows "\<exists>a' d m. sendFrame sendmsg a fr md fence = (True, a') \<and> ic_sent a' = ic_sent a @ [d] \<and>
    ipc_recv (b\<lparr>ic_inbox := delivered d # rest\<rparr>) = (Some m, b\<lparr>ic_inbox := rest\<rparr>, []) \<and>
    decodeFrame m required = (Some fr, md) \<and> ms_fds m = (if fence \<ge> 0 then [fence] else [])"
proof -
  let ?data = "if md_version md \<noteq> 0 then frame_bytes fr @ metadata_bytes md else frame_bytes fr"
  let ?type = "if md_version md \<noteq> 0 then MsgFrameReadyMetadata else MsgFrameReady"
  let ?d = "(ipc_header ?type (length ?data) @ ?data, closing fence)"
  let ?m = "\<lparr>ms_type = ?type, ms_payload = ?data, ms_fds = closing fence\<rparr>"
  have md: "md_version md = 0 \<longrightarrow> md = zero_metadata \<and> \<not> required" "md_version md \<noteq> 0 \<longrightarrow> validateMetadata md = FL_OK"
    using assms(4) by (auto simp: zero_metadata_def validateMetadata_def split: if_splits)
  have "ipc_recv (b\<lparr>ic_inbox := delivered ?d # rest\<rparr>) = (Some ?m, b\<lparr>ic_inbox := rest\<rparr>, [])"
    using recv_delivered [of "b\<lparr>ic_inbox := delivered ?d # rest\<rparr>" ?type ?data "closing fence" rest] assms(2)
    by (simp add: closing_def)
  moreover have "decodeFrame ?m required = (Some fr, md)" by (rule decodeFrame_sent [OF md])
  ultimately show ?thesis
    using sendFrame_sent [OF assms(1,3), of fr md fence]
    by (intro exI [of _ "a\<lparr>ic_sent := ic_sent a @ [?d]\<rparr>"] exI [of _ ?d] exI [of _ ?m]) (simp add: closing_def)
qed

theorem frame_roundtrip_witness:
  "\<exists>d m. ic_sent (snd (sendFrame (\<lambda>bytes rights. int (length bytes)) (ipc_null\<lparr>ic_connected := True\<rparr>)
        zero_frameReady example_metadata 7)) = [d] \<and>
     fst (ipc_recv (ipc_null\<lparr>ic_connected := True, ic_inbox := [delivered d]\<rparr>)) = Some m \<and>
     decodeFrame m True = (Some zero_frameReady, example_metadata) \<and> ms_fds m = [7]"
proof -
  have "validateMetadata example_metadata = FL_OK" by (simp add: validateMetadata_def example_metadata_def)
  then show ?thesis
    using frame_roundtrip [of "ipc_null\<lparr>ic_connected := True\<rparr>" "ipc_null\<lparr>ic_connected := True\<rparr>"
        "\<lambda>bytes rights. int (length bytes)" example_metadata True zero_frameReady 7 "[]"]
    by (auto simp: ipc_null_def)
qed

text \<open>
  Feature negotiation.  Two feature words are compatible exactly when each feature one side requires
  (high half) is one the other side supports (low half).  Two current peers are always compatible, and a legacy peer
  that sends zero is compatible exactly when metadata is not required.
\<close>
theorem feature_negotiation:
  "(compatibleFeatures a b \<longleftrightarrow>
      (\<forall>i < 16. bit a (i + 16) \<longrightarrow> bit b i) \<and> (\<forall>i < 16. bit b (i + 16) \<longrightarrow> bit a i)) \<and>
   compatibleFeatures (localFeatures f) (localFeatures g) \<and>
   (compatibleFeatures (localFeatures f) 0 \<longleftrightarrow> f AND FL_REQUIRE_FRAME_METADATA = 0)"
proof -
  note lf = localFeatures_bits
  have "compatibleFeatures (localFeatures f) (localFeatures g)"
    unfolding compatibleFeatures_def features_half by (auto simp: lf)
  moreover have "compatibleFeatures (localFeatures f) 0 \<longleftrightarrow> f AND FL_REQUIRE_FRAME_METADATA = 0"
    unfolding compatibleFeatures_def features_half by (auto simp: lf dest: spec [of _ 0])
  ultimately show ?thesis unfolding compatibleFeatures_def features_half by blast
qed

theorem feature_negotiation_witness:
  "compatibleFeatures (localFeatures FL_REQUIRE_FRAME_METADATA) (localFeatures 0) \<and>
   \<not> compatibleFeatures (localFeatures FL_REQUIRE_FRAME_METADATA) 0"
  using feature_negotiation [of 0 0 FL_REQUIRE_FRAME_METADATA 0] by simp

end
