(* ===== verification/FL_Layout.thy ===== *)
theory FL_Layout
  imports FL_Prelude
begin

text \<open>
  Geometry and plane arithmetic, \<^verbatim>\<open>src/fl_layout.h\<close>, and the format table of the Linux
  backend.  A format is the raw 32-bit enumeration value, because the code casts unchecked wire
  fields to \<^verbatim>\<open>flFormat\<close>.
\<close>

type_synonym flFormat = u32


definition validGeometry :: "u32 \<Rightarrow> u32 \<Rightarrow> flFormat \<Rightarrow> bool" where
  "validGeometry w h f \<longleftrightarrow> w \<noteq> 0 \<and> h \<noteq> 0 \<and> w \<le> 8192 \<and> h \<le> 8192 \<and>
     (f \<noteq> FL_FORMAT_NV12 \<or> (w AND 1 = 0 \<and> h AND 1 = 0))"

definition planeFits :: "u64 \<Rightarrow> u64 \<Rightarrow> u64 \<Rightarrow> u64 \<Rightarrow> u64 \<Rightarrow> bool" where
  "planeFits sz offset stride rows rowBytes \<longleftrightarrow>
     (if rows = 0 \<or> rowBytes = 0 \<or> stride < rowBytes \<or> offset > sz then False
      else if rows - 1 \<noteq> 0 \<and> stride > (UINT64_MAX - rowBytes) div (rows - 1) then False
      else (rows - 1) * stride + rowBytes \<le> sz - offset)"

section \<open>Lemmas\<close>

lemma unat_max64: "unat UINT64_MAX = 2 ^ 64 - 1"
  by (simp add: unsigned_minus_1_eq_mask mask_eq_exp_minus_1)

lemma unat_less64: "unat (a :: u64) \<le> 2 ^ 64 - 1"
  using unsigned_less [of a, where ?'a = nat] by simp

lemma no_overflow_bound:
  assumes "(R::nat) \<noteq> 0"
  shows "S > (M - b) div R \<longleftrightarrow> R * S > M - b"
  using assms by (metis div_less_iff_less_mult mult.commute neq0_conv)

text \<open>
  \<^verbatim>\<open>planeFits\<close> is exact: it accepts a plane if and only if the plane is non-empty, its rows do
  not overlap, and the mathematical end of its last row lies inside the buffer.  In particular the
  guard against 64-bit overflow never accepts a wrapped product and never refuses one that fits.
\<close>
theorem planeFits_exact:
  "planeFits sz offset stride rows rowBytes \<longleftrightarrow>
     rows \<noteq> 0 \<and> rowBytes \<noteq> 0 \<and> rowBytes \<le> stride \<and>
     unat offset + (unat rows - 1) * unat stride + unat rowBytes \<le> unat sz"
proof (cases "rows = 0 \<or> rowBytes = 0 \<or> stride < rowBytes \<or> offset > sz")
  case True
  then show ?thesis
    by (auto simp: planeFits_def word_less_nat_alt word_le_nat_alt)
next
  case False
  let ?R = "unat rows - 1" and ?S = "unat stride" and ?b = "unat rowBytes" and ?M = "2 ^ 64 - 1 :: nat"
  have R: "unat (rows - 1) = ?R" using False by (metis One_nat_def unat_minus_one)
  have M: "unat (UINT64_MAX - rowBytes) = ?M - ?b"
    using unat_max64 unat_less64 [of rowBytes] by (simp add: unat_sub word_le_nat_alt)
  have so: "unat (sz - offset) = unat sz - unat offset" using False by (simp add: unat_sub not_less)
  have guard: "(rows - 1 \<noteq> 0 \<and> stride > (UINT64_MAX - rowBytes) div (rows - 1)) \<longleftrightarrow> ?R * ?S > ?M - ?b"
  proof (cases "rows - 1 = 0")
    case True
    then have "?R = 0" using R by simp
    with True show ?thesis by simp
  next
    case nz: False
    then have "?R \<noteq> 0" using R by (metis unat_eq_zero)
    have "stride > (UINT64_MAX - rowBytes) div (rows - 1) \<longleftrightarrow> (?M - ?b) div ?R < ?S"
      by (simp only: word_less_nat_alt unat_div M R)
    also have "\<dots> \<longleftrightarrow> ?R * ?S > ?M - ?b" using \<open>?R \<noteq> 0\<close> by (rule no_overflow_bound)
    finally show ?thesis using nz by simp
  qed
  show ?thesis
  proof (cases "?R * ?S > ?M - ?b")
    case True
    then have "\<not> unat offset + ?R * ?S + ?b \<le> unat sz" using unat_less64 [of sz] by linarith
    with True False guard show ?thesis unfolding planeFits_def by auto
  next
    case fits: False
    then have small: "?R * ?S + ?b < 2 ^ 64" using unat_less64 [of rowBytes] by simp
    have "unat ((rows - 1) * stride + rowBytes) = ?R * ?S + ?b"
      using small by (simp add: unat_add64 unat_mult64 R)
    then have "(rows - 1) * stride + rowBytes \<le> sz - offset \<longleftrightarrow> ?R * ?S + ?b \<le> unat sz - unat offset"
      by (simp only: word_le_nat_alt so)
    moreover have "unat offset \<le> unat sz" using False by (simp add: word_le_nat_alt not_less)
    ultimately show ?thesis using False fits guard unfolding planeFits_def by auto
  qed
qed

end
