(* ===== verification/FL_Image.thy ===== *)
theory FL_Image
  imports FL_Layout FL_SyncFd
begin

text \<open>
  Ring images of the Linux backend: the dma-buf descriptor of \<^verbatim>\<open>include/framelink_dmabuf.h\<close>, \<^verbatim>\<open>struct flImage\<close>,
  and CPU mapping (\<^verbatim>\<open>flImageMapPlanes\<close>, \<^verbatim>\<open>flImageMap\<close>, \<^verbatim>\<open>flImageUnmap\<close>, \<^verbatim>\<open>freeImage\<close>).  The answers of \<^verbatim>\<open>fstat\<close>,
  \<^verbatim>\<open>mmap\<close> and the dma-buf synchronisation call are parameters.  An image is identified by its address.
\<close>

section \<open>Data\<close>

abbreviation DRM_FORMAT_ARGB8888 :: u32 where "DRM_FORMAT_ARGB8888 \<equiv> 0x34325241"
abbreviation DRM_FORMAT_NV12 :: u32 where "DRM_FORMAT_NV12 \<equiv> 0x3231564E"
abbreviation DRM_FORMAT_ABGR8888 :: u32 where "DRM_FORMAT_ABGR8888 \<equiv> 0x34324241"
abbreviation DRM_FORMAT_ABGR2101010 :: u32 where "DRM_FORMAT_ABGR2101010 \<equiv> 0x30334241"
abbreviation DRM_FORMAT_MOD_LINEAR :: u64 where "DRM_FORMAT_MOD_LINEAR \<equiv> 0"

record flDmabuf =
  db_fd :: "fd list"
  db_offset :: "u64 list"
  db_stride :: "u64 list"
  db_planes :: u32
  db_fourcc :: u32
  db_modifier :: u64

record flMappedPlane =
  mp_pixels :: nat
  mp_stride :: u64
  mp_rowBytes :: u32
  mp_rows :: u32

record flMappedImage =
  mi_planes :: u32
  mi_plane :: "flMappedPlane list"

record flImageRec =
  im_addr :: nat
  im_bo :: bool
  im_desc :: flDmabuf
  im_width :: u32
  im_height :: u32
  im_usageKnown :: bool
  im_usage :: u32
  im_planeMaps :: "nat option list"
  im_planeLengths :: "u64 list"
  im_planeView :: flMappedImage

definition zero_plane :: flMappedPlane where
  "zero_plane = \<lparr>mp_pixels = 0, mp_stride = 0, mp_rowBytes = 0, mp_rows = 0\<rparr>"

definition zero_view :: flMappedImage where
  "zero_view = \<lparr>mi_planes = 0, mi_plane = replicate 4 zero_plane\<rparr>"

definition zero_dmabuf :: flDmabuf where
  "zero_dmabuf = \<lparr>db_fd = replicate 4 0, db_offset = replicate 4 0, db_stride = replicate 4 0, db_planes = 0,
     db_fourcc = 0, db_modifier = 0\<rparr>"

text \<open>\<^verbatim>\<open>new flImage()\<close> at an address.\<close>
definition new_image :: "nat \<Rightarrow> flImageRec" where
  "new_image a = \<lparr>im_addr = a, im_bo = False, im_desc = zero_dmabuf, im_width = 0, im_height = 0, im_usageKnown = False,
     im_usage = 0, im_planeMaps = replicate 4 None, im_planeLengths = replicate 4 0, im_planeView = zero_view\<rparr>"

text \<open>What the kernel answers for a descriptor: its size, where it is mapped, whether the sync call succeeds.\<close>
record MapEnv =
  me_size :: "fd \<Rightarrow> int option"
  me_mmap :: "fd \<Rightarrow> nat option"
  me_sync :: "fd \<Rightarrow> bool"

section \<open>Operations\<close>

definition fourccFor :: "flFormat \<Rightarrow> u32" where
  "fourccFor f = (if f = FL_FORMAT_BGRA8 then DRM_FORMAT_ARGB8888 else if f = FL_FORMAT_NV12 then DRM_FORMAT_NV12
     else if f = FL_FORMAT_RGBA8 then DRM_FORMAT_ABGR8888 else if f = FL_FORMAT_RGB10A2 then DRM_FORMAT_ABGR2101010 else 0)"

text \<open>The result is the image and the mappings removed, each an address and a length.\<close>
definition flImageUnmap :: "flImageRec \<Rightarrow> flImageRec \<times> (nat \<times> u64) list" where
  "flImageUnmap img =
     (img\<lparr>im_planeMaps := map (\<lambda>m. None) (im_planeMaps img),
          im_planeLengths := map2 (\<lambda>m n. case m of None \<Rightarrow> n | Some _ \<Rightarrow> 0) (im_planeMaps img) (im_planeLengths img),
          im_planeView := zero_view\<rparr>,
      map (\<lambda>(m, n). (the m, n)) (filter (\<lambda>(m, n). m \<noteq> None) (zip (im_planeMaps img) (im_planeLengths img))))"

text \<open>The descriptors an image closes when it is freed, planes in order.\<close>
definition freeImage :: "flImageRec \<Rightarrow> fd list" where
  "freeImage img = concat (map closing (take (unat (db_planes (im_desc img))) (db_fd (im_desc img))))"

definition map_planes :: "flImageRec \<Rightarrow> nat" where
  "map_planes img = (if db_fourcc (im_desc img) = DRM_FORMAT_NV12 then 2 else 1)"

definition plane_rows :: "flImageRec \<Rightarrow> nat \<Rightarrow> u32" where
  "plane_rows img p = (if p \<noteq> 0 then im_height img div 2 else im_height img)"

definition plane_bytes :: "flImageRec \<Rightarrow> u32" where
  "plane_bytes img = (if map_planes img = 2 then im_width img else im_width img * 4)"

text \<open>Recording a mapped plane in the image.\<close>
definition put_plane :: "flImageRec \<Rightarrow> nat \<Rightarrow> nat \<Rightarrow> u64 \<Rightarrow> flImageRec" where
  "put_plane img p base len =
     img\<lparr>im_planeMaps := (im_planeMaps img)[p := Some base],
         im_planeLengths := (im_planeLengths img)[p := len],
         im_planeView := (im_planeView img)\<lparr>mi_plane := (mi_plane (im_planeView img))
           [p := \<lparr>mp_pixels = base + unat (db_offset (im_desc img) ! p),
                 mp_stride = db_stride (im_desc img) ! p, mp_rowBytes = plane_bytes img, mp_rows = plane_rows img p\<rparr>]\<rparr>\<rparr>"

text \<open>
  The loop over the planes from plane \<open>p\<close>, \<open>n\<close> to go.  An early return unmaps what was mapped so far; the last
  component collects the mappings removed.
\<close>
fun map_loop :: "MapEnv \<Rightarrow> nat \<Rightarrow> nat \<Rightarrow> flImageRec \<Rightarrow> flResult \<times> flImageRec \<times> (nat \<times> u64) list" where
  "map_loop env 0 p img = (FL_OK, img, [])"
| "map_loop env (Suc n) p img =
     (let fd = db_fd (im_desc img) ! p; rows = plane_rows img p; bytes = plane_bytes img
      in case me_size env fd of
           None \<Rightarrow> (let (img', gone) = flImageUnmap img in (FL_INVALID, img', gone))
         | Some sz \<Rightarrow>
             if sz \<le> 0 \<or> \<not> planeFits (of_int sz) (db_offset (im_desc img) ! p) (db_stride (im_desc img) ! p)
                  (ucast rows) (ucast bytes)
             then (let (img', gone) = flImageUnmap img in (FL_INVALID, img', gone))
             else case me_mmap env fd of
                 None \<Rightarrow> (let (img', gone) = flImageUnmap img in (FL_FORMAT_UNSUPPORTED, img', gone))
               | Some base \<Rightarrow>
                   if \<not> me_sync env fd
                   then (let (img', gone) = flImageUnmap img in (FL_INTERNAL, img', (base, of_int sz) # gone))
                   else map_loop env n (Suc p) (put_plane img p base (of_int sz)))"

definition flImageMapPlanes ::
  "MapEnv \<Rightarrow> flImageRec \<Rightarrow> flMappedImage option \<Rightarrow> flResult \<times> flImageRec \<times> flMappedImage option \<times> (nat \<times> u64) list" where
  "flImageMapPlanes env img out =
     (if out = None then (FL_INVALID, img, out, [])
      else if db_modifier (im_desc img) \<noteq> DRM_FORMAT_MOD_LINEAR then (FL_FORMAT_UNSUPPORTED, img, Some zero_view, [])
      else if mi_planes (im_planeView img) \<noteq> 0 then (FL_OK, img, Some (im_planeView img), [])
      else
        let (r, img', gone) = map_loop env (map_planes img) 0 img
        in if r \<noteq> FL_OK then (r, img', Some zero_view, gone)
           else
             let img'' = img'\<lparr>im_planeView := (im_planeView img')\<lparr>mi_planes := of_nat (map_planes img)\<rparr>\<rparr>
             in (FL_OK, img'', Some (im_planeView img''), gone))"

text \<open>Pixels and stride are cells; the stride pointer may be null.\<close>
definition flImageMap ::
  "MapEnv \<Rightarrow> flImageRec \<Rightarrow> nat option option \<Rightarrow> u64 option \<Rightarrow>
   flResult \<times> flImageRec \<times> nat option option \<times> u64 option \<times> (nat \<times> u64) list" where
  "flImageMap env img pixels stride =
     (if pixels = None then (FL_INVALID, img, pixels, stride, [])
      else if db_fourcc (im_desc img) = DRM_FORMAT_NV12 then (FL_FORMAT_UNSUPPORTED, img, Some None, stride, [])
      else
        let (r, img', view, gone) = flImageMapPlanes env img (Some zero_view)
        in if r = FL_OK
           then (r, img', Some (Some (mp_pixels (mi_plane (the view) ! 0))), assign stride (mp_stride (mi_plane (the view) ! 0)), gone)
           else (r, img', Some None, stride, gone))"

definition flImageDmabuf :: "flImageRec \<Rightarrow> flDmabuf option \<Rightarrow> flResult \<times> flDmabuf option" where
  "flImageDmabuf img out = (if out = None then (FL_INVALID, out) else (FL_OK, Some (im_desc img)))"

text \<open>Shape of an image's arrays; an image that is not mapped holds no mapping.\<close>
definition image_shape :: "flImageRec \<Rightarrow> bool" where
  "image_shape img \<longleftrightarrow> length (db_fd (im_desc img)) = 4 \<and> length (db_offset (im_desc img)) = 4 \<and>
     length (db_stride (im_desc img)) = 4 \<and> length (im_planeMaps img) = 4 \<and> length (im_planeLengths img) = 4 \<and>
     length (mi_plane (im_planeView img)) = 4"

definition image_unmapped :: "flImageRec \<Rightarrow> bool" where
  "image_unmapped img \<longleftrightarrow> im_planeMaps img = replicate 4 None \<and> mi_planes (im_planeView img) = 0"

text \<open>Plane \<open>p\<close> of the image is mapped and its view lies inside the mapping.\<close>
definition plane_inside :: "flImageRec \<Rightarrow> nat \<Rightarrow> bool" where
  "plane_inside img p \<longleftrightarrow>
     (case im_planeMaps img ! p of
        None \<Rightarrow> False
      | Some base \<Rightarrow>
          let v = mi_plane (im_planeView img) ! p
          in base \<le> mp_pixels v \<and> mp_rows v \<noteq> 0 \<and> unat (mp_rowBytes v) \<le> unat (mp_stride v) \<and>
             mp_pixels v + (unat (mp_rows v) - 1) * unat (mp_stride v) + unat (mp_rowBytes v) \<le>
               base + unat (im_planeLengths img ! p))"

definition same_plane :: "flImageRec \<Rightarrow> flImageRec \<Rightarrow> nat \<Rightarrow> bool" where
  "same_plane a b q \<longleftrightarrow> im_planeMaps a ! q = im_planeMaps b ! q \<and> im_planeLengths a ! q = im_planeLengths b ! q \<and>
     mi_plane (im_planeView a) ! q = mi_plane (im_planeView b) ! q"

definition example_image :: flImageRec where
  "example_image = (new_image 100)\<lparr>im_desc := \<lparr>db_fd = [5, 6, -1, -1], db_offset = [0, 64, 0, 0], db_stride = [8, 8, 0, 0],
     db_planes = 2, db_fourcc = DRM_FORMAT_NV12, db_modifier = 0\<rparr>, im_width := 8, im_height := 8\<rparr>"

definition example_map_env :: MapEnv where
  "example_map_env = \<lparr>me_size = (\<lambda>fd. Some 96), me_mmap = (\<lambda>fd. Some (nat fd)), me_sync = (\<lambda>fd. True)\<rparr>"

section \<open>Lemmas\<close>

lemma flImageUnmap_shape: "image_shape img \<Longrightarrow> image_shape (fst (flImageUnmap img)) \<and> image_unmapped (fst (flImageUnmap img))"
  by (auto simp: flImageUnmap_def image_shape_def image_unmapped_def zero_view_def map_replicate_const)

lemma put_plane_fields [simp]:
  "im_desc (put_plane img p base len) = im_desc img" "im_width (put_plane img p base len) = im_width img"
  "im_height (put_plane img p base len) = im_height img"
  "mi_planes (im_planeView (put_plane img p base len)) = mi_planes (im_planeView img)"
  by (simp_all add: put_plane_def)

lemma put_plane_shape: "image_shape img \<Longrightarrow> image_shape (put_plane img p base len)"
  by (simp add: image_shape_def put_plane_def)

lemma flImageUnmap_desc: "im_desc (fst (flImageUnmap img)) = im_desc img"
  by (simp add: flImageUnmap_def)

text \<open>One plane: the loop either stops, with everything unmapped, or records the plane and goes on.\<close>

lemma map_loop_step:
  assumes "map_loop env (Suc n) p img = (r, img', gone)"
  shows "(r \<noteq> FL_OK \<and> img' = fst (flImageUnmap img)) \<or>
    (\<exists>sz base. 0 < sz \<and> planeFits (of_int sz) (db_offset (im_desc img) ! p) (db_stride (im_desc img) ! p)
        (ucast (plane_rows img p)) (ucast (plane_bytes img)) \<and>
      map_loop env n (Suc p) (put_plane img p base (of_int sz)) = (r, img', gone))"
  using assms by (auto simp: Let_def split: option.splits if_splits prod.splits)

lemma map_loop_failed:
  "map_loop env n p img = (r, img', gone) \<Longrightarrow> image_shape img \<Longrightarrow>
   image_shape img' \<and> im_desc img' = im_desc img \<and> (r \<noteq> FL_OK \<longrightarrow> image_unmapped img')"
proof (induction n arbitrary: p img)
  case (Suc n)
  from map_loop_step [OF Suc.prems(1)] show ?case
  proof
    assume "r \<noteq> FL_OK \<and> img' = fst (flImageUnmap img)"
    then show ?thesis using flImageUnmap_shape [OF Suc.prems(2)] flImageUnmap_desc by simp
  next
    assume "\<exists>sz base. 0 < sz \<and> planeFits (of_int sz) (db_offset (im_desc img) ! p) (db_stride (im_desc img) ! p)
        (ucast (plane_rows img p)) (ucast (plane_bytes img)) \<and>
      map_loop env n (Suc p) (put_plane img p base (of_int sz)) = (r, img', gone)"
    then show ?thesis using Suc.IH put_plane_shape [OF Suc.prems(2)] by fastforce
  qed
qed auto

lemma put_plane_inside:
  assumes "image_shape img" "p < 4" "planeFits len (db_offset (im_desc img) ! p) (db_stride (im_desc img) ! p)
      (ucast (plane_rows img p)) (ucast (plane_bytes img))"
  shows "plane_inside (put_plane img p base len) p"
proof -
  have u: "unat (ucast (w :: u32) :: u64) = unat w" for w by simp
  from assms(3) [unfolded planeFits_exact]
  have f: "(ucast (plane_rows img p) :: u64) \<noteq> 0" "(ucast (plane_bytes img) :: u64) \<le> db_stride (im_desc img) ! p"
    "unat (db_offset (im_desc img) ! p) + (unat (plane_rows img p) - 1) * unat (db_stride (im_desc img) ! p) +
      unat (plane_bytes img) \<le> unat len" by (auto simp only: u)
  moreover have "plane_rows img p \<noteq> 0" using f(1) by auto
  moreover have "unat (plane_bytes img) \<le> unat (db_stride (im_desc img) ! p)"
    using f(2) by (simp only: word_le_nat_alt u)
  ultimately show ?thesis using assms(1,2) by (simp add: plane_inside_def put_plane_def image_shape_def Let_def)
qed

lemma same_plane_inside: "same_plane a b q \<Longrightarrow> plane_inside a q = plane_inside b q"
  by (auto simp: same_plane_def plane_inside_def Let_def split: option.splits)

lemma map_loop_ok:
  "map_loop env n p img = (FL_OK, img', gone) \<Longrightarrow> image_shape img \<Longrightarrow> p + n \<le> 4 \<Longrightarrow>
   (\<forall>q < p. same_plane img' img q) \<and> (\<forall>q. p \<le> q \<and> q < p + n \<longrightarrow> plane_inside img' q)"
proof (induction n arbitrary: p img)
  case (Suc n)
  obtain sz base where f: "planeFits (of_int sz) (db_offset (im_desc img) ! p) (db_stride (im_desc img) ! p)
        (ucast (plane_rows img p)) (ucast (plane_bytes img))"
    and l: "map_loop env n (Suc p) (put_plane img p base (of_int sz)) = (FL_OK, img', gone)"
    using map_loop_step [OF Suc.prems(1)] by auto
  let ?i = "put_plane img p base (of_int sz)"
  have ih: "\<forall>q < Suc p. same_plane img' ?i q" "\<forall>q. Suc p \<le> q \<and> q < Suc p + n \<longrightarrow> plane_inside img' q"
    using Suc.IH [OF l put_plane_shape [OF Suc.prems(2)]] Suc.prems(3) by auto
  have "plane_inside img' p"
    using put_plane_inside [OF Suc.prems(2) _ f] same_plane_inside ih(1) Suc.prems(3) by auto
  have "same_plane ?i img q" if "q < p" for q using that by (simp add: same_plane_def put_plane_def)
  then have "same_plane img' img q" if "q < p" for q using that ih(1) by (auto simp: same_plane_def)
  moreover have "plane_inside img' q" if "p \<le> q" "q < p + Suc n" for q
    using that ih(2) \<open>plane_inside img' p\<close> by (cases "q = p") auto
  ultimately show ?case by blast
qed (auto simp: same_plane_def)

section \<open>Properties\<close>

text \<open>
  Mapped planes stay inside their mapping.  When mapping an unmapped image succeeds, every plane the
  caller receives lies inside the memory mapped for it: the last byte of its last row is before the end of
  the mapping, computed without overflow.  When it fails, nothing stays mapped and the caller gets no plane.
\<close>
theorem mapped_planes_inside:
  assumes "image_shape img" "image_unmapped img" "flImageMapPlanes env img (Some old) = (r, img', Some view, gone)"
  shows "(r = FL_OK \<longrightarrow> view = im_planeView img' \<and> unat (mi_planes view) = map_planes img \<and>
      (\<forall>p < unat (mi_planes view). plane_inside img' p)) \<and>
    (r \<noteq> FL_OK \<longrightarrow> image_unmapped img' \<and> view = zero_view)"
proof (cases "db_modifier (im_desc img) \<noteq> DRM_FORMAT_MOD_LINEAR")
  case True
  then show ?thesis using assms by (auto simp: flImageMapPlanes_def)
next
  case False
  obtain r1 img1 gone1 where l: "map_loop env (map_planes img) 0 img = (r1, img1, gone1)"
    by (cases "map_loop env (map_planes img) 0 img") auto
  have n: "map_planes img \<le> 2" by (simp add: map_planes_def)
  have un: "unat (of_nat (map_planes img) :: u32) = map_planes img" by (simp add: map_planes_def)
  have e: "flImageMapPlanes env img (Some old) =
      (if r1 \<noteq> FL_OK then (r1, img1, Some zero_view, gone1)
       else (FL_OK, img1\<lparr>im_planeView := (im_planeView img1)\<lparr>mi_planes := of_nat (map_planes img)\<rparr>\<rparr>,
         Some ((im_planeView img1)\<lparr>mi_planes := of_nat (map_planes img)\<rparr>), gone1))"
    using False assms(2) l by (simp add: flImageMapPlanes_def image_unmapped_def)
  show ?thesis
  proof (cases "r1 = FL_OK")
    case True
    have "plane_inside img1 q" if "q < map_planes img" for q
      using map_loop_ok [OF l [unfolded True] assms(1)] n that by simp
    moreover have "plane_inside (img1\<lparr>im_planeView := (im_planeView img1)\<lparr>mi_planes := m\<rparr>\<rparr>) q = plane_inside img1 q" for q m
      by (rule same_plane_inside) (simp add: same_plane_def)
    ultimately show ?thesis using e True assms(3) un by auto
  next
    case False
    then show ?thesis using e assms map_loop_failed [OF l assms(1)] by auto
  qed
qed

theorem mapped_planes_inside_witness:
  "\<exists>img' view. flImageMapPlanes example_map_env example_image (Some zero_view) = (FL_OK, img', Some view, []) \<and>
    mi_planes view = 2 \<and> plane_inside img' 0 \<and> plane_inside img' 1"
proof -
  have "fst (flImageMapPlanes example_map_env example_image (Some zero_view)) = FL_OK"
    "snd (snd (snd (flImageMapPlanes example_map_env example_image (Some zero_view)))) = []"
    "fst (snd (snd (flImageMapPlanes example_map_env example_image (Some zero_view)))) \<noteq> None" by code_simp+
  then obtain img' view where e: "flImageMapPlanes example_map_env example_image (Some zero_view) = (FL_OK, img', Some view, [])"
    by (cases "flImageMapPlanes example_map_env example_image (Some zero_view)") auto
  have "image_shape example_image" "image_unmapped example_image" "map_planes example_image = 2" by code_simp+
  with mapped_planes_inside [OF _ _ e] have "unat (mi_planes view) = 2" "\<forall>p < 2. plane_inside img' p" by auto
  moreover have "mi_planes view = 2" using calculation(1) by (simp add: word_unat_eq_iff)
  ultimately show ?thesis using e by auto
qed

end
