(* ===== verification/FL_Channel.thy ===== *)
theory FL_Channel
  imports FL_ReadLedger FL_BufferRefs FL_Protocol FL_Image
begin

text \<open>
  The channel object of the Linux backend, \<^verbatim>\<open>struct flChannel\<close> of \<^verbatim>\<open>src/framelink_linux.cpp\<close>, and its ring:
  allocation (\<^verbatim>\<open>reallocRing\<close>), adoption of external buffers (\<^verbatim>\<open>adoptRing\<close>), hand-over to a producer
  (\<^verbatim>\<open>handOverRing\<close>) and import on the producer side (\<^verbatim>\<open>importRing\<close>).  The kernel, the GBM library and the
  allocator are the record \<open>Env\<close> of answers.  \<open>ch_closed\<close> logs the descriptors the channel has closed.
\<close>

section \<open>Data\<close>

abbreviation FL_VERSION :: u32 where "FL_VERSION \<equiv> 6"
abbreviation GBM_BO_USE_RENDERING :: u32 where "GBM_BO_USE_RENDERING \<equiv> 4"
abbreviation GBM_BO_USE_LINEAR :: u32 where "GBM_BO_USE_LINEAR \<equiv> 16"

record flChannelInfo =
  ci_version :: u32
  ci_width :: u32
  ci_height :: u32
  ci_format :: flFormat
  ci_poolSize :: u32
  ci_generation :: u64

record flBuffer =
  bf_slot :: u32
  bf_image :: flImage

record LeaseCompletion =
  lc_token :: u64
  lc_fd :: fd

record flChannel =
  ch_isConsumer :: bool
  ch_externalPool :: bool
  ch_name :: string
  ch_info :: flChannelInfo
  ch_flags :: u32
  ch_peerFeatures :: u32
  ch_bufferReferences :: BufferReferences
  ch_slotMetadata :: "flFrameMetadata list"
  ch_pendingMetadata :: flFrameMetadata
  ch_heldMetadata :: flFrameMetadata
  ch_images :: "flImageRec list"
  ch_sync :: SyncFds
  ch_submittingSlot :: u32
  ch_submittingValue :: u64
  ch_readyValue :: u64
  ch_peer :: IpcChannel
  ch_peerGone :: bool
  ch_hasPending :: bool
  ch_readers :: ReadLedger
  ch_leaseCompletions :: "LeaseCompletion list"
  ch_frameHeld :: bool
  ch_heldReady :: u64
  ch_retiredValue :: u64
  ch_heldSlot :: u32
  ch_pendingSlot :: u32
  ch_pendingReady :: u64
  ch_pendingPts :: i64
  ch_pendingArrival :: u64
  ch_heldArrival :: u64
  ch_sequence :: u64
  ch_link :: IpcChannel
  ch_slotSubmitValue :: "u64 list"
  ch_consumedValue :: u64
  ch_closed :: "fd list"

text \<open>A buffer object of the GBM library, as its accessors describe it.\<close>
record GbmBo =
  gb_width :: u32
  gb_height :: u32
  gb_planes :: u32
  gb_format :: u32
  gb_modifier :: u64
  gb_fd :: "nat \<Rightarrow> fd"
  gb_stride :: "nat \<Rightarrow> u64"
  gb_offset :: "nat \<Rightarrow> u64"

text \<open>
  What the environment answers: whether a fence has signalled, the return value of \<^verbatim>\<open>sendmsg\<close>, duplicated
  descriptors, the arrival clock, the address of the \<open>i\<close>-th new image, buffer creation (width, height, format, usage, slot),
  buffer import (descriptor, usage), and size, device and inode of a descriptor.
\<close>
record Env =
  en_signalled :: "fd \<Rightarrow> bool"
  en_sendmsg :: sendmsg
  en_dup :: "fd \<Rightarrow> fd"
  en_now :: u64
  en_alloc :: "nat \<Rightarrow> nat"
  en_bo_create :: "u32 \<Rightarrow> u32 \<Rightarrow> u32 \<Rightarrow> u32 \<Rightarrow> nat \<Rightarrow> GbmBo option"
  en_bo_import :: "flDmabuf \<Rightarrow> u32 \<Rightarrow> GbmBo option"
  en_stat :: "fd \<Rightarrow> (int \<times> nat \<times> nat) option"

text \<open>\<^verbatim>\<open>new flChannel()\<close>\<close>
definition new_channel :: flChannel where
  "new_channel = \<lparr>ch_isConsumer = False, ch_externalPool = False, ch_name = [],
     ch_info = \<lparr>ci_version = 0, ci_width = 0, ci_height = 0, ci_format = 0, ci_poolSize = 0, ci_generation = 0\<rparr>,
     ch_flags = 0, ch_peerFeatures = 0, ch_bufferReferences = refs_init, ch_slotMetadata = replicate 16 zero_metadata,
     ch_pendingMetadata = zero_metadata, ch_heldMetadata = zero_metadata, ch_images = [], ch_sync = sync_init,
     ch_submittingSlot = UINT32_MAX, ch_submittingValue = 0, ch_readyValue = 0, ch_peer = ipc_null, ch_peerGone = False,
     ch_hasPending = False, ch_readers = ledger_init, ch_leaseCompletions = replicate 256 \<lparr>lc_token = 0, lc_fd = -1\<rparr>,
     ch_frameHeld = False, ch_heldReady = 0, ch_retiredValue = 0, ch_heldSlot = 0, ch_pendingSlot = 0, ch_pendingReady = 0,
     ch_pendingPts = -1, ch_pendingArrival = 0, ch_heldArrival = 0, ch_sequence = 0, ch_link = ipc_null,
     ch_slotSubmitValue = [], ch_consumedValue = 0, ch_closed = []\<rparr>"

section \<open>Shared steps\<close>

definition log_closed :: "fd list \<Rightarrow> flChannel \<Rightarrow> flChannel" where
  "log_closed fds ch = ch\<lparr>ch_closed := ch_closed ch @ fds\<rparr>"

text \<open>\<^verbatim>\<open>ch->sync.advance(ch->retiredValue)\<close> and \<^verbatim>\<open>ch->sync.advance(ch->consumedValue)\<close>\<close>
definition advance_retired :: "Env \<Rightarrow> flChannel \<Rightarrow> flChannel" where
  "advance_retired env ch =
     (let (sy, v, closed) = sync_advance (en_signalled env) (ch_sync ch) (ch_retiredValue ch)
      in log_closed closed (ch\<lparr>ch_sync := sy, ch_retiredValue := v\<rparr>))"

definition advance_consumed :: "Env \<Rightarrow> flChannel \<Rightarrow> flChannel" where
  "advance_consumed env ch =
     (let (sy, v, closed) = sync_advance (en_signalled env) (ch_sync ch) (ch_consumedValue ch)
      in log_closed closed (ch\<lparr>ch_sync := sy, ch_consumedValue := v\<rparr>))"

definition clear_sync :: "flChannel \<Rightarrow> flChannel" where
  "clear_sync ch = (let (sy, closed) = sync_clear (ch_sync ch) in log_closed closed (ch\<lparr>ch_sync := sy\<rparr>))"

text \<open>The plane count and the bytes of a row that a format needs.\<close>
definition format_planes :: "flFormat \<Rightarrow> nat" where
  "format_planes f = (if f = FL_FORMAT_NV12 then 2 else 1)"

definition row_bytes :: "flFormat \<Rightarrow> u32 \<Rightarrow> u64" where
  "row_bytes f w = (if f = FL_FORMAT_NV12 then ucast w else ucast w * 4)"

section \<open>Hand-over and import\<close>

definition pad :: "nat \<Rightarrow> 'a \<Rightarrow> 'a list \<Rightarrow> 'a list" where
  "pad n z xs = take n (xs @ replicate n z)"

text \<open>Planes of one image in the flat plane arrays, and its descriptors.\<close>
definition image_planes :: "(flDmabuf \<Rightarrow> 'a list) \<Rightarrow> flImageRec \<Rightarrow> 'a list" where
  "image_planes sel img = take (unat (db_planes (im_desc img))) (sel (im_desc img))"

definition ring_desc :: "flChannel \<Rightarrow> RingDescMsg" where
  "ring_desc ch = zero_ringDesc\<lparr>
     rd_generation := ci_generation (ch_info ch), rd_width := ci_width (ch_info ch), rd_height := ci_height (ch_info ch),
     rd_format := ci_format (ch_info ch), rd_poolSize := of_nat (length (ch_images ch)),
     rd_fourcc := db_fourcc (im_desc (ch_images ch ! 0)), rd_modifier := db_modifier (im_desc (ch_images ch ! 0)),
     rd_stride := pad 16 0 (map (\<lambda>img. db_stride (im_desc img) ! 0) (ch_images ch)),
     rd_offset := pad 16 0 (map (\<lambda>img. db_offset (im_desc img) ! 0) (ch_images ch)),
     rd_planeCount := pad 16 0 (map (\<lambda>img. db_planes (im_desc img)) (ch_images ch)),
     rd_planeStride := pad 64 0 (concat (map (\<lambda>img. pad 4 0 (image_planes db_stride img)) (ch_images ch))),
     rd_planeOffset := pad 64 0 (concat (map (\<lambda>img. pad 4 0 (image_planes db_offset img)) (ch_images ch)))\<rparr>"

definition ring_fds :: "flChannel \<Rightarrow> fd list" where
  "ring_fds ch = concat (map (image_planes db_fd) (ch_images ch))"

definition handOverRing :: "Env \<Rightarrow> flChannel \<Rightarrow> IpcChannel \<Rightarrow> bool \<times> IpcChannel" where
  "handOverRing env ch link =
     sendWithFds (en_sendmsg env) link MsgRingDesc (Some (ring_bytes (ring_desc ch))) 1528
       (Some (ring_fds ch)) (length (ring_fds ch))"

text \<open>The checks of the slots of a received description: every slot has the planes of the format, with wide enough rows.\<close>
definition import_slot_ok :: "RingDescMsg \<Rightarrow> nat \<Rightarrow> bool" where
  "import_slot_ok rd i \<longleftrightarrow> unat (rd_planeCount rd ! i) = format_planes (rd_format rd) \<and>
     (\<forall>p < format_planes (rd_format rd). \<not> rd_planeStride rd ! (4 * i + p) < row_bytes (rd_format rd) (rd_width rd))"

definition import_image :: "Env \<Rightarrow> RingDescMsg \<Rightarrow> fd list \<Rightarrow> nat \<Rightarrow> flImageRec" where
  "import_image env rd fds i =
     (let n = format_planes (rd_format rd)
      in (new_image (en_alloc env i))\<lparr>im_width := rd_width rd, im_height := rd_height rd,
           im_desc := \<lparr>db_fd = pad 4 0 (map (\<lambda>p. fds ! (n * i + p)) [0..<n]),
             db_offset = pad 4 0 (map (\<lambda>p. rd_planeOffset rd ! (4 * i + p)) [0..<n]),
             db_stride = pad 4 0 (map (\<lambda>p. rd_planeStride rd ! (4 * i + p)) [0..<n]),
             db_planes = of_nat n, db_fourcc = rd_fourcc rd, db_modifier = rd_modifier rd\<rparr>\<rparr>)"

definition importRing :: "Env \<Rightarrow> flChannel \<Rightarrow> RingDescMsg \<Rightarrow> fd list \<Rightarrow> flResult \<times> flChannel" where
  "importRing env ch rd fds =
     (if rd_poolSize rd = 0 \<or> unat (rd_poolSize rd) > kMaxPool \<or>
        \<not> validGeometry (rd_width rd) (rd_height rd) (rd_format rd) \<or>
        rd_fourcc rd \<noteq> fourccFor (rd_format rd) \<or> rd_fourcc rd = 0 then (FL_DISCONNECTED, ch)
      else if \<not> list_all (import_slot_ok rd) [0..<unat (rd_poolSize rd)] then (FL_DISCONNECTED, ch)
      else if length fds \<noteq> unat (rd_poolSize rd) * format_planes (rd_format rd) then (FL_DISCONNECTED, ch)
      else (FL_OK, log_closed (concat (map freeImage (ch_images ch)))
        (ch\<lparr>ch_images := map (import_image env rd fds) [0..<unat (rd_poolSize rd)],
            ch_slotSubmitValue := replicate (unat (rd_poolSize rd)) 0, ch_consumedValue := 0, ch_readyValue := 0,
            ch_info := (ch_info ch)\<lparr>ci_generation := rd_generation rd, ci_width := rd_width rd, ci_height := rd_height rd,
              ci_format := rd_format rd, ci_poolSize := rd_poolSize rd\<rparr>\<rparr>)))"

section \<open>Allocation and adoption\<close>

text \<open>One image of a new ring; an error carries the descriptors its clean-up closes.\<close>
definition alloc_image :: "Env \<Rightarrow> flChannel \<Rightarrow> u32 \<Rightarrow> u32 \<Rightarrow> nat \<Rightarrow> fd list + flImageRec" where
  "alloc_image env ch w h i =
     (let cpu = ch_flags ch AND FL_MAP_CPU \<noteq> 0;
          preferred = (if cpu then GBM_BO_USE_RENDERING OR GBM_BO_USE_LINEAR else GBM_BO_USE_RENDERING);
          fallback = (if cpu then GBM_BO_USE_LINEAR else GBM_BO_USE_RENDERING);
          fourcc = fourccFor (ci_format (ch_info ch));
          (bo, usage) = (case en_bo_create env w h fourcc preferred i of
              Some b \<Rightarrow> (Some b, preferred)
            | None \<Rightarrow> if fallback \<noteq> preferred then (en_bo_create env w h fourcc fallback i, fallback) else (None, preferred))
      in case bo of
           None \<Rightarrow> Inl []
         | Some b \<Rightarrow>
             if unat (gb_planes b) \<noteq> format_planes (ci_format (ch_info ch)) \<or>
                (cpu \<and> gb_modifier b \<noteq> DRM_FORMAT_MOD_LINEAR) then Inl []
             else
               let n = unat (gb_planes b); got = takeWhile (\<lambda>p. gb_fd b p \<ge> 0) [0..<n]
               in if got \<noteq> [0..<n] then Inl (map (gb_fd b) got)
                  else Inr ((new_image (en_alloc env i))\<lparr>im_bo := True, im_usageKnown := True, im_usage := usage,
                    im_width := w, im_height := h,
                    im_desc := \<lparr>db_fd = pad 4 (-1) (map (gb_fd b) [0..<n]), db_offset = pad 4 0 (map (gb_offset b) [0..<n]),
                      db_stride = pad 4 0 (map (gb_stride b) [0..<n]), db_planes = gb_planes b, db_fourcc = gb_format b,
                      db_modifier = gb_modifier b\<rparr>\<rparr>))"

text \<open>The allocation loop from slot \<open>i\<close>, \<open>n\<close> to go, over the images made so far.  Failure frees them all.\<close>
fun alloc_loop :: "Env \<Rightarrow> flChannel \<Rightarrow> u32 \<Rightarrow> u32 \<Rightarrow> nat \<Rightarrow> nat \<Rightarrow> flImageRec list \<Rightarrow> fd list + flImageRec list" where
  "alloc_loop env ch w h 0 i images = Inr images"
| "alloc_loop env ch w h (Suc n) i images =
     (case alloc_image env ch w h i of
        Inl closed \<Rightarrow> Inl (closed @ concat (map freeImage images))
      | Inr img \<Rightarrow> alloc_loop env ch w h n (Suc i) (images @ [img]))"

definition reallocRing :: "Env \<Rightarrow> flChannel \<Rightarrow> u32 \<Rightarrow> u32 \<Rightarrow> nat \<Rightarrow> bool \<times> flChannel" where
  "reallocRing env ch w h poolSize =
     (case alloc_loop env ch w h poolSize 0 [] of
        Inl closed \<Rightarrow> (False, log_closed closed ch)
      | Inr images \<Rightarrow> (True, clear_sync (log_closed (concat (map freeImage (ch_images ch)))
          (ch\<lparr>ch_images := images,
              ch_info := (ch_info ch)\<lparr>ci_width := w, ci_height := h, ci_generation := ci_generation (ch_info ch) + 1\<rparr>,
              ch_readers := resetEpoch (ch_readers ch), ch_heldReady := 0, ch_retiredValue := 0\<rparr>))))"

text \<open>The rows of a plane.\<close>
definition adopt_rows :: "flChannelInfo \<Rightarrow> nat \<Rightarrow> u64" where
  "adopt_rows info p = ucast (if p \<noteq> 0 then ci_height info div 2 else ci_height info)"

text \<open>
  The checks of the planes of one external buffer: layout inside 32 bits, inside the buffer's size when that is known,
  and not the backing object of an earlier slot.  The result is the list of backing objects.
\<close>
definition adopt_plane :: "Env \<Rightarrow> flChannelInfo \<Rightarrow> flDmabuf \<Rightarrow> (nat \<times> nat) list \<Rightarrow> nat \<Rightarrow> (nat \<times> nat) option" where
  "adopt_plane env info d prior p =
     (let rowBytes = row_bytes (ci_format info) (ci_width info); fd = db_fd d ! p;
          stride = db_stride d ! p; offset = db_offset d ! p
      in if fd < 0 \<or> stride < rowBytes \<or> stride > 0xFFFFFFFF \<or> offset > 0xFFFFFFFF then None
         else case en_stat env fd of
             None \<Rightarrow> None
           | Some (sz, object) \<Rightarrow>
               let rows = adopt_rows info p; endOf = offset + stride * (rows - 1) + rowBytes
               in if sz > 0 \<and> endOf > of_int sz then None
                  else if object \<in> set prior then None
                  else Some object)"

text \<open>\<open>None\<close> is the answer \<^verbatim>\<open>FL_INVALID\<close> of every failing check.\<close>
fun adopt_planes :: "Env \<Rightarrow> flChannelInfo \<Rightarrow> flDmabuf \<Rightarrow> (nat \<times> nat) list \<Rightarrow> nat list \<Rightarrow> (nat \<times> nat) list option" where
  "adopt_planes env info d prior [] = Some []"
| "adopt_planes env info d prior (p # ps) =
     (case adopt_plane env info d prior p of
        None \<Rightarrow> None
      | Some object \<Rightarrow> map_option ((#) object) (adopt_planes env info d prior ps))"

text \<open>Duplicating the descriptors in plane order stops at the first failure.\<close>
definition dup_planes :: "Env \<Rightarrow> flDmabuf \<Rightarrow> nat \<Rightarrow> bool \<times> fd list" where
  "dup_planes env d n =
     (let got = takeWhile (\<lambda>fd. fd \<ge> 0) (map (en_dup env) (take n (db_fd d))) in (length got = n, pad 4 (-1) got))"

text \<open>The loop over the external buffers from slot \<open>i\<close>; \<open>first\<close> is buffer 0.\<close>
fun adopt_loop :: "Env \<Rightarrow> flChannel \<Rightarrow> flDmabuf \<Rightarrow> nat \<Rightarrow> (nat \<times> nat) list \<Rightarrow> flDmabuf list \<Rightarrow> flResult \<times> flChannel" where
  "adopt_loop env ch first i prior [] = (FL_OK, ch)"
| "adopt_loop env ch first i prior (d # ds) =
       (let n = format_planes (ci_format (ch_info ch))
        in if unat (db_planes d) \<noteq> n \<or> db_fourcc d \<noteq> fourccFor (ci_format (ch_info ch)) \<or>
              (i \<noteq> 0 \<and> db_modifier d \<noteq> db_modifier first) then (FL_FORMAT_UNSUPPORTED, ch)
           else if ch_flags ch AND FL_MAP_CPU \<noteq> 0 \<and> db_modifier d \<noteq> DRM_FORMAT_MOD_LINEAR then (FL_FORMAT_UNSUPPORTED, ch)
           else case adopt_planes env (ch_info ch) d prior [0..<n] of
               None \<Rightarrow> (FL_INVALID, ch)
             | Some current \<Rightarrow>
                 let (ok, fds) = dup_planes env d n;
                     bo = en_bo_import env d (if ch_flags ch AND FL_GPU_RENDER \<noteq> 0 then GBM_BO_USE_RENDERING else 0);
                     image = (new_image (en_alloc env i))\<lparr>im_width := ci_width (ch_info ch), im_height := ci_height (ch_info ch),
                       im_desc := d\<lparr>db_fd := fds\<rparr>, im_bo := ok \<and> bo \<noteq> None\<rparr>;
                     ch' = ch\<lparr>ch_images := ch_images ch @ [image]\<rparr>
                 in if \<not> ok then (FL_INVALID, ch')
                    else case bo of
                        None \<Rightarrow> (FL_FORMAT_UNSUPPORTED, ch')
                      | Some b \<Rightarrow>
                          if gb_width b \<noteq> ci_width (ch_info ch) \<or> gb_height b \<noteq> ci_height (ch_info ch) \<or>
                             gb_format b \<noteq> db_fourcc d \<or> unat (gb_planes b) \<noteq> n \<or>
                             list_ex (\<lambda>p. gb_stride b p \<noteq> db_stride d ! p \<or> gb_offset b p \<noteq> db_offset d ! p) [0..<n]
                          then (FL_FORMAT_UNSUPPORTED, ch')
                          else adopt_loop env ch' first (Suc i) (prior @ current) ds)"

definition adoptRing :: "Env \<Rightarrow> flChannel \<Rightarrow> flDmabuf list \<Rightarrow> flResult \<times> flChannel" where
  "adoptRing env ch input =
     (let (r, ch') = adopt_loop env ch (input ! 0) 0 [] input
      in if r \<noteq> FL_OK then (r, ch')
         else (FL_OK, ch'\<lparr>ch_info := (ch_info ch')\<lparr>ci_generation := ci_generation (ch_info ch') + 1\<rparr>\<rparr>))"

section \<open>Well-formed rings\<close>

text \<open>What both sides must agree on about an image, and the ring a consumer hands over.\<close>

definition ring_layout :: "flImageRec \<Rightarrow> u64 list \<times> u64 list \<times> u32 \<times> u32 \<times> u64 \<times> u32 \<times> u32" where
  "ring_layout img = (image_planes db_offset img, image_planes db_stride img, db_planes (im_desc img),
     db_fourcc (im_desc img), db_modifier (im_desc img), im_width img, im_height img)"

definition ring_image_ok :: "flChannelInfo \<Rightarrow> u64 \<Rightarrow> flImageRec \<Rightarrow> bool" where
  "ring_image_ok info modifier img \<longleftrightarrow> image_shape img \<and> unat (db_planes (im_desc img)) = format_planes (ci_format info) \<and>
     db_fourcc (im_desc img) = fourccFor (ci_format info) \<and> db_modifier (im_desc img) = modifier \<and>
     im_width img = ci_width info \<and> im_height img = ci_height info \<and>
     list_all (\<lambda>p. row_bytes (ci_format info) (ci_width info) \<le> db_stride (im_desc img) ! p) [0..<format_planes (ci_format info)]"

definition ring_ok :: "flChannel \<Rightarrow> bool" where
  "ring_ok ch \<longleftrightarrow> ch_images ch \<noteq> [] \<and> length (ch_images ch) \<le> kMaxPool \<and>
     validGeometry (ci_width (ch_info ch)) (ci_height (ch_info ch)) (ci_format (ch_info ch)) \<and>
     fourccFor (ci_format (ch_info ch)) \<noteq> 0 \<and>
     list_all (ring_image_ok (ch_info ch) (db_modifier (im_desc (ch_images ch ! 0)))) (ch_images ch)"

text \<open>The backing object of a plane of an external buffer, and its extent in the buffer.\<close>

definition backing :: "Env \<Rightarrow> flDmabuf \<Rightarrow> nat \<Rightarrow> (nat \<times> nat) option" where
  "backing env d p = map_option snd (en_stat env (db_fd d ! p))"

definition plane_extent_ok :: "Env \<Rightarrow> flChannelInfo \<Rightarrow> flDmabuf \<Rightarrow> nat \<Rightarrow> bool" where
  "plane_extent_ok env info d p \<longleftrightarrow>
     (case en_stat env (db_fd d ! p) of
        None \<Rightarrow> False
      | Some (sz, _) \<Rightarrow> sz > 0 \<longrightarrow>
          int (unat (db_offset d ! p) + unat (db_stride d ! p) * (unat (adopt_rows info p) - 1) +
            unat (row_bytes (ci_format info) (ci_width info))) \<le> sz)"

definition example_env :: Env where
  "example_env = \<lparr>en_signalled = (\<lambda>fd. True), en_sendmsg = (\<lambda>bytes rights. int (length bytes)), en_dup = (\<lambda>fd. fd + 100),
     en_now = 0, en_alloc = (\<lambda>i. i + 1), en_bo_create = (\<lambda>w h f u i. None),
     en_bo_import = (\<lambda>d u. Some \<lparr>gb_width = 8, gb_height = 8, gb_planes = db_planes d, gb_format = db_fourcc d,
       gb_modifier = db_modifier d, gb_fd = (\<lambda>p. -1), gb_stride = (\<lambda>p. db_stride d ! p), gb_offset = (\<lambda>p. db_offset d ! p)\<rparr>),
     en_stat = (\<lambda>fd. Some (96, 1, nat fd))\<rparr>"

definition example_ring :: flChannel where
  "example_ring = new_channel\<lparr>ch_isConsumer := True, ch_images := [example_image],
     ch_info := \<lparr>ci_version = 6, ci_width = 8, ci_height = 8, ci_format = FL_FORMAT_NV12, ci_poolSize = 1, ci_generation = 1\<rparr>\<rparr>"

section \<open>Lemmas\<close>

text \<open>What the shared steps leave alone.\<close>

lemma log_closed_fields [simp]:
  "ch_isConsumer (log_closed fds ch) = ch_isConsumer ch" "ch_externalPool (log_closed fds ch) = ch_externalPool ch"
  "ch_name (log_closed fds ch) = ch_name ch" "ch_info (log_closed fds ch) = ch_info ch"
  "ch_flags (log_closed fds ch) = ch_flags ch" "ch_peerFeatures (log_closed fds ch) = ch_peerFeatures ch"
  "ch_bufferReferences (log_closed fds ch) = ch_bufferReferences ch"
  "ch_slotMetadata (log_closed fds ch) = ch_slotMetadata ch"
  "ch_pendingMetadata (log_closed fds ch) = ch_pendingMetadata ch"
  "ch_heldMetadata (log_closed fds ch) = ch_heldMetadata ch" "ch_images (log_closed fds ch) = ch_images ch"
  "ch_sync (log_closed fds ch) = ch_sync ch" "ch_submittingSlot (log_closed fds ch) = ch_submittingSlot ch"
  "ch_submittingValue (log_closed fds ch) = ch_submittingValue ch"
  "ch_readyValue (log_closed fds ch) = ch_readyValue ch" "ch_peer (log_closed fds ch) = ch_peer ch"
  "ch_peerGone (log_closed fds ch) = ch_peerGone ch" "ch_hasPending (log_closed fds ch) = ch_hasPending ch"
  "ch_readers (log_closed fds ch) = ch_readers ch" "ch_leaseCompletions (log_closed fds ch) = ch_leaseCompletions ch"
  "ch_frameHeld (log_closed fds ch) = ch_frameHeld ch" "ch_heldReady (log_closed fds ch) = ch_heldReady ch"
  "ch_retiredValue (log_closed fds ch) = ch_retiredValue ch" "ch_heldSlot (log_closed fds ch) = ch_heldSlot ch"
  "ch_pendingSlot (log_closed fds ch) = ch_pendingSlot ch" "ch_pendingReady (log_closed fds ch) = ch_pendingReady ch"
  "ch_pendingPts (log_closed fds ch) = ch_pendingPts ch"
  "ch_pendingArrival (log_closed fds ch) = ch_pendingArrival ch"
  "ch_heldArrival (log_closed fds ch) = ch_heldArrival ch" "ch_sequence (log_closed fds ch) = ch_sequence ch"
  "ch_link (log_closed fds ch) = ch_link ch" "ch_slotSubmitValue (log_closed fds ch) = ch_slotSubmitValue ch"
  "ch_consumedValue (log_closed fds ch) = ch_consumedValue ch"
  by (simp_all add: log_closed_def)

lemma advance_consumed_fields [simp]:
  "ch_isConsumer (advance_consumed env ch) = ch_isConsumer ch"
  "ch_externalPool (advance_consumed env ch) = ch_externalPool ch" "ch_name (advance_consumed env ch) = ch_name ch"
  "ch_info (advance_consumed env ch) = ch_info ch" "ch_flags (advance_consumed env ch) = ch_flags ch"
  "ch_peerFeatures (advance_consumed env ch) = ch_peerFeatures ch"
  "ch_bufferReferences (advance_consumed env ch) = ch_bufferReferences ch"
  "ch_slotMetadata (advance_consumed env ch) = ch_slotMetadata ch"
  "ch_pendingMetadata (advance_consumed env ch) = ch_pendingMetadata ch"
  "ch_heldMetadata (advance_consumed env ch) = ch_heldMetadata ch"
  "ch_images (advance_consumed env ch) = ch_images ch"
  "ch_submittingSlot (advance_consumed env ch) = ch_submittingSlot ch"
  "ch_submittingValue (advance_consumed env ch) = ch_submittingValue ch"
  "ch_readyValue (advance_consumed env ch) = ch_readyValue ch" "ch_peer (advance_consumed env ch) = ch_peer ch"
  "ch_peerGone (advance_consumed env ch) = ch_peerGone ch"
  "ch_hasPending (advance_consumed env ch) = ch_hasPending ch" "ch_readers (advance_consumed env ch) = ch_readers ch"
  "ch_leaseCompletions (advance_consumed env ch) = ch_leaseCompletions ch"
  "ch_frameHeld (advance_consumed env ch) = ch_frameHeld ch"
  "ch_heldReady (advance_consumed env ch) = ch_heldReady ch"
  "ch_retiredValue (advance_consumed env ch) = ch_retiredValue ch"
  "ch_heldSlot (advance_consumed env ch) = ch_heldSlot ch"
  "ch_pendingSlot (advance_consumed env ch) = ch_pendingSlot ch"
  "ch_pendingReady (advance_consumed env ch) = ch_pendingReady ch"
  "ch_pendingPts (advance_consumed env ch) = ch_pendingPts ch"
  "ch_pendingArrival (advance_consumed env ch) = ch_pendingArrival ch"
  "ch_heldArrival (advance_consumed env ch) = ch_heldArrival ch"
  "ch_sequence (advance_consumed env ch) = ch_sequence ch" "ch_link (advance_consumed env ch) = ch_link ch"
  "ch_slotSubmitValue (advance_consumed env ch) = ch_slotSubmitValue ch"
  by (simp_all add: advance_consumed_def Let_def split: prod.splits)

lemma advance_retired_fields [simp]:
  "ch_isConsumer (advance_retired env ch) = ch_isConsumer ch"
  "ch_externalPool (advance_retired env ch) = ch_externalPool ch" "ch_name (advance_retired env ch) = ch_name ch"
  "ch_info (advance_retired env ch) = ch_info ch" "ch_flags (advance_retired env ch) = ch_flags ch"
  "ch_peerFeatures (advance_retired env ch) = ch_peerFeatures ch"
  "ch_bufferReferences (advance_retired env ch) = ch_bufferReferences ch"
  "ch_slotMetadata (advance_retired env ch) = ch_slotMetadata ch"
  "ch_pendingMetadata (advance_retired env ch) = ch_pendingMetadata ch"
  "ch_heldMetadata (advance_retired env ch) = ch_heldMetadata ch" "ch_images (advance_retired env ch) = ch_images ch"
  "ch_submittingSlot (advance_retired env ch) = ch_submittingSlot ch"
  "ch_submittingValue (advance_retired env ch) = ch_submittingValue ch"
  "ch_readyValue (advance_retired env ch) = ch_readyValue ch" "ch_peer (advance_retired env ch) = ch_peer ch"
  "ch_peerGone (advance_retired env ch) = ch_peerGone ch" "ch_hasPending (advance_retired env ch) = ch_hasPending ch"
  "ch_readers (advance_retired env ch) = ch_readers ch"
  "ch_leaseCompletions (advance_retired env ch) = ch_leaseCompletions ch"
  "ch_frameHeld (advance_retired env ch) = ch_frameHeld ch" "ch_heldReady (advance_retired env ch) = ch_heldReady ch"
  "ch_heldSlot (advance_retired env ch) = ch_heldSlot ch"
  "ch_pendingSlot (advance_retired env ch) = ch_pendingSlot ch"
  "ch_pendingReady (advance_retired env ch) = ch_pendingReady ch"
  "ch_pendingPts (advance_retired env ch) = ch_pendingPts ch"
  "ch_pendingArrival (advance_retired env ch) = ch_pendingArrival ch"
  "ch_heldArrival (advance_retired env ch) = ch_heldArrival ch"
  "ch_sequence (advance_retired env ch) = ch_sequence ch" "ch_link (advance_retired env ch) = ch_link ch"
  "ch_slotSubmitValue (advance_retired env ch) = ch_slotSubmitValue ch"
  "ch_consumedValue (advance_retired env ch) = ch_consumedValue ch"
  by (simp_all add: advance_retired_def Let_def split: prod.splits)

lemma clear_sync_fields [simp]:
  "ch_isConsumer (clear_sync ch) = ch_isConsumer ch" "ch_externalPool (clear_sync ch) = ch_externalPool ch"
  "ch_name (clear_sync ch) = ch_name ch" "ch_info (clear_sync ch) = ch_info ch"
  "ch_flags (clear_sync ch) = ch_flags ch" "ch_peerFeatures (clear_sync ch) = ch_peerFeatures ch"
  "ch_bufferReferences (clear_sync ch) = ch_bufferReferences ch"
  "ch_slotMetadata (clear_sync ch) = ch_slotMetadata ch" "ch_pendingMetadata (clear_sync ch) = ch_pendingMetadata ch"
  "ch_heldMetadata (clear_sync ch) = ch_heldMetadata ch" "ch_images (clear_sync ch) = ch_images ch"
  "ch_submittingSlot (clear_sync ch) = ch_submittingSlot ch"
  "ch_submittingValue (clear_sync ch) = ch_submittingValue ch" "ch_readyValue (clear_sync ch) = ch_readyValue ch"
  "ch_peer (clear_sync ch) = ch_peer ch" "ch_peerGone (clear_sync ch) = ch_peerGone ch"
  "ch_hasPending (clear_sync ch) = ch_hasPending ch" "ch_readers (clear_sync ch) = ch_readers ch"
  "ch_leaseCompletions (clear_sync ch) = ch_leaseCompletions ch" "ch_frameHeld (clear_sync ch) = ch_frameHeld ch"
  "ch_heldReady (clear_sync ch) = ch_heldReady ch" "ch_retiredValue (clear_sync ch) = ch_retiredValue ch"
  "ch_heldSlot (clear_sync ch) = ch_heldSlot ch" "ch_pendingSlot (clear_sync ch) = ch_pendingSlot ch"
  "ch_pendingReady (clear_sync ch) = ch_pendingReady ch" "ch_pendingPts (clear_sync ch) = ch_pendingPts ch"
  "ch_pendingArrival (clear_sync ch) = ch_pendingArrival ch" "ch_heldArrival (clear_sync ch) = ch_heldArrival ch"
  "ch_sequence (clear_sync ch) = ch_sequence ch" "ch_link (clear_sync ch) = ch_link ch"
  "ch_slotSubmitValue (clear_sync ch) = ch_slotSubmitValue ch"
  "ch_consumedValue (clear_sync ch) = ch_consumedValue ch"
  by (simp_all add: clear_sync_def Let_def split: prod.splits)

lemma length_pad [simp]: "length (pad n z xs) = n"
  by (simp add: pad_def)

lemma pad_nth: "i < n \<Longrightarrow> pad n z xs ! i = (if i < length xs then xs ! i else z)"
  by (simp add: pad_def nth_append)

lemma concat_nth_const:
  assumes "\<And>x. x \<in> set xs \<Longrightarrow> length (f x) = k" "i < length xs" "j < k"
  shows "concat (map f xs) ! (k * i + j) = f (xs ! i) ! j"
  using assms
proof (induction xs arbitrary: i)
  case (Cons a xs)
  show ?case
  proof (cases i)
    case 0
    then show ?thesis using Cons by (simp add: nth_append)
  next
    case (Suc i')
    have "length (f a) = k" using Cons.prems(1) by simp
    then have "concat (map f (a # xs)) ! (k * i + j) = concat (map f xs) ! (k * i' + j)"
      using Suc by (simp add: nth_append add.assoc)
    also have "\<dots> = f (xs ! i') ! j" using Cons Suc by simp
    finally show ?thesis using Suc by simp
  qed
qed simp

lemma length_concat_const: "(\<And>x. x \<in> set xs \<Longrightarrow> length (f x) = k) \<Longrightarrow> length (concat (map f xs)) = k * length xs"
  by (induction xs) auto

lemma format_planes_le: "0 < format_planes f" "format_planes f \<le> 2"
  by (simp_all add: format_planes_def)

lemma ring_desc_shape: "ring_shape (ring_desc ch)"
  by (simp add: ring_shape_def ring_desc_def zero_ringDesc_def)

lemma ring_fds_length:
  assumes "ring_ok ch"
  shows "length (ring_fds ch) = format_planes (ci_format (ch_info ch)) * length (ch_images ch)"
  unfolding ring_fds_def
proof (rule length_concat_const)
  fix x assume "x \<in> set (ch_images ch)"
  then have "ring_image_ok (ch_info ch) (db_modifier (im_desc (ch_images ch ! 0))) x"
    using assms by (auto simp: ring_ok_def list_all_iff)
  then show "length (image_planes db_fd x) = format_planes (ci_format (ch_info ch))"
    using format_planes_le(2) [of "ci_format (ch_info ch)"] by (simp add: image_planes_def ring_image_ok_def image_shape_def)
qed

lemma ring_desc_plane:
  assumes "ring_ok ch" "i < length (ch_images ch)" "p < format_planes (ci_format (ch_info ch))"
  shows "rd_planeStride (ring_desc ch) ! (4 * i + p) = db_stride (im_desc (ch_images ch ! i)) ! p"
    "rd_planeOffset (ring_desc ch) ! (4 * i + p) = db_offset (im_desc (ch_images ch ! i)) ! p"
proof -
  have i: "i < 16" "p < 2" using assms format_planes_le(2) [of "ci_format (ch_info ch)"] by (auto simp: ring_ok_def)
  have ok: "ring_image_ok (ch_info ch) (db_modifier (im_desc (ch_images ch ! 0))) (ch_images ch ! i)"
    using assms(1,2) by (auto simp: ring_ok_def list_all_iff)
  have len: "length (concat (map (\<lambda>img. pad 4 0 (image_planes sel img)) (ch_images ch))) = 4 * length (ch_images ch)"
    for sel :: "flDmabuf \<Rightarrow> u64 list" by (rule length_concat_const) simp
  have nth: "concat (map (\<lambda>img. pad 4 0 (image_planes sel img)) (ch_images ch)) ! (4 * i + p) =
      pad 4 0 (image_planes sel (ch_images ch ! i)) ! p" for sel :: "flDmabuf \<Rightarrow> u64 list"
    using assms(2) i by (intro concat_nth_const) auto
  have lt: "4 * i + p < 64" "4 * i + p < 4 * length (ch_images ch)" using i assms(2) by linarith+
  have pl: "pad 4 0 (image_planes db_stride (ch_images ch ! i)) ! p = db_stride (im_desc (ch_images ch ! i)) ! p"
    "pad 4 0 (image_planes db_offset (ch_images ch ! i)) ! p = db_offset (im_desc (ch_images ch ! i)) ! p"
    using ok assms(3) i by (auto simp: pad_nth image_planes_def ring_image_ok_def image_shape_def)
  show "rd_planeStride (ring_desc ch) ! (4 * i + p) = db_stride (im_desc (ch_images ch ! i)) ! p"
    "rd_planeOffset (ring_desc ch) ! (4 * i + p) = db_offset (im_desc (ch_images ch ! i)) ! p"
    using lt len nth pl by (simp_all add: ring_desc_def pad_nth)
qed

lemma ring_desc_fields:
  "rd_generation (ring_desc ch) = ci_generation (ch_info ch)" "rd_width (ring_desc ch) = ci_width (ch_info ch)"
  "rd_height (ring_desc ch) = ci_height (ch_info ch)" "rd_format (ring_desc ch) = ci_format (ch_info ch)"
  "rd_poolSize (ring_desc ch) = of_nat (length (ch_images ch))"
  "rd_fourcc (ring_desc ch) = db_fourcc (im_desc (ch_images ch ! 0))"
  "rd_modifier (ring_desc ch) = db_modifier (im_desc (ch_images ch ! 0))"
  "length (ch_images ch) \<le> 16 \<Longrightarrow> i < length (ch_images ch) \<Longrightarrow> rd_planeCount (ring_desc ch) ! i = db_planes (im_desc (ch_images ch ! i))"
  by (simp_all add: ring_desc_def pad_nth)

lemma take_pad: "length xs = n \<Longrightarrow> n \<le> m \<Longrightarrow> take n (pad m z xs) = xs"
  by (simp add: pad_def)

lemma map_nth_take: "n \<le> length xs \<Longrightarrow> map (\<lambda>p. xs ! (k + p)) [0..<n - k] = drop k (take n xs)"
  by (rule nth_equalityI) auto

lemma concat_chunks:
  "n * k \<le> length xs \<Longrightarrow> concat (map (\<lambda>i. map (\<lambda>p. xs ! (n * i + p)) [0..<n]) [0..<k]) = take (n * k) xs"
proof (induction k)
  case (Suc k)
  have "map (\<lambda>p. xs ! (n * k + p)) [0..<n] = take n (drop (n * k) xs)"
    using Suc.prems by (intro nth_equalityI) auto
  then show ?case using Suc by (simp add: take_add add.commute [of n])
qed simp

lemma import_image_planes:
  assumes "format_planes (rd_format rd) = n"
  shows "image_planes db_offset (import_image env rd fds i) = map (\<lambda>p. rd_planeOffset rd ! (4 * i + p)) [0..<n]"
    "image_planes db_stride (import_image env rd fds i) = map (\<lambda>p. rd_planeStride rd ! (4 * i + p)) [0..<n]"
    "image_planes db_fd (import_image env rd fds i) = map (\<lambda>p. fds ! (n * i + p)) [0..<n]"
proof -
  have n: "n \<le> 2" using format_planes_le(2) [of "rd_format rd"] assms by simp
  then have "unat (of_nat n :: u32) = n" by (intro unat_of_nat32) simp
  with n show "image_planes db_offset (import_image env rd fds i) = map (\<lambda>p. rd_planeOffset rd ! (4 * i + p)) [0..<n]"
    "image_planes db_stride (import_image env rd fds i) = map (\<lambda>p. rd_planeStride rd ! (4 * i + p)) [0..<n]"
    "image_planes db_fd (import_image env rd fds i) = map (\<lambda>p. fds ! (n * i + p)) [0..<n]"
    by (simp_all add: image_planes_def import_image_def Let_def assms take_pad)
qed

lemma import_image_fields:
  "db_planes (im_desc (import_image env rd fds i)) = of_nat (format_planes (rd_format rd))"
  "db_fourcc (im_desc (import_image env rd fds i)) = rd_fourcc rd"
  "db_modifier (im_desc (import_image env rd fds i)) = rd_modifier rd"
  "im_width (import_image env rd fds i) = rd_width rd" "im_height (import_image env rd fds i) = rd_height rd"
  by (simp_all add: import_image_def Let_def)

lemma import_image_layout:
  assumes "ring_ok ch" "i < length (ch_images ch)"
  shows "ring_layout (import_image env (ring_desc ch) fds i) = ring_layout (ch_images ch ! i)"
proof -
  let ?n = "format_planes (ci_format (ch_info ch))" and ?img = "ch_images ch ! i"
  have ok: "ring_image_ok (ch_info ch) (db_modifier (im_desc (ch_images ch ! 0))) ?img"
    "ring_image_ok (ch_info ch) (db_modifier (im_desc (ch_images ch ! 0))) (ch_images ch ! 0)"
    using assms by (auto simp: ring_ok_def list_all_iff)
  have n: "unat (db_planes (im_desc ?img)) = ?n" "?n \<le> 2" using ok format_planes_le(2) by (auto simp: ring_image_ok_def)
  have f: "format_planes (rd_format (ring_desc ch)) = ?n" by (simp add: ring_desc_fields)
  have "map (\<lambda>p. rd_planeOffset (ring_desc ch) ! (4 * i + p)) [0..<?n] = image_planes db_offset ?img"
    "map (\<lambda>p. rd_planeStride (ring_desc ch) ! (4 * i + p)) [0..<?n] = image_planes db_stride ?img"
    using ring_desc_plane [OF assms] n ok(1)
    by (intro nth_equalityI; simp add: image_planes_def ring_image_ok_def image_shape_def)+
  moreover have "(of_nat ?n :: u32) = db_planes (im_desc ?img)" using n(1) by (metis of_nat_unat ucast_id)
  ultimately show ?thesis
    using ok unfolding ring_layout_def import_image_planes [OF f] import_image_fields ring_desc_fields(1-7)
    by (simp add: ring_image_ok_def)
qed

lemma import_ring_desc:
  assumes "ring_ok ch" "length fds = length (ring_fds ch)"
  shows "\<exists>pch'. importRing env pch (ring_desc ch) fds = (FL_OK, pch') \<and>
    map ring_layout (ch_images pch') = map ring_layout (ch_images ch) \<and> ring_fds pch' = fds \<and>
    ch_slotSubmitValue pch' = replicate (length (ch_images ch)) 0 \<and> ch_consumedValue pch' = 0 \<and> ch_readyValue pch' = 0 \<and>
    ch_info pch' = (ch_info pch)\<lparr>ci_generation := ci_generation (ch_info ch), ci_width := ci_width (ch_info ch),
      ci_height := ci_height (ch_info ch), ci_format := ci_format (ch_info ch), ci_poolSize := of_nat (length (ch_images ch))\<rparr>"
proof -
  let ?n = "format_planes (ci_format (ch_info ch))" and ?k = "length (ch_images ch)" and ?rd = "ring_desc ch"
  let ?imgs = "map (import_image env ?rd fds) [0..<?k]"
  have k: "?k \<le> 16" "?k \<noteq> 0" using assms(1) by (auto simp: ring_ok_def)
  have un: "unat (of_nat ?k :: u32) = ?k" using k by (intro unat_of_nat32) simp
  have pool: "unat (rd_poolSize ?rd) = ?k" "rd_poolSize ?rd \<noteq> 0" using un k by (auto simp: ring_desc_fields word_unat_eq_iff)
  have ok: "ring_image_ok (ch_info ch) (db_modifier (im_desc (ch_images ch ! 0))) (ch_images ch ! i)" if "i < ?k" for i
    using assms(1) that by (auto simp: ring_ok_def list_all_iff)
  have slot: "import_slot_ok ?rd i" if "i < ?k" for i
    using ok [OF that] that k ring_desc_plane(1) [OF assms(1) that]
    by (auto simp: import_slot_ok_def ring_desc_fields ring_image_ok_def list_all_iff not_less)
  have fc: "rd_fourcc ?rd = fourccFor (ci_format (ch_info ch))" using ok [of 0] k by (simp add: ring_desc_fields ring_image_ok_def)
  have "importRing env pch ?rd fds = (FL_OK, log_closed (concat (map freeImage (ch_images pch)))
        (pch\<lparr>ch_images := ?imgs, ch_slotSubmitValue := replicate ?k 0, ch_consumedValue := 0, ch_readyValue := 0,
            ch_info := (ch_info pch)\<lparr>ci_generation := ci_generation (ch_info ch), ci_width := ci_width (ch_info ch),
              ci_height := ci_height (ch_info ch), ci_format := ci_format (ch_info ch), ci_poolSize := of_nat ?k\<rparr>\<rparr>))"
    using assms pool slot fc k unfolding importRing_def
    by (simp add: ring_desc_fields ring_fds_length ring_ok_def list_all_iff un mult.commute)
  moreover have "map ring_layout ?imgs = map ring_layout (ch_images ch)"
    by (rule nth_equalityI) (simp_all add: import_image_layout [OF assms(1)])
  moreover have "concat (map (image_planes db_fd) ?imgs) = fds"
    using concat_chunks [of ?n ?k fds] assms(2) ring_fds_length [OF assms(1)]
    by (simp add: comp_def import_image_planes(3) [where n = ?n] ring_desc_fields)
  ultimately show ?thesis by (simp add: log_closed_def ring_fds_def)
qed

section \<open>Properties\<close>

text \<open>
  C7. Ring hand-over round trip.  The description and descriptors a consumer sends for a well-formed ring pass
  through the socket and are imported by the producer as a ring of the same size whose images have the same plane
  offsets, strides, format, modifier and geometry, slot by slot, with the received descriptors assigned
  to the planes in order; the producer's timeline starts afresh with every slot free, at the consumer's generation.
\<close>
theorem ring_handover_roundtrip:
  assumes "ring_ok ch" "ic_connected link" "ic_connected plink" "\<forall>bytes rights. en_sendmsg env bytes rights = int (length bytes)"
  shows "\<exists>link' d m rd pch'. handOverRing env ch link = (True, link') \<and> ic_sent link' = ic_sent link @ [d] \<and>
    ipc_recv (plink\<lparr>ic_inbox := delivered d # rest\<rparr>) = (Some m, plink\<lparr>ic_inbox := rest\<rparr>, []) \<and>
    ms_type m = MsgRingDesc \<and> ring_of (ms_payload m) = Some rd \<and>
    importRing env' pch rd (ms_fds m) = (FL_OK, pch') \<and>
    map ring_layout (ch_images pch') = map ring_layout (ch_images ch) \<and> ring_fds pch' = ring_fds ch \<and>
    ci_generation (ch_info pch') = ci_generation (ch_info ch) \<and>
    ch_slotSubmitValue pch' = replicate (length (ch_images ch)) 0 \<and> ch_consumedValue pch' = 0"
proof -
  let ?p = "ring_bytes (ring_desc ch)" and ?f = "ring_fds ch"
  have lp: "length ?p = 1528" by (rule length_ring_bytes [OF ring_desc_shape])
  have lf: "length ?f \<le> kMaxFds"
  proof -
    have "format_planes (ci_format (ch_info ch)) * length (ch_images ch) \<le> 2 * 16"
      using assms(1) format_planes_le(2) by (intro mult_le_mono) (auto simp: ring_ok_def)
    then show ?thesis by (simp add: ring_fds_length [OF assms(1)])
  qed
  let ?d = "(ipc_header MsgRingDesc 1528 @ ?p, ?f)" and ?m = "\<lparr>ms_type = MsgRingDesc, ms_payload = ?p, ms_fds = ?f\<rparr>"
  have send: "handOverRing env ch link = (True, link\<lparr>ic_sent := ic_sent link @ [?d]\<rparr>)"
    using sendWithFds_ok [OF assms(2), of ?p ?f "en_sendmsg env" MsgRingDesc] lp lf assms(4) by (simp add: handOverRing_def)
  have recv: "ipc_recv (plink\<lparr>ic_inbox := delivered ?d # rest\<rparr>) = (Some ?m, plink\<lparr>ic_inbox := rest\<rparr>, [])"
    using recv_delivered [of "plink\<lparr>ic_inbox := delivered ?d # rest\<rparr>" MsgRingDesc ?p ?f rest] assms(3) lp lf by simp
  from import_ring_desc [OF assms(1) refl, of env' pch] ring_of_bytes [OF ring_desc_shape]
  obtain pch' where "importRing env' pch (ring_desc ch) ?f = (FL_OK, pch')"
    "map ring_layout (ch_images pch') = map ring_layout (ch_images ch)" "ring_fds pch' = ?f"
    "ch_slotSubmitValue pch' = replicate (length (ch_images ch)) 0" "ch_consumedValue pch' = 0"
    "ci_generation (ch_info pch') = ci_generation (ch_info ch)" by auto
  with send recv ring_of_bytes [OF ring_desc_shape, of ch] show ?thesis
    by (intro exI [of _ "link\<lparr>ic_sent := ic_sent link @ [?d]\<rparr>"] exI [of _ ?d] exI [of _ ?m] exI [of _ "ring_desc ch"]
        exI [of _ pch']) simp
qed

theorem ring_handover_roundtrip_witness:
  "\<exists>link' pch'. handOverRing example_env example_ring (ipc_null\<lparr>ic_connected := True\<rparr>) = (True, link') \<and>
    length (ic_sent link') = 1 \<and> ring_fds pch' = [5, 6] \<and> ch_slotSubmitValue pch' = [0]"
proof -
  have "ring_ok example_ring" "ring_fds example_ring = [5, 6]" "length (ch_images example_ring) = 1" by code_simp+
  moreover have "\<forall>bytes rights. en_sendmsg example_env bytes rights = int (length bytes)" by (simp add: example_env_def)
  ultimately show ?thesis
    using ring_handover_roundtrip [of example_ring "ipc_null\<lparr>ic_connected := True\<rparr>" "ipc_null\<lparr>ic_connected := True\<rparr>"
        example_env "[]" example_env new_channel] by (fastforce simp: ipc_null_def)
qed

section \<open>Adoption of external buffers\<close>

lemma adopt_extent_exact:
  fixes offset stride rows rowBytes :: u64
  assumes "unat offset < 2 ^ 32" "unat stride < 2 ^ 32" "rowBytes \<le> stride" "unat rows < 2 ^ 32" "rows \<noteq> 0"
  shows "unat (offset + stride * (rows - 1) + rowBytes) = unat offset + unat stride * (unat rows - 1) + unat rowBytes"
proof -
  have r: "unat (rows - 1) = unat rows - 1" using assms(5) by (metis One_nat_def unat_minus_one)
  have b: "unat rowBytes < 2 ^ 32" using assms(2,3) by (simp add: word_le_nat_alt)
  have "unat stride * (unat rows - 1) \<le> (2 ^ 32 - 1) * (2 ^ 32 - 2)" using assms(2,4) by (intro mult_le_mono) simp_all
  then have "unat offset + unat stride * (unat rows - 1) + unat rowBytes < 2 ^ 64" using assms(1) b by simp
  then show ?thesis using r by (simp add: unat_add64 unat_mult64)
qed

lemma plane_row_count:
  assumes "validGeometry (ci_width info) (ci_height info) (ci_format info)" "p < format_planes (ci_format info)"
  shows "unat (adopt_rows info p) < 2 ^ 32" "adopt_rows info p \<noteq> 0"
proof -
  let ?h = "if p \<noteq> 0 then ci_height info div 2 else ci_height info"
  show "unat (adopt_rows info p) < 2 ^ 32"
    using unsigned_less [of ?h, where ?'a = nat] by (simp only: adopt_rows_def unat_ucast32_64) simp
  have h: "unat (ci_height info) \<noteq> 0" using assms(1) by (auto simp: validGeometry_def unat_eq_zero)
  have "unat ?h \<noteq> 0"
  proof (cases "p = 0")
    case False
    then have "ci_height info AND 1 = 0" using assms by (auto simp: format_planes_def validGeometry_def split: if_splits)
    then have "\<not> bit (ci_height info) 0" by (metis bit_and_iff bit_0_eq bot_apply bit_1_0 bot_bool_def)
    then have "\<not> bit (unat (ci_height info)) 0" by (simp only: bit_unsigned_iff) simp
    then have "even (unat (ci_height info))" by (simp add: bit_0)
    with h False show ?thesis by (auto simp: unat_div elim: evenE)
  qed (use h in simp)
  then show "adopt_rows info p \<noteq> 0" unfolding adopt_rows_def by (metis unat_0 unat_ucast32_64)
qed

lemma adopt_plane_ok:
  assumes "validGeometry (ci_width info) (ci_height info) (ci_format info)" "p < format_planes (ci_format info)"
    "adopt_plane env info d prior p = Some b"
  shows "plane_extent_ok env info d p \<and> backing env d p = Some b \<and> b \<notin> set prior"
proof -
  let ?s = "db_stride d ! p" and ?o = "db_offset d ! p" and ?b = "row_bytes (ci_format info) (ci_width info)"
  let ?r = "adopt_rows info p"
  have ok: "\<not> (db_fd d ! p < 0 \<or> ?s < ?b \<or> ?s > 0xFFFFFFFF \<or> ?o > 0xFFFFFFFF)"
    using assms(3) by (rule contrapos_pn) (simp add: adopt_plane_def Let_def)
  obtain sz object where st: "en_stat env (db_fd d ! p) = Some (sz, object)"
    using assms(3) ok by (cases "en_stat env (db_fd d ! p)") (auto simp: adopt_plane_def Let_def)
  have g: "\<not> (sz > 0 \<and> ?o + ?s * (?r - 1) + ?b > of_int sz)" "object \<notin> set prior" "object = b"
    using assms(3) ok st by (simp_all add: adopt_plane_def Let_def split: if_splits)
  have lim: "unat ?o < 2 ^ 32" "unat ?s < 2 ^ 32" using ok by (simp_all add: word_less_nat_alt not_less)
  have "int (unat ?o + unat ?s * (unat ?r - 1) + unat ?b) \<le> sz" if "sz > 0"
  proof -
    have "unat (?o + ?s * (?r - 1) + ?b) \<le> unat (of_int sz :: u64)" using g(1) that by (simp add: word_le_nat_alt not_less)
    moreover have "int (unat (of_int sz :: u64)) \<le> sz" using that by (simp add: uint_word_of_int zmod_le_nonneg_dividend)
    moreover have "?b \<le> ?s" using ok by (simp add: not_less)
    then have "unat (?o + ?s * (?r - 1) + ?b) = unat ?o + unat ?s * (unat ?r - 1) + unat ?b"
      by (rule adopt_extent_exact [OF lim _ plane_row_count [OF assms(1,2)]])
    ultimately show ?thesis by linarith
  qed
  then show ?thesis using st g by (simp add: plane_extent_ok_def backing_def)
qed

lemma adopt_planes_ok:
  assumes "validGeometry (ci_width info) (ci_height info) (ci_format info)"
  shows "adopt_planes env info d prior ps = Some cur \<Longrightarrow> \<forall>p \<in> set ps. p < format_planes (ci_format info) \<Longrightarrow>
    (\<forall>p \<in> set ps. plane_extent_ok env info d p \<and> (\<exists>b \<in> set cur. backing env d p = Some b)) \<and>
    set cur \<inter> set prior = {}"
proof (induction ps arbitrary: cur)
  case (Cons p ps)
  from Cons.prems(1) obtain b rest where a: "adopt_plane env info d prior p = Some b"
    "adopt_planes env info d prior ps = Some rest" "cur = b # rest" by (auto split: option.splits)
  show ?case using Cons.IH [OF a(2)] Cons.prems(2) adopt_plane_ok [OF assms _ a(1)] a(3) by auto
qed simp

lemma adopt_loop_step:
  assumes "adopt_loop env ch first i prior (d # ds) = (FL_OK, ch')"
  shows "\<exists>cur ch1. adopt_planes env (ch_info ch) d prior [0..<format_planes (ci_format (ch_info ch))] = Some cur \<and>
    ch_info ch1 = ch_info ch \<and> adopt_loop env ch1 first (Suc i) (prior @ cur) ds = (FL_OK, ch')"
  using assms
  by (auto simp: Let_def split: if_splits option.splits prod.splits) (rule exI, rule conjI [rotated], assumption, simp)+

lemma adopt_loop_ok:
  assumes "adopt_loop env ch first i prior ds = (FL_OK, ch')"
    "validGeometry (ci_width (ch_info ch)) (ci_height (ch_info ch)) (ci_format (ch_info ch))"
  shows "(\<forall>d \<in> set ds. \<forall>p < format_planes (ci_format (ch_info ch)).
      plane_extent_ok env (ch_info ch) d p \<and> backing env d p \<noteq> None \<and> backing env d p \<notin> Some ` set prior) \<and>
    sorted_wrt (\<lambda>d e. \<forall>p < format_planes (ci_format (ch_info ch)). \<forall>q < format_planes (ci_format (ch_info ch)).
      backing env d p \<noteq> backing env e q) ds"
  using assms
proof (induction ds arbitrary: ch i prior)
  case (Cons d ds)
  let ?n = "format_planes (ci_format (ch_info ch))"
  from adopt_loop_step [OF Cons.prems(1)] obtain cur ch1 where
    a: "adopt_planes env (ch_info ch) d prior [0..<?n] = Some cur" "ch_info ch1 = ch_info ch"
      "adopt_loop env ch1 first (Suc i) (prior @ cur) ds = (FL_OK, ch')" by blast
  have d: "(\<forall>p < ?n. plane_extent_ok env (ch_info ch) d p \<and> (\<exists>b \<in> set cur. backing env d p = Some b))"
    "set cur \<inter> set prior = {}" using adopt_planes_ok [OF Cons.prems(2) a(1)] by auto
  have ih: "\<forall>e \<in> set ds. \<forall>p < ?n. plane_extent_ok env (ch_info ch) e p \<and> backing env e p \<noteq> None \<and>
      backing env e p \<notin> Some ` set (prior @ cur)"
    "sorted_wrt (\<lambda>d e. \<forall>p < ?n. \<forall>q < ?n. backing env d p \<noteq> backing env e q) ds"
    using Cons.IH [OF a(3)] Cons.prems(2) a(2) by auto
  have "backing env d p \<noteq> backing env e q" if "e \<in> set ds" "p < ?n" "q < ?n" for e p q
    using d(1) ih(1) that by (metis UnCI image_eqI set_append)
  then show ?case using d ih by fastforce
qed simp



end
