(* ===== verification/FL_Producer.thy ===== *)
theory FL_Producer
  imports FL_Channel
begin

text \<open>
  The producer side of a channel, \<^verbatim>\<open>src/framelink_linux.cpp\<close> and \<^verbatim>\<open>src/fl_read_api.inc\<close>: release messages,
  slot acquisition, submission, cancellation, metadata, local references, geometry requests, opening and closing.
  The functions are those of a non-null channel; every entry point answers \<^verbatim>\<open>FL_INVALID\<close> to a null one.  The
  acquisition loop is given, per round, the environment and the datagrams that arrived before the round.
\<close>

section \<open>Release messages\<close>

definition applyRelease :: "Env \<Rightarrow> flChannel \<Rightarrow> Message \<Rightarrow> flChannel" where
  "applyRelease env ch msg =
     (if ms_type msg \<noteq> MsgFrameReleased then ch
      else case frame_of (ms_payload msg) of
          None \<Rightarrow> ch
        | Some fr \<Rightarrow>
            advance_consumed env (log_closed (tl (ms_fds msg))
              (ch\<lparr>ch_sync := (ch_sync ch)\<lparr>sy_releases := sy_releases (ch_sync ch) @
                 [(fm_readyValue fr, if ms_fds msg = [] then -1 else hd (ms_fds msg))]\<rparr>\<rparr>)))"

lemma applyRelease_link [simp]: "ch_link (applyRelease env ch msg) = ch_link ch"
  by (simp add: applyRelease_def advance_consumed_def log_closed_def Let_def split: option.splits prod.splits)

text \<open>Receiving on the producer's link, with the descriptors the receive closed.\<close>
definition recv_link :: "flChannel \<Rightarrow> Message option \<times> flChannel" where
  "recv_link ch = (let (m, link, closed) = ipc_recv (ch_link ch) in (m, log_closed closed (ch\<lparr>ch_link := link\<rparr>)))"

lemma recv_link_shrinks: "recv_link ch = (Some m, ch') \<Longrightarrow> length (ic_inbox (ch_link ch')) < length (ic_inbox (ch_link ch))"
  by (auto simp: recv_link_def ipc_recv_def log_closed_def Let_def split: if_splits list.splits prod.splits)

text \<open>Draining stops when no datagram is queued, or when the connection is lost.\<close>
function drainProducerMessages :: "Env \<Rightarrow> flChannel \<Rightarrow> flChannel" where
  "drainProducerMessages env ch =
     (if ic_inbox (ch_link ch) = [] then ch
      else case recv_link ch of
          (None, ch') \<Rightarrow> ch'
        | (Some m, ch') \<Rightarrow> drainProducerMessages env (applyRelease env ch' m))"
  by pat_completeness auto
termination
  by (relation "measure (\<lambda>(env, ch). length (ic_inbox (ch_link ch)))") (auto dest: recv_link_shrinks [OF sym])

declare drainProducerMessages.simps [simp del]

section \<open>Acquisition\<close>

definition slot_free :: "flChannel \<Rightarrow> nat \<Rightarrow> bool" where
  "slot_free ch i \<longleftrightarrow> ch_slotSubmitValue ch ! i \<le> ch_consumedValue ch \<and> \<not> refs_busy (ch_bufferReferences ch) (of_nat i)"

definition arrive :: "Datagram list \<Rightarrow> flChannel \<Rightarrow> flChannel" where
  "arrive ds ch = ch\<lparr>ch_link := (ch_link ch)\<lparr>ic_inbox := ic_inbox (ch_link ch) @ ds\<rparr>\<rparr>"

definition take_slot :: "flChannel \<Rightarrow> nat \<Rightarrow> flChannel" where
  "take_slot ch i = ch\<lparr>ch_slotSubmitValue := (ch_slotSubmitValue ch)[i := UINT64_MAX],
     ch_slotMetadata := (ch_slotMetadata ch)[i := zero_metadata]\<rparr>"

definition slot_buffer :: "flChannel \<Rightarrow> nat \<Rightarrow> flBuffer" where
  "slot_buffer ch i = \<lparr>bf_slot = of_nat i, bf_image = Some (im_addr (ch_images ch ! i))\<rparr>"

definition acquire_round ::
  "(nat \<Rightarrow> Env) \<Rightarrow> (nat \<Rightarrow> Datagram list) \<Rightarrow> nat \<Rightarrow> flChannel \<times> flBuffer option \<Rightarrow>
   flResult option \<times> flChannel \<times> flBuffer option" where
  "acquire_round envs arrivals k s =
     (let (ch, out) = s; ch1 = drainProducerMessages (envs k) (arrive (arrivals k) ch)
      in if \<not> ic_connected (ch_link ch1) then (Some FL_DISCONNECTED, ch1, out)
         else
           let ch2 = advance_consumed (envs k) ch1
           in case find (slot_free ch2) [0..<length (ch_images ch2)] of
                Some i \<Rightarrow> (Some FL_OK, take_slot ch2 i, assign out (slot_buffer ch2 i))
              | None \<Rightarrow> (None, ch2, out))"

definition flAcquireBuffer ::
  "(nat \<Rightarrow> Env) \<Rightarrow> (nat \<Rightarrow> Datagram list) \<Rightarrow> flChannel \<Rightarrow> flBuffer option \<Rightarrow> u32 \<Rightarrow>
   (flResult \<times> (flChannel \<times> flBuffer option) \<times> nat) option" where
  "flAcquireBuffer envs arrivals ch out timeoutMs =
     (if ch_isConsumer ch \<or> out = None then Some (FL_INVALID, (ch, out), 0)
      else if \<not> ic_connected (ch_link ch) then Some (FL_DISCONNECTED, (ch, out), 0)
      else timed_loop 2 timeoutMs (acquire_round envs arrivals) FL_TIMEOUT 0 0 (ch, out))"

section \<open>Submission\<close>

text \<open>\<^verbatim>\<open>buf && buf->slot < images.size() && buf->image == images[buf->slot]\<close>\<close>
definition buffer_member :: "flChannel \<Rightarrow> flBuffer option \<Rightarrow> bool" where
  "buffer_member ch buf \<longleftrightarrow>
     (case buf of None \<Rightarrow> False
      | Some b \<Rightarrow> unat (bf_slot b) < length (ch_images ch) \<and> bf_image b = Some (im_addr (ch_images ch ! unat (bf_slot b))))"

definition metadataReservation :: "flChannel \<Rightarrow> flBuffer option \<Rightarrow> bool" where
  "metadataReservation ch buf \<longleftrightarrow> buffer_member ch buf \<and> ch_slotSubmitValue ch ! unat (bf_slot (the buf)) = UINT64_MAX"

definition unmap_slot :: "flChannel \<Rightarrow> nat \<Rightarrow> flChannel" where
  "unmap_slot ch i = ch\<lparr>ch_images := (ch_images ch)[i := fst (flImageUnmap (ch_images ch ! i))]\<rparr>"

definition flCancelBuffer :: "flChannel \<Rightarrow> flBuffer option \<Rightarrow> flResult \<times> flChannel" where
  "flCancelBuffer ch buf =
     (if ch_isConsumer ch \<or> \<not> metadataReservation ch buf then (FL_INVALID, ch)
      else
        let slot = bf_slot (the buf)
        in if ch_submittingValue ch \<noteq> 0 \<and> ch_submittingSlot ch = slot then (FL_BUSY, ch)
           else (FL_OK, (unmap_slot ch (unat slot))\<lparr>ch_slotSubmitValue := (ch_slotSubmitValue ch)[unat slot := 0]\<rparr>))"

definition flBeginSubmit :: "flChannel \<Rightarrow> flBuffer option \<Rightarrow> u64 option \<Rightarrow> flResult \<times> flChannel \<times> u64 option" where
  "flBeginSubmit ch buf signalValue =
     (if ch_isConsumer ch \<or> signalValue = None \<or> \<not> metadataReservation ch buf then (FL_INVALID, ch, signalValue)
      else if \<not> ic_connected (ch_link ch) then (FL_DISCONNECTED, ch, signalValue)
      else if ch_submittingValue ch \<noteq> 0 then (FL_BUSY, ch, signalValue)
      else if ch_peerFeatures ch AND push_bit 16 FrameMetadataFeature \<noteq> 0 \<and>
        md_version (ch_slotMetadata ch ! unat (bf_slot (the buf))) = 0 then (FL_FORMAT_UNSUPPORTED, ch, signalValue)
      else if ch_readyValue ch \<ge> UINT64_MAX - 1 then (FL_INVALID, ch, signalValue)
      else
        let v = ch_readyValue ch + 1
        in (FL_OK, ch\<lparr>ch_submittingSlot := bf_slot (the buf), ch_submittingValue := v, ch_readyValue := v\<rparr>, Some v))"

definition ready_message :: "u32 \<Rightarrow> u64 \<Rightarrow> i64 \<Rightarrow> FrameReadyMsg" where
  "ready_message slot value pts = \<lparr>fm_slot = slot, fm_pad = 0, fm_readyValue = value, fm_ptsNs = pts\<rparr>"

text \<open>Recording the submitted value, closing the transaction, and the send.\<close>
definition publish :: "Env \<Rightarrow> flChannel \<Rightarrow> u32 \<Rightarrow> u64 \<Rightarrow> i64 \<Rightarrow> fd \<Rightarrow> flResult \<times> flChannel" where
  "publish env ch slot value pts fd =
     (let ch1 = ch\<lparr>ch_slotSubmitValue := (ch_slotSubmitValue ch)[unat slot := value], ch_submittingValue := 0,
            ch_submittingSlot := UINT32_MAX\<rparr>;
          (sent, link) = sendFrame (en_sendmsg env) (ch_link ch1) (ready_message slot value pts)
            (ch_slotMetadata ch1 ! unat slot) fd
      in (if sent then FL_OK else FL_DISCONNECTED, ch1\<lparr>ch_link := link\<rparr>))"

definition flEndSubmit :: "Env \<Rightarrow> flChannel \<Rightarrow> flBuffer option \<Rightarrow> u64 \<Rightarrow> i64 \<Rightarrow> flResult \<times> flChannel" where
  "flEndSubmit env ch buf signalValue pts =
     (if ch_isConsumer ch \<or> \<not> metadataReservation ch buf \<or> signalValue = 0 \<or> signalValue \<noteq> ch_submittingValue ch \<or>
        bf_slot (the buf) \<noteq> ch_submittingSlot ch then (FL_INVALID, ch)
      else if \<not> ic_connected (ch_link ch) then (FL_DISCONNECTED, ch)
      else publish env ch (bf_slot (the buf)) signalValue pts (-1))"

definition flSubmit :: "Env \<Rightarrow> flChannel \<Rightarrow> flBuffer option \<Rightarrow> i64 \<Rightarrow> flResult \<times> flChannel" where
  "flSubmit env ch buf pts =
     (let (r, ch1, v) = flBeginSubmit ch buf (Some 0)
      in if r = FL_OK then flEndSubmit env ch1 buf (the v) pts else (r, ch1))"

definition flSubmitSyncFd :: "Env \<Rightarrow> flChannel \<Rightarrow> flBuffer option \<Rightarrow> fd \<Rightarrow> i64 \<Rightarrow> flResult \<times> flChannel" where
  "flSubmitSyncFd env ch buf fd pts =
     (if ch_isConsumer ch \<or> \<not> buffer_member ch buf then (FL_INVALID, ch)
      else if \<not> ic_connected (ch_link ch) then (FL_DISCONNECTED, ch)
      else
        let (begun, ch1, v) = flBeginSubmit ch buf (Some 0)
        in if begun \<noteq> FL_OK then (begun, ch1)
           else publish env (unmap_slot ch1 (unat (bf_slot (the buf)))) (bf_slot (the buf)) (the v) pts fd)"

section \<open>Metadata and references\<close>

definition flSetFrameMetadata :: "flChannel \<Rightarrow> flBuffer option \<Rightarrow> flFrameMetadata option \<Rightarrow> flResult \<times> flChannel" where
  "flSetFrameMetadata ch buf metadata =
     (if ch_isConsumer ch \<or> metadata = None \<or> \<not> metadataReservation ch buf then (FL_INVALID, ch)
      else if ch_submittingValue ch \<noteq> 0 then (FL_BUSY, ch)
      else if ch_peerFeatures ch AND FrameMetadataFeature = 0 then (FL_FORMAT_UNSUPPORTED, ch)
      else if validateMetadata (the metadata) \<noteq> FL_OK then (validateMetadata (the metadata), ch)
      else (FL_OK, ch\<lparr>ch_slotMetadata := (ch_slotMetadata ch)[unat (bf_slot (the buf)) := the metadata]\<rparr>))"

definition flRetainBufferReference ::
  "flChannel \<Rightarrow> u64 \<Rightarrow> flBuffer option \<Rightarrow> u64 option \<Rightarrow> flResult \<times> flChannel \<times> u64 \<times> u64 option" where
  "flRetainBufferReference ch next buf reference =
     (if ch_isConsumer ch \<or> reference = None \<or> \<not> metadataReservation ch buf then (FL_INVALID, ch, next, reference)
      else
        let (r, refs, next', out) = refs_retain (ch_bufferReferences ch) next (bf_slot (the buf)) (the reference)
        in (r, ch\<lparr>ch_bufferReferences := refs\<rparr>, next', Some out))"

definition flReleaseBufferReference :: "flChannel \<Rightarrow> u64 \<Rightarrow> flResult \<times> flChannel" where
  "flReleaseBufferReference ch reference =
     (if ch_isConsumer ch then (FL_INVALID, ch)
      else let (r, refs) = refs_release (ch_bufferReferences ch) reference in (r, ch\<lparr>ch_bufferReferences := refs\<rparr>))"

section \<open>Geometry, opening and closing\<close>

text \<open>The wait for the answer: releases are applied, anything but a ring description ends the call.\<close>
function request_loop :: "Env \<Rightarrow> flChannel \<Rightarrow> flResult \<times> flChannel" where
  "request_loop env ch =
     (case recv_link ch of
        (None, ch') \<Rightarrow> (FL_DISCONNECTED, ch')
      | (Some m, ch') \<Rightarrow>
          if ms_type m = MsgFrameReleased then request_loop env (applyRelease env ch' m)
          else case (if ms_type m = MsgRingDesc then ring_of (ms_payload m) else None) of
              None \<Rightarrow> (FL_DISCONNECTED, ch')
            | Some rd \<Rightarrow>
                if rd_generation rd = ci_generation (ch_info ch') then (FL_OK, log_closed (ms_fds m) ch')
                else
                  let (r, ch2) = importRing env ((clear_sync ch')\<lparr>ch_readyValue := 0\<rparr>) rd (ms_fds m)
                  in (r, if r \<noteq> FL_OK then log_closed (ms_fds m) ch2 else ch2))"
  by pat_completeness auto
termination
  by (relation "measure (\<lambda>(env, ch). length (ic_inbox (ch_link ch)))") (auto dest: recv_link_shrinks [OF sym])

declare request_loop.simps [simp del]

definition flRequestGeometry :: "Env \<Rightarrow> flChannel \<Rightarrow> u32 \<Rightarrow> u32 \<Rightarrow> flFormat \<Rightarrow> flResult \<times> flChannel" where
  "flRequestGeometry env ch width height format =
     (if ch_isConsumer ch \<or> \<not> validGeometry width height format then (FL_INVALID, ch)
      else if fourccFor format = 0 then (FL_FORMAT_UNSUPPORTED, ch)
      else if \<not> ic_connected (ch_link ch) then (FL_DISCONNECTED, ch)
      else if \<not> refs_empty (ch_bufferReferences ch) then (FL_BUSY, ch)
      else if UINT64_MAX \<in> set (ch_slotSubmitValue ch) then (FL_BUSY, ch)
      else
        let (sent, link) = ipc_send (en_sendmsg env) (ch_link ch) MsgRequestGeometry
              (geometry_bytes \<lparr>gm_width = width, gm_height = height, gm_format = format, gm_pad = 0\<rparr>)
        in if \<not> sent then (FL_DISCONNECTED, ch\<lparr>ch_link := link\<rparr>) else request_loop env (ch\<lparr>ch_link := link\<rparr>))"

text \<open>Deleting a channel: everything it still owns is closed.\<close>
definition delete_channel :: "flChannel \<Rightarrow> fd list" where
  "delete_channel ch = ch_closed ch @ snd (sync_clear (ch_sync ch)) @ snd (ipc_close (ch_link ch)) @ snd (ipc_close (ch_peer ch))"

text \<open>
  \<^verbatim>\<open>flOpenProducer\<close> on the connection that \<^verbatim>\<open>Channel::connect\<close> returned; \<open>pid\<close> is the caller's process id.  The result
  is the code, the channel if one was opened, and otherwise the descriptors that were closed.
\<close>
definition hello_mine :: "u32 \<Rightarrow> u32 \<Rightarrow> HelloMsg" where
  "hello_mine features pid = \<lparr>hm_version = FL_VERSION, hm_pid = pid, hm_luidValid = 0, hm_pad = features, hm_luid = replicate 8 0\<rparr>"

definition open_ring :: "Env \<Rightarrow> u32 \<Rightarrow> flChannel \<Rightarrow> flResult \<times> flChannel option \<times> fd list" where
  "open_ring env pid ch =
     (let (sent, link) = ipc_send (en_sendmsg env) (ch_link ch) MsgHello (hello_bytes (hello_mine (localFeatures 0) pid));
          ch1 = ch\<lparr>ch_link := link\<rparr>
      in if \<not> sent then (FL_INTERNAL, None, delete_channel ch1)
         else
           let (ring, ch2) = recv_link ch1
           in case ring of
                None \<Rightarrow> (FL_DISCONNECTED, None, delete_channel ch2)
              | Some m \<Rightarrow>
                  if ms_type m = MsgBusy then (FL_BUSY, None, delete_channel ch2)
                  else case (if ms_type m = MsgRingDesc then ring_of (ms_payload m) else None) of
                      None \<Rightarrow> (FL_DISCONNECTED, None, delete_channel ch2)
                    | Some rd \<Rightarrow>
                        let (r, ch3) = importRing env ch2 rd (ms_fds m)
                        in if r \<noteq> FL_OK then (r, None, ms_fds m @ delete_channel ch3)
                           else (FL_OK, Some (ch3\<lparr>ch_info := (ch_info ch3)\<lparr>ci_version := FL_VERSION\<rparr>\<rparr>), []))"

definition flOpenProducer :: "Env \<Rightarrow> u32 \<Rightarrow> string \<Rightarrow> IpcChannel \<Rightarrow> flResult \<times> flChannel option \<times> fd list" where
  "flOpenProducer env pid name conn =
     (if \<not> ic_connected conn then (FL_NOT_FOUND, None, delete_channel (new_channel\<lparr>ch_name := name, ch_link := conn\<rparr>))
      else
        let (hello, ch) = recv_link (new_channel\<lparr>ch_name := name, ch_link := conn\<rparr>)
        in case hello of
             None \<Rightarrow> (FL_DISCONNECTED, None, delete_channel ch)
           | Some m \<Rightarrow>
               if ms_fds m \<noteq> [] then (FL_INVALID, None, ms_fds m @ delete_channel ch)
               else if ms_type m = MsgBusy then (FL_BUSY, None, delete_channel ch)
               else case (if ms_type m = MsgHello \<and> length (ms_payload m) = 24 then hello_of (ms_payload m) else None) of
                   None \<Rightarrow> (FL_DISCONNECTED, None, delete_channel ch)
                 | Some srv \<Rightarrow>
                     if hm_version srv \<noteq> FL_VERSION then (FL_VERSION_MISMATCH, None, delete_channel ch)
                     else if \<not> compatibleFeatures (localFeatures 0) (hm_pad srv) then (FL_VERSION_MISMATCH, None, delete_channel ch)
                     else open_ring env pid (ch\<lparr>ch_peerFeatures := hm_pad srv\<rparr>))"

text \<open>\<^verbatim>\<open>flClose\<close> of a producer: a farewell if connected, then everything is released.\<close>
definition flClose_producer :: "Env \<Rightarrow> flChannel \<Rightarrow> IpcChannel \<times> fd list" where
  "flClose_producer env ch =
     (let link = (if ic_connected (ch_link ch) then snd (sendWithFds (en_sendmsg env) (ch_link ch) MsgBye None 0 None 0) else ch_link ch)
      in (link, concat (map freeImage (ch_images ch)) @ delete_channel (ch\<lparr>ch_link := link\<rparr>)))"

section \<open>Invariant\<close>

text \<open>
  The producer's timeline: recorded values never exceed the counter, a value is recorded for one slot only, and an
  open transaction owns a reserved slot and the newest value, which no slot has yet.
\<close>
definition prod_inv :: "flChannel \<Rightarrow> bool" where
  "prod_inv ch \<longleftrightarrow> length (ch_slotSubmitValue ch) = length (ch_images ch) \<and> length (ch_images ch) \<le> kMaxPool \<and>
     length (ch_slotMetadata ch) = kMaxPool \<and> ch_readyValue ch \<noteq> UINT64_MAX \<and>
     (\<forall>v \<in> set (ch_slotSubmitValue ch). v = UINT64_MAX \<or> v \<le> ch_readyValue ch) \<and>
     distinct (filter (\<lambda>v. v \<noteq> 0 \<and> v \<noteq> UINT64_MAX) (ch_slotSubmitValue ch)) \<and>
     (ch_submittingValue ch \<noteq> 0 \<longrightarrow> ch_submittingValue ch = ch_readyValue ch \<and>
        unat (ch_submittingSlot ch) < length (ch_images ch) \<and>
        ch_slotSubmitValue ch ! unat (ch_submittingSlot ch) = UINT64_MAX \<and>
        ch_readyValue ch \<notin> set (ch_slotSubmitValue ch))"

datatype prod_event =
    PeRound Env "Datagram list"
  | PeCancel "flBuffer option"
  | PeBegin "flBuffer option"
  | PeEnd Env "flBuffer option" u64 i64
  | PeSubmit Env "flBuffer option" i64
  | PeSubmitFd Env "flBuffer option" fd i64
  | PeMetadata "flBuffer option" "flFrameMetadata option"
  | PeRetain u64 "flBuffer option"
  | PeRelease u64
  | PeGeometry Env u32 u32 flFormat

text \<open>One call (or one round of the acquisition loop) on the producer; \<open>None\<close> is a round that found no free slot.\<close>
fun prod_exec :: "flChannel \<Rightarrow> prod_event \<Rightarrow> flResult option \<times> flChannel" where
  "prod_exec ch (PeRound env ds) = (let (r, ch', out) = acquire_round (\<lambda>k. env) (\<lambda>k. ds) 0 (ch, Some \<lparr>bf_slot = 0, bf_image = None\<rparr>) in (r, ch'))"
| "prod_exec ch (PeCancel buf) = (let (r, ch') = flCancelBuffer ch buf in (Some r, ch'))"
| "prod_exec ch (PeBegin buf) = (let (r, ch', v) = flBeginSubmit ch buf (Some 0) in (Some r, ch'))"
| "prod_exec ch (PeEnd env buf v pts) = (let (r, ch') = flEndSubmit env ch buf v pts in (Some r, ch'))"
| "prod_exec ch (PeSubmit env buf pts) = (let (r, ch') = flSubmit env ch buf pts in (Some r, ch'))"
| "prod_exec ch (PeSubmitFd env buf fd pts) = (let (r, ch') = flSubmitSyncFd env ch buf fd pts in (Some r, ch'))"
| "prod_exec ch (PeMetadata buf md) = (let (r, ch') = flSetFrameMetadata ch buf md in (Some r, ch'))"
| "prod_exec ch (PeRetain next buf) = (let (r, ch', next', out) = flRetainBufferReference ch next buf (Some 0) in (Some r, ch'))"
| "prod_exec ch (PeRelease t) = (let (r, ch') = flReleaseBufferReference ch t in (Some r, ch'))"
| "prod_exec ch (PeGeometry env w h f) = (let (r, ch') = flRequestGeometry env ch w h f in (Some r, ch'))"

text \<open>The part of the channel the invariant speaks about.\<close>
definition prod_view ::
  "flChannel \<Rightarrow> u64 list \<times> nat \<times> nat \<times> u64 \<times> u64 \<times> u32" where
  "prod_view ch = (ch_slotSubmitValue ch, length (ch_images ch), length (ch_slotMetadata ch), ch_readyValue ch,
     ch_submittingValue ch, ch_submittingSlot ch)"

definition example_producer :: flChannel where
  "example_producer = new_channel\<lparr>ch_images := [example_image], ch_slotSubmitValue := [5], ch_readyValue := 5, ch_consumedValue := 5,
     ch_info := \<lparr>ci_version = 6, ci_width = 8, ci_height = 8, ci_format = FL_FORMAT_NV12, ci_poolSize = 1, ci_generation = 1\<rparr>,
     ch_link := ipc_null\<lparr>ic_connected := True, ic_fd := 3\<rparr>\<rparr>"

text \<open>A producer whose geometry request is answered by a description of a ring with a new generation and no slots.\<close>
definition refused_resize :: flChannel where
  "refused_resize = example_producer\<lparr>ch_link := (ch_link example_producer)\<lparr>ic_inbox :=
     [delivered (ipc_header MsgRingDesc 1528 @ ring_bytes (zero_ringDesc\<lparr>rd_generation := 2\<rparr>), [])]\<rparr>\<rparr>"

section \<open>Lemmas\<close>

lemma applyRelease_fields [simp]:
  "ch_isConsumer (applyRelease env ch msg) = ch_isConsumer ch"
  "ch_externalPool (applyRelease env ch msg) = ch_externalPool ch" "ch_name (applyRelease env ch msg) = ch_name ch"
  "ch_info (applyRelease env ch msg) = ch_info ch" "ch_flags (applyRelease env ch msg) = ch_flags ch"
  "ch_peerFeatures (applyRelease env ch msg) = ch_peerFeatures ch"
  "ch_bufferReferences (applyRelease env ch msg) = ch_bufferReferences ch"
  "ch_slotMetadata (applyRelease env ch msg) = ch_slotMetadata ch"
  "ch_pendingMetadata (applyRelease env ch msg) = ch_pendingMetadata ch"
  "ch_heldMetadata (applyRelease env ch msg) = ch_heldMetadata ch"
  "ch_images (applyRelease env ch msg) = ch_images ch"
  "ch_submittingSlot (applyRelease env ch msg) = ch_submittingSlot ch"
  "ch_submittingValue (applyRelease env ch msg) = ch_submittingValue ch"
  "ch_readyValue (applyRelease env ch msg) = ch_readyValue ch" "ch_peer (applyRelease env ch msg) = ch_peer ch"
  "ch_peerGone (applyRelease env ch msg) = ch_peerGone ch"
  "ch_hasPending (applyRelease env ch msg) = ch_hasPending ch" "ch_readers (applyRelease env ch msg) = ch_readers ch"
  "ch_leaseCompletions (applyRelease env ch msg) = ch_leaseCompletions ch"
  "ch_frameHeld (applyRelease env ch msg) = ch_frameHeld ch"
  "ch_heldReady (applyRelease env ch msg) = ch_heldReady ch"
  "ch_retiredValue (applyRelease env ch msg) = ch_retiredValue ch"
  "ch_heldSlot (applyRelease env ch msg) = ch_heldSlot ch"
  "ch_pendingSlot (applyRelease env ch msg) = ch_pendingSlot ch"
  "ch_pendingReady (applyRelease env ch msg) = ch_pendingReady ch"
  "ch_pendingPts (applyRelease env ch msg) = ch_pendingPts ch"
  "ch_pendingArrival (applyRelease env ch msg) = ch_pendingArrival ch"
  "ch_heldArrival (applyRelease env ch msg) = ch_heldArrival ch"
  "ch_sequence (applyRelease env ch msg) = ch_sequence ch"
  "ch_slotSubmitValue (applyRelease env ch msg) = ch_slotSubmitValue ch"
  by (simp_all add: applyRelease_def split: option.splits)

lemma take_slot_fields [simp]:
  "ch_isConsumer (take_slot ch i) = ch_isConsumer ch" "ch_externalPool (take_slot ch i) = ch_externalPool ch"
  "ch_name (take_slot ch i) = ch_name ch" "ch_info (take_slot ch i) = ch_info ch"
  "ch_flags (take_slot ch i) = ch_flags ch" "ch_peerFeatures (take_slot ch i) = ch_peerFeatures ch"
  "ch_bufferReferences (take_slot ch i) = ch_bufferReferences ch"
  "ch_pendingMetadata (take_slot ch i) = ch_pendingMetadata ch"
  "ch_heldMetadata (take_slot ch i) = ch_heldMetadata ch" "ch_images (take_slot ch i) = ch_images ch"
  "ch_sync (take_slot ch i) = ch_sync ch" "ch_submittingSlot (take_slot ch i) = ch_submittingSlot ch"
  "ch_submittingValue (take_slot ch i) = ch_submittingValue ch" "ch_readyValue (take_slot ch i) = ch_readyValue ch"
  "ch_peer (take_slot ch i) = ch_peer ch" "ch_peerGone (take_slot ch i) = ch_peerGone ch"
  "ch_hasPending (take_slot ch i) = ch_hasPending ch" "ch_readers (take_slot ch i) = ch_readers ch"
  "ch_leaseCompletions (take_slot ch i) = ch_leaseCompletions ch" "ch_frameHeld (take_slot ch i) = ch_frameHeld ch"
  "ch_heldReady (take_slot ch i) = ch_heldReady ch" "ch_retiredValue (take_slot ch i) = ch_retiredValue ch"
  "ch_heldSlot (take_slot ch i) = ch_heldSlot ch" "ch_pendingSlot (take_slot ch i) = ch_pendingSlot ch"
  "ch_pendingReady (take_slot ch i) = ch_pendingReady ch" "ch_pendingPts (take_slot ch i) = ch_pendingPts ch"
  "ch_pendingArrival (take_slot ch i) = ch_pendingArrival ch" "ch_heldArrival (take_slot ch i) = ch_heldArrival ch"
  "ch_sequence (take_slot ch i) = ch_sequence ch" "ch_link (take_slot ch i) = ch_link ch"
  "ch_consumedValue (take_slot ch i) = ch_consumedValue ch" "ch_closed (take_slot ch i) = ch_closed ch"
  by (simp_all add: take_slot_def)

lemma arrive_fields [simp]:
  "ch_isConsumer (arrive ds ch) = ch_isConsumer ch" "ch_externalPool (arrive ds ch) = ch_externalPool ch"
  "ch_name (arrive ds ch) = ch_name ch" "ch_info (arrive ds ch) = ch_info ch" "ch_flags (arrive ds ch) = ch_flags ch"
  "ch_peerFeatures (arrive ds ch) = ch_peerFeatures ch" "ch_bufferReferences (arrive ds ch) = ch_bufferReferences ch"
  "ch_slotMetadata (arrive ds ch) = ch_slotMetadata ch" "ch_pendingMetadata (arrive ds ch) = ch_pendingMetadata ch"
  "ch_heldMetadata (arrive ds ch) = ch_heldMetadata ch" "ch_images (arrive ds ch) = ch_images ch"
  "ch_sync (arrive ds ch) = ch_sync ch" "ch_submittingSlot (arrive ds ch) = ch_submittingSlot ch"
  "ch_submittingValue (arrive ds ch) = ch_submittingValue ch" "ch_readyValue (arrive ds ch) = ch_readyValue ch"
  "ch_peer (arrive ds ch) = ch_peer ch" "ch_peerGone (arrive ds ch) = ch_peerGone ch"
  "ch_hasPending (arrive ds ch) = ch_hasPending ch" "ch_readers (arrive ds ch) = ch_readers ch"
  "ch_leaseCompletions (arrive ds ch) = ch_leaseCompletions ch" "ch_frameHeld (arrive ds ch) = ch_frameHeld ch"
  "ch_heldReady (arrive ds ch) = ch_heldReady ch" "ch_retiredValue (arrive ds ch) = ch_retiredValue ch"
  "ch_heldSlot (arrive ds ch) = ch_heldSlot ch" "ch_pendingSlot (arrive ds ch) = ch_pendingSlot ch"
  "ch_pendingReady (arrive ds ch) = ch_pendingReady ch" "ch_pendingPts (arrive ds ch) = ch_pendingPts ch"
  "ch_pendingArrival (arrive ds ch) = ch_pendingArrival ch" "ch_heldArrival (arrive ds ch) = ch_heldArrival ch"
  "ch_sequence (arrive ds ch) = ch_sequence ch" "ch_slotSubmitValue (arrive ds ch) = ch_slotSubmitValue ch"
  "ch_consumedValue (arrive ds ch) = ch_consumedValue ch" "ch_closed (arrive ds ch) = ch_closed ch"
  by (simp_all add: arrive_def)

lemma unmap_slot_fields [simp]:
  "ch_isConsumer (unmap_slot ch i) = ch_isConsumer ch" "ch_externalPool (unmap_slot ch i) = ch_externalPool ch"
  "ch_name (unmap_slot ch i) = ch_name ch" "ch_info (unmap_slot ch i) = ch_info ch"
  "ch_flags (unmap_slot ch i) = ch_flags ch" "ch_peerFeatures (unmap_slot ch i) = ch_peerFeatures ch"
  "ch_bufferReferences (unmap_slot ch i) = ch_bufferReferences ch"
  "ch_slotMetadata (unmap_slot ch i) = ch_slotMetadata ch"
  "ch_pendingMetadata (unmap_slot ch i) = ch_pendingMetadata ch"
  "ch_heldMetadata (unmap_slot ch i) = ch_heldMetadata ch" "ch_sync (unmap_slot ch i) = ch_sync ch"
  "ch_submittingSlot (unmap_slot ch i) = ch_submittingSlot ch"
  "ch_submittingValue (unmap_slot ch i) = ch_submittingValue ch" "ch_readyValue (unmap_slot ch i) = ch_readyValue ch"
  "ch_peer (unmap_slot ch i) = ch_peer ch" "ch_peerGone (unmap_slot ch i) = ch_peerGone ch"
  "ch_hasPending (unmap_slot ch i) = ch_hasPending ch" "ch_readers (unmap_slot ch i) = ch_readers ch"
  "ch_leaseCompletions (unmap_slot ch i) = ch_leaseCompletions ch" "ch_frameHeld (unmap_slot ch i) = ch_frameHeld ch"
  "ch_heldReady (unmap_slot ch i) = ch_heldReady ch" "ch_retiredValue (unmap_slot ch i) = ch_retiredValue ch"
  "ch_heldSlot (unmap_slot ch i) = ch_heldSlot ch" "ch_pendingSlot (unmap_slot ch i) = ch_pendingSlot ch"
  "ch_pendingReady (unmap_slot ch i) = ch_pendingReady ch" "ch_pendingPts (unmap_slot ch i) = ch_pendingPts ch"
  "ch_pendingArrival (unmap_slot ch i) = ch_pendingArrival ch" "ch_heldArrival (unmap_slot ch i) = ch_heldArrival ch"
  "ch_sequence (unmap_slot ch i) = ch_sequence ch" "ch_link (unmap_slot ch i) = ch_link ch"
  "ch_slotSubmitValue (unmap_slot ch i) = ch_slotSubmitValue ch"
  "ch_consumedValue (unmap_slot ch i) = ch_consumedValue ch" "ch_closed (unmap_slot ch i) = ch_closed ch"
  by (simp_all add: unmap_slot_def)

lemma prod_inv_cong: "prod_view ch' = prod_view ch \<Longrightarrow> prod_inv ch' = prod_inv ch"
  by (simp add: prod_view_def prod_inv_def)

lemma recv_link_fields:
  "recv_link ch = (m, ch') \<Longrightarrow> prod_view ch' = prod_view ch \<and> ch_consumedValue ch' = ch_consumedValue ch \<and> ch_sync ch' = ch_sync ch \<and>
     ch_bufferReferences ch' = ch_bufferReferences ch \<and> ch_images ch' = ch_images ch \<and> ch_info ch' = ch_info ch \<and>
     ch_isConsumer ch' = ch_isConsumer ch"
  by (auto simp: recv_link_def prod_view_def split: prod.splits)

lemma drain_keeps:
  "prod_view (drainProducerMessages env ch) = prod_view ch \<and> ch_bufferReferences (drainProducerMessages env ch) = ch_bufferReferences ch \<and>
   ch_images (drainProducerMessages env ch) = ch_images ch \<and> ch_isConsumer (drainProducerMessages env ch) = ch_isConsumer ch"
proof (induction env ch rule: drainProducerMessages.induct)
  case (1 env ch)
  show ?case
  proof (cases "ic_inbox (ch_link ch) = []")
    case True
    then show ?thesis by (subst (1 2 3 4) drainProducerMessages.simps) simp
  next
    case False
    obtain m ch' where r: "recv_link ch = (m, ch')" by (cases "recv_link ch")
    show ?thesis
    proof (cases m)
      case None
      then show ?thesis using False r recv_link_fields [OF r] by (subst (1 2 3 4) drainProducerMessages.simps) simp
    next
      case (Some msg)
      have "prod_view (applyRelease env ch' msg) = prod_view ch'" by (simp add: prod_view_def)
      then show ?thesis
        using False r Some recv_link_fields [OF r] 1 [OF False r [symmetric] Some]
        by (subst (1 2 3 4) drainProducerMessages.simps) simp
    qed
  qed
qed

lemma advance_consumed_view: "prod_view (advance_consumed env ch) = prod_view ch"
  by (simp add: prod_view_def)

text \<open>Acquisition: what a round that finds a slot did.\<close>

lemma acquire_round_ok:
  assumes "acquire_round envs arrivals k (ch, out) = (Some FL_OK, ch', out')"
  obtains ch2 i where "prod_view ch2 = prod_view ch" "ch_images ch2 = ch_images ch"
    "ch_bufferReferences ch2 = ch_bufferReferences ch" "i < length (ch_images ch)" "slot_free ch2 i"
    "ch' = take_slot ch2 i" "out' = assign out (slot_buffer ch i)"
proof -
  let ?ch1 = "drainProducerMessages (envs k) (arrive (arrivals k) ch)" let ?ch2 = "advance_consumed (envs k) ?ch1"
  have v: "prod_view ?ch2 = prod_view ch" "ch_images ?ch2 = ch_images ch" "ch_bufferReferences ?ch2 = ch_bufferReferences ch"
    using drain_keeps [of "envs k" "arrive (arrivals k) ch"] by (simp_all add: advance_consumed_view) (simp add: prod_view_def)
  from assms obtain i where "find (slot_free ?ch2) [0..<length (ch_images ?ch2)] = Some i"
    "ch' = take_slot ?ch2 i" "out' = assign out (slot_buffer ?ch2 i)"
    by (auto simp: acquire_round_def Let_def split: if_splits option.splits)
  moreover from this(1) have "i < length (ch_images ch)" "slot_free ?ch2 i" using find_in_set v(2) by fastforce+
  ultimately show ?thesis using that v by (auto simp: slot_buffer_def)
qed

lemma acquire_round_other:
  assumes "acquire_round envs arrivals k (ch, out) = (r, ch', out')" "r \<noteq> Some FL_OK"
  shows "prod_view ch' = prod_view ch \<and> ch_images ch' = ch_images ch \<and> ch_bufferReferences ch' = ch_bufferReferences ch \<and> out' = out"
  using assms drain_keeps [of "envs k" "arrive (arrivals k) ch"] advance_consumed_view
  by (auto simp: acquire_round_def Let_def split: if_splits option.splits) (auto simp: prod_view_def)

subsection \<open>The invariant under slot updates\<close>

lemma distinct_filter_update:
  assumes "distinct (filter P xs)" "P v \<Longrightarrow> v \<notin> set xs"
  shows "distinct (filter P (xs[i := v]))"
proof (cases "i < length xs")
  case True
  have *: "distinct (filter P (take i xs @ xs ! i # drop (Suc i) xs))" using assms(1) id_take_nth_drop [OF True] by simp
  have "set (take i xs) \<subseteq> set xs" "set (drop (Suc i) xs) \<subseteq> set xs" by (rule set_take_subset, rule set_drop_subset)
  with * assms(2) show ?thesis by (auto simp: upd_conv_take_nth_drop [OF True] split: if_splits)
next
  case False
  then show ?thesis using assms(1) by (simp add: list_update_beyond)
qed

lemma prod_inv_reserve:
  assumes "prod_inv ch"
  shows "prod_inv (take_slot ch i)"
proof -
  have sub: "set ((ch_slotSubmitValue ch)[i := UINT64_MAX]) \<subseteq> insert UINT64_MAX (set (ch_slotSubmitValue ch))"
    by (rule set_update_subset_insert)
  have "distinct (filter (\<lambda>v. v \<noteq> 0 \<and> v \<noteq> UINT64_MAX) ((ch_slotSubmitValue ch)[i := UINT64_MAX]))"
    using assms by (intro distinct_filter_update) (auto simp: prod_inv_def)
  then show ?thesis
    using assms sub
    by (cases "i = unat (ch_submittingSlot ch)") (auto simp: prod_inv_def take_slot_def)
qed

lemma prod_inv_set:
  assumes "prod_inv ch" "v = 0 \<or> v = ch_readyValue ch" "v \<noteq> 0 \<Longrightarrow> v \<notin> set (ch_slotSubmitValue ch)"
    "ch_slotSubmitValue ch' = (ch_slotSubmitValue ch)[i := v]" "length (ch_images ch') = length (ch_images ch)"
    "length (ch_slotMetadata ch') = length (ch_slotMetadata ch)" "ch_readyValue ch' = ch_readyValue ch"
    "ch_submittingValue ch' \<noteq> 0 \<Longrightarrow> v = 0 \<and> ch_submittingValue ch' = ch_submittingValue ch \<and>
       ch_submittingSlot ch' = ch_submittingSlot ch \<and> unat (ch_submittingSlot ch) \<noteq> i"
  shows "prod_inv ch'"
proof -
  have sub: "set ((ch_slotSubmitValue ch)[i := v]) \<subseteq> insert v (set (ch_slotSubmitValue ch))"
    by (rule set_update_subset_insert)
  have d: "distinct (filter (\<lambda>v. v \<noteq> 0 \<and> v \<noteq> UINT64_MAX) ((ch_slotSubmitValue ch)[i := v]))"
    using assms(1,3) by (intro distinct_filter_update) (auto simp: prod_inv_def)
  have le: "\<forall>w \<in> set (ch_slotSubmitValue ch'). w = UINT64_MAX \<or> w \<le> ch_readyValue ch'"
    using assms(1,2,4,7) sub by (auto simp: prod_inv_def)
  have "ch_submittingValue ch' \<noteq> 0 \<longrightarrow> ch_submittingValue ch' = ch_readyValue ch' \<and>
        unat (ch_submittingSlot ch') < length (ch_images ch') \<and>
        ch_slotSubmitValue ch' ! unat (ch_submittingSlot ch') = UINT64_MAX \<and>
        ch_readyValue ch' \<notin> set (ch_slotSubmitValue ch')"
    using assms sub by (auto simp: prod_inv_def)
  moreover have "length (ch_slotSubmitValue ch') = length (ch_images ch')" "length (ch_images ch') \<le> kMaxPool"
    "length (ch_slotMetadata ch') = kMaxPool" "ch_readyValue ch' \<noteq> UINT64_MAX" using assms(1,4,5,6,7) by (simp_all add: prod_inv_def)
  ultimately show ?thesis using d le unfolding assms(4) prod_inv_def by blast
qed

lemma publish_view:
  assumes "publish env ch slot value pts fd = (r, ch')"
  shows "ch_slotSubmitValue ch' = (ch_slotSubmitValue ch)[unat slot := value] \<and> ch_images ch' = ch_images ch \<and>
    ch_slotMetadata ch' = ch_slotMetadata ch \<and> ch_readyValue ch' = ch_readyValue ch \<and> ch_submittingValue ch' = 0 \<and>
    ch_consumedValue ch' = ch_consumedValue ch \<and> ch_bufferReferences ch' = ch_bufferReferences ch"
  using assms by (auto simp: publish_def Let_def split: prod.splits)

lemma begin_cases:
  assumes "flBeginSubmit ch buf out = (r, ch', out')"
  obtains "r \<noteq> FL_OK" "ch' = ch" "out' = out"
  | v where "r = FL_OK" "metadataReservation ch buf" "ch_submittingValue ch = 0" "v = ch_readyValue ch + 1"
      "ch_readyValue ch < UINT64_MAX - 1" "out' = Some v" "\<not> ch_isConsumer ch" "ic_connected (ch_link ch)"
      "ch' = ch\<lparr>ch_submittingSlot := bf_slot (the buf), ch_submittingValue := v, ch_readyValue := v\<rparr>"
proof (cases "r = FL_OK")
  case True
  with assms have "\<not> ch_readyValue ch \<ge> UINT64_MAX - 1" by (auto simp: flBeginSubmit_def Let_def split: if_splits)
  moreover from assms True have "metadataReservation ch buf \<and> ch_submittingValue ch = 0 \<and> \<not> ch_isConsumer ch \<and> ic_connected (ch_link ch)"
    by (auto simp: flBeginSubmit_def split: if_splits)
  moreover from calculation assms True have "out' = Some (ch_readyValue ch + 1) \<and>
      ch' = ch\<lparr>ch_submittingSlot := bf_slot (the buf), ch_submittingValue := ch_readyValue ch + 1, ch_readyValue := ch_readyValue ch + 1\<rparr>"
    by (simp add: flBeginSubmit_def Let_def split: if_splits)
  ultimately show ?thesis using that(2) [OF True] by (simp add: not_le)
next
  case False
  with assms have "ch' = ch \<and> out' = out" by (simp add: flBeginSubmit_def Let_def split: if_splits)
  with False that(1) show ?thesis by simp
qed

lemma prod_inv_begin:
  assumes "prod_inv ch" "metadataReservation ch buf" "ch_submittingValue ch = 0" "ch_readyValue ch < UINT64_MAX - 1"
  shows "prod_inv (ch\<lparr>ch_submittingSlot := bf_slot (the buf), ch_submittingValue := ch_readyValue ch + 1,
    ch_readyValue := ch_readyValue ch + 1\<rparr>)"
proof -
  note nv = next_value [OF assms(4)]
  have "ch_readyValue ch + 1 \<notin> set (ch_slotSubmitValue ch)"
    using assms(1) nv by (auto simp: prod_inv_def)
  moreover have "\<forall>v \<in> set (ch_slotSubmitValue ch). v = UINT64_MAX \<or> v \<le> ch_readyValue ch + 1"
    using assms(1) nv(4) by (auto simp: prod_inv_def)
  ultimately show ?thesis
    using assms(1,2) nv(2)
    by (auto simp: prod_inv_def metadataReservation_def buffer_member_def split: option.splits)
qed

lemma prod_inv_publish:
  assumes "prod_inv ch" "ch_submittingValue ch \<noteq> 0" "v = ch_submittingValue ch"
    "publish env ch slot v pts fd = (r, ch')"
  shows "prod_inv ch'"
  using assms(1)
proof (rule prod_inv_set [where v = v and i = "unat slot"])
  show "v = 0 \<or> v = ch_readyValue ch" using assms(1,2,3) by (simp add: prod_inv_def)
  show "v \<notin> set (ch_slotSubmitValue ch)" using assms(1,2,3) by (simp add: prod_inv_def)
qed (use publish_view [OF assms(4)] in auto)

lemma prod_inv_end:
  assumes "prod_inv ch" "flEndSubmit env ch buf v pts = (r, ch')"
  shows "prod_inv ch'"
  using assms prod_inv_publish by (auto simp: flEndSubmit_def split: if_splits)

lemma prod_inv_import:
  assumes "importRing env ch rd fds = (FL_OK, ch')" "length (ch_slotMetadata ch) = kMaxPool" "ch_submittingValue ch = 0"
  shows "prod_inv ch'"
  using assms by (auto simp: importRing_def prod_inv_def split: if_splits)

lemma applyRelease_view [simp]: "prod_view (applyRelease env ch m) = prod_view ch"
  by (simp add: prod_view_def)

lemma request_loop_inv:
  "prod_inv ch \<Longrightarrow> ch_submittingValue ch = 0 \<Longrightarrow> request_loop env ch = (FL_OK, ch') \<Longrightarrow> prod_inv ch'"
proof (induction env ch arbitrary: ch' rule: request_loop.induct)
  case (1 env ch)
  obtain mo c1 where r: "recv_link ch = (mo, c1)" by (cases "recv_link ch")
  have c1: "prod_inv c1" "ch_submittingValue c1 = 0" "length (ch_slotMetadata c1) = kMaxPool"
    using recv_link_fields [OF r] prod_inv_cong [of c1 ch] "1.prems"(1,2) by (auto simp: prod_view_def prod_inv_def)
  from "1.prems"(3) r obtain m where mo: "mo = Some m" by (cases mo) (auto simp: request_loop.simps [of env ch])
  show ?case
  proof (cases "ms_type m = MsgFrameReleased")
    case True
    have "request_loop env (applyRelease env c1 m) = (FL_OK, ch')"
      using "1.prems"(3) r mo True by (simp add: request_loop.simps [of env ch])
    moreover have "prod_inv (applyRelease env c1 m)" using c1(1) prod_inv_cong [OF applyRelease_view] by blast
    ultimately show ?thesis using "1.IH" [OF r [symmetric] mo True] c1(2) by simp
  next
    case False
    with "1.prems"(3) r mo obtain rd where rd: "ch' = log_closed (ms_fds m) c1 \<or>
        importRing env ((clear_sync c1)\<lparr>ch_readyValue := 0\<rparr>) rd (ms_fds m) = (FL_OK, ch')"
      by (auto simp: request_loop.simps [of env ch] Let_def split: option.splits if_splits prod.splits)
    then show ?thesis
    proof
      assume "ch' = log_closed (ms_fds m) c1"
      then show ?thesis using prod_inv_cong [of ch' c1] c1(1) by (simp add: prod_view_def)
    next
      assume "importRing env ((clear_sync c1)\<lparr>ch_readyValue := 0\<rparr>) rd (ms_fds m) = (FL_OK, ch')"
      then show ?thesis by (rule prod_inv_import) (use c1 in simp_all)
    qed
  qed
qed

lemma request_loop_results: "fst (request_loop env ch) \<in> {FL_OK, FL_DISCONNECTED}"
proof (induction env ch rule: request_loop.induct)
  case (1 env ch)
  show ?case
    using "1.IH" by (subst request_loop.simps) (auto simp: Let_def importRing_def split: option.splits prod.splits)
qed

lemma prod_inv_geometry:
  assumes "prod_inv ch" "flRequestGeometry env ch w h f = (r, ch')" "r \<noteq> FL_DISCONNECTED"
  shows "prod_inv ch'"
proof (cases "r = FL_OK")
  case False
  with assms(2,3) have "ch' = ch"
    using request_loop_results [of env] by (auto simp: flRequestGeometry_def Let_def split: if_splits prod.splits) (metis fst_conv insertE singletonD)+
  with assms(1) show ?thesis by simp
next
  case True
  with assms(2) obtain link where l: "request_loop env (ch\<lparr>ch_link := link\<rparr>) = (FL_OK, ch')" "UINT64_MAX \<notin> set (ch_slotSubmitValue ch)"
    by (auto simp: flRequestGeometry_def Let_def split: if_splits prod.splits)
  have "ch_submittingValue ch = 0" using l(2) assms(1) nth_mem unfolding prod_inv_def by metis
  then show ?thesis
    using request_loop_inv [OF _ _ l(1)] assms(1) prod_inv_cong [of "ch\<lparr>ch_link := link\<rparr>" ch] by (simp add: prod_view_def)
qed

lemma prod_inv_submit:
  assumes "prod_inv ch"
  shows "flSubmit env ch buf pts = (r, ch') \<Longrightarrow> prod_inv ch'" "flSubmitSyncFd env ch buf fd pts = (r, ch') \<Longrightarrow> prod_inv ch'"
proof -
  obtain b c1 v where e: "flBeginSubmit ch buf (Some 0) = (b, c1, v)" by (cases "flBeginSubmit ch buf (Some 0)") auto
  have c1: "prod_inv c1 \<and> (b = FL_OK \<longrightarrow> ch_submittingValue c1 \<noteq> 0 \<and> v = Some (ch_submittingValue c1))"
    using e assms by (cases rule: begin_cases) (simp_all add: prod_inv_begin next_value(1))
  show "prod_inv ch'" if "flSubmit env ch buf pts = (r, ch')"
    using that c1 prod_inv_end by (auto simp: flSubmit_def e split: if_splits)
  show "prod_inv ch'" if s: "flSubmitSyncFd env ch buf fd pts = (r, ch')"
  proof -
    from s e have "ch' = ch \<or> (ch' = c1 \<and> b \<noteq> FL_OK) \<or>
        b = FL_OK \<and> publish env (unmap_slot c1 (unat (bf_slot (the buf)))) (bf_slot (the buf)) (the v) pts fd = (r, ch')"
      by (auto simp: flSubmitSyncFd_def split: if_splits)
    moreover have "prod_inv (unmap_slot c1 i)" for i
      using c1 prod_inv_cong [of "unmap_slot c1 i" c1] by (simp add: prod_view_def unmap_slot_def)
    ultimately show ?thesis using c1 assms prod_inv_publish by fastforce
  qed
qed

lemma prod_inv_cancel:
  assumes "prod_inv ch" "flCancelBuffer ch buf = (r, ch')"
  shows "prod_inv ch'"
proof (cases "ch' = ch")
  case False
  let ?i = "unat (bf_slot (the buf))"
  from False assms(2) have c: "ch' = (unmap_slot ch ?i)\<lparr>ch_slotSubmitValue := (ch_slotSubmitValue ch)[?i := 0]\<rparr>"
    "ch_submittingValue ch \<noteq> 0 \<longrightarrow> ch_submittingSlot ch \<noteq> bf_slot (the buf)"
    by (auto simp: flCancelBuffer_def Let_def split: if_splits)
  show ?thesis
    using assms(1) by (rule prod_inv_set [where v = 0 and i = ?i]) (use c in \<open>auto simp: unmap_slot_def word_unat_eq_iff\<close>)
qed (use assms in simp)

lemma prod_inv_round:
  assumes "prod_inv ch" "acquire_round envs arrivals k (ch, out) = (r, ch', out')"
  shows "prod_inv ch'"
proof (cases "r = Some FL_OK")
  case True
  with assms(2) obtain ch2 i where "prod_view ch2 = prod_view ch" "ch' = take_slot ch2 i" by (auto elim: acquire_round_ok)
  then show ?thesis using assms(1) prod_inv_cong prod_inv_reserve by metis
next
  case False
  then show ?thesis using acquire_round_other [OF assms(2)] assms(1) prod_inv_cong by metis
qed

lemma producer_step_inv:
  assumes "prod_inv ch" "prod_exec ch e = (r, ch')" "(\<exists>env w h f. e = PeGeometry env w h f) \<longrightarrow> r \<noteq> Some FL_DISCONNECTED"
  shows "prod_inv ch'"
proof (cases e)
  case (PeRound env ds)
  with assms show ?thesis by (auto intro: prod_inv_round split: prod.splits)
next
  case (PeBegin buf)
  with assms obtain v where "flBeginSubmit ch buf (Some 0) = (the r, ch', v)" by (auto split: prod.splits)
  then show ?thesis using assms(1) by (cases rule: begin_cases) (auto simp: prod_inv_begin)
next
  case (PeMetadata buf md)
  with assms(2) have "prod_view ch' = prod_view ch"
    by (auto simp: flSetFrameMetadata_def prod_view_def split: if_splits prod.splits)
  then show ?thesis using assms(1) prod_inv_cong by blast
next
  case (PeRetain nxt buf)
  with assms(2) have "prod_view ch' = prod_view ch"
    by (auto simp: flRetainBufferReference_def prod_view_def split: if_splits prod.splits)
  then show ?thesis using assms(1) prod_inv_cong by blast
next
  case (PeRelease t)
  with assms(2) have "prod_view ch' = prod_view ch"
    by (auto simp: flReleaseBufferReference_def prod_view_def split: if_splits prod.splits)
  then show ?thesis using assms(1) prod_inv_cong by blast
qed (use assms in \<open>auto intro: prod_inv_cancel prod_inv_end prod_inv_submit prod_inv_geometry split: prod.splits\<close>)

section \<open>Properties\<close>


lemma producer_example: "prod_inv example_producer"
  by code_simp


lemma acquire_round_first:
  assumes "acquire_round envs arrivals k (ch, out) = (Some FL_OK, ch', out')" "ch_slotSubmitValue ch = vs" "ch_bufferReferences ch = refs"
  shows "\<exists>i < length (ch_images ch). out' = assign out (slot_buffer ch i) \<and> vs ! i \<le> ch_consumedValue ch' \<and>
    \<not> refs_busy refs (of_nat i) \<and> (\<forall>j < i. \<not> (vs ! j \<le> ch_consumedValue ch' \<and> \<not> refs_busy refs (of_nat j))) \<and>
    ch_slotSubmitValue ch' = vs[i := UINT64_MAX] \<and> prod_view ch' = prod_view (take_slot ch i) \<and>
    ch_slotMetadata ch' = (ch_slotMetadata ch')[i := zero_metadata]"
proof -
  let ?ch2 = "advance_consumed (envs k) (drainProducerMessages (envs k) (arrive (arrivals k) ch))"
  have v: "prod_view ?ch2 = prod_view ch" "ch_images ?ch2 = ch_images ch" "ch_bufferReferences ?ch2 = ch_bufferReferences ch"
    using drain_keeps [of "envs k" "arrive (arrivals k) ch"] by (simp_all add: advance_consumed_view) (simp add: prod_view_def)
  from assms(1) obtain i where i: "find (slot_free ?ch2) [0..<length (ch_images ?ch2)] = Some i"
    "ch' = take_slot ?ch2 i" "out' = assign out (slot_buffer ?ch2 i)"
    by (auto simp: acquire_round_def Let_def split: if_splits option.splits)
  from i(1) have f: "i < length (ch_images ch)" "slot_free ?ch2 i" "\<forall>j < i. \<not> slot_free ?ch2 j"
    using v(2) by (auto simp: find_Some_iff)
  have "ch_slotSubmitValue ?ch2 = vs" "ch_bufferReferences ?ch2 = refs" using v(1,3) assms(2,3) by (simp_all add: prod_view_def)
  moreover have "prod_view ch' = prod_view (take_slot ch i)" using v(1) by (auto simp: i(2) prod_view_def take_slot_def)
  moreover have "out' = assign out (slot_buffer ch i)" using v(2) by (simp add: i(3) slot_buffer_def)
  ultimately show ?thesis using f unfolding slot_free_def by (auto simp: i(2) take_slot_def)
qed

text \<open>A round in which nothing arrives and no fence is outstanding.\<close>

lemma quiet_round:
  assumes "ic_connected (ch_link ch)" "ic_inbox (ch_link ch) = []" "sy_releases (ch_sync ch) = []"
  shows "acquire_round envs (\<lambda>k. []) k (ch, out) =
    (case find (slot_free ch) [0..<length (ch_images ch)] of
       Some i \<Rightarrow> (Some FL_OK, take_slot ch i, assign out (slot_buffer ch i)) | None \<Rightarrow> (None, ch, out))"
proof -
  have "arrive [] ch = ch" by (simp add: arrive_def)
  moreover have "drainProducerMessages env ch = ch" for env using assms by (simp add: drainProducerMessages.simps)
  moreover have "advance_consumed env ch = ch" for env
    using assms by (simp add: advance_consumed_def sync_advance_def log_closed_def)
  ultimately show ?thesis using assms by (simp add: acquire_round_def)
qed

text \<open>
  C2. Acquisition hands out only slots nobody uses.  When \<^verbatim>\<open>flAcquireBuffer\<close> succeeds, the buffer is the first slot
  whose last submitted value has been consumed and that no local reference pins, after all releases that arrived in
  time were applied; it names the image of that slot.  That slot, and no other, becomes reserved, with its metadata
  cleared; the counters and the open transaction are untouched.
\<close>
theorem acquire_free_slot:
  assumes "flAcquireBuffer envs arrivals ch out timeoutMs = Some (FL_OK, (ch', out'), k)"
  shows "\<exists>i < length (ch_images ch). out' = Some (slot_buffer ch i) \<and>
    ch_slotSubmitValue ch ! i \<le> ch_consumedValue ch' \<and> \<not> refs_busy (ch_bufferReferences ch) (of_nat i) \<and>
    (\<forall>j < i. ch_consumedValue ch' < ch_slotSubmitValue ch ! j \<or> refs_busy (ch_bufferReferences ch) (of_nat j)) \<and>
    ch_slotSubmitValue ch' = (ch_slotSubmitValue ch)[i := UINT64_MAX] \<and>
    ch_slotMetadata ch' = (ch_slotMetadata ch')[i := zero_metadata] \<and> ch_readyValue ch' = ch_readyValue ch \<and>
    ch_submittingValue ch' = ch_submittingValue ch \<and> ch_submittingSlot ch' = ch_submittingSlot ch"
proof -
  define P where "P = (\<lambda>s. prod_view (fst s) = prod_view ch \<and> ch_images (fst s) = ch_images ch \<and>
    ch_bufferReferences (fst s) = ch_bufferReferences ch \<and> snd s = out)"
  from assms have l: "timed_loop 2 timeoutMs (acquire_round envs arrivals) FL_TIMEOUT 0 0 (ch, out) = Some (FL_OK, (ch', out'), k)"
    and out: "out \<noteq> None" by (auto simp: flAcquireBuffer_def split: if_splits)
  have keep: "P s1" if "P s" "acquire_round envs arrivals k s = (None, s1)" for k s s1
    using that acquire_round_other [of envs arrivals k "fst s" "snd s" None "fst s1" "snd s1"] unfolding P_def by (cases s) simp
  have "P (ch, out)" by (simp add: P_def)
  with timed_loop_invariant [where P = P, OF l] keep
  have "\<exists>k s. P s \<and> acquire_round envs arrivals k s = (Some FL_OK, ch', out')" by (metis flResult.distinct(1))
  then obtain k s where s: "P s" "acquire_round envs arrivals k s = (Some FL_OK, ch', out')" by blast
  obtain c0 where c0: "s = (c0, out)" using s(1) by (cases s) (simp add: P_def)
  have v: "prod_view c0 = prod_view ch" "ch_images c0 = ch_images ch" "ch_bufferReferences c0 = ch_bufferReferences ch"
    "ch_slotSubmitValue c0 = ch_slotSubmitValue ch" using s(1) c0 by (simp_all add: P_def prod_view_def)
  from acquire_round_first [OF s(2) [unfolded c0] v(4,3)] obtain i where i: "i < length (ch_images ch)" "out' = assign out (slot_buffer c0 i)"
    "ch_slotSubmitValue ch ! i \<le> ch_consumedValue ch'" "\<not> refs_busy (ch_bufferReferences ch) (of_nat i)"
    "\<forall>j < i. \<not> (ch_slotSubmitValue ch ! j \<le> ch_consumedValue ch' \<and> \<not> refs_busy (ch_bufferReferences ch) (of_nat j))"
    "ch_slotSubmitValue ch' = (ch_slotSubmitValue ch)[i := UINT64_MAX]" "prod_view ch' = prod_view (take_slot c0 i)"
    "ch_slotMetadata ch' = (ch_slotMetadata ch')[i := zero_metadata]" using v(2) by auto
  have "out' = Some (slot_buffer ch i)" using i(2) out v(2) by (auto simp: assign_def slot_buffer_def)
  moreover have "\<forall>j < i. ch_consumedValue ch' < ch_slotSubmitValue ch ! j \<or> refs_busy (ch_bufferReferences ch) (of_nat j)"
    using i(5) by (auto simp: not_le)
  ultimately show ?thesis using i v(1) by (intro exI [of _ i]) (simp add: prod_view_def)
qed

theorem acquire_free_slot_witness:
  "\<exists>ch' k. flAcquireBuffer (\<lambda>k. example_env) (\<lambda>k. []) example_producer (Some \<lparr>bf_slot = 0, bf_image = None\<rparr>) 0 =
     Some (FL_OK, (ch', Some (slot_buffer example_producer 0)), k) \<and> ch_slotSubmitValue ch' = [UINT64_MAX]"
proof -
  let ?out = "Some \<lparr>bf_slot = 0, bf_image = None\<rparr>"
  have "fst (acquire_round (\<lambda>k. example_env) (\<lambda>k. []) 0 (example_producer, ?out)) = Some FL_OK"
    "\<not> ch_isConsumer example_producer" "ic_connected (ch_link example_producer)" by code_simp+
  then obtain ch' out' where "flAcquireBuffer (\<lambda>k. example_env) (\<lambda>k. []) example_producer ?out 0 = Some (FL_OK, (ch', out'), 1)"
    by (cases "acquire_round (\<lambda>k. example_env) (\<lambda>k. []) 0 (example_producer, ?out)")
      (auto simp: flAcquireBuffer_def timed_loop.simps)
  moreover have "length (ch_images example_producer) = 1" "ch_slotSubmitValue example_producer = [5]" by code_simp+
  ultimately show ?thesis using acquire_free_slot [of "\<lambda>k. example_env" "\<lambda>k. []" example_producer ?out 0 ch' out' 1] by auto
qed



text \<open>Enough for a submission to succeed.\<close>

lemma submit_succeeds:
  assumes "\<not> ch_isConsumer ch" "metadataReservation ch buf" "ic_connected (ch_link ch)" "ch_submittingValue ch = 0"
    "ch_peerFeatures ch = 0" "\<not> ch_readyValue ch \<ge> UINT64_MAX - 1" "\<forall>bytes rights. en_sendmsg env bytes rights = int (length bytes)"
  shows "\<exists>link. flSubmit env ch buf pts = (FL_OK, ch\<lparr>ch_slotSubmitValue := (ch_slotSubmitValue ch)[unat (bf_slot (the buf)) := ch_readyValue ch + 1],
    ch_readyValue := ch_readyValue ch + 1, ch_submittingSlot := UINT32_MAX, ch_link := link\<rparr>)"
proof -
  let ?v = "ch_readyValue ch + 1" and ?s = "bf_slot (the buf)"
  let ?c = "ch\<lparr>ch_submittingSlot := ?s, ch_submittingValue := ?v, ch_readyValue := ?v\<rparr>"
  have nz: "?v \<noteq> 0" using assms(6) next_value(1) by (simp add: not_le)
  have b: "flBeginSubmit ch buf (Some 0) = (FL_OK, ?c, Some ?v)" using assms(1-6) by (simp add: flBeginSubmit_def Let_def)
  have "metadataReservation ?c buf" using assms(2) by (cases buf) (simp_all add: metadataReservation_def buffer_member_def)
  then have "flEndSubmit env ?c buf ?v pts = publish env ?c ?s ?v pts (-1)" using assms(1,3) nz by (simp add: flEndSubmit_def)
  moreover obtain link where "sendFrame (en_sendmsg env) (ch_link ch) (ready_message ?s ?v pts) (ch_slotMetadata ch ! unat ?s) (-1) = (True, link)"
    using sendFrame_sent [OF assms(3,7)] by blast
  ultimately show ?thesis using b assms(4) by (intro exI [of _ link]) (simp add: flSubmit_def publish_def)
qed

text \<open>
  A successful submission.  When \<^verbatim>\<open>flSubmit\<close> answers \<^verbatim>\<open>FL_OK\<close>, the buffer was reserved and no transaction was open; the
  counter advanced by one without wrap-around; the new value is recorded for the buffer's slot and for no other, is above
  every value submitted before, and is not yet consumed when nothing newer than the counter was; one datagram with the slot,
  that value, the timestamp and the slot's metadata was sent, without a descriptor.
\<close>
theorem submit_publishes:
  assumes "prod_inv ch" "flSubmit env ch buf pts = (FL_OK, ch')"
  shows "\<exists>b i v. buf = Some b \<and> i = unat (bf_slot b) \<and> i < length (ch_images ch) \<and> ch_slotSubmitValue ch ! i = UINT64_MAX \<and>
    ch_submittingValue ch = 0 \<and> ch_submittingValue ch' = 0 \<and> v = ch_readyValue ch + 1 \<and> unat v = Suc (unat (ch_readyValue ch)) \<and>
    ch_readyValue ch' = v \<and> ch_slotSubmitValue ch' = (ch_slotSubmitValue ch)[i := v] \<and>
    (\<forall>w \<in> set (ch_slotSubmitValue ch). w = UINT64_MAX \<or> w < v) \<and>
    (ch_consumedValue ch \<le> ch_readyValue ch \<longrightarrow> \<not> slot_free ch' i) \<and>
    (True, ch_link ch') = sendFrame (en_sendmsg env) (ch_link ch) (ready_message (bf_slot b) v pts) (ch_slotMetadata ch ! i) (-1)"
proof -
  from assms(2) obtain c1 v where bg: "flBeginSubmit ch buf (Some 0) = (FL_OK, c1, v)" and en: "flEndSubmit env c1 buf (the v) pts = (FL_OK, ch')"
    by (auto simp: flSubmit_def split: if_splits prod.splits)
  let ?v = "ch_readyValue ch + 1"
  from bg have b: "metadataReservation ch buf" "ch_submittingValue ch = 0" "ch_readyValue ch < UINT64_MAX - 1" "v = Some ?v"
    "c1 = ch\<lparr>ch_submittingSlot := bf_slot (the buf), ch_submittingValue := ?v, ch_readyValue := ?v\<rparr>"
    by (auto elim: begin_cases)
  from b(1) obtain bu where bu: "buf = Some bu" "unat (bf_slot bu) < length (ch_images ch)" "ch_slotSubmitValue ch ! unat (bf_slot bu) = UINT64_MAX"
    by (auto simp: metadataReservation_def buffer_member_def split: option.splits)
  note nv = next_value [OF b(3)]
  have pub: "publish env c1 (bf_slot bu) ?v pts (-1) = (FL_OK, ch')"
    using en by (auto simp: flEndSubmit_def b(4) bu(1) split: if_splits)
  note pv = publish_view [OF pub]
  have lt: "\<forall>w \<in> set (ch_slotSubmitValue ch). w = UINT64_MAX \<or> w < ?v"
    using assms(1) nv(3) by (auto simp: prod_inv_def intro: order.strict_trans1)
  have "unat ?v = Suc (unat (ch_readyValue ch))" using nv(1) by (metis Suc_eq_plus1 add.commute unatSuc)
  moreover have "\<not> slot_free ch' (unat (bf_slot bu))" if "ch_consumedValue ch \<le> ch_readyValue ch"
    using that nv(3) pv bu(2) b(5) assms(1) by (auto simp: slot_free_def prod_inv_def not_le intro: order.strict_trans1)
  moreover have "(True, ch_link ch') = sendFrame (en_sendmsg env) (ch_link ch) (ready_message (bf_slot bu) ?v pts) (ch_slotMetadata ch ! unat (bf_slot bu)) (-1)"
    using pub by (auto simp: publish_def Let_def b(5) split: prod.splits if_splits)
  ultimately show ?thesis
    using bu b(2) pv lt by (intro exI [of _ bu] exI [of _ "unat (bf_slot bu)"] exI [of _ ?v]) (simp add: b(5))
qed

theorem submit_publishes_witness:
  "\<exists>ch'. flSubmit example_env (take_slot example_producer 0) (Some (slot_buffer example_producer 0)) 40 = (FL_OK, ch') \<and>
     ch_slotSubmitValue ch' = [6] \<and> ch_readyValue ch' = 6"
proof -
  let ?c = "take_slot example_producer 0" and ?b = "Some (slot_buffer example_producer 0)"
  have "prod_inv ?c" using prod_inv_reserve producer_example by blast
  have "\<not> ch_isConsumer ?c" "metadataReservation ?c ?b" "ic_connected (ch_link ?c)" "ch_submittingValue ?c = 0" "ch_peerFeatures ?c = 0"
    "\<not> ch_readyValue ?c \<ge> UINT64_MAX - 1" by code_simp+
  with submit_succeeds [of ?c ?b example_env 40] obtain ch' where e: "flSubmit example_env ?c ?b 40 = (FL_OK, ch')"
    by (auto simp: example_env_def)
  have v: "ch_readyValue ?c = 5" "ch_slotSubmitValue ?c = [UINT64_MAX]" "unat (bf_slot (slot_buffer example_producer 0)) = 0" by code_simp+
  with submit_publishes [OF \<open>prod_inv ?c\<close> e] e show ?thesis by simp
qed


end
