(* ===== verification/FL_Consumer.thy ===== *)
theory FL_Consumer
  imports FL_Producer
begin

text \<open>
  The consumer side of a channel, \<^verbatim>\<open>src/framelink_linux.cpp\<close> and \<^verbatim>\<open>src/fl_read_api.inc\<close>: the accept thread (handshake,
  attach gate, messages of the attached producer), frame acquisition, releases, read leases, and the creation of a channel.
  The accept thread and the API calls share the channel under \<^verbatim>\<open>pendingMutex\<close>; each definition below is one critical
  section, and the acquisition loop takes what other threads do between its critical sections as a parameter.
\<close>

section \<open>Shared steps\<close>

abbreviation has_flag :: "flChannel \<Rightarrow> u32 \<Rightarrow> bool" where "has_flag ch f \<equiv> ch_flags ch AND f \<noteq> 0"

text \<open>\<^verbatim>\<open>if(ch->sync.held>=0)close(ch->sync.held);ch->sync.held=-1;\<close> and the same for the pending fence.\<close>
definition releaseLeaseReadyFence :: "flChannel \<Rightarrow> flChannel" where
  "releaseLeaseReadyFence ch = log_closed (closing (sy_held (ch_sync ch))) (ch\<lparr>ch_sync := (ch_sync ch)\<lparr>sy_held := -1\<rparr>\<rparr>)"

definition drop_pending_fence :: "flChannel \<Rightarrow> flChannel" where
  "drop_pending_fence ch = log_closed (closing (sy_pending (ch_sync ch))) (ch\<lparr>ch_sync := (ch_sync ch)\<lparr>sy_pending := -1\<rparr>\<rparr>)"

definition push_release :: "flChannel \<Rightarrow> u64 \<Rightarrow> fd \<Rightarrow> flChannel" where
  "push_release ch v fd = ch\<lparr>ch_sync := (ch_sync ch)\<lparr>sy_releases := sy_releases (ch_sync ch) @ [(v, fd)]\<rparr>\<rparr>"

text \<open>The message \<^verbatim>\<open>FrameReleased\<close> to the producer, with the fence if there is one.\<close>
definition release_message :: "u32 \<Rightarrow> u64 \<Rightarrow> FrameReadyMsg" where
  "release_message slot v = \<lparr>fm_slot = slot, fm_pad = 0, fm_readyValue = v, fm_ptsNs = 0\<rparr>"

definition send_release :: "Env \<Rightarrow> flChannel \<Rightarrow> u32 \<Rightarrow> u64 \<Rightarrow> fd \<Rightarrow> bool \<times> flChannel" where
  "send_release env ch slot v fd =
     (let (sent, link) = sendWithFds (en_sendmsg env) (ch_peer ch) MsgFrameReleased (Some (frame_bytes (release_message slot v))) 24
            (if fd \<ge> 0 then Some [fd] else None) (if fd \<ge> 0 then 1 else 0)
      in (sent, ch\<lparr>ch_peer := link\<rparr>))"

text \<open>\<^verbatim>\<open>frameHeld && frame->_readyValue==heldReady && frame->slot==heldSlot\<close>\<close>
definition holds_frame :: "flChannel \<Rightarrow> flFrame \<Rightarrow> bool" where
  "holds_frame ch f \<longleftrightarrow> ch_frameHeld ch \<and> fr_readyValue f = ch_heldReady ch \<and> fr_slot f = ch_heldSlot ch"

definition holds_image :: "flChannel \<Rightarrow> flFrame \<Rightarrow> bool" where
  "holds_image ch f \<longleftrightarrow> holds_frame ch f \<and> unat (fr_slot f) < length (ch_images ch) \<and>
     fr_image f = Some (im_addr (ch_images ch ! unat (fr_slot f)))"

section \<open>The accept thread\<close>

definition recv_peer :: "flChannel \<Rightarrow> Message option \<times> flChannel" where
  "recv_peer ch = (let (m, link, closed) = ipc_recv (ch_peer ch) in (m, log_closed closed (ch\<lparr>ch_peer := link\<rparr>)))"

text \<open>A connection that is given up: \<^verbatim>\<open>continue\<close> destroys it.\<close>
definition drop_connection :: "IpcChannel \<Rightarrow> flChannel \<Rightarrow> bool \<times> flChannel \<times> IpcChannel" where
  "drop_connection link ch = (let (link', closed) = ipc_close link in (False, log_closed closed ch, link'))"

definition send_busy :: "Env \<Rightarrow> IpcChannel \<Rightarrow> IpcChannel" where
  "send_busy env link = snd (sendWithFds (en_sendmsg env) link MsgBusy None 0 None 0)"

text \<open>The condition under which a producer may not start (or restart) a timeline: something may still be read.\<close>
definition still_reading :: "flChannel \<Rightarrow> bool" where
  "still_reading ch \<longleftrightarrow> \<not> ledger_empty (ch_readers ch) \<or> ch_frameHeld ch \<or> ch_retiredValue ch < ch_heldReady ch"

definition new_timeline :: "flChannel \<Rightarrow> u32 \<Rightarrow> flChannel" where
  "new_timeline ch features = (clear_sync (ch\<lparr>ch_hasPending := False\<rparr>))\<lparr>ch_readers := resetEpoch (ch_readers ch), ch_heldReady := 0,
     ch_retiredValue := 0, ch_peerFeatures := features,
     ch_info := (ch_info ch)\<lparr>ci_generation := ci_generation (ch_info ch) + 1\<rparr>\<rparr>"

text \<open>The attach gate and the hand-over, for a producer whose greeting was accepted.\<close>
definition attach :: "Env \<Rightarrow> flChannel \<Rightarrow> IpcChannel \<Rightarrow> u32 \<Rightarrow> bool \<times> flChannel \<times> IpcChannel" where
  "attach env ch link features =
     (let ch1 = advance_retired env ch
      in if still_reading ch1 \<or> \<not> fenceReady (en_signalled env) (sy_pending (ch_sync ch1))
         then drop_connection (send_busy env link) ch1
         else
           let ch2 = new_timeline ch1 features; (sent, link') = handOverRing env ch2 link
           in if \<not> sent then drop_connection link' ch2
              else (True, log_closed (snd (ipc_close (ch_peer ch2))) (ch2\<lparr>ch_peerGone := False, ch_peer := link'\<rparr>), link'))"

definition accept_producer :: "Env \<Rightarrow> u32 \<Rightarrow> flChannel \<Rightarrow> IpcChannel \<Rightarrow> bool \<times> flChannel \<times> IpcChannel" where
  "accept_producer env pid ch link =
     (if \<not> ic_connected link then drop_connection link ch
      else
        let mine = hello_mine (localFeatures (ch_flags ch)) pid; (sent, l1) = ipc_send (en_sendmsg env) link MsgHello (hello_bytes mine)
        in if \<not> sent then drop_connection l1 ch
           else
             let (peer, l2, closed) = ipc_recv l1; ch1 = log_closed closed ch
             in case peer of
                  None \<Rightarrow> drop_connection l2 ch1
                | Some m \<Rightarrow>
                    if ms_fds m \<noteq> [] then drop_connection l2 (log_closed (ms_fds m) ch1)
                    else case (if ms_type m = MsgHello \<and> length (ms_payload m) = 24 then hello_of (ms_payload m) else None) of
                        None \<Rightarrow> drop_connection l2 ch1
                      | Some ph \<Rightarrow>
                          if hm_version ph \<noteq> FL_VERSION \<or> \<not> compatibleFeatures (hm_pad mine) (hm_pad ph) then drop_connection l2 ch1
                          else attach env ch1 l2 (hm_pad ph))"

definition send_ring :: "Env \<Rightarrow> flChannel \<Rightarrow> bool \<times> flChannel" where
  "send_ring env ch = (let (sent, link) = handOverRing env ch (ch_peer ch) in (sent, ch\<lparr>ch_peer := link\<rparr>))"

text \<open>A geometry request: the answer is a ring description in every case.  The result is whether the loop goes on.\<close>
definition resize_ring :: "Env \<Rightarrow> flChannel \<Rightarrow> GeometryMsg \<Rightarrow> flChannel" where
  "resize_ring env ch g =
     (let ch1 = advance_retired env ch
      in if still_reading ch1 then ch1
         else snd (reallocRing env (drop_pending_fence (ch1\<lparr>ch_hasPending := False\<rparr>)) (gm_width g) (gm_height g) (length (ch_images ch1))))"

definition geometry_step :: "Env \<Rightarrow> flChannel \<Rightarrow> Message \<Rightarrow> bool \<times> flChannel" where
  "geometry_step env ch m =
     (case geometry_of (ms_payload m) of
        None \<Rightarrow> send_ring env ch
      | Some g \<Rightarrow>
          if \<not> ch_externalPool ch \<and> gm_format g = ci_format (ch_info ch) \<and> validGeometry (gm_width g) (gm_height g) (ci_format (ch_info ch)) \<and>
             (gm_width g \<noteq> ci_width (ch_info ch) \<or> gm_height g \<noteq> ci_height (ch_info ch))
          then send_ring env (resize_ring env ch g) else send_ring env ch)"

text \<open>A submitted frame replaces the pending one.\<close>
definition store_pending :: "Env \<Rightarrow> flChannel \<Rightarrow> FrameReadyMsg \<Rightarrow> flFrameMetadata \<Rightarrow> fd list \<Rightarrow> flChannel" where
  "store_pending env ch fr md fds =
     log_closed (closing (sy_pending (ch_sync ch)) @ tl fds)
       (ch\<lparr>ch_sync := (ch_sync ch)\<lparr>sy_pending := if fds = [] then -1 else hd fds\<rparr>, ch_hasPending := True,
           ch_pendingSlot := fm_slot fr, ch_pendingReady := fm_readyValue fr, ch_pendingPts := fm_ptsNs fr, ch_pendingMetadata := md,
           ch_pendingArrival := if has_flag ch FL_TRACK_ARRIVAL then en_now env else ch_pendingArrival ch,
           ch_sequence := ch_sequence ch + 1\<rparr>)"

definition frame_step :: "Env \<Rightarrow> flChannel \<Rightarrow> Message \<Rightarrow> bool \<times> flChannel" where
  "frame_step env ch m =
     (case decodeFrame m (has_flag ch FL_REQUIRE_FRAME_METADATA) of
        (None, md) \<Rightarrow> (False, log_closed (ms_fds m) ch)
      | (Some fr, md) \<Rightarrow>
          if unat (fm_slot fr) \<ge> length (ch_images ch) then (False, log_closed (ms_fds m) ch)
          else (True, store_pending env ch fr md (ms_fds m)))"

text \<open>One message of the attached producer.\<close>
definition peer_message :: "Env \<Rightarrow> flChannel \<Rightarrow> bool \<times> flChannel" where
  "peer_message env ch =
     (case recv_peer ch of
        (None, ch1) \<Rightarrow> (False, ch1)
      | (Some m, ch1) \<Rightarrow>
          if ms_type m = MsgBye then (False, ch1)
          else if ms_type m = MsgRequestGeometry then geometry_step env ch1 m
          else if ms_type m \<noteq> MsgFrameReady \<and> ms_type m \<noteq> MsgFrameReadyMetadata then (True, ch1)
          else frame_step env ch1 m)"

text \<open>A second producer while one is attached.\<close>
definition refuse_extra :: "Env \<Rightarrow> flChannel \<Rightarrow> IpcChannel \<Rightarrow> flChannel \<times> IpcChannel" where
  "refuse_extra env ch extra = (let l = (if ic_connected extra then send_busy env extra else extra); (l', closed) = ipc_close l in (log_closed closed ch, l'))"

text \<open>
  The thread as a state machine: \<open>attached\<close> is the inner loop.  A connection arrives, or the attached producer's socket is
  readable with the given datagrams queued, or a further connection arrives.
\<close>
datatype accept_event = AeConnect IpcChannel | AeReadable "Datagram list" | AeExtra IpcChannel

fun acceptLoop :: "Env \<Rightarrow> u32 \<Rightarrow> bool \<Rightarrow> flChannel \<Rightarrow> accept_event \<Rightarrow> bool \<times> flChannel" where
  "acceptLoop env pid False ch (AeConnect link) = (let (ok, ch', l) = accept_producer env pid ch link in (ok, ch'))"
| "acceptLoop env pid True ch (AeReadable ds) =
     (let (go, ch') = peer_message env (ch\<lparr>ch_peer := (ch_peer ch)\<lparr>ic_inbox := ic_inbox (ch_peer ch) @ ds\<rparr>\<rparr>)
      in (go, if go then ch' else ch'\<lparr>ch_peerGone := True\<rparr>))"
| "acceptLoop env pid True ch (AeExtra link) = (True, fst (refuse_extra env ch link))"
| "acceptLoop env pid attached ch ev = (attached, ch)"

section \<open>Acquisition and release\<close>

definition pending_frame :: "flChannel \<Rightarrow> flFrame" where
  "pending_frame ch = \<lparr>fr_slot = ch_pendingSlot ch, fr_image = Some (im_addr (ch_images ch ! unat (ch_pendingSlot ch))),
     fr_ptsNs = ch_pendingPts ch, fr_sequence = ch_sequence ch, fr_readyValue = ch_pendingReady ch\<rparr>"

definition take_pending :: "flChannel \<Rightarrow> flChannel" where
  "take_pending ch = ch\<lparr>ch_sync := (ch_sync ch)\<lparr>sy_held := sy_pending (ch_sync ch), sy_pending := -1\<rparr>, ch_frameHeld := True,
     ch_heldArrival := ch_pendingArrival ch, ch_heldReady := ch_pendingReady ch, ch_heldSlot := ch_pendingSlot ch,
     ch_heldMetadata := ch_pendingMetadata ch, ch_hasPending := False\<rparr>"

definition frame_available :: "Env \<Rightarrow> flChannel \<Rightarrow> bool" where
  "frame_available env ch \<longleftrightarrow> ch_hasPending ch \<and> \<not> ch_frameHeld ch \<and>
     (has_flag ch FL_GPU_SYNC \<or> fenceReady (en_signalled env) (sy_pending (ch_sync ch)))"

text \<open>\<open>others\<close> is what the other threads do before each of the two looks at the channel in a round.\<close>
definition frame_round ::
  "(nat \<Rightarrow> Env) \<Rightarrow> (nat \<Rightarrow> flChannel \<Rightarrow> flChannel) \<Rightarrow> nat \<Rightarrow> flChannel \<times> flFrame option \<Rightarrow>
   flResult option \<times> flChannel \<times> flFrame option" where
  "frame_round envs others k s =
     (let (ch, out) = s; ch1 = others (2 * k) ch
      in if frame_available (envs k) ch1 then (Some FL_OK, take_pending ch1, assign out (pending_frame ch1))
         else let ch2 = others (2 * k + 1) ch1 in (if ch_peerGone ch2 then Some FL_DISCONNECTED else None, ch2, out))"

definition flAcquireFrame ::
  "(nat \<Rightarrow> Env) \<Rightarrow> (nat \<Rightarrow> flChannel \<Rightarrow> flChannel) \<Rightarrow> flChannel \<Rightarrow> flFrame option \<Rightarrow> u32 \<Rightarrow>
   (flResult \<times> (flChannel \<times> flFrame option) \<times> nat) option" where
  "flAcquireFrame envs others ch out timeoutMs =
     (if \<not> ch_isConsumer ch \<or> out = None then Some (FL_INVALID, (ch, out), 0)
      else timed_loop 2 timeoutMs (frame_round envs others) FL_TIMEOUT 0 0 (ch, out))"

definition flReleaseSyncFd :: "Env \<Rightarrow> flChannel \<Rightarrow> flFrame option \<Rightarrow> fd \<Rightarrow> flResult \<times> flChannel" where
  "flReleaseSyncFd env ch frame consumedFd =
     (if \<not> ch_isConsumer ch \<or> frame = None \<or> unat (fr_slot (the frame)) \<ge> length (ch_images ch) then (FL_INVALID, ch)
      else if \<not> ledger_empty (ch_readers ch) then (FL_BUSY, ch)
      else if \<not> holds_frame ch (the frame) then (FL_INVALID, ch)
      else
        let localFd = (if consumedFd \<ge> 0 then en_dup env consumedFd else -1)
        in if consumedFd \<ge> 0 \<and> localFd < 0 then (FL_INTERNAL, ch)
           else
             let ch1 = advance_retired env (push_release ch (fr_readyValue (the frame)) localFd);
                 ch2 = releaseLeaseReadyFence (ch1\<lparr>ch_frameHeld := False\<rparr>)
             in if \<not> ic_connected (ch_peer ch2) then (FL_OK, ch2)
                else let (sent, ch3) = send_release env ch2 (fr_slot (the frame)) (fr_readyValue (the frame)) consumedFd
                     in (if sent then FL_OK else FL_DISCONNECTED, ch3))"

definition flRelease :: "Env \<Rightarrow> flChannel \<Rightarrow> flFrame option \<Rightarrow> flResult \<times> flChannel" where
  "flRelease env ch frame =
     (if has_flag ch (FL_GPU_SYNC OR FL_DEFER_RELEASE)
      then if \<not> ch_isConsumer ch \<or> frame = None then (FL_INVALID, ch)
           else if \<not> ledger_empty (ch_readers ch) then (FL_BUSY, ch)
           else if \<not> holds_frame ch (the frame) then (FL_INVALID, ch)
           else (FL_OK, releaseLeaseReadyFence (ch\<lparr>ch_frameHeld := False\<rparr>))
      else flReleaseSyncFd env ch frame (-1))"

definition flSignalConsumedSyncFd :: "Env \<Rightarrow> flChannel \<Rightarrow> u64 \<Rightarrow> fd \<Rightarrow> flResult \<times> flChannel" where
  "flSignalConsumedSyncFd env ch v fd =
     (if \<not> ch_isConsumer ch \<or> \<not> has_flag ch (FL_GPU_SYNC OR FL_DEFER_RELEASE) then (FL_INVALID, ch)
      else if \<not> ledger_empty (ch_readers ch) then (FL_BUSY, ch)
      else if v > ch_heldReady ch then (FL_INVALID, ch)
      else
        let localFd = (if fd \<ge> 0 then en_dup env fd else -1)
        in if fd \<ge> 0 \<and> localFd < 0 then (FL_INTERNAL, ch)
           else let (sent, ch1) = send_release env (advance_retired env (push_release ch v localFd)) 0 v fd
                in (if sent then FL_OK else FL_DISCONNECTED, ch1))"

definition flFrameReadySyncFd :: "flChannel \<Rightarrow> flFrame option \<Rightarrow> fd option \<Rightarrow> flResult \<times> fd option" where
  "flFrameReadySyncFd ch frame out =
     (if \<not> ch_isConsumer ch \<or> frame = None \<or> out = None \<or> \<not> holds_frame ch (the frame) then (FL_INVALID, out)
      else (FL_OK, Some (sy_held (ch_sync ch))))"

section \<open>Read leases\<close>

definition retireReadLeases :: "Env \<Rightarrow> flChannel \<Rightarrow> u64 \<Rightarrow> flResult \<times> flChannel" where
  "retireReadLeases env ch v =
     (let (sent, ch1) = (if ic_connected (ch_peer ch) then send_release env ch 0 v (-1) else (True, ch))
      in if \<not> sent then (FL_DISCONNECTED, ch1) else (FL_OK, ch1\<lparr>ch_retiredValue := v\<rparr>))"

text \<open>What \<^verbatim>\<open>poll\<close> answers for a completion fence: interrupted, failed, nothing yet, or events (an error event, readable).\<close>
datatype PollAnswer = PollInterrupted | PollFailed | PollNone | PollEvents bool bool

fun poll_completions ::
  "(fd \<Rightarrow> PollAnswer) \<Rightarrow> ReadLedger \<Rightarrow> LeaseCompletion list \<Rightarrow> flResult \<times> ReadLedger \<times> LeaseCompletion list \<times> fd list" where
  "poll_completions poll l [] = (FL_OK, l, [], [])"
| "poll_completions poll l (c # cs) =
     (let skip = (let (r, l', cs', closed) = poll_completions poll l cs in (r, l', c # cs', closed))
      in if lc_token c = 0 then skip
         else case poll (lc_fd c) of
             PollInterrupted \<Rightarrow> skip
           | PollFailed \<Rightarrow> (FL_INTERNAL, l, c # cs, [])
           | PollNone \<Rightarrow> skip
           | PollEvents bad readable \<Rightarrow>
               if bad then (FL_INTERNAL, l, c # cs, [])
               else if \<not> readable then skip
               else
                 let (r, l1) = finishDeferred l (lc_token c)
                 in if r \<noteq> FL_OK then (r, l1, c # cs, [])
                    else let (r', l', cs', closed) = poll_completions poll l1 cs
                         in (r', l', \<lparr>lc_token = 0, lc_fd = -1\<rparr> # cs', lc_fd c # closed))"

definition pollLeaseCompletions :: "(fd \<Rightarrow> PollAnswer) \<Rightarrow> flChannel \<Rightarrow> flResult \<times> flChannel" where
  "pollLeaseCompletions poll ch =
     (let (r, l, cs, closed) = poll_completions poll (ch_readers ch) (ch_leaseCompletions ch)
      in (r, log_closed closed (ch\<lparr>ch_readers := l, ch_leaseCompletions := cs\<rparr>)))"

definition flCompleteReadLeaseSyncFd :: "Env \<Rightarrow> flChannel \<Rightarrow> u64 \<Rightarrow> fd \<Rightarrow> flResult \<times> flChannel" where
  "flCompleteReadLeaseSyncFd env ch token fd =
     (if \<not> ch_isConsumer ch \<or> fd < 0 then (FL_INVALID, ch)
      else if fst (ledger_get (ch_readers ch) token zero_frame 0) \<noteq> FL_OK then (FL_INVALID, ch)
      else case scan (\<lambda>c. lc_token c = 0) (ch_leaseCompletions ch) of
          None \<Rightarrow> (FL_BUSY, ch)
        | Some i \<Rightarrow>
            let owned = en_dup env fd
            in if owned < 0 then (FL_INVALID, ch)
               else let (r, l) = ledger_defer (ch_readers ch) token
                    in if r \<noteq> FL_OK then (r, log_closed [owned] (ch\<lparr>ch_readers := l\<rparr>))
                       else (FL_OK, ch\<lparr>ch_readers := l,
                         ch_leaseCompletions := (ch_leaseCompletions ch)[i := \<lparr>lc_token = token, lc_fd = owned\<rparr>]\<rparr>))"

text \<open>The process-wide token counter is passed as \<open>next\<close>.\<close>
definition flLeaseFrame ::
  "flChannel \<Rightarrow> u64 \<Rightarrow> flFrame option \<Rightarrow> u64 option \<Rightarrow> flResult \<times> flChannel \<times> u64 \<times> u64 option" where
  "flLeaseFrame ch next frame lease =
     (if \<not> ch_isConsumer ch \<or> frame = None \<or> lease = None \<or> \<not> has_flag ch FL_DEFER_RELEASE \<or> has_flag ch FL_GPU_SYNC
      then (FL_INVALID, ch, next, lease)
      else if \<not> holds_image ch (the frame) then (FL_INVALID, ch, next, lease)
      else
        let (r, l, next', out) = ledger_acquire (ch_readers ch) next (ci_generation (ch_info ch)) (the frame) (the lease);
            ch1 = ch\<lparr>ch_readers := l\<rparr>
        in (r, if r = FL_OK then releaseLeaseReadyFence (ch1\<lparr>ch_frameHeld := False\<rparr>) else ch1, next', Some out))"

definition flRetainReadLease :: "flChannel \<Rightarrow> u64 \<Rightarrow> u64 \<Rightarrow> u64 option \<Rightarrow> flResult \<times> flChannel \<times> u64 \<times> u64 option" where
  "flRetainReadLease ch next lease retained =
     (if \<not> ch_isConsumer ch \<or> retained = None then (FL_INVALID, ch, next, retained)
      else let (r, l, next', out) = ledger_retain (ch_readers ch) next lease (the retained)
           in (r, ch\<lparr>ch_readers := l\<rparr>, next', Some out))"

definition flReadLeaseFrame :: "flChannel \<Rightarrow> u64 \<Rightarrow> flFrame option \<Rightarrow> u64 option \<Rightarrow> flResult \<times> flFrame option \<times> u64 option" where
  "flReadLeaseFrame ch lease frame generation =
     (if \<not> ch_isConsumer ch \<or> frame = None \<or> generation = None then (FL_INVALID, frame, generation)
      else let (r, f, g) = ledger_get (ch_readers ch) lease (the frame) (the generation) in (r, Some f, Some g))"

definition flCompleteReadLease :: "flChannel \<Rightarrow> u64 \<Rightarrow> flResult \<times> flChannel" where
  "flCompleteReadLease ch lease =
     (if \<not> ch_isConsumer ch then (FL_INVALID, ch)
      else let (r, l) = ledger_complete (ch_readers ch) lease in (r, ch\<lparr>ch_readers := l\<rparr>))"

definition flCollectReadLeases :: "Env \<Rightarrow> (fd \<Rightarrow> PollAnswer) \<Rightarrow> flChannel \<Rightarrow> flResult \<times> flChannel" where
  "flCollectReadLeases env poll ch =
     (if \<not> ch_isConsumer ch then (FL_INVALID, ch)
      else
        let (polled, ch1) = pollLeaseCompletions poll ch
        in if polled \<noteq> FL_OK then (polled, ch1)
           else
             let r = retirement (ch_readers ch1)
             in if rt_value r = 0 then (if ledger_empty (ch_readers ch1) then FL_OK else FL_BUSY, ch1)
                else
                  let (result, ch2) = retireReadLeases env ch1 (rt_value r)
                  in if result \<noteq> FL_OK then (result, ch2)
                     else let (retired, l) = ledger_retired (ch_readers ch2) r in (retired, ch2\<lparr>ch_readers := l\<rparr>))"

section \<open>Queries\<close>

definition flFrameAgeNs :: "Env \<Rightarrow> flChannel \<Rightarrow> flFrame option \<Rightarrow> u64 option \<Rightarrow> flResult \<times> u64 option" where
  "flFrameAgeNs env ch frame ageNs =
     (if \<not> ch_isConsumer ch \<or> frame = None \<or> ageNs = None then (FL_INVALID, ageNs)
      else if \<not> has_flag ch FL_TRACK_ARRIVAL then (FL_FORMAT_UNSUPPORTED, ageNs)
      else if \<not> holds_image ch (the frame) then (FL_INVALID, ageNs)
      else (FL_OK, Some (if en_now env \<ge> ch_heldArrival ch then en_now env - ch_heldArrival ch else 0)))"

definition flQueryConsumerFlags :: "flChannel \<Rightarrow> u32 option \<Rightarrow> flResult \<times> u32 option" where
  "flQueryConsumerFlags ch flags = (if \<not> ch_isConsumer ch \<or> flags = None then (FL_INVALID, flags) else (FL_OK, Some (ch_flags ch)))"

definition flGetFrameMetadata :: "flChannel \<Rightarrow> flFrame option \<Rightarrow> flFrameMetadata option \<Rightarrow> flResult \<times> flFrameMetadata option" where
  "flGetFrameMetadata ch frame metadata =
     (if \<not> ch_isConsumer ch \<or> frame = None \<or> metadata = None \<or> \<not> holds_image ch (the frame) then (FL_INVALID, metadata)
      else if md_version (ch_heldMetadata ch) = 0 then (FL_NOT_FOUND, metadata)
      else (FL_OK, Some (ch_heldMetadata ch)))"

definition flQuery :: "flChannel \<Rightarrow> flChannelInfo option \<Rightarrow> flResult \<times> flChannelInfo option" where
  "flQuery ch out = (if out = None then (FL_INVALID, out) else (FL_OK, Some (ch_info ch)))"

section \<open>Creation and closing\<close>

text \<open>
  \<^verbatim>\<open>flClose\<close> of a consumer, after the accept thread has ended: the descriptors that are closed.  \<^verbatim>\<open>createChannel\<close> returns the
  code, the channel if one was created, and otherwise the descriptors closed on the way; \<open>gbm\<close> tells whether a render
  node could be opened.
\<close>
definition flClose_consumer :: "flChannel \<Rightarrow> fd list" where
  "flClose_consumer ch = concat (map freeImage (ch_images ch)) @ delete_channel ch"

definition created_channel :: "string \<Rightarrow> u32 \<Rightarrow> u32 \<Rightarrow> flFormat \<Rightarrow> u32 \<Rightarrow> u32 \<Rightarrow> bool \<Rightarrow> flChannel" where
  "created_channel name w h format poolSize flags external =
     new_channel\<lparr>ch_isConsumer := True, ch_name := name, ch_flags := flags, ch_externalPool := external,
       ch_info := \<lparr>ci_version = FL_VERSION, ci_width = w, ci_height = h, ci_format = format, ci_poolSize = poolSize, ci_generation = 0\<rparr>\<rparr>"

definition createChannel ::
  "Env \<Rightarrow> bool \<Rightarrow> string option \<Rightarrow> u32 \<Rightarrow> u32 \<Rightarrow> flFormat \<Rightarrow> u32 \<Rightarrow> u32 \<Rightarrow> flDmabuf list option \<Rightarrow> bool \<Rightarrow>
   flResult \<times> flChannel option \<times> fd list" where
  "createChannel env gbm name w h format poolSize flags externalImages out =
     (if name = None \<or> \<not> out \<or> \<not> validGeometry w h format then (FL_INVALID, None, [])
      else if fourccFor format = 0 then (FL_FORMAT_UNSUPPORTED, None, [])
      else if poolSize = 0 \<or> unat poolSize > kMaxPool then (FL_INVALID, None, [])
      else if \<not> gbm then (FL_INTERNAL, None, [])
      else
        let ch = created_channel (the name) w h format poolSize flags (externalImages \<noteq> None);
            (allocation, ch1) = (case externalImages of
                Some images \<Rightarrow> adoptRing env ch (take (unat poolSize) images)
              | None \<Rightarrow> let (ok, ch') = reallocRing env ch w h (unat poolSize) in (if ok then FL_OK else FL_OOM, ch'))
        in if allocation \<noteq> FL_OK then (allocation, None, flClose_consumer ch1) else (FL_OK, Some ch1, []))"

definition flCreateChannelEx where
  "flCreateChannelEx env gbm name w h format poolSize flags out = createChannel env gbm name w h format poolSize flags None out"

definition flCreateChannel where
  "flCreateChannel env gbm name w h format poolSize out = flCreateChannelEx env gbm name w h format poolSize 0 out"

definition flCreateChannelFromDmabufs where
  "flCreateChannelFromDmabufs env gbm name w h format poolSize flags images out =
     (if images = None \<or> flags AND NOT (FL_MAP_CPU OR FL_GPU_SYNC OR FL_DEFER_RELEASE OR FL_GPU_RENDER OR FL_TRACK_ARRIVAL OR
        FL_REQUIRE_FRAME_METADATA) \<noteq> 0 then (FL_INVALID, None, [])
      else createChannel env gbm name w h format poolSize flags images out)"

section \<open>Events and invariant\<close>

text \<open>
  The calls of a consumer and the steps of its accept thread.  \<open>CeAcquire\<close> is one look of the acquisition loop, the other
  constructors are named after the calls.
\<close>
datatype cons_event =
    CeAccept Env u32 bool accept_event
  | CeAcquire Env
  | CeRelease Env "flFrame option"
  | CeReleaseFd Env "flFrame option" fd
  | CeSignal Env u64 fd
  | CeLease "flFrame option"
  | CeRetain u64
  | CeComplete u64
  | CeCompleteFd Env u64 fd
  | CeCollect Env "fd \<Rightarrow> PollAnswer"

fun cons_exec :: "flChannel \<Rightarrow> u64 \<Rightarrow> cons_event \<Rightarrow> flChannel \<times> u64" where
  "cons_exec ch next (CeAccept env pid attached ev) = (snd (acceptLoop env pid attached ch ev), next)"
| "cons_exec ch next (CeAcquire env) = (fst (snd (frame_round (\<lambda>k. env) (\<lambda>k c. c) 0 (ch, Some zero_frame))), next)"
| "cons_exec ch next (CeRelease env f) = (snd (flRelease env ch f), next)"
| "cons_exec ch next (CeReleaseFd env f fd) = (snd (flReleaseSyncFd env ch f fd), next)"
| "cons_exec ch next (CeSignal env v fd) = (snd (flSignalConsumedSyncFd env ch v fd), next)"
| "cons_exec ch next (CeLease f) = (let (r, ch', next', out) = flLeaseFrame ch next f (Some 0) in (ch', next'))"
| "cons_exec ch next (CeRetain t) = (let (r, ch', next', out) = flRetainReadLease ch next t (Some 0) in (ch', next'))"
| "cons_exec ch next (CeComplete t) = (snd (flCompleteReadLease ch t), next)"
| "cons_exec ch next (CeCompleteFd env t fd) = (snd (flCompleteReadLeaseSyncFd env ch t fd), next)"
| "cons_exec ch next (CeCollect env poll) = (snd (flCollectReadLeases env poll ch), next)"

text \<open>
  Pending and held frames name slots of the ring, a fence is owned only for the frame it belongs to, and the ledger is
  well formed.
\<close>
definition cons_frames :: "flChannel \<Rightarrow> bool" where
  "cons_frames ch \<longleftrightarrow> (ch_hasPending ch \<longrightarrow> unat (ch_pendingSlot ch) < length (ch_images ch)) \<and>
     (ch_frameHeld ch \<longrightarrow> unat (ch_heldSlot ch) < length (ch_images ch)) \<and>
     (\<not> ch_hasPending ch \<longrightarrow> sy_pending (ch_sync ch) < 0) \<and> (\<not> ch_frameHeld ch \<longrightarrow> sy_held (ch_sync ch) < 0)"

definition cons_inv :: "flChannel \<Rightarrow> u64 \<Rightarrow> bool" where
  "cons_inv ch next \<longleftrightarrow> cons_frames ch \<and> ledger_inv (ch_readers ch) next"

definition fence_total :: "flChannel \<Rightarrow> fd multiset" where
  "fence_total ch = mset (ch_closed ch) + mset (sync_owned (ch_sync ch))"

text \<open>A consumer whose producer has sent a greeting with a descriptor attached.\<close>
definition example_consumer :: flChannel where
  "example_consumer = example_ring\<lparr>ch_peer := ipc_null\<lparr>ic_connected := True, ic_fd := 4,
     ic_inbox := [delivered (ipc_header MsgHello 0 @ [], [9])]\<rparr>\<rparr>"

section \<open>Lemmas\<close>

lemma releaseLeaseReadyFence_fields [simp]:
  "ch_isConsumer (releaseLeaseReadyFence ch) = ch_isConsumer ch"
  "ch_externalPool (releaseLeaseReadyFence ch) = ch_externalPool ch"
  "ch_name (releaseLeaseReadyFence ch) = ch_name ch" "ch_info (releaseLeaseReadyFence ch) = ch_info ch"
  "ch_flags (releaseLeaseReadyFence ch) = ch_flags ch"
  "ch_peerFeatures (releaseLeaseReadyFence ch) = ch_peerFeatures ch"
  "ch_bufferReferences (releaseLeaseReadyFence ch) = ch_bufferReferences ch"
  "ch_slotMetadata (releaseLeaseReadyFence ch) = ch_slotMetadata ch"
  "ch_pendingMetadata (releaseLeaseReadyFence ch) = ch_pendingMetadata ch"
  "ch_heldMetadata (releaseLeaseReadyFence ch) = ch_heldMetadata ch"
  "ch_images (releaseLeaseReadyFence ch) = ch_images ch"
  "ch_submittingSlot (releaseLeaseReadyFence ch) = ch_submittingSlot ch"
  "ch_submittingValue (releaseLeaseReadyFence ch) = ch_submittingValue ch"
  "ch_readyValue (releaseLeaseReadyFence ch) = ch_readyValue ch" "ch_peer (releaseLeaseReadyFence ch) = ch_peer ch"
  "ch_peerGone (releaseLeaseReadyFence ch) = ch_peerGone ch"
  "ch_hasPending (releaseLeaseReadyFence ch) = ch_hasPending ch"
  "ch_readers (releaseLeaseReadyFence ch) = ch_readers ch"
  "ch_leaseCompletions (releaseLeaseReadyFence ch) = ch_leaseCompletions ch"
  "ch_frameHeld (releaseLeaseReadyFence ch) = ch_frameHeld ch"
  "ch_heldReady (releaseLeaseReadyFence ch) = ch_heldReady ch"
  "ch_retiredValue (releaseLeaseReadyFence ch) = ch_retiredValue ch"
  "ch_heldSlot (releaseLeaseReadyFence ch) = ch_heldSlot ch"
  "ch_pendingSlot (releaseLeaseReadyFence ch) = ch_pendingSlot ch"
  "ch_pendingReady (releaseLeaseReadyFence ch) = ch_pendingReady ch"
  "ch_pendingPts (releaseLeaseReadyFence ch) = ch_pendingPts ch"
  "ch_pendingArrival (releaseLeaseReadyFence ch) = ch_pendingArrival ch"
  "ch_heldArrival (releaseLeaseReadyFence ch) = ch_heldArrival ch"
  "ch_sequence (releaseLeaseReadyFence ch) = ch_sequence ch" "ch_link (releaseLeaseReadyFence ch) = ch_link ch"
  "ch_slotSubmitValue (releaseLeaseReadyFence ch) = ch_slotSubmitValue ch"
  "ch_consumedValue (releaseLeaseReadyFence ch) = ch_consumedValue ch"
  by (simp_all add: releaseLeaseReadyFence_def)

lemma drop_pending_fence_fields [simp]:
  "ch_isConsumer (drop_pending_fence ch) = ch_isConsumer ch"
  "ch_externalPool (drop_pending_fence ch) = ch_externalPool ch" "ch_name (drop_pending_fence ch) = ch_name ch"
  "ch_info (drop_pending_fence ch) = ch_info ch" "ch_flags (drop_pending_fence ch) = ch_flags ch"
  "ch_peerFeatures (drop_pending_fence ch) = ch_peerFeatures ch"
  "ch_bufferReferences (drop_pending_fence ch) = ch_bufferReferences ch"
  "ch_slotMetadata (drop_pending_fence ch) = ch_slotMetadata ch"
  "ch_pendingMetadata (drop_pending_fence ch) = ch_pendingMetadata ch"
  "ch_heldMetadata (drop_pending_fence ch) = ch_heldMetadata ch" "ch_images (drop_pending_fence ch) = ch_images ch"
  "ch_submittingSlot (drop_pending_fence ch) = ch_submittingSlot ch"
  "ch_submittingValue (drop_pending_fence ch) = ch_submittingValue ch"
  "ch_readyValue (drop_pending_fence ch) = ch_readyValue ch" "ch_peer (drop_pending_fence ch) = ch_peer ch"
  "ch_peerGone (drop_pending_fence ch) = ch_peerGone ch" "ch_hasPending (drop_pending_fence ch) = ch_hasPending ch"
  "ch_readers (drop_pending_fence ch) = ch_readers ch"
  "ch_leaseCompletions (drop_pending_fence ch) = ch_leaseCompletions ch"
  "ch_frameHeld (drop_pending_fence ch) = ch_frameHeld ch" "ch_heldReady (drop_pending_fence ch) = ch_heldReady ch"
  "ch_retiredValue (drop_pending_fence ch) = ch_retiredValue ch"
  "ch_heldSlot (drop_pending_fence ch) = ch_heldSlot ch" "ch_pendingSlot (drop_pending_fence ch) = ch_pendingSlot ch"
  "ch_pendingReady (drop_pending_fence ch) = ch_pendingReady ch"
  "ch_pendingPts (drop_pending_fence ch) = ch_pendingPts ch"
  "ch_pendingArrival (drop_pending_fence ch) = ch_pendingArrival ch"
  "ch_heldArrival (drop_pending_fence ch) = ch_heldArrival ch" "ch_sequence (drop_pending_fence ch) = ch_sequence ch"
  "ch_link (drop_pending_fence ch) = ch_link ch" "ch_slotSubmitValue (drop_pending_fence ch) = ch_slotSubmitValue ch"
  "ch_consumedValue (drop_pending_fence ch) = ch_consumedValue ch"
  by (simp_all add: drop_pending_fence_def)

lemma push_release_fields [simp]:
  "ch_isConsumer (push_release ch v fd) = ch_isConsumer ch"
  "ch_externalPool (push_release ch v fd) = ch_externalPool ch" "ch_name (push_release ch v fd) = ch_name ch"
  "ch_info (push_release ch v fd) = ch_info ch" "ch_flags (push_release ch v fd) = ch_flags ch"
  "ch_peerFeatures (push_release ch v fd) = ch_peerFeatures ch"
  "ch_bufferReferences (push_release ch v fd) = ch_bufferReferences ch"
  "ch_slotMetadata (push_release ch v fd) = ch_slotMetadata ch"
  "ch_pendingMetadata (push_release ch v fd) = ch_pendingMetadata ch"
  "ch_heldMetadata (push_release ch v fd) = ch_heldMetadata ch" "ch_images (push_release ch v fd) = ch_images ch"
  "ch_submittingSlot (push_release ch v fd) = ch_submittingSlot ch"
  "ch_submittingValue (push_release ch v fd) = ch_submittingValue ch"
  "ch_readyValue (push_release ch v fd) = ch_readyValue ch" "ch_peer (push_release ch v fd) = ch_peer ch"
  "ch_peerGone (push_release ch v fd) = ch_peerGone ch" "ch_hasPending (push_release ch v fd) = ch_hasPending ch"
  "ch_readers (push_release ch v fd) = ch_readers ch"
  "ch_leaseCompletions (push_release ch v fd) = ch_leaseCompletions ch"
  "ch_frameHeld (push_release ch v fd) = ch_frameHeld ch" "ch_heldReady (push_release ch v fd) = ch_heldReady ch"
  "ch_retiredValue (push_release ch v fd) = ch_retiredValue ch" "ch_heldSlot (push_release ch v fd) = ch_heldSlot ch"
  "ch_pendingSlot (push_release ch v fd) = ch_pendingSlot ch"
  "ch_pendingReady (push_release ch v fd) = ch_pendingReady ch"
  "ch_pendingPts (push_release ch v fd) = ch_pendingPts ch"
  "ch_pendingArrival (push_release ch v fd) = ch_pendingArrival ch"
  "ch_heldArrival (push_release ch v fd) = ch_heldArrival ch" "ch_sequence (push_release ch v fd) = ch_sequence ch"
  "ch_link (push_release ch v fd) = ch_link ch" "ch_slotSubmitValue (push_release ch v fd) = ch_slotSubmitValue ch"
  "ch_consumedValue (push_release ch v fd) = ch_consumedValue ch" "ch_closed (push_release ch v fd) = ch_closed ch"
  by (simp_all add: push_release_def)

lemma send_release_fields [simp]:
  "ch_isConsumer (snd (send_release env ch slot v fd)) = ch_isConsumer ch"
  "ch_externalPool (snd (send_release env ch slot v fd)) = ch_externalPool ch"
  "ch_name (snd (send_release env ch slot v fd)) = ch_name ch"
  "ch_info (snd (send_release env ch slot v fd)) = ch_info ch"
  "ch_flags (snd (send_release env ch slot v fd)) = ch_flags ch"
  "ch_peerFeatures (snd (send_release env ch slot v fd)) = ch_peerFeatures ch"
  "ch_bufferReferences (snd (send_release env ch slot v fd)) = ch_bufferReferences ch"
  "ch_slotMetadata (snd (send_release env ch slot v fd)) = ch_slotMetadata ch"
  "ch_pendingMetadata (snd (send_release env ch slot v fd)) = ch_pendingMetadata ch"
  "ch_heldMetadata (snd (send_release env ch slot v fd)) = ch_heldMetadata ch"
  "ch_images (snd (send_release env ch slot v fd)) = ch_images ch"
  "ch_sync (snd (send_release env ch slot v fd)) = ch_sync ch"
  "ch_submittingSlot (snd (send_release env ch slot v fd)) = ch_submittingSlot ch"
  "ch_submittingValue (snd (send_release env ch slot v fd)) = ch_submittingValue ch"
  "ch_readyValue (snd (send_release env ch slot v fd)) = ch_readyValue ch"
  "ch_peerGone (snd (send_release env ch slot v fd)) = ch_peerGone ch"
  "ch_hasPending (snd (send_release env ch slot v fd)) = ch_hasPending ch"
  "ch_readers (snd (send_release env ch slot v fd)) = ch_readers ch"
  "ch_leaseCompletions (snd (send_release env ch slot v fd)) = ch_leaseCompletions ch"
  "ch_frameHeld (snd (send_release env ch slot v fd)) = ch_frameHeld ch"
  "ch_heldReady (snd (send_release env ch slot v fd)) = ch_heldReady ch"
  "ch_retiredValue (snd (send_release env ch slot v fd)) = ch_retiredValue ch"
  "ch_heldSlot (snd (send_release env ch slot v fd)) = ch_heldSlot ch"
  "ch_pendingSlot (snd (send_release env ch slot v fd)) = ch_pendingSlot ch"
  "ch_pendingReady (snd (send_release env ch slot v fd)) = ch_pendingReady ch"
  "ch_pendingPts (snd (send_release env ch slot v fd)) = ch_pendingPts ch"
  "ch_pendingArrival (snd (send_release env ch slot v fd)) = ch_pendingArrival ch"
  "ch_heldArrival (snd (send_release env ch slot v fd)) = ch_heldArrival ch"
  "ch_sequence (snd (send_release env ch slot v fd)) = ch_sequence ch"
  "ch_link (snd (send_release env ch slot v fd)) = ch_link ch"
  "ch_slotSubmitValue (snd (send_release env ch slot v fd)) = ch_slotSubmitValue ch"
  "ch_consumedValue (snd (send_release env ch slot v fd)) = ch_consumedValue ch"
  "ch_closed (snd (send_release env ch slot v fd)) = ch_closed ch"
  by (simp_all add: send_release_def split: prod.splits)

lemma advance_retired_sync [simp]:
  "sy_pending (ch_sync (advance_retired env ch)) = sy_pending (ch_sync ch)" "sy_held (ch_sync (advance_retired env ch)) = sy_held (ch_sync ch)"
  by (simp_all add: advance_retired_def sync_advance_def log_closed_def split: prod.splits)

lemma clear_sync_parts [simp]: "sy_pending (ch_sync (clear_sync ch)) = -1" "sy_held (ch_sync (clear_sync ch)) = -1"
  by (simp_all add: clear_sync_def sync_clear_def log_closed_def)

lemma fence_parts [simp]:
  "sy_held (ch_sync (releaseLeaseReadyFence ch)) = -1" "sy_pending (ch_sync (releaseLeaseReadyFence ch)) = sy_pending (ch_sync ch)"
  "sy_pending (ch_sync (drop_pending_fence ch)) = -1" "sy_held (ch_sync (drop_pending_fence ch)) = sy_held (ch_sync ch)"
  "sy_pending (ch_sync (push_release ch v fd)) = sy_pending (ch_sync ch)" "sy_held (ch_sync (push_release ch v fd)) = sy_held (ch_sync ch)"
  by (simp_all add: releaseLeaseReadyFence_def drop_pending_fence_def push_release_def)

subsection \<open>The ledger through the API\<close>

lemma ledger_ops_inv:
  assumes "ledger_inv l next"
  shows "ledger_acquire l next g f 0 = (r, l', next', out) \<Longrightarrow> ledger_inv l' next'"
    and "ledger_retain l next t 0 = (r, l', next', out) \<Longrightarrow> ledger_inv l' next'"
    and "ledger_complete l t = (r, l') \<Longrightarrow> ledger_inv l' next" and "ledger_defer l t = (r, l') \<Longrightarrow> ledger_inv l' next"
    and "finishDeferred l t = (r, l') \<Longrightarrow> ledger_inv l' next" and "ledger_retired l (retirement l) = (r, l') \<Longrightarrow> ledger_inv l' next"
    and "ledger_inv (resetEpoch l) next"
  using exec_refines [OF assms, of "EvAcquire g f" r l' next'] exec_refines [OF assms, of "EvRetain t" r l' next']
    exec_refines [OF assms, of "EvComplete t" r l' "next"] exec_refines [OF assms, of "EvDefer t" r l' "next"]
    exec_refines [OF assms, of "EvFinish t" r l' "next"] exec_refines [OF assms, of "EvRetire" r l' "next"]
    exec_refines [OF assms, of "EvReset" FL_OK "resetEpoch l" "next"]
  by (auto simp: ledger_exec_def)

lemma poll_completions_inv:
  assumes "ledger_inv l next" "poll_completions poll l cs = (r, l', cs', closed)"
  shows "ledger_inv l' next"
  using assms
proof (induction poll l cs arbitrary: l' cs' r closed rule: poll_completions.induct)
  case (2 poll l c cs)
  show ?case
    using "2.prems" "2.IH" ledger_ops_inv(5) [OF "2.prems"(1)]
    by (fastforce simp: Let_def split: if_splits PollAnswer.splits prod.splits)
qed simp

lemma cons_frames_cong:
  "\<lbrakk>ch_hasPending ch' = ch_hasPending ch; ch_pendingSlot ch' = ch_pendingSlot ch; ch_frameHeld ch' = ch_frameHeld ch;
    ch_heldSlot ch' = ch_heldSlot ch; ch_images ch' = ch_images ch; sy_pending (ch_sync ch') = sy_pending (ch_sync ch);
    sy_held (ch_sync ch') = sy_held (ch_sync ch)\<rbrakk> \<Longrightarrow> cons_frames ch' = cons_frames ch"
  by (simp add: cons_frames_def)

subsection \<open>The invariant under every step\<close>

lemma recv_peer_fields:
  assumes "recv_peer ch = (m, ch1)"
  shows "cons_frames ch1 = cons_frames ch" "ch_readers ch1 = ch_readers ch" "ch_images ch1 = ch_images ch" "ch_frameHeld ch1 = ch_frameHeld ch"
  using assms by (auto simp: recv_peer_def cons_frames_def split: prod.splits)

lemma send_ring_fields [simp]:
  "cons_frames (snd (send_ring env ch)) = cons_frames ch" "ch_readers (snd (send_ring env ch)) = ch_readers ch"
  by (simp_all add: send_ring_def cons_frames_def split: prod.splits)

lemma realloc_cases:
  assumes "reallocRing env ch w h n = (ok, ch')"
  shows "ch_hasPending ch' = ch_hasPending ch" "ch_frameHeld ch' = ch_frameHeld ch"
    "ch_readers ch' = ch_readers ch \<or> ch_readers ch' = resetEpoch (ch_readers ch)"
    "sy_pending (ch_sync ch') = sy_pending (ch_sync ch) \<or> sy_pending (ch_sync ch') = -1"
    "sy_held (ch_sync ch') = sy_held (ch_sync ch) \<or> sy_held (ch_sync ch') = -1"
  using assms by (auto simp: reallocRing_def split: sum.splits)

lemma resize_inv:
  assumes "cons_inv ch next"
  shows "cons_inv (resize_ring env ch g) next"
proof (cases "still_reading (advance_retired env ch)")
  case True
  then show ?thesis using assms by (simp add: resize_ring_def cons_inv_def cons_frames_def)
next
  case False
  let ?c = "drop_pending_fence ((advance_retired env ch)\<lparr>ch_hasPending := False\<rparr>)"
  obtain ok ch' where r: "reallocRing env ?c (gm_width g) (gm_height g) (length (ch_images (advance_retired env ch))) = (ok, ch')"
    by (cases "reallocRing env ?c (gm_width g) (gm_height g) (length (ch_images (advance_retired env ch)))")
  have nh: "\<not> ch_frameHeld ch" using False by (simp add: still_reading_def)
  have "cons_frames ch'" using realloc_cases [OF r] nh assms by (auto simp: cons_frames_def cons_inv_def)
  moreover have "ledger_inv (ch_readers ch') next" using realloc_cases(3) [OF r] assms ledger_ops_inv(7) by (auto simp: cons_inv_def)
  ultimately show ?thesis using r False by (simp add: resize_ring_def cons_inv_def)
qed

lemma peer_message_inv:
  assumes "cons_inv ch next" "peer_message env ch = (go, ch')"
  shows "cons_inv ch' next"
proof -
  obtain mo ch1 where r: "recv_peer ch = (mo, ch1)" by (cases "recv_peer ch")
  have i1: "cons_inv ch1 next" using recv_peer_fields [OF r] assms(1) by (simp add: cons_inv_def)
  show ?thesis
  proof (cases mo)
    case None
    then show ?thesis using assms(2) r i1 by (simp add: peer_message_def)
  next
    case (Some m)
    have "cons_inv (snd (geometry_step env ch1 m)) next"
    proof -
      have "cons_inv (snd (send_ring env c)) next" if "cons_inv c next" for c using that by (simp add: cons_inv_def)
      then show ?thesis using i1 resize_inv by (auto simp: geometry_step_def split: option.splits)
    qed
    moreover have "cons_inv (snd (frame_step env ch1 m)) next"
      using i1 by (auto simp: frame_step_def store_pending_def cons_inv_def cons_frames_def split: option.splits prod.splits)
    ultimately show ?thesis using assms(2) r Some i1
      by (cases "ms_type m = MsgBye"; cases "ms_type m = MsgRequestGeometry"; cases "ms_type m \<noteq> MsgFrameReady \<and> ms_type m \<noteq> MsgFrameReadyMetadata")
        (simp_all add: peer_message_def)
  qed
qed

lemma drop_connection_inv: "cons_inv (fst (snd (drop_connection link ch))) next = cons_inv ch next"
  by (simp add: drop_connection_def cons_inv_def cons_frames_def split: prod.splits)

lemma attach_inv:
  assumes "cons_inv ch next"
  shows "cons_inv (fst (snd (attach env ch link features))) next"
proof (cases "still_reading (advance_retired env ch) \<or> \<not> fenceReady (en_signalled env) (sy_pending (ch_sync (advance_retired env ch)))")
  case True
  then show ?thesis using assms by (auto simp: attach_def drop_connection_inv) (simp_all add: cons_inv_def cons_frames_def)
next
  case False
  let ?c = "new_timeline (advance_retired env ch) features"
  have "\<not> ch_frameHeld ch" using False by (simp add: still_reading_def)
  then have "cons_frames ?c" by (simp add: new_timeline_def cons_frames_def)
  moreover have "ledger_inv (ch_readers ?c) next" using assms by (simp add: new_timeline_def cons_inv_def ledger_ops_inv(7))
  ultimately have "cons_inv ?c next" by (simp add: cons_inv_def)
  moreover have "cons_inv (log_closed fds (?c\<lparr>ch_peerGone := False, ch_peer := l\<rparr>)) next" for fds l
    using calculation by (simp add: cons_inv_def cons_frames_def)
  ultimately show ?thesis using False by (cases "handOverRing env ?c link") (simp add: attach_def drop_connection_inv Let_def)
qed

lemma accept_inv:
  assumes "cons_inv ch next"
  shows "cons_inv (snd (acceptLoop env pid attached ch ev)) next"
proof -
  have log: "cons_inv (log_closed fds c) next = cons_inv c next" for fds c by (simp add: cons_inv_def cons_frames_def)
  have "cons_inv (fst (snd (accept_producer env pid ch link))) next" for link
    using assms by (simp add: accept_producer_def drop_connection_inv attach_inv log Let_def split: prod.splits option.splits)
  moreover have "cons_inv (fst (refuse_extra env ch link)) next" for link
    using assms by (simp add: refuse_extra_def log Let_def split: prod.splits)
  moreover have "cons_inv (snd (acceptLoop env pid True ch (AeReadable ds))) next" for ds
  proof -
    let ?c = "ch\<lparr>ch_peer := (ch_peer ch)\<lparr>ic_inbox := ic_inbox (ch_peer ch) @ ds\<rparr>\<rparr>"
    have "cons_inv ?c next" using assms by (simp add: cons_inv_def cons_frames_def)
    then have "cons_inv (snd (peer_message env ?c)) next" by (rule peer_message_inv [OF _ surjective_pairing])
    moreover have "cons_inv (c\<lparr>ch_peerGone := True\<rparr>) next = cons_inv c next" for c by (simp add: cons_inv_def cons_frames_def)
    ultimately show ?thesis by (simp add: case_prod_unfold Let_def)
  qed
  ultimately show ?thesis using assms by (cases "(env, pid, attached, ch, ev)" rule: acceptLoop.cases) (simp_all add: case_prod_unfold Let_def)
qed

lemma release_inv:
  assumes "cons_inv ch next"
  shows "cons_inv (snd (flReleaseSyncFd env ch f fd)) next" "cons_inv (snd (flRelease env ch f)) next"
    "cons_inv (snd (flSignalConsumedSyncFd env ch v fd)) next"
proof -
  have send: "cons_inv (snd (send_release env c slot v fd)) next = cons_inv c next" for c slot v fd
    by (simp add: cons_inv_def cons_frames_def)
  have rel: "cons_inv (releaseLeaseReadyFence (c\<lparr>ch_frameHeld := False\<rparr>)) next" if "cons_inv c next" for c
    using that by (simp add: cons_inv_def cons_frames_def)
  have adv: "cons_inv (advance_retired env (push_release ch v fd)) next" for v fd
    using assms by (simp add: cons_inv_def cons_frames_def)
  show *: "cons_inv (snd (flReleaseSyncFd env ch f fd)) next" for fd
    using assms adv rel send by (simp add: flReleaseSyncFd_def Let_def case_prod_unfold)
  show "cons_inv (snd (flRelease env ch f)) next" using * assms rel by (simp add: flRelease_def)
  show "cons_inv (snd (flSignalConsumedSyncFd env ch v fd)) next"
    using assms adv send by (simp add: flSignalConsumedSyncFd_def Let_def case_prod_unfold)
qed

lemma collect_inv:
  assumes "cons_inv ch next"
  shows "cons_inv (snd (flCollectReadLeases env poll ch)) next"
proof -
  obtain r l cs closed where p: "poll_completions poll (ch_readers ch) (ch_leaseCompletions ch) = (r, l, cs, closed)"
    by (metis prod_cases4)
  let ?c = "log_closed closed (ch\<lparr>ch_readers := l, ch_leaseCompletions := cs\<rparr>)"
  have i: "ledger_inv l next" using assms p poll_completions_inv by (auto simp: cons_inv_def)
  have c: "cons_inv ?c next" using assms i by (simp add: cons_inv_def cons_frames_def)
  have send: "cons_inv (snd (send_release env ?c 0 v fd)) next" "cons_inv ((snd (send_release env ?c 0 v fd))\<lparr>ch_retiredValue := w\<rparr>) next"
      "cons_inv (?c\<lparr>ch_retiredValue := w\<rparr>) next" for v w fd using c by (simp_all add: cons_inv_def cons_frames_def)
  obtain r2 c2 where q: "retireReadLeases env ?c (rt_value (retirement l)) = (r2, c2)"
    by (cases "retireReadLeases env ?c (rt_value (retirement l))")
  have c2: "cons_inv c2 next" "ch_readers c2 = l"
    using q c send by (auto simp: retireReadLeases_def case_prod_unfold Let_def split: if_splits)
  have "cons_inv (c2\<lparr>ch_readers := snd (ledger_retired l (retirement l))\<rparr>) next"
    using c2 ledger_ops_inv(6) [OF i surjective_pairing] by (simp add: cons_inv_def cons_frames_def)
  then show ?thesis using assms c c2 by (simp add: flCollectReadLeases_def pollLeaseCompletions_def p q Let_def case_prod_unfold)
qed

lemma lease_inv:
  assumes "cons_inv ch next"
  shows "flLeaseFrame ch next f (Some 0) = (r, ch', next', out) \<Longrightarrow> cons_inv ch' next'"
    and "flRetainReadLease ch next t (Some 0) = (r, ch', next', out) \<Longrightarrow> cons_inv ch' next'"
    and "cons_inv (snd (flCompleteReadLease ch t)) next" and "cons_inv (snd (flCompleteReadLeaseSyncFd env ch t fd)) next"
proof -
  note li = ledger_ops_inv [OF conjunct2 [OF assms [unfolded cons_inv_def]]]
  have f: "cons_frames ch" using assms by (simp add: cons_inv_def)
  show "cons_inv ch' next'" if "flLeaseFrame ch next f (Some 0) = (r, ch', next', out)"
    using that f assms li(1) by (auto simp: flLeaseFrame_def Let_def cons_inv_def cons_frames_def split: if_splits prod.splits)
  show "cons_inv ch' next'" if "flRetainReadLease ch next t (Some 0) = (r, ch', next', out)"
    using that f assms li(2) by (auto simp: flRetainReadLease_def cons_inv_def cons_frames_def split: if_splits prod.splits)
  show "cons_inv (snd (flCompleteReadLease ch t)) next"
    using f assms li(3) by (auto simp: flCompleteReadLease_def cons_inv_def cons_frames_def split: prod.splits)
  show "cons_inv (snd (flCompleteReadLeaseSyncFd env ch t fd)) next"
    using f assms li(4) by (auto simp: flCompleteReadLeaseSyncFd_def Let_def cons_inv_def cons_frames_def split: prod.splits option.splits)
qed

lemma consumer_step_inv:
  assumes "cons_inv ch next" "cons_exec ch next e = (ch', next')"
  shows "cons_inv ch' next'"
proof (cases e)
  case (CeAccept env pid attached ev)
  then show ?thesis using assms accept_inv by auto
next
  case (CeAcquire env)
  have "cons_inv (take_pending ch) next" if "frame_available env ch"
    using that assms(1) by (simp add: frame_available_def take_pending_def cons_inv_def cons_frames_def)
  then show ?thesis using CeAcquire assms by (auto simp: frame_round_def Let_def split: if_splits)
next
  case (CeLease f)
  then obtain r out where "flLeaseFrame ch next f (Some 0) = (r, ch', next', out)" using assms(2) by (auto split: prod.splits)
  then show ?thesis by (rule lease_inv(1) [OF assms(1)])
next
  case (CeRetain t)
  then obtain r out where "flRetainReadLease ch next t (Some 0) = (r, ch', next', out)" using assms(2) by (auto split: prod.splits)
  then show ?thesis by (rule lease_inv(2) [OF assms(1)])
qed (use assms(2) release_inv [OF assms(1)] collect_inv [OF assms(1)] lease_inv(3,4) [OF assms(1)] in auto)

section \<open>Properties\<close>



text \<open>
  C9. Descriptors of incoming messages.  Handling one message of the attached producer, other than a geometry request,
  conserves descriptors exactly for frame messages: each received descriptor is either the fence of the frame that is now
  pending or has been closed, and the fence of a replaced frame is closed once.  The descriptors of any other message are
  neither kept nor closed.
\<close>
theorem message_descriptors:
  assumes "recv_peer ch = (Some m, ch1)" "ms_type m \<noteq> MsgRequestGeometry" "\<forall>fd \<in> set (ms_fds m). fd \<ge> 0"
    "peer_message env ch = (go, ch')"
  shows "fence_total ch' = fence_total ch + (if ms_type m = MsgFrameReady \<or> ms_type m = MsgFrameReadyMetadata then mset (ms_fds m) else {#}) \<and>
    ch_images ch' = ch_images ch \<and> ch_leaseCompletions ch' = ch_leaseCompletions ch"
proof -
  have c1: "fence_total ch1 = fence_total ch" "ch_images ch1 = ch_images ch" "ch_leaseCompletions ch1 = ch_leaseCompletions ch"
    using assms(1) by (auto simp: recv_peer_def fence_total_def log_closed_def ipc_recv_def Let_def split: if_splits list.splits prod.splits)
  have log: "fence_total (log_closed fds c) = fence_total c + mset fds" for fds c by (simp add: fence_total_def log_closed_def)
  have store: "fence_total (store_pending env ch1 fr md (ms_fds m)) = fence_total ch1 + mset (ms_fds m)" for fr md
    using assms(3) by (cases "ms_fds m") (simp_all add: store_pending_def fence_total_def log_closed_def sync_owned_def closing_def)
  show ?thesis
  proof (cases "ms_type m = MsgFrameReady \<or> ms_type m = MsgFrameReadyMetadata")
    case True
    then have "ms_type m \<noteq> MsgBye" by auto
    with True assms(1,2,4) have f: "frame_step env ch1 m = (go, ch')" by (auto simp: peer_message_def)
    have im: "ch_images (store_pending env ch1 fr md fds) = ch_images ch1"
      "ch_leaseCompletions (store_pending env ch1 fr md fds) = ch_leaseCompletions ch1" for fr md fds
      by (simp_all add: store_pending_def)
    show ?thesis using f True c1 by (auto simp: frame_step_def log store im split: prod.splits option.splits if_splits)
  next
    case False
    then show ?thesis using assms(1,2,4) c1 by (auto simp: peer_message_def split: if_splits)
  qed
qed

lemma example_consumer_recv:
  "recv_peer example_consumer = (Some \<lparr>ms_type = MsgHello, ms_payload = [], ms_fds = [9]\<rparr>,
     example_ring\<lparr>ch_peer := ipc_null\<lparr>ic_connected := True, ic_fd := 4\<rparr>\<rparr>)"
proof -
  have "ipc_recv (ch_peer example_consumer) = (Some \<lparr>ms_type = MsgHello, ms_payload = [], ms_fds = [9]\<rparr>, (ch_peer example_consumer)\<lparr>ic_inbox := []\<rparr>, [])"
    by (rule recv_delivered) (simp_all add: example_consumer_def)
  then show ?thesis by (simp add: recv_peer_def log_closed_def example_consumer_def ipc_null_def)
qed

theorem message_descriptors_witness:
  "fst (recv_peer example_consumer) = Some \<lparr>ms_type = MsgHello, ms_payload = [], ms_fds = [9]\<rparr> \<and>
   fence_total (snd (peer_message example_env example_consumer)) = {#}"
proof -
  have "fence_total example_consumer = {#}"
    by (simp add: fence_total_def example_consumer_def example_ring_def new_channel_def sync_init_def sync_owned_def closing_def)
  then show ?thesis
    using message_descriptors [OF example_consumer_recv _ _ surjective_pairing, of example_env] example_consumer_recv by simp
qed

lemma advance_retired_log:
  "ch_retiredValue (advance_retired env (log_closed fds ch)) = ch_retiredValue (advance_retired env ch)"
  by (simp add: advance_retired_def log_closed_def split: prod.splits)

lemma drop_connection_result:
  "drop_connection l c = (ok, ch', l') \<Longrightarrow> \<not> ok \<and> (\<exists>fds. ch' = log_closed fds c)"
  by (auto simp: drop_connection_def split: prod.splits)

text \<open>A producer got as far as the gate, or nothing changed but the log.\<close>

lemma accept_producer_cases:
  assumes "accept_producer env pid ch link = (ok, ch', link')"
  shows "\<not> ok \<and> (\<exists>fds. ch' = log_closed fds ch) \<or>
    (\<exists>l fds (ph :: HelloMsg). attach env (log_closed fds ch) l (hm_pad ph) = (ok, ch', link') \<and> hm_version ph = FL_VERSION \<and>
      compatibleFeatures (localFeatures (ch_flags ch)) (hm_pad ph))"
proof -
  let ?D = "\<lambda>x. \<exists>l fds. x = drop_connection l (log_closed fds ch)"
  let ?A = "\<lambda>x. \<exists>l fds (ph :: HelloMsg). attach env (log_closed fds ch) l (hm_pad ph) = x \<and> hm_version ph = FL_VERSION \<and>
      compatibleFeatures (localFeatures (ch_flags ch)) (hm_pad ph)"
  have log0: "log_closed [] ch = ch" by (simp add: log_closed_def)
  have log2: "log_closed a (log_closed b ch) = log_closed (b @ a) ch" for a b by (simp add: log_closed_def)
  let ?mine = "hello_mine (localFeatures (ch_flags ch)) pid"
  have hp: "hm_pad ?mine = localFeatures (ch_flags ch)" by (simp add: hello_mine_def)
  obtain sent l1 where s: "ipc_send (en_sendmsg env) link MsgHello (hello_bytes ?mine) = (sent, l1)" by fastforce
  obtain peer l2 closed where r: "ipc_recv l1 = (peer, l2, closed)" by (metis prod_cases3)
  have "?D (ok, ch', link') \<or> ?A (ok, ch', link')"
  proof (cases "ic_connected link \<and> sent \<and> peer \<noteq> None")
    case False
    then have "(ok, ch', link') = drop_connection link (log_closed [] ch) \<or> (ok, ch', link') = drop_connection l1 (log_closed [] ch) \<or>
        (ok, ch', link') = drop_connection l2 (log_closed closed ch)"
      using assms by (auto simp: accept_producer_def Let_def s r log0 split: if_splits)
    then show ?thesis by blast
  next
    case True
    then obtain m where m: "peer = Some m" by auto
    let ?h = "if ms_type m = MsgHello \<and> length (ms_payload m) = 24 then hello_of (ms_payload m) else None"
    have e: "(ok, ch', link') = (if ms_fds m \<noteq> [] then drop_connection l2 (log_closed (closed @ ms_fds m) ch)
        else case ?h of None \<Rightarrow> drop_connection l2 (log_closed closed ch)
          | Some ph \<Rightarrow> if hm_version ph \<noteq> FL_VERSION \<or> \<not> compatibleFeatures (localFeatures (ch_flags ch)) (hm_pad ph)
              then drop_connection l2 (log_closed closed ch) else attach env (log_closed closed ch) l2 (hm_pad ph))"
      using True assms unfolding accept_producer_def Let_def s prod.case r m option.case hp log2 by (simp split del: if_split)
    show ?thesis
    proof (cases "ms_fds m \<noteq> [] \<or> ?h = None")
      case True
      then show ?thesis using e by (auto split: if_splits)
    next
      case False
      then obtain ph where ph: "?h = Some ph" "ms_fds m = []" by (metis option.exhaust)
      then have "(ok, ch', link') = (if hm_version ph \<noteq> FL_VERSION \<or> \<not> compatibleFeatures (localFeatures (ch_flags ch)) (hm_pad ph)
              then drop_connection l2 (log_closed closed ch) else attach env (log_closed closed ch) l2 (hm_pad ph))"
        using e unfolding ph(1) by simp
      then show ?thesis by (cases "hm_version ph = FL_VERSION \<and> compatibleFeatures (localFeatures (ch_flags ch)) (hm_pad ph)") auto
    qed
  qed
  then show ?thesis
  proof
    assume "?D (ok, ch', link')"
    then obtain l fds where "drop_connection l (log_closed fds ch) = (ok, ch', link')" by metis
    from drop_connection_result [OF this] show ?thesis using log2 by auto
  qed blast
qed

lemma attach_cases:
  assumes "attach env ch link features = (ok, ch', link')"
  shows "\<not> ok \<and> (\<exists>fds. ch' = log_closed fds (advance_retired env ch)) \<or>
    \<not> still_reading (advance_retired env ch) \<and> fenceReady (en_signalled env) (sy_pending (ch_sync ch)) \<and>
    (\<not> ok \<and> (\<exists>fds. ch' = log_closed fds (new_timeline (advance_retired env ch) features)) \<or>
     ok \<and> (\<exists>fds. ch' = log_closed fds ((new_timeline (advance_retired env ch) features)\<lparr>ch_peerGone := False, ch_peer := link'\<rparr>)) \<and>
       (\<exists>l. handOverRing env (new_timeline (advance_retired env ch) features) l = (True, link')))"
proof (cases "still_reading (advance_retired env ch) \<or> \<not> fenceReady (en_signalled env) (sy_pending (ch_sync ch))")
  case True
  then have "drop_connection (send_busy env link) (advance_retired env ch) = (ok, ch', link')" using assms by (simp add: attach_def)
  from drop_connection_result [OF this] show ?thesis by simp
next
  case False
  let ?t = "new_timeline (advance_retired env ch) features"
  obtain sent l where h: "handOverRing env ?t link = (sent, l)" by fastforce
  show ?thesis
  proof (cases sent)
    case True
    then have "ok \<and> link' = l \<and> ch' = log_closed (snd (ipc_close (ch_peer ?t))) (?t\<lparr>ch_peerGone := False, ch_peer := l\<rparr>)"
      using assms False h by (auto simp: attach_def Let_def)
    then show ?thesis using False h True by (intro disjI2 conjI) auto
  next
    case F: False
    then have "drop_connection l ?t = (ok, ch', link')" using assms False h by (simp add: attach_def Let_def)
    from drop_connection_result [OF this] False show ?thesis by blast
  qed
qed

lemma handOver_cong: "ch_info c = ch_info d \<Longrightarrow> ch_images c = ch_images d \<Longrightarrow> handOverRing env c l = handOverRing env d l"
  by (simp add: handOverRing_def ring_desc_def ring_fds_def)

lemma new_timeline_fields [simp]:
  "ch_frameHeld (new_timeline c f) = ch_frameHeld c" "ch_heldSlot (new_timeline c f) = ch_heldSlot c" "ch_images (new_timeline c f) = ch_images c"
  "ch_peer (new_timeline c f) = ch_peer c" "ch_readers (new_timeline c f) = resetEpoch (ch_readers c)" "\<not> ch_hasPending (new_timeline c f)"
  "ch_heldReady (new_timeline c f) = 0" "ch_retiredValue (new_timeline c f) = 0" "ch_sync (new_timeline c f) = sync_init"
  "ch_peerFeatures (new_timeline c f) = f" "ch_info (new_timeline c f) = (ch_info c)\<lparr>ci_generation := ci_generation (ch_info c) + 1\<rparr>"
  by (simp_all add: new_timeline_def clear_sync_def sync_clear_def log_closed_def sync_init_def)

lemma resetEpoch_tables [simp]: "lg_frames (resetEpoch l) = lg_frames l" "lg_readers (resetEpoch l) = lg_readers l"
  by (simp_all add: resetEpoch_def)



end
