(* ===== verification/FL_Timeline.thy ===== *)
theory FL_Timeline
  imports FL_Prelude "HOL-Library.Sublist"
begin

text \<open>
  What a channel promises, apart from any transport: the timeline of ready values that a producer and a consumer share.
  A slot is free, reserved by the producer (\<open>UINT64_MAX\<close>) or carries the value last submitted for it; frames travel
  from the producer's queue to the consumer, who holds one, leases several and announces releases; an announced value frees
  every slot whose value it covers.  The contract is the set of steps below and its promise is \<open>tl_inv\<close>: no
  announcement covers a frame that is on its way to the consumer or in the consumer's hands, and the slot of such a frame
  still carries it.  \<open>FL_System\<close> shows that the producer and the consumer of the Linux backend together implement it.
\<close>

section \<open>States and steps\<close>

type_synonym slot_value = "u32 \<times> u64"

record timeline =
  tl_slots :: "u64 list"
  tl_last :: u64
  tl_announced :: "u64 set"
  tl_top :: u64
  tl_leased :: "slot_value list"
  tl_held :: "slot_value list"
  tl_queue :: "slot_value list"

text \<open>The frames the consumer has or may still get.\<close>
definition tl_flow :: "timeline \<Rightarrow> slot_value list" where
  "tl_flow t = tl_leased t @ tl_held t @ tl_queue t"

inductive tl_step :: "timeline \<Rightarrow> timeline \<Rightarrow> bool" where
  settle: "A \<subseteq> tl_announced t \<Longrightarrow> tl_step t (t\<lparr>tl_announced := A\<rparr>)"
| reserve: "i < length (tl_slots t) \<Longrightarrow> c \<in> tl_announced t \<Longrightarrow> tl_slots t ! i \<le> c \<Longrightarrow> tl_step t (t\<lparr>tl_slots := (tl_slots t)[i := UINT64_MAX]\<rparr>)"
| cancel: "tl_slots t ! i = UINT64_MAX \<Longrightarrow> tl_step t (t\<lparr>tl_slots := (tl_slots t)[i := 0]\<rparr>)"
| submit: "unat i < length (tl_slots t) \<Longrightarrow> tl_slots t ! unat i = UINT64_MAX \<Longrightarrow> tl_last t < UINT64_MAX - 1 \<Longrightarrow>
    q = [] \<or> q = [(i, tl_last t + 1)] \<Longrightarrow>
    tl_step t (t\<lparr>tl_slots := (tl_slots t)[unat i := tl_last t + 1], tl_last := tl_last t + 1, tl_queue := tl_queue t @ q\<rparr>)"
| lose: "subseq q (tl_queue t) \<Longrightarrow> tl_step t (t\<lparr>tl_queue := q\<rparr>)"
| hold: "tl_held t = [] \<Longrightarrow> tl_queue t = x # q \<Longrightarrow> tl_step t (t\<lparr>tl_held := [x], tl_queue := q, tl_top := snd x\<rparr>)"
| drop: "tl_step t (t\<lparr>tl_held := []\<rparr>)"
| lease: "tl_step t (t\<lparr>tl_leased := tl_leased t @ tl_held t, tl_held := []\<rparr>)"
| announce: "v \<le> tl_top t \<Longrightarrow> tl_leased t = [] \<Longrightarrow> \<forall>x \<in> set (tl_held t). v < snd x \<Longrightarrow> tl_step t (t\<lparr>tl_announced := insert v (tl_announced t)\<rparr>)"
| retire: "tl_leased t = old @ live \<Longrightarrow> old \<noteq> [] \<Longrightarrow> v = snd (List.last old) \<Longrightarrow> A \<subseteq> insert v (tl_announced t) \<Longrightarrow>
    tl_step t (t\<lparr>tl_leased := live, tl_announced := A\<rparr>)"

definition tl_inv :: "timeline \<Rightarrow> bool" where
  "tl_inv t \<longleftrightarrow> sorted_wrt (<) (map snd (tl_flow t)) \<and>
     (\<forall>x \<in> set (tl_flow t). unat (fst x) < length (tl_slots t) \<and> tl_slots t ! unat (fst x) = snd x \<and> snd x \<noteq> 0 \<and> snd x \<le> tl_last t) \<and>
     (\<forall>d \<in> tl_announced t. d \<le> tl_last t \<and> (\<forall>x \<in> set (tl_flow t). d < snd x)) \<and> tl_last t \<noteq> UINT64_MAX \<and> tl_top t \<le> tl_last t \<and>
     (\<forall>x \<in> set (tl_queue t). tl_top t < snd x) \<and> (\<forall>x \<in> set (tl_leased t @ tl_held t). snd x \<le> tl_top t)"

definition tl_fresh :: "nat \<Rightarrow> timeline" where
  "tl_fresh n = \<lparr>tl_slots = replicate n 0, tl_last = 0, tl_announced = {0}, tl_top = 0, tl_leased = [], tl_held = [], tl_queue = []\<rparr>"

section \<open>Lemmas\<close>

lemma tl_inv_fresh: "tl_inv (tl_fresh n)"
  by (simp add: tl_inv_def tl_fresh_def tl_flow_def)

lemma subseq_sorted_wrt: "subseq xs ys \<Longrightarrow> sorted_wrt P ys \<Longrightarrow> sorted_wrt P xs"
proof (induction rule: list_emb.induct)
  case (list_emb_Cons2 x y xs ys)
  then show ?case by (auto dest: list_emb_set)
qed simp_all

text \<open>Dropping frames and announcements keeps the promise.\<close>

lemma tl_inv_weaken:
  assumes "tl_inv t" "subseq (tl_flow t') (tl_flow t)" "tl_announced t' \<subseteq> tl_announced t" "tl_slots t' = tl_slots t" "tl_last t' = tl_last t"
    "tl_top t' = tl_top t" "set (tl_queue t') \<subseteq> set (tl_queue t)" "set (tl_leased t' @ tl_held t') \<subseteq> set (tl_leased t @ tl_held t)"
  shows "tl_inv t'"
proof -
  have "set (tl_flow t') \<subseteq> set (tl_flow t)" using assms(2) by (auto dest: list_emb_set)
  moreover have "sorted_wrt (<) (map snd (tl_flow t'))"
    using assms(1) subseq_sorted_wrt [OF subseq_map [OF assms(2), of snd]] unfolding tl_inv_def by blast
  ultimately show ?thesis
    using assms(1,3,7,8) unfolding tl_inv_def assms(4,5,6) by (intro conjI ballI) (blast | auto)+
qed

lemma tl_inv_slot:
  assumes "tl_inv t" "\<forall>x \<in> set (tl_flow t). unat (fst x) \<noteq> i"
  shows "tl_inv (t\<lparr>tl_slots := (tl_slots t)[i := v]\<rparr>)"
proof -
  have "tl_flow (t\<lparr>tl_slots := (tl_slots t)[i := v]\<rparr>) = tl_flow t" by (simp add: tl_flow_def)
  moreover have "(tl_slots t)[i := v] ! unat (fst x) = tl_slots t ! unat (fst x)" if "x \<in> set (tl_flow t)" for x
    using assms(2) that by (metis nth_list_update_neq)
  ultimately show ?thesis using assms(1) unfolding tl_inv_def by simp
qed

text \<open>A slot that an announcement covers, or that is reserved, carries no frame in use.\<close>

lemma tl_covered_not_in_flow:
  assumes "tl_inv t" "x \<in> set (tl_flow t)"
  shows "c \<in> tl_announced t \<Longrightarrow> tl_slots t ! i \<le> c \<Longrightarrow> unat (fst x) \<noteq> i" and "tl_slots t ! i = UINT64_MAX \<Longrightarrow> unat (fst x) \<noteq> i"
proof -
  show "unat (fst x) \<noteq> i" if "c \<in> tl_announced t" "tl_slots t ! i \<le> c"
  proof
    assume "unat (fst x) = i"
    then have "snd x \<le> c" "c < snd x" using assms that unfolding tl_inv_def by auto
    then show False by simp
  qed
  show "unat (fst x) \<noteq> i" if "tl_slots t ! i = UINT64_MAX"
  proof
    assume "unat (fst x) = i"
    then have "UINT64_MAX \<le> tl_last t" "tl_last t \<noteq> UINT64_MAX" using assms that unfolding tl_inv_def by auto
    then show False by (metis word_order.extremum_unique)
  qed
qed

lemma tl_inv_submit:
  assumes "tl_inv t" "unat i < length (tl_slots t)" "tl_slots t ! unat i = UINT64_MAX" "tl_last t < UINT64_MAX - 1" "q = [] \<or> q = [(i, tl_last t + 1)]"
  shows "tl_inv (t\<lparr>tl_slots := (tl_slots t)[unat i := tl_last t + 1], tl_last := tl_last t + 1, tl_queue := tl_queue t @ q\<rparr>)" (is "tl_inv ?t")
proof -
  let ?v = "tl_last t + 1"
  note nv = next_value [OF assms(4)]
  have fl: "tl_flow ?t = tl_flow t @ q" by (simp add: tl_flow_def)
  have ne: "unat (fst x) \<noteq> unat i" if "x \<in> set (tl_flow t)" for x using tl_covered_not_in_flow(2) [OF assms(1) that assms(3)] .
  have lt: "snd x < ?v" if "x \<in> set (tl_flow t)" for x using assms(1) that nv(3) order.strict_trans1 unfolding tl_inv_def by blast
  have an: "d < ?v" if "d \<in> tl_announced t" for d using assms(1) that nv(3) order.strict_trans1 unfolding tl_inv_def by blast
  have top: "tl_top t < ?v" using assms(1) nv(3) order.strict_trans1 unfolding tl_inv_def by blast
  have "sorted_wrt (<) (map snd (tl_flow ?t))"
    using assms(1,5) lt unfolding fl by (auto simp: sorted_wrt_append tl_inv_def)
  moreover have "unat (fst x) < length (tl_slots ?t) \<and> tl_slots ?t ! unat (fst x) = snd x \<and> snd x \<noteq> 0 \<and> snd x \<le> tl_last ?t"
    if "x \<in> set (tl_flow ?t)" for x
  proof (cases "x \<in> set (tl_flow t)")
    case True
    then show ?thesis using assms(1) ne [OF True] lt [OF True] unfolding tl_inv_def by simp
  next
    case False
    then have "x = (i, ?v)" using that assms(5) unfolding fl by auto
    then show ?thesis using assms(2) nv(1) by simp
  qed
  moreover have "d \<le> tl_last ?t \<and> (\<forall>x \<in> set (tl_flow ?t). d < snd x)" if "d \<in> tl_announced ?t" for d
    using that an [of d] assms(1,5) unfolding fl by (auto simp: tl_inv_def)
  moreover have "\<forall>x \<in> set (tl_queue ?t). tl_top ?t < snd x" "\<forall>x \<in> set (tl_leased ?t @ tl_held ?t). snd x \<le> tl_top ?t"
    using assms(1,5) top by (auto simp: tl_inv_def)
  ultimately show ?thesis unfolding tl_inv_def using nv(2) top by auto
qed

lemma tl_inv_hold:
  assumes "tl_inv t" "tl_held t = []" "tl_queue t = x # q"
  shows "tl_inv (t\<lparr>tl_held := [x], tl_queue := q, tl_top := snd x\<rparr>)"
proof -
  have s: "sorted_wrt (<) (map snd (tl_leased t @ x # q))" using assms by (simp add: tl_inv_def tl_flow_def)
  have "tl_flow (t\<lparr>tl_held := [x], tl_queue := q, tl_top := snd x\<rparr>) = tl_flow t" using assms by (simp add: tl_flow_def)
  moreover have "snd x \<le> tl_last t" using assms by (simp add: tl_inv_def tl_flow_def)
  moreover have "\<forall>y \<in> set q. snd x < snd y" "\<forall>y \<in> set (tl_leased t). snd y \<le> snd x"
    using s by (auto simp: sorted_wrt_append)
  ultimately show ?thesis using assms(1) by (simp add: tl_inv_def)
qed

lemma tl_inv_retire:
  assumes "tl_inv t" "tl_leased t = old @ live" "old \<noteq> []" "v = snd (List.last old)" "A \<subseteq> insert v (tl_announced t)"
  shows "tl_inv (t\<lparr>tl_leased := live, tl_announced := A\<rparr>)" (is "tl_inv ?t")
proof -
  have v: "List.last old \<in> set (tl_leased t)" using assms(2,3) by simp
  have fl: "tl_flow t = old @ tl_flow ?t" using assms(2) by (simp add: tl_flow_def)
  then have "subseq (tl_flow (t\<lparr>tl_leased := live\<rparr>)) (tl_flow t)"
    using list_emb_append2 [OF subseq_order.refl] by (simp add: tl_flow_def assms(2))
  then have i: "tl_inv (t\<lparr>tl_leased := live\<rparr>)" by (rule tl_inv_weaken [OF assms(1)]) (use assms(2) in auto)
  have "sorted_wrt (<) (map snd (old @ tl_flow ?t))" using assms(1) unfolding tl_inv_def fl by blast
  then have "\<forall>x \<in> set (tl_flow ?t). v < snd x" using assms(3,4) by (auto simp: sorted_wrt_append)
  moreover have "v \<le> tl_last t" using assms(1,4) v unfolding tl_inv_def tl_flow_def by auto
  moreover have "tl_flow (t\<lparr>tl_leased := live\<rparr>) = tl_flow ?t" by (simp add: tl_flow_def)
  moreover have "\<forall>d \<in> A. d \<le> tl_last t \<and> (\<forall>x \<in> set (tl_flow ?t). d < snd x)"
  proof
    fix d assume "d \<in> A"
    then have "d = v \<or> d \<in> tl_announced t" using assms(5) by auto
    then show "d \<le> tl_last t \<and> (\<forall>x \<in> set (tl_flow ?t). d < snd x)"
      using calculation i unfolding tl_inv_def by auto
  qed
  ultimately show ?thesis using i unfolding tl_inv_def by simp
qed

lemma tl_inv_announce:
  assumes "tl_inv t" "v \<le> tl_top t" "tl_leased t = []" "\<forall>x \<in> set (tl_held t). v < snd x"
  shows "tl_inv (t\<lparr>tl_announced := insert v (tl_announced t)\<rparr>)"
proof -
  have "v \<le> tl_last t" using assms(1,2) order_trans unfolding tl_inv_def by blast
  moreover have "\<forall>x \<in> set (tl_flow t). v < snd x"
    using assms order.strict_trans1 unfolding tl_inv_def tl_flow_def by fastforce
  moreover have "tl_flow (t\<lparr>tl_announced := insert v (tl_announced t)\<rparr>) = tl_flow t" by (simp add: tl_flow_def)
  ultimately show ?thesis using assms(1) unfolding tl_inv_def by simp
qed

lemma tl_step_inv:
  assumes "tl_step t t'" "tl_inv t"
  shows "tl_inv t'"
  using assms
proof cases
  case (settle A)
  then show ?thesis by (intro tl_inv_weaken [OF assms(2)]) (auto simp: tl_flow_def)
next
  case (reserve i c)
  then show ?thesis using tl_inv_slot [OF assms(2)] tl_covered_not_in_flow(1) [OF assms(2)] by blast
next
  case (cancel i)
  then show ?thesis using tl_inv_slot [OF assms(2)] tl_covered_not_in_flow(2) [OF assms(2)] by blast
next
  case (submit i q)
  then show ?thesis using tl_inv_submit [OF assms(2)] by blast
next
  case (lose q)
  have "set q \<subseteq> set (tl_queue t)" using lose(2) by (auto dest: list_emb_set)
  moreover have "subseq (tl_flow t') (tl_flow t)" using lose by (simp add: tl_flow_def list_emb_append_mono)
  ultimately show ?thesis using lose by (intro tl_inv_weaken [OF assms(2)]) auto
next
  case (hold x q)
  then show ?thesis using tl_inv_hold [OF assms(2)] by blast
next
  case drop
  have "subseq (tl_flow t') (tl_flow t)" 
    using list_emb_append2 [OF subseq_order.refl, of "tl_queue t" "tl_held t"] unfolding drop tl_flow_def by (simp add: list_emb_append_mono)
  then show ?thesis using drop by (intro tl_inv_weaken [OF assms(2)]) auto
next
  case lease
  then show ?thesis using assms(2) by (simp add: tl_inv_def tl_flow_def)
next
  case (announce v)
  then show ?thesis using tl_inv_announce [OF assms(2)] by blast
next
  case (retire old live v A)
  then show ?thesis using tl_inv_retire [OF assms(2)] by blast
qed

lemma tl_steps_inv: "tl_step\<^sup>*\<^sup>* t t' \<Longrightarrow> tl_inv t \<Longrightarrow> tl_inv t'"
  by (induction rule: rtranclp_induct) (auto intro: tl_step_inv)

end
