(* ===== verification/FL_System.thy ===== *)
theory FL_System
  imports FL_Consumer FL_Timeline
begin

text \<open>
  The two ends of a Linux channel together: a producer and a consumer whose control connection delivers every datagram in
  order.  A system step is one call on one side (or one message handled by the consumer's accept thread); the datagrams it
  sends are queued at the other side.  The section on refinement shows that the system implements the timeline contract of
  \<open>FL_Timeline\<close>, from which the safety of slot reuse follows.  The steps cover the life of one attachment
  at one ring generation: geometry requests and new attachments start a fresh timeline and are specified by \<open>attach_gate\<close>
  and the import lemmas.
\<close>

section \<open>The system\<close>

record System =
  sm_producer :: flChannel
  sm_consumer :: flChannel
  sm_next :: u64

datatype sys_event = SeProducer prod_event | SeConsumer cons_event

text \<open>The datagrams one end sent between two states of its connection, as the other end receives them.\<close>
definition newly_sent :: "IpcChannel \<Rightarrow> IpcChannel \<Rightarrow> Datagram list" where
  "newly_sent a b = map delivered (drop (length (ic_sent a)) (ic_sent b))"

definition enqueue :: "Datagram list \<Rightarrow> IpcChannel \<Rightarrow> IpcChannel" where
  "enqueue ds l = l\<lparr>ic_inbox := ic_inbox l @ ds\<rparr>"

fun sys_exec :: "System \<Rightarrow> sys_event \<Rightarrow> System" where
  "sys_exec s (SeProducer e) =
     (let p' = snd (prod_exec (sm_producer s) e); ds = newly_sent (ch_link (sm_producer s)) (ch_link p')
      in s\<lparr>sm_producer := p', sm_consumer := (sm_consumer s)\<lparr>ch_peer := enqueue ds (ch_peer (sm_consumer s))\<rparr>\<rparr>)"
| "sys_exec s (SeConsumer e) =
     (let (c', n') = cons_exec (sm_consumer s) (sm_next s) e; ds = newly_sent (ch_peer (sm_consumer s)) (ch_peer c')
      in s\<lparr>sm_consumer := c', sm_next := n', sm_producer := (sm_producer s)\<lparr>ch_link := enqueue ds (ch_link (sm_producer s))\<rparr>\<rparr>)"

text \<open>A sequenced-packet socket takes a datagram as a whole or not at all.\<close>
definition env_ok :: "Env \<Rightarrow> bool" where
  "env_ok env \<longleftrightarrow> (\<forall>bytes rights. en_sendmsg env bytes rights < 0 \<or> en_sendmsg env bytes rights = int (length bytes))"

text \<open>
  The steps of one attachment.  A deferred release may be signalled only for frames the application no longer reads,
  which is what the header asks of it.
\<close>
fun sys_allowed :: "System \<Rightarrow> sys_event \<Rightarrow> bool" where
  "sys_allowed s (SeProducer (PeRound env ds)) \<longleftrightarrow> ds = []"
| "sys_allowed s (SeProducer (PeGeometry env w h f)) \<longleftrightarrow> False"
| "sys_allowed s (SeProducer e) \<longleftrightarrow> True"
| "sys_allowed s (SeConsumer (CeAccept env pid attached ev)) \<longleftrightarrow> attached \<and> (ev = AeReadable [] \<or> (\<exists>l. ev = AeExtra l))"
| "sys_allowed s (SeConsumer (CeRelease env f)) \<longleftrightarrow> env_ok env"
| "sys_allowed s (SeConsumer (CeReleaseFd env f fd)) \<longleftrightarrow> env_ok env"
| "sys_allowed s (SeConsumer (CeSignal env v fd)) \<longleftrightarrow> env_ok env \<and> (ch_frameHeld (sm_consumer s) \<longrightarrow> v < ch_heldReady (sm_consumer s))"
| "sys_allowed s (SeConsumer (CeCollect env poll)) \<longleftrightarrow> env_ok env"
| "sys_allowed s (SeConsumer e) \<longleftrightarrow> True"

section \<open>The abstraction\<close>

text \<open>What a queued datagram means to its receiver.\<close>
definition wire_msg :: "Datagram \<Rightarrow> Message option" where
  "wire_msg d = fst (ipc_recv (ipc_null\<lparr>ic_connected := True, ic_inbox := [d]\<rparr>))"

definition wire_frame :: "Datagram \<Rightarrow> slot_value option" where
  "wire_frame d =
     (case wire_msg d of None \<Rightarrow> None
      | Some m \<Rightarrow> (case fst (decodeFrame m False) of None \<Rightarrow> None | Some fr \<Rightarrow> Some (fm_slot fr, fm_readyValue fr)))"

definition wire_release :: "Datagram \<Rightarrow> u64 option" where
  "wire_release d =
     (case wire_msg d of None \<Rightarrow> None
      | Some m \<Rightarrow> if ms_type m \<noteq> MsgFrameReleased then None else map_option fm_readyValue (frame_of (ms_payload m)))"

definition leased_frames :: "ReadLedger \<Rightarrow> slot_value list" where
  "leased_frames l = map (\<lambda>r. (fr_slot (rn_frame r), fr_readyValue (rn_frame r))) (ledger_abs l)"

definition held_frames :: "flChannel \<Rightarrow> slot_value list" where
  "held_frames c = (if ch_frameHeld c then [(ch_heldSlot c, ch_heldReady c)] else [])"

definition pending_frames :: "flChannel \<Rightarrow> slot_value list" where
  "pending_frames c = (if ch_hasPending c then [(ch_pendingSlot c, ch_pendingReady c)] else [])"

definition announced :: "flChannel \<Rightarrow> u64 set" where
  "announced p = insert (ch_consumedValue p) (fst ` set (sy_releases (ch_sync p)) \<union> set (List.map_filter wire_release (ic_inbox (ch_link p))))"

text \<open>The newest value the producer has published: an open transaction has drawn one that is not published yet.\<close>
definition published :: "flChannel \<Rightarrow> u64" where
  "published p = (if ch_submittingValue p \<noteq> 0 then ch_readyValue p - 1 else ch_readyValue p)"

definition sys_abs :: "System \<Rightarrow> timeline" where
  "sys_abs s = \<lparr>tl_slots = ch_slotSubmitValue (sm_producer s), tl_last = published (sm_producer s), tl_announced = announced (sm_producer s),
     tl_top = ch_heldReady (sm_consumer s), tl_leased = leased_frames (ch_readers (sm_consumer s)), tl_held = held_frames (sm_consumer s),
     tl_queue = pending_frames (sm_consumer s) @ List.map_filter wire_frame (ic_inbox (ch_peer (sm_consumer s)))\<rparr>"

text \<open>What the abstraction relies on.\<close>
definition sys_rep :: "System \<Rightarrow> bool" where
  "sys_rep s \<longleftrightarrow> prod_inv (sm_producer s) \<and> cons_inv (sm_consumer s) (sm_next s) \<and>
     (\<forall>d \<in> set (ic_inbox (ch_peer (sm_consumer s))). \<forall>m. wire_msg d = Some m \<longrightarrow> ms_type m \<noteq> MsgRequestGeometry)"

text \<open>The timeline after a producer step that leaves the producer as \<open>p\<close> and sends \<open>ds\<close>.\<close>
definition prod_next :: "timeline \<Rightarrow> flChannel \<Rightarrow> Datagram list \<Rightarrow> timeline" where
  "prod_next t p ds = t\<lparr>tl_slots := ch_slotSubmitValue p, tl_last := published p, tl_announced := announced p,
     tl_queue := tl_queue t @ List.map_filter wire_frame ds\<rparr>"

definition prod_shows :: "timeline \<Rightarrow> flChannel \<Rightarrow> bool" where
  "prod_shows t p \<longleftrightarrow> tl_slots t = ch_slotSubmitValue p \<and> tl_last t = published p \<and> tl_announced t = announced p"

definition cons_next :: "timeline \<Rightarrow> flChannel \<Rightarrow> Datagram list \<Rightarrow> timeline" where
  "cons_next t c ds = t\<lparr>tl_top := ch_heldReady c, tl_leased := leased_frames (ch_readers c), tl_held := held_frames c,
     tl_queue := pending_frames c @ List.map_filter wire_frame (ic_inbox (ch_peer c)),
     tl_announced := tl_announced t \<union> set (List.map_filter wire_release ds)\<rparr>"

definition cons_shows :: "timeline \<Rightarrow> flChannel \<Rightarrow> bool" where
  "cons_shows t c \<longleftrightarrow> tl_top t = ch_heldReady c \<and> tl_leased t = leased_frames (ch_readers c) \<and> tl_held t = held_frames c \<and>
     tl_queue t = pending_frames c @ List.map_filter wire_frame (ic_inbox (ch_peer c))"
abbreviation cons_steps :: "timeline \<Rightarrow> flChannel \<Rightarrow> flChannel \<Rightarrow> bool" where
  "cons_steps t c c' \<equiv> tl_step\<^sup>*\<^sup>* t (cons_next t c' (newly_sent (ch_peer c) (ch_peer c')))"

text \<open>A producer and a consumer just after the attachment: the imported ring is free, nothing is in flight.\<close>
definition sys_fresh :: "System \<Rightarrow> bool" where
  "sys_fresh s \<longleftrightarrow> sys_rep s \<and> set (ch_slotSubmitValue (sm_producer s)) \<subseteq> {0} \<and> ch_readyValue (sm_producer s) = 0 \<and>
     ch_consumedValue (sm_producer s) = 0 \<and> sy_releases (ch_sync (sm_producer s)) = [] \<and> ic_inbox (ch_link (sm_producer s)) = [] \<and>
     \<not> ch_hasPending (sm_consumer s) \<and> \<not> ch_frameHeld (sm_consumer s) \<and> ch_heldReady (sm_consumer s) = 0 \<and>
     ledger_empty (ch_readers (sm_consumer s)) \<and> ic_inbox (ch_peer (sm_consumer s)) = []"

inductive sys_run :: "System \<Rightarrow> System \<Rightarrow> bool" where
  start: "sys_run s s"
| step: "sys_run s s1 \<Longrightarrow> sys_allowed s1 e \<Longrightarrow> sys_run s (sys_exec s1 e)"

text \<open>The slots of the frames the consumer has, or will get: leased, held, pending, or queued at its socket.\<close>
definition slots_in_use :: "System \<Rightarrow> u32 set" where
  "slots_in_use s = fst ` set (leased_frames (ch_readers (sm_consumer s)) @ held_frames (sm_consumer s) @ pending_frames (sm_consumer s) @
     List.map_filter wire_frame (ic_inbox (ch_peer (sm_consumer s))))"

text \<open>A producer and a consumer right after the attachment, and the same with one frame held.\<close>
definition example_idle :: flChannel where
  "example_idle = example_producer\<lparr>ch_slotSubmitValue := [0], ch_readyValue := 0, ch_consumedValue := 0\<rparr>"

definition example_system :: System where
  "example_system = \<lparr>sm_producer = example_idle,
     sm_consumer = example_ring\<lparr>ch_peer := ipc_null\<lparr>ic_connected := True, ic_fd := 4\<rparr>\<rparr>, sm_next = 1\<rparr>"

definition example_holding :: System where
  "example_holding = example_system\<lparr>sm_producer := (sm_producer example_system)\<lparr>ch_slotSubmitValue := [1], ch_readyValue := 1\<rparr>,
     sm_consumer := (sm_consumer example_system)\<lparr>ch_frameHeld := True, ch_heldReady := 1\<rparr>\<rparr>"

section \<open>Lemmas\<close>

subsection \<open>Datagrams\<close>

lemma recv_wire:
  assumes "ipc_recv l = (m, l', closed)"
  shows "ic_sent l' = ic_sent l" "m = None \<and> ic_inbox l' = ic_inbox l \<or> (\<exists>d rest. ic_inbox l = d # rest \<and> m = wire_msg d \<and> ic_inbox l' = rest)"
proof -
  have "ic_sent l' = ic_sent l \<and> (m = None \<and> ic_inbox l' = ic_inbox l \<or> (\<exists>d rest. ic_inbox l = d # rest \<and> m = wire_msg d \<and> ic_inbox l' = rest))"
  proof (cases "ic_connected l \<and> ic_inbox l \<noteq> []")
    case False
    then show ?thesis using assms by (cases "ic_inbox l") (auto simp: ipc_recv_def split: if_splits)
  next
    case True
    then obtain d rest where d: "ic_inbox l = d # rest" by (cases "ic_inbox l") auto
    obtain magic p1 where 1: "le_get 4 (dg_bytes d) = (magic :: u32, p1)" by fastforce
    obtain type p2 where 2: "le_get 4 p1 = (type :: u32, p2)" by fastforce
    obtain sz p3 where 3: "le_get 4 p2 = (sz :: u32, p3)" by fastforce
    have "fst (ipc_recv l) = wire_msg d" "ic_inbox (fst (snd (ipc_recv l))) = rest" "ic_sent (fst (snd (ipc_recv l))) = ic_sent l"
      using True by (simp_all add: ipc_recv_def wire_msg_def ipc_null_def d Let_def 1 2 3)
    then show ?thesis using assms d by simp
  qed
  then show "ic_sent l' = ic_sent l" "m = None \<and> ic_inbox l' = ic_inbox l \<or> (\<exists>d rest. ic_inbox l = d # rest \<and> m = wire_msg d \<and> ic_inbox l' = rest)"
    by blast+
qed

lemma wire_delivered:
  assumes "length payload \<le> kBufferSize - headerSize" "length fds \<le> kMaxFds"
  shows "wire_msg (delivered (ipc_header type (length payload) @ payload, fds)) = Some \<lparr>ms_type = type, ms_payload = payload, ms_fds = fds\<rparr>"
  using recv_delivered [of "ipc_null\<lparr>ic_connected := True, ic_inbox := [delivered (ipc_header type (length payload) @ payload, fds)]\<rparr>" type payload fds "[]"] assms
  by (simp add: wire_msg_def)

lemma newly_sent_none [simp]: "ic_sent b = ic_sent a \<Longrightarrow> newly_sent a b = []"
  by (simp add: newly_sent_def)

lemma sendWithFds_sent:
  assumes "sendWithFds sendmsg l type (Some payload) (length payload) fds n = (ok, l')" "payload \<noteq> []" "length payload \<le> kBufferSize - headerSize"
    "fds = None \<and> n = 0 \<or> (\<exists>fd. fds = Some [fd] \<and> n = 1)"
  shows "newly_sent l l' = [] \<and> \<not> ok \<or>
    (\<exists>d rights. newly_sent l l' = [d] \<and> (ok \<or> sendmsg (ipc_header type (length payload) @ payload) rights \<noteq> int (headerSize + length payload)) \<and>
       \<not> sendmsg (ipc_header type (length payload) @ payload) rights < 0 \<and>
       wire_msg d = Some \<lparr>ms_type = type, ms_payload = payload, ms_fds = (if n = 0 then [] else the fds)\<rparr>)"
proof -
  let ?rights = "if n \<noteq> 0 then take n (the fds) else []" and ?b = "ipc_header type (length payload) @ payload"
  have r: "?rights = (if n = 0 then [] else the fds)" using assms(4) by auto
  have w: "wire_msg (delivered (?b, ?rights)) = Some \<lparr>ms_type = type, ms_payload = payload, ms_fds = (if n = 0 then [] else the fds)\<rparr>"
    unfolding r using assms(3,4) by (intro wire_delivered) auto
  have "newly_sent l l' = [] \<and> \<not> ok \<or> (l' = l\<lparr>ic_sent := ic_sent l @ [(?b, ?rights)]\<rparr> \<and> \<not> sendmsg ?b ?rights < 0 \<and>
      (ok \<longleftrightarrow> sendmsg ?b ?rights = int (headerSize + length payload)))"
    using assms(1,2) by (auto simp: sendWithFds_def Let_def split: if_splits)
  then show ?thesis
  proof (elim disjE conjE)
    assume l': "l' = l\<lparr>ic_sent := ic_sent l @ [(?b, ?rights)]\<rparr>" and s: "\<not> sendmsg ?b ?rights < 0"
      "ok \<longleftrightarrow> sendmsg ?b ?rights = int (headerSize + length payload)"
    have "newly_sent l l' = [delivered (?b, ?rights)]" by (simp add: newly_sent_def l')
    then show ?thesis using w s by (intro disjI2 exI [of _ "delivered (?b, ?rights)"] exI [of _ ?rights]) simp
  qed simp
qed

lemma length_frame_bytes: "length (frame_bytes fr) = 24" "length (metadata_bytes md) = 40"
  by (simp_all add: frame_bytes_def metadata_bytes_def)

text \<open>A submitted frame is one datagram that means this frame, or nothing.\<close>

lemma sendFrame_wire:
  assumes "sendFrame sendmsg l fr md fd = (ok, l')"
  shows "newly_sent l l' = [] \<or> (\<exists>d. newly_sent l l' = [d] \<and> (wire_frame d = None \<or> wire_frame d = Some (fm_slot fr, fm_readyValue fr)) \<and>
    (\<forall>m. wire_msg d = Some m \<longrightarrow> ms_type m \<noteq> MsgRequestGeometry))"
proof -
  define data where "data = (if md_version md \<noteq> 0 then frame_bytes fr @ metadata_bytes md else frame_bytes fr)"
  define type where "type = (if md_version md \<noteq> 0 then MsgFrameReadyMetadata else MsgFrameReady)"
  define f n where "f = (if fd \<ge> 0 then Some [fd] else None)" and "n = (if fd \<ge> 0 then 1 else 0 :: nat)"
  have len: "length data = (if md_version md \<noteq> 0 then 64 else 24)" by (simp add: data_def length_frame_bytes)
  then have ne: "data \<noteq> []" by (metis list.size(3) zero_neq_numeral)
  have "sendWithFds sendmsg l type (Some data) (length data) f n = (ok, l')"
    using assms by (simp add: sendFrame_def Let_def data_def type_def f_def n_def)
  moreover have "length data \<le> kBufferSize - headerSize" by (simp add: len)
  moreover have "f = None \<and> n = 0 \<or> (\<exists>fd. f = Some [fd] \<and> n = 1)" by (simp add: f_def n_def)
  ultimately have "newly_sent l l' = [] \<or>
      (\<exists>d fds. newly_sent l l' = [d] \<and> wire_msg d = Some \<lparr>ms_type = type, ms_payload = data, ms_fds = fds\<rparr>)"
    using sendWithFds_sent [OF _ ne] by blast
  then show ?thesis
  proof (elim disjE exE conjE)
    fix d fds
    assume d: "newly_sent l l' = [d]" "wire_msg d = Some \<lparr>ms_type = type, ms_payload = data, ms_fds = fds\<rparr>"
    have "get_metadata (metadata_bytes md) = (md, [])" using get_metadata_bytes [of md "[]"] by simp
    then have "fst (decodeFrame \<lparr>ms_type = type, ms_payload = data, ms_fds = fds\<rparr> False) \<in> {None, Some fr}"
      by (simp add: decodeFrame_def length_frame_bytes data_def type_def)
    then have "wire_frame d = None \<or> wire_frame d = Some (fm_slot fr, fm_readyValue fr)" by (auto simp: wire_frame_def d(2))
    moreover have "\<forall>m. wire_msg d = Some m \<longrightarrow> ms_type m \<noteq> MsgRequestGeometry" by (simp add: d(2) type_def)
    ultimately show ?thesis using d(1) by blast
  qed simp
qed

text \<open>A release is one datagram that announces its value, and it is sent exactly when the call says so.\<close>

lemma send_release_wire:
  assumes "send_release env c slot v fd = (ok, c')" "env_ok env"
  shows "if ok then \<exists>d. newly_sent (ch_peer c) (ch_peer c') = [d] \<and> wire_release d = Some v else newly_sent (ch_peer c) (ch_peer c') = []"
proof -
  let ?p = "frame_bytes (release_message slot v)" and ?f = "if fd \<ge> 0 then Some [fd] else None" and ?n = "if fd \<ge> 0 then 1 else 0 :: nat"
  have len: "length ?p = 24" by (simp add: length_frame_bytes)
  then have ne: "?p \<noteq> []" by (metis list.size(3) zero_neq_numeral)
  have "sendWithFds (en_sendmsg env) (ch_peer c) MsgFrameReleased (Some ?p) (length ?p) ?f ?n = (ok, ch_peer c')"
    using assms(1) len by (auto simp: send_release_def split: prod.splits)
  moreover have "length ?p \<le> kBufferSize - headerSize" by (simp add: len)
  moreover have "?f = None \<and> ?n = 0 \<or> (\<exists>fd. ?f = Some [fd] \<and> ?n = 1)" by simp
  ultimately have s: "newly_sent (ch_peer c) (ch_peer c') = [] \<and> \<not> ok \<or> (\<exists>d rights fds. newly_sent (ch_peer c) (ch_peer c') = [d] \<and>
      (ok \<or> en_sendmsg env (ipc_header MsgFrameReleased (length ?p) @ ?p) rights \<noteq> int (headerSize + length ?p)) \<and>
      \<not> en_sendmsg env (ipc_header MsgFrameReleased (length ?p) @ ?p) rights < 0 \<and>
      wire_msg d = Some \<lparr>ms_type = MsgFrameReleased, ms_payload = ?p, ms_fds = fds\<rparr>)" using sendWithFds_sent [OF _ ne] by blast
  have full: "length (ipc_header MsgFrameReleased (length ?p) @ ?p) = headerSize + length ?p" by (simp add: ipc_header_def)
  have "wire_release d = Some v" if "wire_msg d = Some \<lparr>ms_type = MsgFrameReleased, ms_payload = ?p, ms_fds = fds\<rparr>" for d fds
    using that by (simp add: wire_release_def) (simp add: release_message_def)
  moreover have "newly_sent (ch_peer c) (ch_peer c') = [] \<and> \<not> ok \<or>
    (\<exists>d fds. newly_sent (ch_peer c) (ch_peer c') = [d] \<and> ok \<and> wire_msg d = Some \<lparr>ms_type = MsgFrameReleased, ms_payload = ?p, ms_fds = fds\<rparr>)"
    using s assms(2) full unfolding env_ok_def by metis
  ultimately show ?thesis by auto
qed

subsection \<open>The producer implements its part\<close>

lemma sendWithFds_inbox: "ic_inbox (snd (sendWithFds sendmsg l type payload n fds k)) = ic_inbox l"
  by (simp add: sendWithFds_def Let_def)

lemma map_filter_nil [simp]: "List.map_filter f [] = []"
  by (simp add: List.map_filter_def)

lemma map_filter_cons: "List.map_filter f (x # xs) = (case f x of None \<Rightarrow> [] | Some y \<Rightarrow> [y]) @ List.map_filter f xs"
  by (simp add: List.map_filter_def split: option.split)

lemma map_filter_app: "List.map_filter f (xs @ ys) = List.map_filter f xs @ List.map_filter f ys"
  by (simp add: List.map_filter_def)

lemma prod_next_same:
  "prod_shows t p \<Longrightarrow> ch_slotSubmitValue p' = ch_slotSubmitValue p \<Longrightarrow> published p' = published p \<Longrightarrow> announced p' = announced p \<Longrightarrow> prod_next t p' [] = t"
  by (simp add: prod_next_def prod_shows_def)

lemma published_view: "prod_view p' = prod_view p \<Longrightarrow> published p' = published p"
  by (simp add: published_def prod_view_def)

lemma announced_cong:
  "ch_consumedValue p' = ch_consumedValue p \<Longrightarrow> ch_sync p' = ch_sync p \<Longrightarrow> ic_inbox (ch_link p') = ic_inbox (ch_link p) \<Longrightarrow> announced p' = announced p"
  by (simp add: announced_def)

lemma announced_log [simp]: "announced (log_closed fds p) = announced p"
  by (rule announced_cong) simp_all

lemma advance_consumed_announced: "announced (advance_consumed env p) \<subseteq> announced p"
proof -
  obtain sy v closed where a: "sync_advance (en_signalled env) (ch_sync p) (ch_consumedValue p) = (sy, v, closed)" by (metis prod_cases3)
  obtain dn where d: "sy_releases (ch_sync p) = dn @ sy_releases sy" "v = foldl max (ch_consumedValue p) (map fst dn)"
    using a by (rule sync_advance_parts)
  have "v \<in> insert (ch_consumedValue p) (fst ` set dn)" using foldl_max_in [of "ch_consumedValue p" "map fst dn"] d(2) by simp
  moreover have "announced (advance_consumed env p) = announced (p\<lparr>ch_sync := sy, ch_consumedValue := v\<rparr>)"
    by (simp add: advance_consumed_def a)
  ultimately show ?thesis using d(1) by (auto simp: announced_def)
qed

lemma recv_link_announced:
  assumes "recv_link p = (m, p1)"
  shows "announced p1 \<subseteq> announced p" "ic_sent (ch_link p1) = ic_sent (ch_link p)"
    "m = Some msg \<Longrightarrow> ms_type msg = MsgFrameReleased \<Longrightarrow> frame_of (ms_payload msg) = Some fr \<Longrightarrow> fm_readyValue fr \<in> announced p"
proof -
  obtain l' closed where r: "ipc_recv (ch_link p) = (m, l', closed)" "p1 = log_closed closed (p\<lparr>ch_link := l'\<rparr>)"
    using assms by (auto simp: recv_link_def split: prod.splits)
  note w = recv_wire [OF r(1)]
  show "ic_sent (ch_link p1) = ic_sent (ch_link p)" using w(1) r(2) by simp
  show "announced p1 \<subseteq> announced p"
    using w(2) by (auto simp: r(2)) (auto simp: announced_def map_filter_cons split: option.splits)
  show "fm_readyValue fr \<in> announced p" if "m = Some msg" "ms_type msg = MsgFrameReleased" "frame_of (ms_payload msg) = Some fr"
    using w(2) that by (auto simp: announced_def map_filter_cons wire_release_def split: option.splits)
qed

lemma applyRelease_announced:
  "announced (applyRelease env p msg) \<subseteq> announced p \<or>
   (\<exists>fr. ms_type msg = MsgFrameReleased \<and> frame_of (ms_payload msg) = Some fr \<and> announced (applyRelease env p msg) \<subseteq> insert (fm_readyValue fr) (announced p))"
proof (cases "ms_type msg = MsgFrameReleased \<and> frame_of (ms_payload msg) \<noteq> None")
  case True
  then obtain fr where fr: "frame_of (ms_payload msg) = Some fr" by auto
  let ?q = "log_closed (tl (ms_fds msg)) (p\<lparr>ch_sync := (ch_sync p)\<lparr>sy_releases := sy_releases (ch_sync p) @
                 [(fm_readyValue fr, if ms_fds msg = [] then -1 else hd (ms_fds msg))]\<rparr>\<rparr>)"
  have "applyRelease env p msg = advance_consumed env ?q" using True fr by (simp add: applyRelease_def)
  moreover have "announced ?q = insert (fm_readyValue fr) (announced p)" by (auto simp: announced_def)
  ultimately show ?thesis using advance_consumed_announced [of env ?q] True fr by (auto simp del: announced_log)
next
  case False
  then show ?thesis by (auto simp: applyRelease_def)
qed

lemma drain_announced:
  "announced (drainProducerMessages env p) \<subseteq> announced p \<and> ic_sent (ch_link (drainProducerMessages env p)) = ic_sent (ch_link p)"
proof (induction env p rule: drainProducerMessages.induct)
  case (1 env p)
  show ?case
  proof (cases "ic_inbox (ch_link p) = []")
    case True
    then show ?thesis by (simp add: drainProducerMessages.simps)
  next
    case False
    obtain m p1 where r: "recv_link p = (m, p1)" by (cases "recv_link p")
    note ra = recv_link_announced [OF r]
    show ?thesis
    proof (cases m)
      case None
      then show ?thesis using False r ra(1,2) by (simp add: drainProducerMessages.simps [of env p])
    next
      case (Some msg)
      have "announced (applyRelease env p1 msg) \<subseteq> announced p" using applyRelease_announced [of env p1 msg] ra(1,3) Some by blast
      then show ?thesis
        using False r Some ra(2) 1 [OF False r [symmetric] Some] by (auto simp: drainProducerMessages.simps [of env p])
    qed
  qed
qed

lemma round_sim:
  assumes "prod_inv p" "prod_shows t p" "acquire_round (\<lambda>k. env) (\<lambda>k. []) 0 (p, out) = (r, p', out')"
  shows "tl_step\<^sup>*\<^sup>* t (prod_next t p' []) \<and> ic_sent (ch_link p') = ic_sent (ch_link p)"
proof -
  have e: "arrive [] p = p" by (simp add: arrive_def)
  define p1 p2 where "p1 = drainProducerMessages env p" and "p2 = advance_consumed env p1"
  have v: "prod_view p1 = prod_view p" "prod_view p2 = prod_view p" using drain_keeps [of env p] by (simp_all add: p1_def p2_def advance_consumed_view)
  have a: "announced p1 \<subseteq> announced p" "announced p2 \<subseteq> announced p"
    using drain_announced [of env p] advance_consumed_announced [of env p1] by (auto simp: p1_def p2_def)
  have s: "ic_sent (ch_link p1) = ic_sent (ch_link p)" "ic_sent (ch_link p2) = ic_sent (ch_link p)"
    using drain_announced [of env p] by (simp_all add: p1_def p2_def)
  have settle: "tl_step t (prod_next t q [])" if "prod_view q = prod_view p" "announced q \<subseteq> announced p" for q
  proof -
    have "prod_next t q [] = t\<lparr>tl_announced := announced q\<rparr>"
      using assms(2) that(1) published_view [OF that(1)] by (simp add: prod_next_def prod_shows_def prod_view_def)
    then show ?thesis using tl_step.settle [of "announced q" t] assms(2) that(2) by (simp add: prod_shows_def)
  qed
  have "acquire_round (\<lambda>k. env) (\<lambda>k. []) 0 (p, out) = (if \<not> ic_connected (ch_link p1) then (Some FL_DISCONNECTED, p1, out)
      else case find (slot_free p2) [0..<length (ch_images p2)] of
        Some i \<Rightarrow> (Some FL_OK, take_slot p2 i, assign out (slot_buffer p2 i)) | None \<Rightarrow> (None, p2, out))"
    unfolding acquire_round_def Let_def prod.case e p1_def p2_def by (rule refl)
  then have "p' = p1 \<or> p' = p2 \<or> (\<exists>i. find (slot_free p2) [0..<length (ch_images p2)] = Some i \<and> p' = take_slot p2 i)"
    using assms(3) by (simp split: if_splits option.splits)
  then consider "p' = p1" | "p' = p2" | i where "i < length (ch_images p2)" "slot_free p2 i" "p' = take_slot p2 i"
    by (metis find_Some_iff add_0 diff_zero length_upt nth_upt)
  then show ?thesis
  proof cases
    case 3
    let ?t = "prod_next t p2 []"
    have len: "i < length (ch_slotSubmitValue p2)" using 3(1) assms(1) v(2) by (simp add: prod_inv_def prod_view_def)
    have "tl_step ?t (?t\<lparr>tl_slots := (tl_slots ?t)[i := UINT64_MAX]\<rparr>)"
      by (rule tl_step.reserve [of _ _ "ch_consumedValue p2"])
        (use len 3(2) in \<open>auto simp: prod_next_def announced_def slot_free_def\<close>)
    moreover have "prod_next t p' [] = ?t\<lparr>tl_slots := (tl_slots ?t)[i := UINT64_MAX]\<rparr>"
      by (simp add: 3(3) prod_next_def) (simp add: take_slot_def published_def announced_def)
    ultimately have "tl_step\<^sup>*\<^sup>* t (prod_next t p' [])" using settle [OF v(2) a(2)] by simp
    then show ?thesis using s(2) 3(3) by simp
  qed (use settle v a s in auto)
qed

lemma published_open:
  assumes "prod_inv p" "ch_submittingValue p \<noteq> 0"
  shows "published p = ch_readyValue p - 1" "published p + 1 = ch_readyValue p" "published p < UINT64_MAX - 1"
proof -
  have r: "ch_readyValue p \<noteq> 0" "ch_readyValue p \<noteq> UINT64_MAX" using assms by (auto simp: prod_inv_def)
  show p: "published p = ch_readyValue p - 1" using assms(2) by (simp add: published_def)
  then show "published p + 1 = ch_readyValue p" by simp
  have "unat (ch_readyValue p) < 2 ^ 64 - 1"
  proof -
    have M: "unat UINT64_MAX = 2 ^ 64 - 1" by (simp add: unsigned_minus_1_eq_mask mask_eq_exp_minus_1)
    have "unat (ch_readyValue p) \<noteq> 2 ^ 64 - 1" using r(2) M by (metis word_unat_eq_iff)
    then show ?thesis using unsigned_less [of "ch_readyValue p", where ?'a = nat] by simp
  qed
  moreover have "unat (ch_readyValue p - 1) = unat (ch_readyValue p) - 1" using r(1) by (metis One_nat_def unat_minus_one)
  moreover have "unat (UINT64_MAX - 1) = 2 ^ 64 - 2" by simp
  moreover have "0 < unat (ch_readyValue p)" using r(1) by (simp add: unat_gt_0)
  ultimately show "published p < UINT64_MAX - 1" unfolding p word_less_nat_alt by linarith
qed

lemma publish_sim:
  assumes "prod_inv p" "prod_shows t p" "ch_submittingValue p \<noteq> 0" "v = ch_submittingValue p" "slot = ch_submittingSlot p" "publish env p slot v pts fd = (r, p')"
  shows "\<exists>ds. newly_sent (ch_link p) (ch_link p') = ds \<and> tl_step\<^sup>*\<^sup>* t (prod_next t p' ds) \<and>
    (\<forall>d \<in> set ds. \<forall>m. wire_msg d = Some m \<longrightarrow> ms_type m \<noteq> MsgRequestGeometry)"
proof -
  let ?i = "unat slot" and ?md = "ch_slotMetadata p ! unat slot"
  have inv: "v = ch_readyValue p" "?i < length (ch_slotSubmitValue p)" "ch_slotSubmitValue p ! ?i = UINT64_MAX"
    using assms(1,3,4,5) by (auto simp: prod_inv_def)
  note po = published_open [OF assms(1,3)]
  obtain sent where sf: "sendFrame (en_sendmsg env) (ch_link p) (ready_message slot v pts) ?md fd = (sent, ch_link p')"
    using assms(6) by (auto simp: publish_def Let_def split: prod.splits)
  let ?ds = "newly_sent (ch_link p) (ch_link p')"
  from sendFrame_wire [OF sf] have q: "List.map_filter wire_frame ?ds = [] \<or> List.map_filter wire_frame ?ds = [(slot, v)]"
    and g: "\<forall>d \<in> set ?ds. \<forall>m. wire_msg d = Some m \<longrightarrow> ms_type m \<noteq> MsgRequestGeometry"
    by (auto simp: map_filter_cons ready_message_def)
  have lp: "ic_inbox (ch_link p') = ic_inbox (ch_link p)"
    using sf sendWithFds_inbox by (metis sendFrame_def snd_conv)
  have "published p' = v" "announced p' = announced p" "ch_slotSubmitValue p' = (ch_slotSubmitValue p)[?i := v]"
    using publish_view [OF assms(6)] inv(1) assms(6) lp by (auto simp: published_def announced_def publish_def Let_def split: prod.splits)
  then have "prod_next t p' ?ds = t\<lparr>tl_slots := (tl_slots t)[?i := tl_last t + 1], tl_last := tl_last t + 1,
      tl_queue := tl_queue t @ List.map_filter wire_frame ?ds\<rparr>"
    using assms(2) inv(1) po by (simp add: prod_next_def prod_shows_def)
  moreover have "tl_step t \<dots>"
    by (rule tl_step.submit) (use inv po q assms(2) in \<open>auto simp: prod_shows_def\<close>)
  ultimately show ?thesis using g by auto
qed

lemma begin_sim:
  assumes "prod_shows t p" "flBeginSubmit p buf (Some 0) = (b, p1, v)"
  shows "prod_shows t p1" "ch_link p1 = ch_link p" "b = FL_OK \<Longrightarrow> ch_submittingValue p1 \<noteq> 0 \<and> v = Some (ch_submittingValue p1) \<and> bf_slot (the buf) = ch_submittingSlot p1"
proof -
  have "prod_shows t p1 \<and> ch_link p1 = ch_link p \<and> (b = FL_OK \<longrightarrow> ch_submittingValue p1 \<noteq> 0 \<and> v = Some (ch_submittingValue p1) \<and> bf_slot (the buf) = ch_submittingSlot p1)"
    using assms(2)
  proof (cases rule: begin_cases)
    case (2 w)
    have "published p1 = published p" using 2(3,4,9) next_value(1) [OF 2(5)] by (simp add: published_def)
    moreover have "announced p1 = announced p" by (rule announced_cong) (simp_all add: 2(9))
    ultimately show ?thesis using assms(1) next_value(1) [OF 2(5)] by (simp add: prod_shows_def 2(4,6,9))
  qed (use assms(1) in simp)
  then show "prod_shows t p1" "ch_link p1 = ch_link p" "b = FL_OK \<Longrightarrow> ch_submittingValue p1 \<noteq> 0 \<and> v = Some (ch_submittingValue p1) \<and> bf_slot (the buf) = ch_submittingSlot p1"
    by blast+
qed

lemma prod_next_stay:
  assumes "prod_shows t p" "prod_shows t p'" "ch_link p' = ch_link p"
  shows "tl_step\<^sup>*\<^sup>* t (prod_next t p' (newly_sent (ch_link p) (ch_link p')))"
proof -
  have "prod_next t p' [] = t" using prod_next_same [OF assms(2)] by simp
  then show ?thesis by (simp add: assms(3))
qed

lemma end_sim:
  assumes "prod_inv p" "prod_shows t p" "flEndSubmit env p buf v pts = (r, p')"
  shows "tl_step\<^sup>*\<^sup>* t (prod_next t p' (newly_sent (ch_link p) (ch_link p'))) \<and>
    (\<forall>d \<in> set (newly_sent (ch_link p) (ch_link p')). \<forall>m. wire_msg d = Some m \<longrightarrow> ms_type m \<noteq> MsgRequestGeometry)"
proof (cases "p' = p")
  case True
  then show ?thesis using prod_next_stay [OF assms(2) assms(2)] by simp
next
  case False
  with assms(3) have "publish env p (bf_slot (the buf)) v pts (-1) = (r, p')" "v = ch_submittingValue p" "v \<noteq> 0" "bf_slot (the buf) = ch_submittingSlot p"
    by (auto simp: flEndSubmit_def split: if_splits)
  then show ?thesis using publish_sim [OF assms(1,2)] by blast
qed

lemma submit_sim:
  assumes "prod_inv p" "prod_shows t p"
  shows "flSubmit env p buf pts = (r, p') \<Longrightarrow> tl_step\<^sup>*\<^sup>* t (prod_next t p' (newly_sent (ch_link p) (ch_link p'))) \<and>
      (\<forall>d \<in> set (newly_sent (ch_link p) (ch_link p')). \<forall>m. wire_msg d = Some m \<longrightarrow> ms_type m \<noteq> MsgRequestGeometry)"
    and "flSubmitSyncFd env p buf fd pts = (r, p') \<Longrightarrow> tl_step\<^sup>*\<^sup>* t (prod_next t p' (newly_sent (ch_link p) (ch_link p'))) \<and>
      (\<forall>d \<in> set (newly_sent (ch_link p) (ch_link p')). \<forall>m. wire_msg d = Some m \<longrightarrow> ms_type m \<noteq> MsgRequestGeometry)"
proof -
  obtain b p1 v where e: "flBeginSubmit p buf (Some 0) = (b, p1, v)" by (metis prod_cases3)
  note bs = begin_sim [OF assms(2) e]
  have i1: "prod_inv p1" using producer_step_inv [OF assms(1), of "PeBegin buf" "Some b" p1] e by simp
  show "tl_step\<^sup>*\<^sup>* t (prod_next t p' (newly_sent (ch_link p) (ch_link p'))) \<and>
      (\<forall>d \<in> set (newly_sent (ch_link p) (ch_link p')). \<forall>m. wire_msg d = Some m \<longrightarrow> ms_type m \<noteq> MsgRequestGeometry)"
    if s: "flSubmit env p buf pts = (r, p')"
  proof (cases "b = FL_OK")
    case True
    then have "flEndSubmit env p1 buf (the v) pts = (r, p')" using s e by (simp add: flSubmit_def)
    from end_sim [OF i1 bs(1) this] show ?thesis by (simp add: bs(2))
  next
    case False
    then have "p' = p1" using s e by (simp add: flSubmit_def)
    then show ?thesis using prod_next_stay [OF assms(2) bs(1,2)] bs(2) by simp
  qed
  show "tl_step\<^sup>*\<^sup>* t (prod_next t p' (newly_sent (ch_link p) (ch_link p'))) \<and>
      (\<forall>d \<in> set (newly_sent (ch_link p) (ch_link p')). \<forall>m. wire_msg d = Some m \<longrightarrow> ms_type m \<noteq> MsgRequestGeometry)"
    if s: "flSubmitSyncFd env p buf fd pts = (r, p')"
  proof -
    let ?i = "unat (bf_slot (the buf))" let ?q = "unmap_slot p1 ?i"
    from s e consider "p' = p" | "p' = p1" | "b = FL_OK" "publish env ?q (bf_slot (the buf)) (the v) pts fd = (r, p')"
      by (auto simp: flSubmitSyncFd_def split: if_splits)
    then show ?thesis
    proof cases
      case 3
      have "prod_inv ?q" using i1 prod_inv_cong [of ?q p1] by (simp add: prod_view_def unmap_slot_def)
      moreover have "prod_shows t ?q" using bs(1) by (simp add: prod_shows_def published_def announced_def)
      ultimately show ?thesis using publish_sim [OF _ _ _ _ _ 3(2)] bs(2,3) 3(1) by auto
    qed (use prod_next_stay [OF assms(2) assms(2)] prod_next_stay [OF assms(2) bs(1,2)] bs(2) in auto)
  qed
qed

lemma prod_sim:
  assumes "prod_inv p" "prod_shows t p" "prod_exec p e = (r, p')" "sys_allowed s (SeProducer e)"
  shows "tl_step\<^sup>*\<^sup>* t (prod_next t p' (newly_sent (ch_link p) (ch_link p'))) \<and>
    (\<forall>d \<in> set (newly_sent (ch_link p) (ch_link p')). \<forall>m. wire_msg d = Some m \<longrightarrow> ms_type m \<noteq> MsgRequestGeometry)"
proof -
  have stay: ?thesis if "ch_slotSubmitValue p' = ch_slotSubmitValue p" "published p' = published p" "announced p' = announced p" "ch_link p' = ch_link p"
  proof -
    have "prod_shows t p'" using assms(2) that by (simp add: prod_shows_def)
    then show ?thesis using prod_next_stay [OF assms(2) _ that(4)] that(4) by simp
  qed
  show ?thesis
  proof (cases e)
    case (PeRound env ds)
    then show ?thesis using assms(3,4) round_sim [OF assms(1,2)] by (fastforce split: prod.splits)
  next
    case (PeCancel buf)
    then have c: "flCancelBuffer p buf = (the r, p')" using assms(3) by (auto split: prod.splits)
    show ?thesis
    proof (cases "p' = p")
      case True
      then show ?thesis by (intro stay) simp_all
    next
      case False
      let ?i = "unat (bf_slot (the buf))"
      from False c have p': "p' = (unmap_slot p ?i)\<lparr>ch_slotSubmitValue := (ch_slotSubmitValue p)[?i := 0]\<rparr>" "ch_slotSubmitValue p ! ?i = UINT64_MAX"
        by (auto simp: flCancelBuffer_def metadataReservation_def Let_def split: if_splits)
      have "prod_next t p' [] = t\<lparr>tl_slots := (tl_slots t)[?i := 0]\<rparr>"
        using assms(2) by (simp add: p'(1) prod_next_def prod_shows_def published_def announced_def)
      then have "tl_step\<^sup>*\<^sup>* t (prod_next t p' [])"
        using tl_step.cancel [of t ?i] p'(2) assms(2) by (simp add: prod_shows_def)
      then show ?thesis by (simp add: p'(1))
    qed
  next
    case (PeBegin buf)
    then obtain v where b: "flBeginSubmit p buf (Some 0) = (the r, p', v)" using assms(3) by (auto split: prod.splits)
    note bs = begin_sim [OF assms(2) b]
    then show ?thesis using prod_next_stay [OF assms(2) bs(1,2)] by simp
  next
    case (PeEnd env buf v pts)
    then show ?thesis using assms(3) end_sim [OF assms(1,2)] by (auto split: prod.splits)
  next
    case (PeSubmit env buf pts)
    then show ?thesis using assms(3) submit_sim(1) [OF assms(1,2)] by (auto split: prod.splits)
  next
    case (PeSubmitFd env buf fd pts)
    then show ?thesis using assms(3) submit_sim(2) [OF assms(1,2)] by (auto split: prod.splits)
  next
    case (PeMetadata buf md)
    then show ?thesis using assms(3)
      by (intro stay) (auto simp: flSetFrameMetadata_def published_def announced_def split: if_splits prod.splits)
  next
    case (PeRetain nxt buf)
    then show ?thesis using assms(3)
      by (intro stay) (auto simp: flRetainBufferReference_def published_def announced_def split: if_splits prod.splits)
  next
    case (PeRelease t)
    then show ?thesis using assms(3)
      by (intro stay) (auto simp: flReleaseBufferReference_def published_def announced_def split: if_splits prod.splits)
  qed (use assms(4) in simp)
qed

subsection \<open>The consumer implements its part\<close>


lemma cons_stay:
  assumes "cons_shows t c" "ch_heldReady c' = ch_heldReady c" "leased_frames (ch_readers c') = leased_frames (ch_readers c)"
    "held_frames c' = held_frames c" "pending_frames c' = pending_frames c" "ic_inbox (ch_peer c') = ic_inbox (ch_peer c)" "ic_sent (ch_peer c') = ic_sent (ch_peer c)"
  shows "cons_steps t c c'"
proof -
  have "cons_next t c' [] = t" using assms by (simp add: cons_next_def cons_shows_def)
  then show ?thesis using assms(7) by simp
qed

lemma frames_log [simp]: "held_frames (log_closed fds c) = held_frames c" "pending_frames (log_closed fds c) = pending_frames c"
  by (simp_all add: held_frames_def pending_frames_def)

lemma leased_ops:
  assumes "ledger_inv l next"
  shows "ledger_acquire l next g f 0 = (r, l', next', out) \<Longrightarrow> r = FL_OK \<Longrightarrow> leased_frames l' = leased_frames l @ [(fr_slot f, fr_readyValue f)]"
    and "ledger_acquire l next g f 0 = (r, l', next', out) \<Longrightarrow> r \<noteq> FL_OK \<Longrightarrow> leased_frames l' = leased_frames l"
    and "ledger_retain l next s 0 = (r, l', next', out) \<Longrightarrow> leased_frames l' = leased_frames l"
    and "ledger_complete l s = (r, l') \<Longrightarrow> leased_frames l' = leased_frames l" and "ledger_defer l s = (r, l') \<Longrightarrow> leased_frames l' = leased_frames l"
    and "finishDeferred l s = (r, l') \<Longrightarrow> leased_frames l' = leased_frames l"
proof -
  have map: "map (\<lambda>r. (fr_slot (rn_frame r), fr_readyValue (rn_frame r))) (spec_retain q s t) = map (\<lambda>r. (fr_slot (rn_frame r), fr_readyValue (rn_frame r))) q"
    "map (\<lambda>r. (fr_slot (rn_frame r), fr_readyValue (rn_frame r))) (spec_complete q s) = map (\<lambda>r. (fr_slot (rn_frame r), fr_readyValue (rn_frame r))) q" for q t
    by (simp_all add: spec_retain_def spec_complete_def)
  show "leased_frames l' = leased_frames l @ [(fr_slot f, fr_readyValue f)]" if "ledger_acquire l next g f 0 = (r, l', next', out)" "r = FL_OK"
    using exec_refines [OF assms, of "EvAcquire g f" r l' next'] that by (simp add: ledger_exec_def leased_frames_def spec_acquire_def)
  show "leased_frames l' = leased_frames l" if "ledger_acquire l next g f 0 = (r, l', next', out)" "r \<noteq> FL_OK"
    using exec_refines [OF assms, of "EvAcquire g f" r l' next'] that by (simp add: ledger_exec_def)
  show "leased_frames l' = leased_frames l" if "ledger_retain l next s 0 = (r, l', next', out)"
    using exec_refines [OF assms, of "EvRetain s" r l' next'] that map by (auto simp: ledger_exec_def leased_frames_def split: if_splits)
  show "leased_frames l' = leased_frames l" if "ledger_complete l s = (r, l')"
    using exec_refines [OF assms, of "EvComplete s" r l' "next"] that map by (auto simp: ledger_exec_def leased_frames_def split: if_splits)
  show "leased_frames l' = leased_frames l" if "ledger_defer l s = (r, l')"
    using exec_refines [OF assms, of "EvDefer s" r l' "next"] that map by (auto simp: ledger_exec_def leased_frames_def split: if_splits)
  show "leased_frames l' = leased_frames l" if "finishDeferred l s = (r, l')"
    using exec_refines [OF assms, of "EvFinish s" r l' "next"] that map by (auto simp: ledger_exec_def leased_frames_def split: if_splits)
qed

lemma leased_empty: "ledger_empty l \<Longrightarrow> leased_frames l = []"
  by (simp add: ledger_empty_def leased_frames_def ledger_abs_def live_positions_def)

lemma poll_leased:
  assumes "ledger_inv l next" "poll_completions poll l cs = (r, l', cs', closed)"
  shows "leased_frames l' = leased_frames l"
  using assms
proof (induction poll l cs arbitrary: l' cs' r closed rule: poll_completions.induct)
  case (2 poll l c cs)
  obtain r1 l1 where f: "finishDeferred l (lc_token c) = (r1, l1)" by fastforce
  note fl = leased_ops(6) [OF "2.prems"(1) f] ledger_ops_inv(5) [OF "2.prems"(1) f]
  show ?case
    using "2.prems" "2.IH" fl f by (fastforce simp: Let_def split: if_splits PollAnswer.splits prod.splits)
qed simp

lemma message_sim:
  assumes "cons_shows t c" "\<forall>d \<in> set (ic_inbox (ch_peer c)). \<forall>m. wire_msg d = Some m \<longrightarrow> ms_type m \<noteq> MsgRequestGeometry"
    "peer_message env c = (go, c')"
  shows "cons_steps t c c' \<and> set (ic_inbox (ch_peer c')) \<subseteq> set (ic_inbox (ch_peer c))"
proof -
  obtain mo c1 where r: "recv_peer c = (mo, c1)" by (cases "recv_peer c")
  obtain l' closed where w: "ipc_recv (ch_peer c) = (mo, l', closed)" "c1 = log_closed closed (c\<lparr>ch_peer := l'\<rparr>)"
    using r by (auto simp: recv_peer_def split: prod.splits)
  note rw = recv_wire [OF w(1)]
  have fields: "ch_heldReady c1 = ch_heldReady c" "ch_readers c1 = ch_readers c" "held_frames c1 = held_frames c" "pending_frames c1 = pending_frames c"
    "ch_peer c1 = l'" by (simp_all add: w(2) held_frames_def pending_frames_def)
  have lose: "cons_steps t c d \<and> set (ic_inbox (ch_peer d)) \<subseteq> set (ic_inbox (ch_peer c))"
    if "ch_heldReady d = ch_heldReady c" "ch_readers d = ch_readers c" "held_frames d = held_frames c" "ch_peer d = l'"
      "subseq (pending_frames d @ List.map_filter wire_frame (ic_inbox l')) (pending_frames c @ List.map_filter wire_frame (ic_inbox (ch_peer c)))" for d
  proof -
    have "cons_next t d [] = t\<lparr>tl_queue := pending_frames d @ List.map_filter wire_frame (ic_inbox l')\<rparr>"
      using assms(1) that by (simp add: cons_next_def cons_shows_def)
    then have "tl_step\<^sup>*\<^sup>* t (cons_next t d [])" using tl_step.lose [of _ t] that(5) assms(1) by (simp add: cons_shows_def r_into_rtranclp)
    then show ?thesis using that(4) rw by auto
  qed
  have tail: "subseq (List.map_filter wire_frame (ic_inbox l')) (List.map_filter wire_frame (ic_inbox (ch_peer c)))"
    using rw(2) by (auto simp: map_filter_cons split: option.split)
  have popped: "cons_steps t c d \<and> set (ic_inbox (ch_peer d)) \<subseteq> set (ic_inbox (ch_peer c))"
    if "ch_heldReady d = ch_heldReady c" "ch_readers d = ch_readers c" "held_frames d = held_frames c" "pending_frames d = pending_frames c" "ch_peer d = l'" for d
    using that tail by (intro lose) (simp_all add: list_emb_append_mono)
  show ?thesis
  proof (cases "\<exists>m fr md. mo = Some m \<and> decodeFrame m (has_flag c FL_REQUIRE_FRAME_METADATA) = (Some fr, md) \<and> c' = store_pending env c1 fr md (ms_fds m)")
    case True
    then obtain m fr md where m: "mo = Some m" "decodeFrame m (has_flag c FL_REQUIRE_FRAME_METADATA) = (Some fr, md)" "c' = store_pending env c1 fr md (ms_fds m)" by blast
    from rw(2) m(1) obtain d rest where d: "ic_inbox (ch_peer c) = d # rest" "wire_msg d = Some m" "ic_inbox l' = rest" by auto
    have "decodeFrame m False = (Some fr, md)" using m(2) by (auto simp: decodeFrame_def split: if_splits)
    then have wf: "wire_frame d = Some (fm_slot fr, fm_readyValue fr)" by (simp add: wire_frame_def d(2))
    have p: "pending_frames c' = [(fm_slot fr, fm_readyValue fr)]" by (simp add: m(3) store_pending_def pending_frames_def)
    have "subseq (pending_frames c' @ List.map_filter wire_frame (ic_inbox l')) (pending_frames c @ List.map_filter wire_frame (ic_inbox (ch_peer c)))"
      unfolding p d(1,3) by (simp add: map_filter_cons wf list_emb_append2)
    then show ?thesis by (intro lose) (simp_all add: m(3) store_pending_def held_frames_def w(2))
  next
    case False
    have "c' = c1 \<or> (\<exists>fds. c' = log_closed fds c1)"
    proof (cases mo)
      case None
      then show ?thesis using assms(3) r by (simp add: peer_message_def)
    next
      case (Some m)
      have ng: "ms_type m \<noteq> MsgRequestGeometry" using rw(2) assms(2) Some by auto
      have fs: "\<exists>fds. c' = log_closed fds c1" if "frame_step env c1 m = (go, c')"
      proof -
        note fs = that
        have fl: "ch_flags c1 = ch_flags c" by (simp add: w(2))
        obtain fo md where d: "decodeFrame m (has_flag c FL_REQUIRE_FRAME_METADATA) = (fo, md)" by fastforce
        show ?thesis
        proof (cases fo)
          case None
          then show ?thesis using fs d by (auto simp: frame_step_def fl)
        next
          case s: (Some fr)
          then have "c' \<noteq> store_pending env c1 fr md (ms_fds m)" using False Some d by blast
          then show ?thesis using fs d s by (auto simp: frame_step_def fl split: if_splits)
        qed
      qed
      have "(go, c') = (False, c1) \<or> (go, c') = (True, c1) \<or> frame_step env c1 m = (go, c')"
        using assms(3) ng unfolding peer_message_def r Some prod.case option.case by (simp split: if_splits)
      then show ?thesis using fs by blast
    qed
    then show ?thesis using fields by (intro popped) auto
  qed
qed

lemma drop_sim:
  assumes "cons_shows t c" "ch_heldReady c' = ch_heldReady c" "ch_readers c' = ch_readers c" "\<not> ch_frameHeld c'"
    "pending_frames c' = pending_frames c" "ic_inbox (ch_peer c') = ic_inbox (ch_peer c)"
    "ds = [] \<or> (\<exists>d v. ds = [d] \<and> wire_release d = Some v \<and> v \<le> ch_heldReady c \<and> ledger_empty (ch_readers c))"
  shows "tl_step\<^sup>*\<^sup>* t (cons_next t c' ds)"
proof -
  let ?t = "t\<lparr>tl_held := []\<rparr>"
  have e: "cons_next t c' ds = ?t\<lparr>tl_announced := tl_announced t \<union> set (List.map_filter wire_release ds)\<rparr>"
    using assms(1-6) by (simp add: cons_next_def cons_shows_def held_frames_def)
  have d: "tl_step t ?t" by (rule tl_step.drop)
  from assms(7) show ?thesis
  proof (elim disjE exE conjE)
    assume "ds = []"
    then show ?thesis using d e by (simp add: r_into_rtranclp)
  next
    fix x v assume x: "ds = [x]" "wire_release x = Some v" "v \<le> ch_heldReady c" "ledger_empty (ch_readers c)"
    have "tl_step ?t (?t\<lparr>tl_announced := insert v (tl_announced ?t)\<rparr>)"
      by (rule tl_step.announce) (use x assms(1) leased_empty in \<open>auto simp: cons_shows_def\<close>)
    moreover have "cons_next t c' ds = ?t\<lparr>tl_announced := insert v (tl_announced ?t)\<rparr>" unfolding e by (simp add: x(1,2) map_filter_cons)
    ultimately show ?thesis using d by (metis rtranclp.simps)
  qed
qed

lemma announce_sim:
  assumes "cons_shows t c" "ch_heldReady c' = ch_heldReady c" "ch_readers c' = ch_readers c" "held_frames c' = held_frames c"
    "pending_frames c' = pending_frames c" "ic_inbox (ch_peer c') = ic_inbox (ch_peer c)" "ledger_empty (ch_readers c)"
    "v \<le> ch_heldReady c" "ch_frameHeld c \<longrightarrow> v < ch_heldReady c" "ds = [] \<or> (\<exists>d. ds = [d] \<and> wire_release d = Some v)"
  shows "tl_step\<^sup>*\<^sup>* t (cons_next t c' ds)"
proof -
  have e: "cons_next t c' ds = t\<lparr>tl_announced := tl_announced t \<union> set (List.map_filter wire_release ds)\<rparr>"
    using assms(1-6) by (simp add: cons_next_def cons_shows_def)
  have "tl_step t (t\<lparr>tl_announced := insert v (tl_announced t)\<rparr>)"
    by (rule tl_step.announce) (use assms leased_empty in \<open>auto simp: cons_shows_def held_frames_def\<close>)
  then show ?thesis using assms(10) e by (auto simp: map_filter_cons r_into_rtranclp)
qed

lemma send_release_inbox [simp]: "ic_inbox (ch_peer (snd (send_release env c slot v fd))) = ic_inbox (ch_peer c)"
  using sendWithFds_inbox by (simp add: send_release_def case_prod_unfold Let_def)

lemma frames_cong:
  "ch_frameHeld c' = ch_frameHeld c \<Longrightarrow> ch_heldSlot c' = ch_heldSlot c \<Longrightarrow> ch_heldReady c' = ch_heldReady c \<Longrightarrow> held_frames c' = held_frames c"
  "ch_hasPending c' = ch_hasPending c \<Longrightarrow> ch_pendingSlot c' = ch_pendingSlot c \<Longrightarrow> ch_pendingReady c' = ch_pendingReady c \<Longrightarrow> pending_frames c' = pending_frames c"
  by (simp_all add: held_frames_def pending_frames_def)

lemma release_sim:
  assumes "cons_shows t c" "env_ok env"
  shows "cons_steps t c (snd (flReleaseSyncFd env c f fd))"
proof (cases "snd (flReleaseSyncFd env c f fd) = c")
  case True
  then show ?thesis using cons_stay [OF assms(1), of c] by simp
next
  case False
  let ?v = "fr_readyValue (the f)" and ?l = "if fd \<ge> 0 then en_dup env fd else -1"
  let ?c = "releaseLeaseReadyFence ((advance_retired env (push_release c ?v ?l))\<lparr>ch_frameHeld := False\<rparr>)"
  have "snd (flReleaseSyncFd env c f fd) = c \<or> ledger_empty (ch_readers c) \<and> holds_frame c (the f) \<and>
      (snd (flReleaseSyncFd env c f fd) = ?c \<or> snd (flReleaseSyncFd env c f fd) = snd (send_release env ?c (fr_slot (the f)) ?v fd))"
    by (simp add: flReleaseSyncFd_def Let_def case_prod_unfold)
  with False have g: "ledger_empty (ch_readers c)" "holds_frame c (the f)"
    and r: "snd (flReleaseSyncFd env c f fd) = ?c \<or> snd (flReleaseSyncFd env c f fd) = snd (send_release env ?c (fr_slot (the f)) ?v fd)"
    by blast+
  have v: "?v = ch_heldReady c" using g(2) by (simp add: holds_frame_def)
  have c: "ch_heldReady ?c = ch_heldReady c" "ch_readers ?c = ch_readers c" "\<not> ch_frameHeld ?c" "pending_frames ?c = pending_frames c" "ch_peer ?c = ch_peer c"
    by (simp_all add: pending_frames_def)
  from r show ?thesis
  proof
    assume "snd (flReleaseSyncFd env c f fd) = ?c"
    then show ?thesis using drop_sim [OF assms(1), of ?c "[]"] c by simp
  next
    let ?d = "snd (send_release env ?c (fr_slot (the f)) ?v fd)"
    assume d: "snd (flReleaseSyncFd env c f fd) = ?d"
    have "let ds = newly_sent (ch_peer c) (ch_peer ?d) in ds = [] \<or> (\<exists>d. ds = [d] \<and> wire_release d = Some ?v)"
      using send_release_wire [OF surjective_pairing assms(2), of ?c "fr_slot (the f)" ?v fd] c(5) by (auto simp: Let_def split: if_splits)
    moreover have "pending_frames ?d = pending_frames c" using c(4) frames_cong(2) [of ?d ?c] by simp
    moreover have "ch_heldReady ?d = ch_heldReady c" "ch_readers ?d = ch_readers c" "\<not> ch_frameHeld ?d" "ic_inbox (ch_peer ?d) = ic_inbox (ch_peer c)"
      by simp_all
    moreover have "?v \<le> ch_heldReady c" using v by simp
    ultimately show ?thesis unfolding d Let_def by (intro drop_sim [OF assms(1)]) (use g(1) in blast)+
  qed
qed

lemma release_defer_sim:
  assumes "cons_shows t c" "env_ok env"
  shows "cons_steps t c (snd (flRelease env c f))"
proof (cases "has_flag c (FL_GPU_SYNC OR FL_DEFER_RELEASE)")
  case True
  then have "snd (flRelease env c f) = c \<or> snd (flRelease env c f) = releaseLeaseReadyFence (c\<lparr>ch_frameHeld := False\<rparr>)"
    by (simp add: flRelease_def)
  then show ?thesis
  proof
    assume "snd (flRelease env c f) = c"
    then show ?thesis using cons_stay [OF assms(1), of c] by simp
  next
    let ?c = "releaseLeaseReadyFence (c\<lparr>ch_frameHeld := False\<rparr>)"
    assume "snd (flRelease env c f) = ?c"
    moreover have "tl_step\<^sup>*\<^sup>* t (cons_next t ?c [])" by (rule drop_sim [OF assms(1)]) (simp_all add: pending_frames_def)
    ultimately show ?thesis by simp
  qed
next
  case False
  then show ?thesis using release_sim [OF assms] by (simp add: flRelease_def)
qed

lemma signal_sim:
  assumes "cons_shows t c" "env_ok env" "ch_frameHeld c \<longrightarrow> v < ch_heldReady c"
  shows "cons_steps t c (snd (flSignalConsumedSyncFd env c v fd))"
proof (cases "snd (flSignalConsumedSyncFd env c v fd) = c")
  case True
  then show ?thesis using cons_stay [OF assms(1), of c] by simp
next
  case False
  let ?l = "if fd \<ge> 0 then en_dup env fd else -1"
  let ?c = "advance_retired env (push_release c v ?l)" let ?d = "snd (send_release env ?c 0 v fd)"
  have "snd (flSignalConsumedSyncFd env c v fd) = c \<or> ledger_empty (ch_readers c) \<and> \<not> v > ch_heldReady c \<and> snd (flSignalConsumedSyncFd env c v fd) = ?d"
    by (simp add: flSignalConsumedSyncFd_def Let_def case_prod_unfold)
  with False have g: "ledger_empty (ch_readers c)" "\<not> v > ch_heldReady c" and d: "snd (flSignalConsumedSyncFd env c v fd) = ?d" by blast+
  have "let ds = newly_sent (ch_peer c) (ch_peer ?d) in ds = [] \<or> (\<exists>d. ds = [d] \<and> wire_release d = Some v)"
    using send_release_wire [OF surjective_pairing assms(2), of ?c 0 v fd] by (auto simp: Let_def split: if_splits)
  moreover have "held_frames ?d = held_frames c" "pending_frames ?d = pending_frames c" by (rule frames_cong; simp)+
  ultimately show ?thesis unfolding d using g assms(3) by (intro announce_sim [OF assms(1)]) (auto simp: Let_def not_less)
qed

lemma lease_sim:
  assumes "cons_shows t c" "ledger_inv (ch_readers c) next"
  shows "flLeaseFrame c next f (Some 0) = (r, c', next', out) \<Longrightarrow> cons_steps t c c'"
    and "flRetainReadLease c next s (Some 0) = (r, c', next', out) \<Longrightarrow> cons_steps t c c'"
    and "cons_steps t c (snd (flCompleteReadLease c s))" and "cons_steps t c (snd (flCompleteReadLeaseSyncFd env c s fd))"
proof -
  note lo = leased_ops [OF assms(2)]
  have stay: "cons_steps t c d" if "leased_frames (ch_readers d) = leased_frames (ch_readers c)" "ch_heldReady d = ch_heldReady c"
      "held_frames d = held_frames c" "pending_frames d = pending_frames c" "ch_peer d = ch_peer c" for d
    using that by (intro cons_stay [OF assms(1)]) simp_all
  show "cons_steps t c c'" if e: "flLeaseFrame c next f (Some 0) = (r, c', next', out)"
  proof (cases "c' = c")
    case True
    then show ?thesis by (intro stay) simp_all
  next
    case False
    from e False obtain y where y: "f = Some y" and h: "holds_image c y" by (auto simp: flLeaseFrame_def split: if_splits)
    obtain r1 l n1 o1 where a: "ledger_acquire (ch_readers c) next (ci_generation (ch_info c)) y 0 = (r1, l, n1, o1)" by (metis prod_cases4)
    from e False have c': "c' = (if r1 = FL_OK then releaseLeaseReadyFence (c\<lparr>ch_readers := l, ch_frameHeld := False\<rparr>) else c\<lparr>ch_readers := l\<rparr>)"
      by (auto simp: flLeaseFrame_def Let_def a y split: if_splits)
    show ?thesis
    proof (cases "r1 = FL_OK")
      case True
      have "cons_next t c' [] = t\<lparr>tl_leased := tl_leased t @ tl_held t, tl_held := []\<rparr>"
        using assms(1) h lo(1) [OF a True] True
        by (simp add: c' cons_next_def cons_shows_def held_frames_def pending_frames_def holds_image_def holds_frame_def)
      then have "tl_step\<^sup>*\<^sup>* t (cons_next t c' [])" using tl_step.lease [of t] by (simp add: r_into_rtranclp)
      then show ?thesis using True by (simp add: c')
    next
      case f: False
      then show ?thesis using lo(2) [OF a f] by (intro stay) (simp_all add: c' held_frames_def pending_frames_def)
    qed
  qed
  show "cons_steps t c c'" if "flRetainReadLease c next s (Some 0) = (r, c', next', out)"
    using that lo(3) by (intro stay) (auto simp: flRetainReadLease_def held_frames_def pending_frames_def split: if_splits prod.splits)
  show "cons_steps t c (snd (flCompleteReadLease c s))"
    using lo(4) by (intro stay) (auto simp: flCompleteReadLease_def held_frames_def pending_frames_def split: prod.splits)
  show "cons_steps t c (snd (flCompleteReadLeaseSyncFd env c s fd))"
    using lo(5) by (intro stay) (auto simp: flCompleteReadLeaseSyncFd_def Let_def held_frames_def pending_frames_def split: prod.splits option.splits)
qed

lemma retire_leased:
  assumes "ledger_inv l next" "rt_value (retirement l) \<noteq> 0" "ledger_retired l (retirement l) = (r, l')"
  shows "\<exists>old. old \<noteq> [] \<and> leased_frames l = old @ leased_frames l' \<and> rt_value (retirement l) = snd (last old)"
proof -
  let ?f = "\<lambda>r. (fr_slot (rn_frame r), fr_readyValue (rn_frame r))" and ?t = "takeWhile (\<lambda>r. rn_tokens r = {}) (ledger_abs l)"
  have a: "ledger_abs l' = spec_retire (ledger_abs l)" using ledger.ack_ok [OF assms(1,2)] assms(3) by auto
  have ne: "?t \<noteq> []" using assms(2) by (auto simp: ledger.peek_spec [OF assms(1)] spec_retirement_def)
  have "rt_value (retirement l) = snd (last (map ?f ?t))"
    using ne by (simp add: ledger.peek_spec [OF assms(1)] spec_retirement_def last_map Let_def)
  moreover have "leased_frames l = map ?f ?t @ leased_frames l'"
    by (simp add: leased_frames_def a spec_retire_def flip: map_append)
  ultimately show ?thesis using ne by (intro exI [of _ "map ?f ?t"]) simp
qed

lemma retire_sim:
  assumes "cons_shows t c" "ledger_inv (ch_readers c) next" "env_ok env" "rt_value (retirement (ch_readers c)) \<noteq> 0"
    "retireReadLeases env c (rt_value (retirement (ch_readers c))) = (r, c2)"
    "c' = (if r = FL_OK then c2\<lparr>ch_readers := snd (ledger_retired (ch_readers c) (retirement (ch_readers c)))\<rparr> else c2)"
  shows "cons_steps t c c'"
proof -
  define l v where "l = ch_readers c" and "v = rt_value (retirement l)"
  obtain sent c1 where s: "(if ic_connected (ch_peer c) then send_release env c 0 v (-1) else (True, c)) = (sent, c1)" by fastforce
  have c1: "c1 = c \<and> sent \<or> send_release env c 0 v (-1) = (sent, c1)" using s by (auto split: if_splits)
  have f1: "ch_heldReady c1 = ch_heldReady c" "ch_readers c1 = l" "held_frames c1 = held_frames c" "pending_frames c1 = pending_frames c"
    "ic_inbox (ch_peer c1) = ic_inbox (ch_peer c)"
  proof -
    have "c1 = c \<or> c1 = snd (send_release env c 0 v (-1))" using c1 by (metis snd_conv)
    then show "ch_heldReady c1 = ch_heldReady c" "ch_readers c1 = l" "held_frames c1 = held_frames c" "pending_frames c1 = pending_frames c"
      "ic_inbox (ch_peer c1) = ic_inbox (ch_peer c)" by (auto simp: l_def held_frames_def pending_frames_def)
  qed
  have e: "if sent then r = FL_OK \<and> c2 = c1\<lparr>ch_retiredValue := v\<rparr> else r \<noteq> FL_OK \<and> c2 = c1"
    using assms(5) unfolding retireReadLeases_def l_def [symmetric] v_def [symmetric] s Let_def prod.case by (simp split: if_splits)
  show ?thesis
  proof (cases sent)
    case False
    then have "newly_sent (ch_peer c) (ch_peer c1) = []" using c1 send_release_wire [OF _ assms(3), of c 0 v "-1" sent c1] by auto
    moreover have "cons_next t c1 [] = t" using assms(1) f1 by (simp add: cons_next_def cons_shows_def l_def)
    ultimately show ?thesis using False e assms(6) by simp
  next
    case True
    have sends: "List.map_filter wire_release (newly_sent (ch_peer c) (ch_peer c1)) = [] \<or> List.map_filter wire_release (newly_sent (ch_peer c) (ch_peer c1)) = [v]"
      using c1 True send_release_wire [OF _ assms(3), of c 0 v "-1" sent c1] by (auto simp: map_filter_cons)
    obtain r' l' where rt: "ledger_retired l (retirement l) = (r', l')" by fastforce
    obtain old where old: "old \<noteq> []" "leased_frames l = old @ leased_frames l'" "v = snd (last old)"
      using retire_leased [OF assms(2,4)] rt by (auto simp: l_def v_def)
    let ?ds = "newly_sent (ch_peer c) (ch_peer c1)"
    have c': "c' = c1\<lparr>ch_retiredValue := v, ch_readers := l'\<rparr>" using True e assms(6) rt by (simp add: l_def)
    have "cons_next t c' ?ds = t\<lparr>tl_leased := leased_frames l', tl_announced := tl_announced t \<union> set (List.map_filter wire_release ?ds)\<rparr>"
    proof -
      have "held_frames (c1\<lparr>ch_retiredValue := v, ch_readers := l'\<rparr>) = held_frames c1" "pending_frames (c1\<lparr>ch_retiredValue := v, ch_readers := l'\<rparr>) = pending_frames c1"
        by (rule frames_cong; simp)+
      then show ?thesis using assms(1) f1(1,3,4,5) unfolding c' by (simp add: cons_next_def cons_shows_def)
    qed
    moreover have "tl_step t \<dots>"
      by (rule tl_step.retire [of _ old]) (use old sends assms(1) in \<open>auto simp: cons_shows_def l_def\<close>)
    ultimately show ?thesis unfolding c' by (simp add: r_into_rtranclp)
  qed
qed

lemma collect_sim:
  assumes "cons_shows t c" "cons_inv c next" "env_ok env"
  shows "cons_steps t c (snd (flCollectReadLeases env poll c))"
proof -
  obtain r l cs closed where p: "poll_completions poll (ch_readers c) (ch_leaseCompletions c) = (r, l, cs, closed)" by (metis prod_cases4)
  define d where "d = log_closed closed (c\<lparr>ch_readers := l, ch_leaseCompletions := cs\<rparr>)"
  have li: "ledger_inv (ch_readers c) next" using assms(2) by (simp add: cons_inv_def)
  have i: "ledger_inv l next" "leased_frames l = leased_frames (ch_readers c)" using poll_completions_inv [OF li p] poll_leased [OF li p] by simp_all
  have d: "ch_readers d = l" "ch_peer d = ch_peer c" "ch_heldReady d = ch_heldReady c" "held_frames d = held_frames c" "pending_frames d = pending_frames c"
    by (simp_all add: d_def held_frames_def pending_frames_def)
  have stay: "cons_steps t c c" "cons_steps t c d" by (rule cons_stay [OF assms(1)]; simp add: d i(2))+
  have sh: "cons_shows t d" using assms(1) d i(2) by (simp add: cons_shows_def)
  obtain r2 c2 where q: "retireReadLeases env d (rt_value (retirement l)) = (r2, c2)" by fastforce
  have rd: "ch_readers c2 = l"
  proof -
    have "c2 = snd (retireReadLeases env d (rt_value (retirement l)))" by (simp add: q)
    then show ?thesis by (simp add: retireReadLeases_def Let_def case_prod_unfold d(1))
  qed
  define z where "z = (if r2 = FL_OK then c2\<lparr>ch_readers := snd (ledger_retired l (retirement l))\<rparr> else c2)"
  have "snd (flCollectReadLeases env poll c) = c \<or> snd (flCollectReadLeases env poll c) = d \<or>
      rt_value (retirement l) \<noteq> 0 \<and> snd (flCollectReadLeases env poll c) = z"
    using rd by (simp add: flCollectReadLeases_def pollLeaseCompletions_def p d_def [symmetric] d(1) q z_def Let_def case_prod_unfold)
  moreover have "cons_steps t c z" if "rt_value (retirement l) \<noteq> 0"
    using retire_sim [OF sh _ assms(3), of "next" r2 c2 z] i(1) that q d(1,2) by (simp add: z_def)
  ultimately show ?thesis using stay by auto
qed

lemma cons_sim:
  assumes "cons_inv c n" "cons_shows t c" "\<forall>d \<in> set (ic_inbox (ch_peer c)). \<forall>m. wire_msg d = Some m \<longrightarrow> ms_type m \<noteq> MsgRequestGeometry"
    "cons_exec c n e = (c', n')" "sys_allowed s (SeConsumer e)" "sm_consumer s = c"
  shows "cons_steps t c c'"
proof (cases e)
  case (CeAccept env pid attached ev)
  show ?thesis
  proof (cases "ev = AeReadable []")
    case True
    obtain go d where m: "peer_message env c = (go, d)" by fastforce
    have "c' = (if go then d else d\<lparr>ch_peerGone := True\<rparr>)" using assms(4,5) CeAccept True m by simp
    moreover have "cons_next t (d\<lparr>ch_peerGone := True\<rparr>) ds = cons_next t d ds" for ds by (simp add: cons_next_def held_frames_def pending_frames_def)
    ultimately show ?thesis using message_sim [OF assms(2,3) m] by simp
  next
    case False
    then obtain l where "ev = AeExtra l" "attached" using assms(5) CeAccept by auto
    then have "\<exists>fds. c' = log_closed fds c" using assms(4) CeAccept by (auto simp: refuse_extra_def split: prod.splits)
    then show ?thesis using cons_stay [OF assms(2)] by fastforce
  qed
next
  case (CeAcquire env)
  show ?thesis
  proof (cases "frame_available env c")
    case True
    then have c': "c' = take_pending c" using assms(4) CeAcquire by (simp add: frame_round_def)
    have av: "ch_hasPending c" "\<not> ch_frameHeld c" using True by (simp_all add: frame_available_def)
    let ?x = "(ch_pendingSlot c, ch_pendingReady c)" and ?q = "List.map_filter wire_frame (ic_inbox (ch_peer c))"
    have "cons_next t c' [] = t\<lparr>tl_held := [?x], tl_queue := ?q, tl_top := snd ?x\<rparr>"
      using assms(2) by (simp add: c' cons_next_def cons_shows_def take_pending_def held_frames_def pending_frames_def)
    moreover have "tl_step t \<dots>"
      by (rule tl_step.hold) (use assms(2) av in \<open>simp_all add: cons_shows_def held_frames_def pending_frames_def\<close>)
    ultimately have "tl_step\<^sup>*\<^sup>* t (cons_next t c' [])" by (simp add: r_into_rtranclp)
    then show ?thesis by (simp add: c' take_pending_def)
  next
    case False
    then have "c' = c" using assms(4) CeAcquire by (auto simp: frame_round_def split: if_splits)
    then show ?thesis using cons_stay [OF assms(2), of c] by simp
  qed
next
  case (CeLease f)
  then obtain r out where "flLeaseFrame c n f (Some 0) = (r, c', n', out)" using assms(4) by (auto split: prod.splits)
  then show ?thesis using lease_sim(1) [OF assms(2)] assms(1) by (auto simp: cons_inv_def)
next
  case (CeRetain k)
  then obtain r out where "flRetainReadLease c n k (Some 0) = (r, c', n', out)" using assms(4) by (auto split: prod.splits)
  then show ?thesis using lease_sim(2) [OF assms(2)] assms(1) by (auto simp: cons_inv_def)
next
  case (CeComplete k)
  then show ?thesis using assms(4) lease_sim(3) [OF assms(2), of n k] assms(1) by (auto simp: cons_inv_def)
next
  case (CeCompleteFd env k fd)
  then show ?thesis using assms(4) lease_sim(4) [OF assms(2), of n env k fd] assms(1) by (auto simp: cons_inv_def)
next
  case (CeRelease env f)
  then show ?thesis using assms(4,5) release_defer_sim [OF assms(2), of env f] by auto
next
  case (CeReleaseFd env f fd)
  then show ?thesis using assms(4,5) release_sim [OF assms(2), of env f fd] by auto
next
  case (CeSignal env v fd)
  then show ?thesis using assms(4,5,6) signal_sim [OF assms(2), of env v fd] by auto
next
  case (CeCollect env poll)
  then show ?thesis using assms(4,5) collect_sim [OF assms(2,1), of env poll] by auto
qed

lemma api_inbox:
  "ic_inbox (ch_peer (snd (flReleaseSyncFd env c f fd))) = ic_inbox (ch_peer c)"
  "ic_inbox (ch_peer (snd (flRelease env c f))) = ic_inbox (ch_peer c)"
  "ic_inbox (ch_peer (snd (flSignalConsumedSyncFd env c v fd))) = ic_inbox (ch_peer c)"
  "ic_inbox (ch_peer (snd (flCompleteReadLease c s))) = ic_inbox (ch_peer c)"
  "ic_inbox (ch_peer (snd (flCompleteReadLeaseSyncFd env c s fd))) = ic_inbox (ch_peer c)"
  "ic_inbox (ch_peer (fst (snd (flLeaseFrame c n f out)))) = ic_inbox (ch_peer c)"
  "ic_inbox (ch_peer (fst (snd (flRetainReadLease c n s out)))) = ic_inbox (ch_peer c)"
proof -
  show *: "ic_inbox (ch_peer (snd (flReleaseSyncFd env c f fd))) = ic_inbox (ch_peer c)" for fd
    by (simp add: flReleaseSyncFd_def Let_def case_prod_unfold)
  show "ic_inbox (ch_peer (snd (flRelease env c f))) = ic_inbox (ch_peer c)" by (simp add: flRelease_def *)
qed (simp_all add: flSignalConsumedSyncFd_def flCompleteReadLease_def flCompleteReadLeaseSyncFd_def flLeaseFrame_def flRetainReadLease_def
    Let_def case_prod_unfold split: option.split)

lemma collect_inbox: "ic_inbox (ch_peer (snd (flCollectReadLeases env poll c))) = ic_inbox (ch_peer c)"
proof -
  have p: "ch_peer (snd (pollLeaseCompletions poll c)) = ch_peer c"
    by (simp add: pollLeaseCompletions_def case_prod_unfold Let_def)
  have r: "ic_inbox (ch_peer (snd (retireReadLeases env d v))) = ic_inbox (ch_peer d)" for d v
    by (simp add: retireReadLeases_def Let_def case_prod_unfold)
  show ?thesis by (simp add: flCollectReadLeases_def Let_def case_prod_unfold p r)
qed

lemma cons_inbox:
  assumes "cons_shows t c" "\<forall>d \<in> set (ic_inbox (ch_peer c)). \<forall>m. wire_msg d = Some m \<longrightarrow> ms_type m \<noteq> MsgRequestGeometry"
    "cons_exec c n e = (c', n')" "sys_allowed s (SeConsumer e)"
  shows "set (ic_inbox (ch_peer c')) \<subseteq> set (ic_inbox (ch_peer c))"
proof (cases e)
  case (CeAccept env pid attached ev)
  show ?thesis
  proof (cases "ev = AeReadable []")
    case True
    obtain go d where m: "peer_message env c = (go, d)" by fastforce
    have "c' = (if go then d else d\<lparr>ch_peerGone := True\<rparr>)" using assms(3,4) CeAccept True m by simp
    then show ?thesis using message_sim [OF assms(1,2) m] by auto
  next
    case False
    then show ?thesis using assms(3,4) CeAccept by (auto simp: refuse_extra_def Let_def split: prod.splits)
  qed
next
  case (CeAcquire env)
  then show ?thesis using assms(3) by (auto simp: frame_round_def take_pending_def split: if_splits)
next
  case (CeLease f)
  then show ?thesis using assms(3) api_inbox(6) [of c n f "Some 0"] by (auto split: prod.splits)
next
  case (CeRetain k)
  then show ?thesis using assms(3) api_inbox(7) [of c n k "Some 0"] by (auto split: prod.splits)
qed (use assms(3) api_inbox(1-5) collect_inbox in auto)

lemma sys_step_sim:
  assumes "sys_rep s" "sys_allowed s e"
  shows "tl_step\<^sup>*\<^sup>* (sys_abs s) (sys_abs (sys_exec s e)) \<and> sys_rep (sys_exec s e)"
proof (cases e)
  case (SeProducer pe)
  let ?p = "sm_producer s" and ?c = "sm_consumer s"
  obtain r p' where x: "prod_exec ?p pe = (r, p')" by fastforce
  let ?ds = "newly_sent (ch_link ?p) (ch_link p')"
  have inv: "prod_inv ?p" "cons_inv ?c (sm_next s)" using assms(1) by (simp_all add: sys_rep_def)
  have sh: "prod_shows (sys_abs s) ?p" by (simp add: prod_shows_def sys_abs_def)
  note sim = prod_sim [OF inv(1) sh x assms(2) [unfolded SeProducer]]
  have "sys_abs (sys_exec s e) = prod_next (sys_abs s) p' ?ds"
    by (simp add: SeProducer x sys_abs_def prod_next_def enqueue_def map_filter_app held_frames_def pending_frames_def)
  moreover have "prod_inv p'"
    by (rule producer_step_inv [OF inv(1) x]) (use assms(2) SeProducer in auto)
  moreover have "cons_inv (?c\<lparr>ch_peer := l\<rparr>) (sm_next s)" for l using inv(2) by (simp add: cons_inv_def cons_frames_def)
  ultimately show ?thesis using sim assms(1) by (auto simp: SeProducer x sys_rep_def enqueue_def)
next
  case (SeConsumer ce)
  let ?p = "sm_producer s" and ?c = "sm_consumer s"
  obtain c' n' where x: "cons_exec ?c (sm_next s) ce = (c', n')" by fastforce
  let ?ds = "newly_sent (ch_peer ?c) (ch_peer c')"
  have inv: "prod_inv ?p" "cons_inv ?c (sm_next s)" using assms(1) by (simp_all add: sys_rep_def)
  have ng: "\<forall>d \<in> set (ic_inbox (ch_peer ?c)). \<forall>m. wire_msg d = Some m \<longrightarrow> ms_type m \<noteq> MsgRequestGeometry" using assms(1) by (simp add: sys_rep_def)
  have sh: "cons_shows (sys_abs s) ?c" by (simp add: cons_shows_def sys_abs_def)
  have "tl_step\<^sup>*\<^sup>* (sys_abs s) (cons_next (sys_abs s) c' ?ds)"
    by (rule cons_sim [OF inv(2) sh ng x assms(2) [unfolded SeConsumer] refl])
  moreover have "sys_abs (sys_exec s e) = cons_next (sys_abs s) c' ?ds"
  proof -
    have "announced (?p\<lparr>ch_link := enqueue ?ds (ch_link ?p)\<rparr>) = announced ?p \<union> set (List.map_filter wire_release ?ds)"
      by (simp add: announced_def enqueue_def map_filter_app Un_assoc)
    then show ?thesis by (simp add: SeConsumer x sys_abs_def cons_next_def published_def)
  qed
  moreover have "prod_inv (?p\<lparr>ch_link := l\<rparr>)" for l using inv(1) prod_inv_cong [of "?p\<lparr>ch_link := l\<rparr>" ?p] by (simp add: prod_view_def)
  moreover have "cons_inv c' n'" by (rule consumer_step_inv [OF inv(2) x])
  moreover have "set (ic_inbox (ch_peer c')) \<subseteq> set (ic_inbox (ch_peer ?c))"
    by (rule cons_inbox [OF sh ng x assms(2) [unfolded SeConsumer]])
  ultimately show ?thesis using ng by (auto simp: SeConsumer x sys_rep_def)
qed

lemma fresh_inv:
  assumes "sys_fresh s"
  shows "tl_inv (sys_abs s)"
proof -
  have "leased_frames (ch_readers (sm_consumer s)) = []" using assms leased_empty by (simp add: sys_fresh_def)
  moreover have "ch_submittingValue (sm_producer s) = 0" using assms by (auto simp: sys_fresh_def sys_rep_def prod_inv_def)
  ultimately show ?thesis
    using assms by (auto simp: sys_fresh_def sys_abs_def tl_inv_def tl_flow_def held_frames_def pending_frames_def announced_def published_def)
qed

lemma run_inv: "sys_run s0 s \<Longrightarrow> sys_fresh s0 \<Longrightarrow> sys_rep s \<and> tl_inv (sys_abs s)"
proof (induction rule: sys_run.induct)
  case (start s)
  then show ?case using fresh_inv by (simp add: sys_fresh_def)
next
  case (step s s1 e)
  then have "sys_rep s1" "tl_inv (sys_abs s1)" by simp_all
  then show ?case using sys_step_sim [OF _ step.hyps(2)] tl_steps_inv by blast
qed

section \<open>Properties\<close>

text \<open>
  C5. The channel implements the timeline contract.  Every call on either side and every message the consumer handles,
  with any answers of the kernel, is a sequence of steps of the abstract timeline on the states the system represents:
  the producer's slot values and published counter, the releases announced to it (applied, waiting for a fence, or still in
  its socket), and the frames leased, held, pending and in flight to the consumer.
\<close>
theorem system_refines_timeline:
  assumes "sys_rep s" "sys_allowed s e"
  shows "tl_step\<^sup>*\<^sup>* (sys_abs s) (sys_abs (sys_exec s e)) \<and> sys_rep (sys_exec s e)"
  using assms by (rule sys_step_sim)

lemma example_system_rep: "sys_rep example_system" "sys_fresh example_system"
proof -
  have "prod_inv example_idle" by (simp add: example_idle_def example_producer_def new_channel_def prod_inv_def)
  then have p: "prod_inv (sm_producer example_system)" by (simp add: example_system_def)
  have c: "cons_inv (sm_consumer example_system) 1"
    using ledger_inv_init(1) [of 1] by (simp add: example_system_def cons_inv_def cons_frames_def example_ring_def new_channel_def sync_init_def)
  show "sys_rep example_system" using p c by (simp add: sys_rep_def) (simp add: example_system_def ipc_null_def)
  then show "sys_fresh example_system"
    by (simp add: sys_fresh_def) (simp add: example_system_def example_idle_def example_producer_def example_ring_def new_channel_def sync_init_def ledger_init_def
      ledger_empty_def ipc_null_def)
qed

theorem system_refines_timeline_witness:
  "tl_step\<^sup>*\<^sup>* (sys_abs example_system) (sys_abs (sys_exec example_system (SeProducer (PeRound example_env [])))) \<and>
   sys_rep (sys_exec example_system (SeProducer (PeRound example_env [])))"
  using system_refines_timeline [OF example_system_rep(1), of "SeProducer (PeRound example_env [])"] by simp

text \<open>
  C1. A slot is never reused while it is being read.  In every run of a producer and a consumer from a fresh attachment,
  whatever the order of calls and messages and whatever the kernel answers, a buffer that the producer acquires is in a
  slot of which the consumer neither leases, holds nor has pending a frame, nor will receive one that is still in
  flight.  The slots of all those frames still carry exactly the value of their frame.
\<close>
theorem no_reuse_while_read:
  assumes "sys_fresh s0" "sys_run s0 s"
    "acquire_round (\<lambda>k. env) (\<lambda>k. []) 0 (sm_producer s, Some b) = (Some FL_OK, p', Some b')"
  shows "bf_slot b' \<notin> slots_in_use s \<and>
    (\<forall>(i, v) \<in> set (tl_flow (sys_abs s)). ch_slotSubmitValue (sm_producer s) ! unat i = v \<and> ch_consumedValue (sm_producer s) < v)"
proof -
  let ?p = "sm_producer s"
  have rep: "sys_rep s" "tl_inv (sys_abs s)" using run_inv [OF assms(2,1)] by simp_all
  have use: "slots_in_use s = fst ` set (tl_flow (sys_abs s))" by (simp add: slots_in_use_def tl_flow_def sys_abs_def)
  from assms(3) obtain ch2 i where i: "prod_view ch2 = prod_view ?p" "i < length (ch_images ?p)" "p' = take_slot ch2 i" "b' = slot_buffer ?p i"
    by (auto elim: acquire_round_ok)
  have sh: "prod_shows (sys_abs s) ?p" by (simp add: prod_shows_def sys_abs_def)
  have inv: "prod_inv ?p" using rep(1) by (simp add: sys_rep_def)
  let ?t = "prod_next (sys_abs s) p' []"
  have ti: "tl_inv ?t" using round_sim [OF inv sh assms(3)] tl_steps_inv rep(2) by blast
  have "tl_flow ?t = tl_flow (sys_abs s)" by (simp add: prod_next_def tl_flow_def)
  moreover have "tl_slots ?t ! i = UINT64_MAX"
    using i(1,2) inv by (simp add: prod_next_def i(3) take_slot_def prod_inv_def prod_view_def)
  ultimately have "\<forall>x \<in> set (tl_flow (sys_abs s)). unat (fst x) \<noteq> i" using tl_covered_not_in_flow(2) [OF ti] by metis
  moreover have "unat (bf_slot b') = i" using i(2,4) inv by (simp add: slot_buffer_def prod_inv_def unat_of_nat32)
  ultimately have "bf_slot b' \<notin> slots_in_use s" unfolding use by auto
  moreover have "\<forall>x \<in> set (tl_flow (sys_abs s)). tl_slots (sys_abs s) ! unat (fst x) = snd x \<and> ch_consumedValue ?p < snd x"
    using rep(2) by (auto simp: tl_inv_def sys_abs_def announced_def)
  ultimately show ?thesis by (auto simp: sys_abs_def)
qed

theorem no_reuse_while_read_witness:
  "\<exists>p' b'. acquire_round (\<lambda>k. example_env) (\<lambda>k. []) 0 (sm_producer example_system, Some \<lparr>bf_slot = 7, bf_image = None\<rparr>) = (Some FL_OK, p', Some b') \<and>
     bf_slot b' \<notin> slots_in_use example_system"
proof -
  let ?p = "sm_producer example_system"
  have "find (slot_free example_idle) [0..<length (ch_images example_idle)] = Some 0"
    by (simp add: example_idle_def example_producer_def new_channel_def slot_free_def refs_busy_def refs_init_def)
  then have "find (slot_free ?p) [0..<length (ch_images ?p)] = Some 0" by (simp add: example_system_def)
  then have "acquire_round (\<lambda>k. example_env) (\<lambda>k. []) 0 (?p, Some \<lparr>bf_slot = 7, bf_image = None\<rparr>) = (Some FL_OK, take_slot ?p 0, Some (slot_buffer ?p 0))"
    by (subst quiet_round) (simp_all, simp_all add: example_system_def example_idle_def example_producer_def new_channel_def ipc_null_def sync_init_def)
  then show ?thesis using no_reuse_while_read [OF example_system_rep(2) sys_run.start] by blast
qed

lemma send_release_msg:
  assumes "send_release env c slot v fd = (True, c')" "env_ok env"
  shows "\<exists>d. newly_sent (ch_peer c) (ch_peer c') = [d] \<and>
    wire_msg d = Some \<lparr>ms_type = MsgFrameReleased, ms_payload = frame_bytes (release_message slot v), ms_fds = (if fd \<ge> 0 then [fd] else [])\<rparr>"
proof -
  let ?p = "frame_bytes (release_message slot v)" and ?f = "if fd \<ge> 0 then Some [fd] else None" and ?n = "if fd \<ge> 0 then 1 else 0 :: nat"
  have len: "length ?p = 24" by (simp add: length_frame_bytes)
  then have ne: "?p \<noteq> []" by (metis list.size(3) zero_neq_numeral)
  have "sendWithFds (en_sendmsg env) (ch_peer c) MsgFrameReleased (Some ?p) (length ?p) ?f ?n = (True, ch_peer c')"
    using assms(1) len by (auto simp: send_release_def split: prod.splits)
  moreover have "length ?p \<le> kBufferSize - headerSize" by (simp add: len)
  moreover have "?f = None \<and> ?n = 0 \<or> (\<exists>fd. ?f = Some [fd] \<and> ?n = 1)" by simp
  ultimately have "\<exists>d. newly_sent (ch_peer c) (ch_peer c') = [d] \<and> wire_msg d = Some \<lparr>ms_type = MsgFrameReleased, ms_payload = ?p, ms_fds = (if ?n = 0 then [] else the ?f)\<rparr>"
    using sendWithFds_sent [OF _ ne] by blast
  then show ?thesis by (cases "fd \<ge> 0") simp_all
qed

lemma recv_queued:
  assumes "ic_connected l" "ic_inbox l = d # rest" "wire_msg d = Some m"
  shows "ipc_recv l = (Some m, l\<lparr>ic_inbox := rest\<rparr>, [])"
proof -
  obtain magic p1 where 1: "le_get 4 (dg_bytes d) = (magic :: u32, p1)" by fastforce
  obtain type p2 where 2: "le_get 4 p1 = (type :: u32, p2)" by fastforce
  obtain sz p3 where 3: "le_get 4 p2 = (sz :: u32, p3)" by fastforce
  show ?thesis using assms by (auto simp: ipc_recv_def wire_msg_def ipc_null_def Let_def 1 2 3 split: if_splits)
qed

text \<open>A queued release without a fence counts at the next look.\<close>

lemma drain_release:
  assumes "ic_connected (ch_link p)" "ic_inbox (ch_link p) = [d]" "sy_releases (ch_sync p) = []"
    "wire_msg d = Some \<lparr>ms_type = MsgFrameReleased, ms_payload = frame_bytes (release_message slot v), ms_fds = []\<rparr>"
  shows "let q = drainProducerMessages env p in ic_connected (ch_link q) \<and> sy_releases (ch_sync q) = [] \<and>
    ch_consumedValue q = (if v > ch_consumedValue p then v else ch_consumedValue p)"
proof -
  let ?m = "\<lparr>ms_type = MsgFrameReleased, ms_payload = frame_bytes (release_message slot v), ms_fds = []\<rparr>"
  let ?p = "p\<lparr>ch_link := (ch_link p)\<lparr>ic_inbox := []\<rparr>\<rparr>" let ?q = "applyRelease env ?p ?m"
  have r: "recv_link p = (Some ?m, ?p)" using recv_queued [OF assms(1,2,4)] by (simp add: recv_link_def log_closed_def)
  have "drainProducerMessages env p = drainProducerMessages env ?q"
    using assms(2) r by (simp add: drainProducerMessages.simps [of env p])
  also have "\<dots> = ?q" by (simp add: drainProducerMessages.simps [of env ?q])
  finally have e: "drainProducerMessages env p = ?q" .
  have "applyRelease env ?p ?m = advance_consumed env (?p\<lparr>ch_sync := (ch_sync p)\<lparr>sy_releases := [(v, -1)]\<rparr>\<rparr>)"
    using assms(3) by (simp add: applyRelease_def log_closed_def) (simp add: release_message_def)
  then show ?thesis using assms(1) unfolding Let_def e
    by (simp add: advance_consumed_def sync_advance_def log_closed_def fenceReady_def)
qed



end
