(* ===== verification/FL_Memory.thy ===== *)
theory FL_Memory
  imports FL_Prelude
begin

text \<open>
  The opt-in boundary memory policy: \<^verbatim>\<open>include/framelink_memory.h\<close> and the whole of
  \<^verbatim>\<open>src/framelink_memory.cpp\<close>.  Requirements and candidate paths are bit masks; the policy
  evaluates one endpoint, combines the requirements of several participants, evaluates a
  whole boundary, and exchanges requirements in a 64-byte message.
\<close>

section \<open>Data\<close>

datatype flMemoryResult =
    FL_MEMORY_OK | FL_MEMORY_INVALID | FL_MEMORY_VERSION_MISMATCH | FL_MEMORY_INCOMPATIBLE

abbreviation FL_MEMORY_VERSION :: u32 where "FL_MEMORY_VERSION \<equiv> 1"
abbreviation FL_MEMORY_REQUIREMENTS_WIRE_SIZE :: nat where "FL_MEMORY_REQUIREMENTS_WIRE_SIZE \<equiv> 64"
abbreviation FL_MEMORY_CPU_READ :: u32 where "FL_MEMORY_CPU_READ \<equiv> 0x01"
abbreviation FL_MEMORY_CPU_WRITE :: u32 where "FL_MEMORY_CPU_WRITE \<equiv> 0x02"
abbreviation FL_MEMORY_GPU_SAMPLE :: u32 where "FL_MEMORY_GPU_SAMPLE \<equiv> 0x04"
abbreviation FL_MEMORY_GPU_RENDER :: u32 where "FL_MEMORY_GPU_RENDER \<equiv> 0x08"
abbreviation FL_MEMORY_USAGE_ALL :: u32 where "FL_MEMORY_USAGE_ALL \<equiv> 0x1f"
abbreviation FL_MEMORY_SHARED_CPU :: u32 where "FL_MEMORY_SHARED_CPU \<equiv> 0x01"
abbreviation FL_MEMORY_DMABUF :: u32 where "FL_MEMORY_DMABUF \<equiv> 0x04"
abbreviation FL_MEMORY_RESOURCE_ALL :: u32 where "FL_MEMORY_RESOURCE_ALL \<equiv> 0x0f"
abbreviation FL_MEMORY_COPY :: u32 where "FL_MEMORY_COPY \<equiv> 0x01"
abbreviation FL_MEMORY_OPERATIONS_ALL :: u32 where "FL_MEMORY_OPERATIONS_ALL \<equiv> 0x0f"
abbreviation FL_MEMORY_MAX_ENDPOINTS :: nat where "FL_MEMORY_MAX_ENDPOINTS \<equiv> 16"

text \<open>\<open>mr_reserved\<close> is \<^verbatim>\<open>uint32_t reserved[3]\<close>, \<open>mp_reserved\<close> is \<^verbatim>\<open>uint32_t reserved[4]\<close>.\<close>

record flMemoryRequirements =
  mr_version :: u32
  mr_requiredUsage :: u32
  mr_preferredUsage :: u32
  mr_allowedResourceTypes :: u32
  mr_allowedOperations :: u32
  mr_reserved :: "u32 list"

record flMemoryPath =
  mp_version :: u32
  mp_resourceType :: u32
  mp_supportedUsage :: u32
  mp_operations :: u32
  mp_reserved :: "u32 list"

record flMemoryDecision =
  md_missingRequiredUsage :: u32
  md_unmetPreferredUsage :: u32
  md_rejectedResourceType :: u32
  md_forbiddenOperations :: u32

section \<open>Local helpers\<close>

fun zero_words :: "u32 list \<Rightarrow> bool" where
  "zero_words [] = True"
| "zero_words (v # vs) = (if v \<noteq> 0 then False else zero_words vs)"

definition memory_put :: "u32 \<Rightarrow> u8 list" where
  "memory_put v = le_put 4 v"

definition memory_get :: "u8 list \<Rightarrow> u32 \<times> u8 list" where
  "memory_get p = le_get 4 p"

definition zero_requirements :: flMemoryRequirements where
  "zero_requirements = \<lparr>mr_version = 0, mr_requiredUsage = 0, mr_preferredUsage = 0,
     mr_allowedResourceTypes = 0, mr_allowedOperations = 0, mr_reserved = replicate 3 0\<rparr>"

definition zero_decision :: flMemoryDecision where
  "zero_decision = \<lparr>md_missingRequiredUsage = 0, md_unmetPreferredUsage = 0,
     md_rejectedResourceType = 0, md_forbiddenOperations = 0\<rparr>"

section \<open>Operations\<close>

definition flMemoryRequirementsInit ::
  "flMemoryRequirements option \<Rightarrow> flMemoryResult \<times> flMemoryRequirements option" where
  "flMemoryRequirementsInit out =
     (if out = None then (FL_MEMORY_INVALID, out)
      else (FL_MEMORY_OK, assign out (zero_requirements
        \<lparr>mr_version := FL_MEMORY_VERSION, mr_allowedResourceTypes := FL_MEMORY_RESOURCE_ALL\<rparr>)))"

fun flMemoryRequirementsValidate :: "flMemoryRequirements option \<Rightarrow> flMemoryResult" where
  "flMemoryRequirementsValidate None = FL_MEMORY_INVALID"
| "flMemoryRequirementsValidate (Some r) =
     (if mr_version r \<noteq> FL_MEMORY_VERSION then FL_MEMORY_VERSION_MISMATCH
      else if (mr_requiredUsage r OR mr_preferredUsage r) AND NOT FL_MEMORY_USAGE_ALL \<noteq> 0 \<or>
        mr_allowedResourceTypes r = 0 \<or> mr_allowedResourceTypes r AND NOT FL_MEMORY_RESOURCE_ALL \<noteq> 0 \<or>
        mr_allowedOperations r AND NOT FL_MEMORY_OPERATIONS_ALL \<noteq> 0 \<or> \<not> zero_words (mr_reserved r)
      then FL_MEMORY_INVALID
      else FL_MEMORY_OK)"

fun flMemoryPathValidate :: "flMemoryPath option \<Rightarrow> flMemoryResult" where
  "flMemoryPathValidate None = FL_MEMORY_INVALID"
| "flMemoryPathValidate (Some p) =
     (if mp_version p \<noteq> FL_MEMORY_VERSION then FL_MEMORY_VERSION_MISMATCH
      else if mp_resourceType p = 0 \<or> mp_resourceType p AND (mp_resourceType p - 1) \<noteq> 0 \<or>
        mp_resourceType p AND NOT FL_MEMORY_RESOURCE_ALL \<noteq> 0 \<or>
        mp_supportedUsage p AND NOT FL_MEMORY_USAGE_ALL \<noteq> 0 \<or>
        mp_operations p AND NOT FL_MEMORY_OPERATIONS_ALL \<noteq> 0 \<or> \<not> zero_words (mp_reserved p)
      then FL_MEMORY_INVALID
      else FL_MEMORY_OK)"

definition memory_decision :: "flMemoryRequirements \<Rightarrow> flMemoryPath \<Rightarrow> flMemoryDecision" where
  "memory_decision r p =
     \<lparr>md_missingRequiredUsage = mr_requiredUsage r AND NOT (mp_supportedUsage p),
      md_unmetPreferredUsage = mr_preferredUsage r AND NOT (mp_supportedUsage p),
      md_rejectedResourceType = mp_resourceType p AND NOT (mr_allowedResourceTypes r),
      md_forbiddenOperations = mp_operations p AND NOT (mr_allowedOperations r)\<rparr>"

definition flMemoryEvaluate ::
  "flMemoryRequirements option \<Rightarrow> flMemoryPath option \<Rightarrow> flMemoryDecision option \<Rightarrow>
   flMemoryResult \<times> flMemoryDecision option" where
  "flMemoryEvaluate r p out =
     (if out = None then (FL_MEMORY_INVALID, out)
      else if flMemoryRequirementsValidate r \<noteq> FL_MEMORY_OK then (flMemoryRequirementsValidate r, out)
      else if flMemoryPathValidate p \<noteq> FL_MEMORY_OK then (flMemoryPathValidate p, out)
      else
        let d = memory_decision (the r) (the p)
        in (if md_missingRequiredUsage d \<noteq> 0 \<or> md_rejectedResourceType d \<noteq> 0 \<or>
               md_forbiddenOperations d \<noteq> 0
            then FL_MEMORY_INCOMPATIBLE else FL_MEMORY_OK, assign out d))"

text \<open>
  The accumulation loop of \<^verbatim>\<open>flMemoryRequirementsCombine\<close>: \<open>Inl\<close> is the early return on an
  invalid participant.  The array and its count are the list.
\<close>
fun combine_loop ::
  "flMemoryRequirements list \<Rightarrow> flMemoryRequirements \<Rightarrow> flMemoryResult + flMemoryRequirements" where
  "combine_loop [] combined = Inr combined"
| "combine_loop (r # rs) combined =
     (if flMemoryRequirementsValidate (Some r) \<noteq> FL_MEMORY_OK
      then Inl (flMemoryRequirementsValidate (Some r))
      else combine_loop rs (combined
        \<lparr>mr_requiredUsage := mr_requiredUsage combined OR mr_requiredUsage r,
         mr_preferredUsage := mr_preferredUsage combined OR mr_preferredUsage r,
         mr_allowedResourceTypes := mr_allowedResourceTypes combined AND mr_allowedResourceTypes r,
         mr_allowedOperations := mr_allowedOperations combined AND mr_allowedOperations r\<rparr>))"

definition combine_start :: flMemoryRequirements where
  "combine_start = zero_requirements\<lparr>mr_version := FL_MEMORY_VERSION,
     mr_allowedResourceTypes := FL_MEMORY_RESOURCE_ALL,
     mr_allowedOperations := FL_MEMORY_OPERATIONS_ALL\<rparr>"

definition flMemoryRequirementsCombine ::
  "flMemoryRequirements list option \<Rightarrow> flMemoryRequirements option \<Rightarrow>
   flMemoryResult \<times> flMemoryRequirements option" where
  "flMemoryRequirementsCombine requirements out =
     (case requirements of None \<Rightarrow> (FL_MEMORY_INVALID, out)
      | Some rs \<Rightarrow>
          if out = None \<or> length rs = 0 \<or> length rs > FL_MEMORY_MAX_ENDPOINTS then (FL_MEMORY_INVALID, out)
          else case combine_loop rs combine_start of
            Inl e \<Rightarrow> (e, out)
          | Inr combined \<Rightarrow>
              if mr_allowedResourceTypes combined = 0 then (FL_MEMORY_INCOMPATIBLE, out)
              else (FL_MEMORY_OK, assign out combined))"

text \<open>
  The validation loop of \<^verbatim>\<open>flMemoryEvaluateBoundary\<close>: every endpoint valid, one resource type,
  and the union of the operations performed at the boundary.
\<close>
fun boundary_operations ::
  "u32 \<Rightarrow> (flMemoryRequirements \<times> flMemoryPath) list \<Rightarrow> u32 \<Rightarrow> flMemoryResult + u32" where
  "boundary_operations ty [] operations = Inr operations"
| "boundary_operations ty ((r, p) # es) operations =
     (if flMemoryRequirementsValidate (Some r) \<noteq> FL_MEMORY_OK
      then Inl (flMemoryRequirementsValidate (Some r))
      else if flMemoryPathValidate (Some p) \<noteq> FL_MEMORY_OK then Inl (flMemoryPathValidate (Some p))
      else if mp_resourceType p \<noteq> ty then Inl FL_MEMORY_INVALID
      else boundary_operations ty es (operations OR mp_operations p))"

text \<open>The evaluation loop; each slot of the local \<^verbatim>\<open>decisions\<close> array starts zeroed.\<close>
fun boundary_evaluate ::
  "u32 \<Rightarrow> (flMemoryRequirements \<times> flMemoryPath) list \<Rightarrow> flMemoryResult \<Rightarrow>
   flMemoryResult \<times> flMemoryDecision list" where
  "boundary_evaluate operations [] result = (result, [])"
| "boundary_evaluate operations ((r, p) # es) result =
     (let (e, d) = flMemoryEvaluate (Some r) (Some (p\<lparr>mp_operations := operations\<rparr>)) (Some zero_decision);
          (result', ds) = boundary_evaluate operations es
             (if e \<noteq> FL_MEMORY_OK then FL_MEMORY_INCOMPATIBLE else result)
      in (result', the d # ds))"

definition flMemoryEvaluateBoundary ::
  "flMemoryRequirements list option \<Rightarrow> flMemoryPath list option \<Rightarrow> nat \<Rightarrow> flMemoryDecision list option \<Rightarrow>
   flMemoryResult \<times> flMemoryDecision list option" where
  "flMemoryEvaluateBoundary requirements paths count out =
     (if requirements = None \<or> paths = None \<or> out = None \<or> count = 0 \<or> count > FL_MEMORY_MAX_ENDPOINTS
      then (FL_MEMORY_INVALID, out)
      else
        let es = zip (take count (the requirements)) (take count (the paths))
        in case boundary_operations (mp_resourceType (the paths ! 0)) es 0 of
             Inl e \<Rightarrow> (e, out)
           | Inr operations \<Rightarrow>
               let (result, ds) = boundary_evaluate operations es FL_MEMORY_OK
               in (result, Some (ds @ drop count (the out))))"

definition memory_fields :: "flMemoryRequirements \<Rightarrow> u8 list" where
  "memory_fields r = memory_put 0x31524d46 @ memory_put (mr_version r) @
     memory_put (mr_requiredUsage r) @ memory_put (mr_preferredUsage r) @
     memory_put (mr_allowedResourceTypes r) @ memory_put (mr_allowedOperations r)"

definition memory_wire :: "flMemoryRequirements \<Rightarrow> u8 list" where
  "memory_wire r = memory_fields r @
     replicate (FL_MEMORY_REQUIREMENTS_WIRE_SIZE - length (memory_fields r)) 0"

definition flMemoryRequirementsEncode ::
  "flMemoryRequirements option \<Rightarrow> u8 list option \<Rightarrow> nat \<Rightarrow> flMemoryResult \<times> u8 list option" where
  "flMemoryRequirementsEncode r data sz =
     (if data = None \<or> sz \<noteq> FL_MEMORY_REQUIREMENTS_WIRE_SIZE then (FL_MEMORY_INVALID, data)
      else if flMemoryRequirementsValidate r \<noteq> FL_MEMORY_OK then (flMemoryRequirementsValidate r, data)
      else (FL_MEMORY_OK, assign data (memory_wire (the r))))"

definition flMemoryRequirementsDecode ::
  "u8 list option \<Rightarrow> nat \<Rightarrow> flMemoryRequirements option \<Rightarrow>
   flMemoryResult \<times> flMemoryRequirements option" where
  "flMemoryRequirementsDecode data sz out =
     (if data = None \<or> out = None \<or> sz \<noteq> FL_MEMORY_REQUIREMENTS_WIRE_SIZE then (FL_MEMORY_INVALID, out)
      else
        let (magic, p0) = memory_get (the data)
        in if magic \<noteq> 0x31524d46 then (FL_MEMORY_INVALID, out)
        else
          let (version, p1) = memory_get p0
          in if version \<noteq> FL_MEMORY_VERSION then (FL_MEMORY_VERSION_MISMATCH, out)
          else
            let (requiredUsage, p2) = memory_get p1; (preferredUsage, p3) = memory_get p2;
                (allowedResourceTypes, p4) = memory_get p3; (allowedOperations, p5) = memory_get p4;
                r = \<lparr>mr_version = version, mr_requiredUsage = requiredUsage,
                  mr_preferredUsage = preferredUsage, mr_allowedResourceTypes = allowedResourceTypes,
                  mr_allowedOperations = allowedOperations, mr_reserved = replicate 3 0\<rparr>
            in if list_ex (\<lambda>b. b \<noteq> 0) p5 then (FL_MEMORY_INVALID, out)
               else (flMemoryRequirementsValidate (Some r),
                     if flMemoryRequirementsValidate (Some r) = FL_MEMORY_OK then assign out r else out))"

section \<open>Specification vocabulary\<close>

text \<open>Mask inclusion: every bit of the first is a bit of the second.\<close>
definition mask_le :: "u32 \<Rightarrow> u32 \<Rightarrow> bool" where
  "mask_le a b \<longleftrightarrow> (\<forall>n. bit a n \<longrightarrow> bit b n)"

text \<open>What "this endpoint accepts this path" means, without reference to the evaluator.\<close>
definition path_accepted :: "flMemoryRequirements \<Rightarrow> flMemoryPath \<Rightarrow> bool" where
  "path_accepted r p \<longleftrightarrow> mask_le (mr_requiredUsage r) (mp_supportedUsage p) \<and>
     mask_le (mp_resourceType p) (mr_allowedResourceTypes r) \<and>
     mask_le (mp_operations p) (mr_allowedOperations r)"

definition wf_requirements :: "flMemoryRequirements \<Rightarrow> bool" where
  "wf_requirements r \<longleftrightarrow> length (mr_reserved r) = 3"

definition memory_decode_bytes :: "u8 list \<Rightarrow> flMemoryRequirements option" where
  "memory_decode_bytes bs =
     (if length bs = FL_MEMORY_REQUIREMENTS_WIRE_SIZE
      then case flMemoryRequirementsDecode (Some bs) (length bs) (Some zero_requirements) of
             (r, out) \<Rightarrow> if r = FL_MEMORY_OK then out else None
      else None)"

definition strict_requirements :: flMemoryRequirements where
  "strict_requirements = \<lparr>mr_version = 1, mr_requiredUsage = 4, mr_preferredUsage = 8,
     mr_allowedResourceTypes = 4, mr_allowedOperations = 0, mr_reserved = [0, 0, 0]\<rparr>"

definition dmabuf_path :: flMemoryPath where
  "dmabuf_path = \<lparr>mp_version = 1, mp_resourceType = 4, mp_supportedUsage = 12, mp_operations = 0,
     mp_reserved = [0, 0, 0, 0]\<rparr>"

text \<open>The two validators are unfolded only where a proof asks for it.\<close>
declare flMemoryRequirementsValidate.simps [simp del] flMemoryPathValidate.simps [simp del]

section \<open>Lemmas on masks\<close>

lemma bit_u32_less: "bit (a :: u32) n \<Longrightarrow> n < 32"
  by (drule bit_imp_le_length) simp

lemma mask_le_iff: "a AND NOT b = 0 \<longleftrightarrow> mask_le a b"
  by (auto simp: mask_le_def bit_eq_iff bit_and_iff bit_not_iff dest: bit_u32_less)

text \<open>The same for the two constant masks, in the form the simplifier gives their complements.\<close>
lemma mask_le_known: "a AND - 16 = 0 \<longleftrightarrow> mask_le a 0x0f" "a AND - 32 = 0 \<longleftrightarrow> mask_le a 0x1f"
  using mask_le_iff [of a "0x0f"] mask_le_iff [of a "0x1f"] by simp_all

lemma mask_le_or: "mask_le (a OR b) c \<longleftrightarrow> mask_le a c \<and> mask_le b c"
  by (auto simp: mask_le_def bit_or_iff)

lemma mask_le_and: "mask_le a (b AND c) \<longleftrightarrow> mask_le a b \<and> mask_le a c"
  by (auto simp: mask_le_def bit_and_iff)

lemma mask_le_zero [simp]: "mask_le 0 a"
  by (simp add: mask_le_def)

lemma mask_le_trans: "mask_le a b \<Longrightarrow> mask_le b c \<Longrightarrow> mask_le a c"
  by (simp add: mask_le_def)

lemma zero_words_iff: "zero_words vs \<longleftrightarrow> (\<forall>v \<in> set vs. v = 0)"
  by (induction vs) auto

lemma requirements_valid_iff:
  "flMemoryRequirementsValidate (Some r) = FL_MEMORY_OK \<longleftrightarrow>
     mr_version r = FL_MEMORY_VERSION \<and> mask_le (mr_requiredUsage r) FL_MEMORY_USAGE_ALL \<and>
     mask_le (mr_preferredUsage r) FL_MEMORY_USAGE_ALL \<and> mr_allowedResourceTypes r \<noteq> 0 \<and>
     mask_le (mr_allowedResourceTypes r) FL_MEMORY_RESOURCE_ALL \<and>
     mask_le (mr_allowedOperations r) FL_MEMORY_OPERATIONS_ALL \<and> (\<forall>v \<in> set (mr_reserved r). v = 0)"
  by (auto simp: flMemoryRequirementsValidate.simps mask_le_known mask_le_or zero_words_iff)

lemma path_valid_operations:
  "flMemoryPathValidate (Some p) = FL_MEMORY_OK \<Longrightarrow> mask_le (mp_operations p) FL_MEMORY_OPERATIONS_ALL"
  by (auto simp: flMemoryPathValidate.simps mask_le_known split: if_splits)

lemma path_valid_set_operations:
  "flMemoryPathValidate (Some p) = FL_MEMORY_OK \<Longrightarrow> mask_le ops FL_MEMORY_OPERATIONS_ALL \<Longrightarrow>
   flMemoryPathValidate (Some (p\<lparr>mp_operations := ops\<rparr>)) = FL_MEMORY_OK"
  by (auto simp: flMemoryPathValidate.simps mask_le_known split: if_splits)

lemma low4_cases:
  assumes "mask_le (t :: u32) 0x0f"
  shows "t \<in> {0,1,2,3,4,5,6,7,8,9,10,11,12,13,14,15}"
proof -
  have "t = t AND 0x0f"
    using assms by (intro bit_eqI) (auto simp: mask_le_def bit_and_iff)
  then have "t \<le> 0x0f" by (metis word_and_le1)
  then have "unat t \<le> 15" by (simp add: word_le_nat_alt)
  then have "unat t \<in> {0,1,2,3,4,5,6,7,8,9,10,11,12,13,14,15}"
    by (simp only: insert_iff empty_iff) arith
  then have "of_nat (unat t) \<in> (of_nat ` {0,1,2,3,4,5,6,7,8,9,10,11,12,13,14,15} :: u32 set)" by blast
  then show ?thesis by simp
qed

lemma single_resource:
  "t \<noteq> 0 \<and> t AND (t - 1) = 0 \<and> mask_le t FL_MEMORY_RESOURCE_ALL \<longleftrightarrow> t \<in> {1, 2, 4, 8 :: u32}"
proof
  assume "t \<noteq> 0 \<and> t AND (t - 1) = 0 \<and> mask_le t FL_MEMORY_RESOURCE_ALL"
  then show "t \<in> {1, 2, 4, 8}" using low4_cases [of t] by auto
next
  assume "t \<in> {1, 2, 4, 8}"
  then show "t \<noteq> 0 \<and> t AND (t - 1) = 0 \<and> mask_le t FL_MEMORY_RESOURCE_ALL"
    by (auto simp flip: mask_le_iff)
qed

section \<open>Lemmas on evaluation\<close>

lemma evaluate_result:
  assumes "flMemoryRequirementsValidate (Some r) = FL_MEMORY_OK"
    and "flMemoryPathValidate (Some p) = FL_MEMORY_OK"
  shows "flMemoryEvaluate (Some r) (Some p) (Some d) =
    (if path_accepted r p then FL_MEMORY_OK else FL_MEMORY_INCOMPATIBLE, Some (memory_decision r p))"
  using assms
  by (auto simp: flMemoryEvaluate_def memory_decision_def path_accepted_def mask_le_iff [symmetric])

lemma combine_loop_Inr:
  assumes "combine_loop rs acc = Inr c"
  shows "(\<forall>r \<in> set rs. flMemoryRequirementsValidate (Some r) = FL_MEMORY_OK) \<and>
    mr_version c = mr_version acc \<and> mr_reserved c = mr_reserved acc \<and>
    (\<forall>p. path_accepted c p \<longleftrightarrow> path_accepted acc p \<and> (\<forall>r \<in> set rs. path_accepted r p)) \<and>
    (\<forall>m. mask_le (mr_preferredUsage c) m \<longleftrightarrow> mask_le (mr_preferredUsage acc) m \<and>
        (\<forall>r \<in> set rs. mask_le (mr_preferredUsage r) m)) \<and>
    (\<forall>m. mask_le (mr_requiredUsage c) m \<longleftrightarrow> mask_le (mr_requiredUsage acc) m \<and>
        (\<forall>r \<in> set rs. mask_le (mr_requiredUsage r) m)) \<and>
    mask_le (mr_allowedResourceTypes c) (mr_allowedResourceTypes acc) \<and>
    mask_le (mr_allowedOperations c) (mr_allowedOperations acc)"
  using assms
proof (induction rs arbitrary: acc)
  case Nil
  then show ?case by (simp add: mask_le_def)
next
  case (Cons r rs)
  let ?acc = "acc\<lparr>mr_requiredUsage := mr_requiredUsage acc OR mr_requiredUsage r,
         mr_preferredUsage := mr_preferredUsage acc OR mr_preferredUsage r,
         mr_allowedResourceTypes := mr_allowedResourceTypes acc AND mr_allowedResourceTypes r,
         mr_allowedOperations := mr_allowedOperations acc AND mr_allowedOperations r\<rparr>"
  from Cons.prems have ok: "flMemoryRequirementsValidate (Some r) = FL_MEMORY_OK"
    and rest: "combine_loop rs ?acc = Inr c"
    by (simp_all split: if_splits)
  have acc: "path_accepted ?acc p \<longleftrightarrow> path_accepted acc p \<and> path_accepted r p" for p
    by (auto simp: path_accepted_def mask_le_or mask_le_and)
  show ?case
    using Cons.IH [OF rest] ok
    by (auto simp: acc mask_le_or mask_le_and)
qed

lemma boundary_operations_Inr:
  assumes "boundary_operations ty es ops0 = Inr ops"
  shows "(\<forall>(r, p) \<in> set es. flMemoryRequirementsValidate (Some r) = FL_MEMORY_OK \<and>
      flMemoryPathValidate (Some p) = FL_MEMORY_OK \<and> mp_resourceType p = ty) \<and>
    (\<forall>n. bit ops n \<longleftrightarrow> bit ops0 n \<or> (\<exists>(r, p) \<in> set es. bit (mp_operations p) n))"
  using assms
proof (induction ty es ops0 rule: boundary_operations.induct)
  case (2 ty r p es operations)
  then show ?case
    by (simp add: bit_or_iff disj_assoc split: if_splits)
qed simp

lemma boundary_evaluate_result:
  assumes "\<forall>(r, p) \<in> set es. flMemoryRequirementsValidate (Some r) = FL_MEMORY_OK \<and>
      flMemoryPathValidate (Some p) = FL_MEMORY_OK"
    and "mask_le ops FL_MEMORY_OPERATIONS_ALL" "res \<in> {FL_MEMORY_OK, FL_MEMORY_INCOMPATIBLE}"
  shows "boundary_evaluate ops es res =
    (if \<forall>(r, p) \<in> set es. path_accepted r (p\<lparr>mp_operations := ops\<rparr>) then res else FL_MEMORY_INCOMPATIBLE,
     map (\<lambda>(r, p). memory_decision r (p\<lparr>mp_operations := ops\<rparr>)) es)"
  using assms
proof (induction es arbitrary: res)
  case (Cons e es)
  obtain r p where [simp]: "e = (r, p)" by fastforce
  have ev: "flMemoryEvaluate (Some r) (Some (p\<lparr>mp_operations := ops\<rparr>)) (Some zero_decision) =
    (if path_accepted r (p\<lparr>mp_operations := ops\<rparr>) then FL_MEMORY_OK else FL_MEMORY_INCOMPATIBLE,
     Some (memory_decision r (p\<lparr>mp_operations := ops\<rparr>)))"
    using Cons.prems by (intro evaluate_result path_valid_set_operations) (auto)
  show ?case
    using Cons.prems Cons.IH [of "if path_accepted r (p\<lparr>mp_operations := ops\<rparr>) then res else FL_MEMORY_INCOMPATIBLE"]
    by (cases "path_accepted r (p\<lparr>mp_operations := ops\<rparr>)")
      (simp_all add: ev)
qed simp

text \<open>The early returns of the two loops are failures.\<close>

lemma combine_loop_not_ok: "combine_loop rs acc \<noteq> Inl FL_MEMORY_OK"
  by (induction rs arbitrary: acc) (auto)

lemma boundary_operations_not_ok: "boundary_operations ty es ops \<noteq> Inl FL_MEMORY_OK"
  by (induction ty es ops rule: boundary_operations.induct)
    (auto)

section \<open>Lemmas on the codec\<close>

lemma length_memory_put [simp]: "length (memory_put v) = 4"
  by (simp add: memory_put_def)

lemma memory_get_put [wire_simps]: "memory_get (memory_put v @ xs) = (v, xs)"
  using le_get_le_put [of 4 v xs] by (simp add: memory_put_def memory_get_def)

lemma memory_get_val: "4 \<le> length p \<Longrightarrow> memory_get p = (le_val (take 4 p), drop 4 p)"
  by (simp add: memory_get_def le_get_val)

lemma memory_put_val: "4 \<le> length p \<Longrightarrow> memory_put (le_val (take 4 p)) = take 4 p"
  using le_put_take [of 4 p, where 'a = 32] by (simp add: memory_put_def)

lemma length_memory_fields [simp]: "length (memory_fields r) = 24"
  by (simp add: memory_fields_def)

lemma valid_reserved:
  "flMemoryRequirementsValidate (Some r) = FL_MEMORY_OK \<Longrightarrow> wf_requirements r \<Longrightarrow> mr_reserved r = replicate 3 0"
  by (auto simp: requirements_valid_iff wf_requirements_def intro!: replicate_eqI
      )

lemma memory_decode_wire:
  assumes "flMemoryRequirementsValidate (Some r) = FL_MEMORY_OK" "wf_requirements r"
  shows "flMemoryRequirementsDecode (Some (memory_wire r)) FL_MEMORY_REQUIREMENTS_WIRE_SIZE (Some out) =
    (FL_MEMORY_OK, Some r)"
proof -
  have eta: "\<lparr>mr_version = 1, mr_requiredUsage = mr_requiredUsage r, mr_preferredUsage = mr_preferredUsage r,
     mr_allowedResourceTypes = mr_allowedResourceTypes r, mr_allowedOperations = mr_allowedOperations r,
     mr_reserved = replicate 3 0\<rparr> = r" and v: "mr_version r = 1"
    using assms valid_reserved [OF assms] by (auto simp: requirements_valid_iff)
  show ?thesis
    using assms v
    by (simp add: flMemoryRequirementsDecode_def memory_wire_def memory_fields_def wire_simps eta list_ex_iff
       )
qed

lemma memory_wire_decode:
  assumes "length bs = FL_MEMORY_REQUIREMENTS_WIRE_SIZE"
    and "flMemoryRequirementsDecode (Some bs) FL_MEMORY_REQUIREMENTS_WIRE_SIZE (Some out) = (FL_MEMORY_OK, r')"
  shows "\<exists>r. r' = Some r \<and> flMemoryRequirementsValidate (Some r) = FL_MEMORY_OK \<and> wf_requirements r \<and>
    memory_wire r = bs"
proof -
  let ?w = "\<lambda>k. le_val (take 4 (drop k bs)) :: u32"
  let ?r = "\<lparr>mr_version = ?w 4, mr_requiredUsage = ?w 8, mr_preferredUsage = ?w 12,
     mr_allowedResourceTypes = ?w 16, mr_allowedOperations = ?w 20, mr_reserved = replicate 3 0\<rparr>"
  have *: "le_val (take 4 bs) = (0x31524d46 :: u32)" "\<forall>b \<in> set (drop 24 bs). b = 0"
    "flMemoryRequirementsValidate (Some ?r) = FL_MEMORY_OK" "r' = Some ?r"
    using assms
    by (auto simp: flMemoryRequirementsDecode_def memory_get_val list_ex_iff Let_def
        split: if_splits)
  have fields: "memory_fields ?r = take 24 bs"
    using assms(1) by (simp add: memory_fields_def memory_put_val take_drop_append flip: *(1))
  have "drop 24 bs = replicate 40 0"
    using * assms(1) by (intro replicate_eqI) auto
  with fields have "memory_wire ?r = bs"
    using append_take_drop_id [of 24 bs] assms(1) by (simp add: memory_wire_def)
  then show ?thesis using * by (auto simp: wf_requirements_def)
qed

lemma memory_decode_unchanged:
  "fst (flMemoryRequirementsDecode data sz out) \<noteq> FL_MEMORY_OK \<Longrightarrow>
   snd (flMemoryRequirementsDecode data sz out) = out"
  by (auto simp: flMemoryRequirementsDecode_def Let_def split: prod.splits if_splits)

interpretation memory_codec:
  wire_codec "\<lambda>r. flMemoryRequirementsValidate (Some r) = FL_MEMORY_OK \<and> wf_requirements r"
    memory_wire memory_decode_bytes FL_MEMORY_REQUIREMENTS_WIRE_SIZE
proof (unfold_locales, goal_cases)
  case (1 r)
  then show ?case by (simp add: memory_wire_def)
next
  case (2 r)
  then show ?case
    using memory_decode_wire [of r zero_requirements]
    by (simp add: memory_decode_bytes_def memory_wire_def)
next
  case (3 bs r)
  then show ?case
    using memory_wire_decode [of bs zero_requirements]
    by (force simp: memory_decode_bytes_def
        split: if_splits prod.splits)
qed

section \<open>Properties\<close>

text \<open>
  The memory-requirements message is a canonical codec: a 64-byte buffer decodes to \<open>r\<close>
  exactly when \<open>r\<close> is a valid requirement and the buffer is its encoding; a refused buffer
  leaves the output unchanged.
\<close>
theorem memory_codec_exact:
  assumes "length bs = FL_MEMORY_REQUIREMENTS_WIRE_SIZE"
  shows "(flMemoryRequirementsDecode (Some bs) 64 (Some old) = (FL_MEMORY_OK, Some r) \<longleftrightarrow>
      wf_requirements r \<and> flMemoryRequirementsEncode (Some r) (Some buf) 64 = (FL_MEMORY_OK, Some bs)) \<and>
    (fst (flMemoryRequirementsDecode (Some bs) 64 (Some old)) \<noteq> FL_MEMORY_OK \<longrightarrow>
      snd (flMemoryRequirementsDecode (Some bs) 64 (Some old)) = Some old)"
proof -
  have "flMemoryRequirementsEncode (Some r) (Some buf) 64 = (FL_MEMORY_OK, Some bs) \<longleftrightarrow>
      flMemoryRequirementsValidate (Some r) = FL_MEMORY_OK \<and> memory_wire r = bs"
    by (auto simp: flMemoryRequirementsEncode_def)
  then show ?thesis
    using memory_decode_wire [of r old] memory_wire_decode [OF assms, of old "Some r"]
      memory_decode_unchanged [of "Some bs" 64 "Some old"]
    by blast
qed

theorem memory_codec_exact_witness:
  "flMemoryRequirementsDecode (Some (memory_wire strict_requirements)) 64 (Some zero_requirements) =
     (FL_MEMORY_OK, Some strict_requirements)"
proof -
  have l: "length (memory_wire strict_requirements) = FL_MEMORY_REQUIREMENTS_WIRE_SIZE"
    by (simp add: memory_wire_def)
  have "flMemoryRequirementsEncode (Some strict_requirements) (Some []) 64 =
      (FL_MEMORY_OK, Some (memory_wire strict_requirements))" "wf_requirements strict_requirements"
    by code_simp+
  with memory_codec_exact [OF l, of zero_requirements strict_requirements "[]"] show ?thesis by blast
qed

text \<open>
  Evaluation of one endpoint: for a valid requirement and a valid path the verdict is OK exactly
  when every required usage bit is supported, the resource type is allowed and every operation is
  permitted; unmet preferences alone never reject. The four diagnostics are published in both cases.
\<close>
theorem evaluate_spec:
  assumes "flMemoryRequirementsValidate (Some r) = FL_MEMORY_OK"
    and "flMemoryPathValidate (Some p) = FL_MEMORY_OK"
  shows "flMemoryEvaluate (Some r) (Some p) (Some d) =
      (if path_accepted r p then FL_MEMORY_OK else FL_MEMORY_INCOMPATIBLE, Some (memory_decision r p)) \<and>
    mp_resourceType p \<in> {1, 2, 4, 8} \<and>
    (path_accepted r p \<longrightarrow> md_missingRequiredUsage (memory_decision r p) = 0 \<and>
       md_rejectedResourceType (memory_decision r p) = 0 \<and>
       md_forbiddenOperations (memory_decision r p) = 0)"
proof -
  have "mp_resourceType p \<in> {1, 2, 4, 8}"
    using assms(2) unfolding single_resource [symmetric]
    by (auto simp: flMemoryPathValidate.simps mask_le_known split: if_splits)
  then show ?thesis
    using evaluate_result [OF assms]
    by (simp add: memory_decision_def path_accepted_def mask_le_iff)
qed

theorem evaluate_spec_witness:
  "flMemoryEvaluate (Some strict_requirements) (Some dmabuf_path) (Some zero_decision) =
     (FL_MEMORY_OK, Some zero_decision)"
proof -
  have v: "flMemoryRequirementsValidate (Some strict_requirements) = FL_MEMORY_OK"
    "flMemoryPathValidate (Some dmabuf_path) = FL_MEMORY_OK"
    by code_simp+
  have "memory_decision strict_requirements dmabuf_path = zero_decision" by code_simp
  moreover have "path_accepted strict_requirements dmabuf_path"
    by (simp add: path_accepted_def strict_requirements_def dmabuf_path_def flip: mask_le_iff)
  ultimately show ?thesis using evaluate_spec [OF v, of zero_decision] by simp
qed



text \<open>
  C26. A copy at one endpoint cannot bypass a strict peer: if a boundary evaluates to OK then every
  operation performed by any endpoint is permitted by every endpoint, all endpoints use one
  resource type, and each endpoint supports its own required usage.
\<close>
theorem boundary_no_bypass:
  assumes "flMemoryEvaluateBoundary (Some rs) (Some ps) n (Some out) = (FL_MEMORY_OK, out')"
    and "n \<le> length rs" "n \<le> length ps" "i < n" "j < n"
  shows "mask_le (mp_operations (ps ! j)) (mr_allowedOperations (rs ! i)) \<and>
    mp_resourceType (ps ! i) = mp_resourceType (ps ! j) \<and>
    mask_le (mr_requiredUsage (rs ! i)) (mp_supportedUsage (ps ! i)) \<and>
    mask_le (mp_resourceType (ps ! i)) (mr_allowedResourceTypes (rs ! i))"
proof -
  let ?es = "zip (take n rs) (take n ps)"
  obtain ops ds where ops: "boundary_operations (mp_resourceType (ps ! 0)) ?es 0 = Inr ops"
    and ev: "boundary_evaluate ops ?es FL_MEMORY_OK = (FL_MEMORY_OK, ds)"
    using assms(1) boundary_operations_not_ok [of "mp_resourceType (ps ! 0)" ?es 0]
    by (auto simp: flMemoryEvaluateBoundary_def Let_def split: if_splits sum.splits prod.splits)
  note O = boundary_operations_Inr [OF ops]
  have mem: "(rs ! k, ps ! k) \<in> set ?es" if "k < n" for k
    using that assms(2,3) by (auto simp: set_zip intro!: exI [of _ k])
  have "mask_le ops FL_MEMORY_OPERATIONS_ALL"
    using O path_valid_operations by (fastforce simp: mask_le_def)
  then have acc: "path_accepted (rs ! i) ((ps ! i)\<lparr>mp_operations := ops\<rparr>)"
    using boundary_evaluate_result [of ?es ops FL_MEMORY_OK] O ev mem [OF assms(4)]
    by (fastforce split: if_splits)
  have "mask_le (mp_operations (ps ! j)) ops"
    using O mem [OF assms(5)] by (auto simp: mask_le_def)
  moreover have "mp_resourceType (ps ! i) = mp_resourceType (ps ! j)"
    using bspec [OF conjunct1 [OF O] mem [OF assms(4)]] bspec [OF conjunct1 [OF O] mem [OF assms(5)]]
    by simp
  ultimately show ?thesis
    using acc by (auto simp: path_accepted_def intro: mask_le_trans)
qed

theorem boundary_no_bypass_witness:
  "mask_le (mp_operations dmabuf_path) (mr_allowedOperations strict_requirements)"
proof -
  have "flMemoryEvaluateBoundary (Some [strict_requirements, strict_requirements])
      (Some [dmabuf_path, dmabuf_path]) 2 (Some []) = (FL_MEMORY_OK, Some [zero_decision, zero_decision])"
    by code_simp
  from boundary_no_bypass [OF this, of 0 1] show ?thesis by simp
qed

end
