(* ===== verification/FL_Session.thy ===== *)
theory FL_Session
  imports FL_Prelude
begin

text \<open>
  The A/V session control contract: \<^verbatim>\<open>include/framelink_session.h\<close> and the whole of
  \<^verbatim>\<open>src/framelink_session.cpp\<close>.  Format negotiation, configuration validation and
  replacement, the 160-byte wire codec, and the checked clock and sample arithmetic.
  Times are 64-bit patterns; the signed overflow checks of the code are the model's.
\<close>

section \<open>Data\<close>

datatype flSessionResult =
    FL_SESSION_OK | FL_SESSION_INVALID | FL_SESSION_VERSION_ERROR
  | FL_SESSION_INCOMPATIBLE | FL_SESSION_STALE | FL_SESSION_TIME_RANGE

abbreviation FL_SESSION_VERSION :: u32 where "FL_SESSION_VERSION \<equiv> 1"
abbreviation FL_SESSION_OPTIONAL_TRACKS_VERSION :: u32 where
  "FL_SESSION_OPTIONAL_TRACKS_VERSION \<equiv> 2"
abbreviation FL_SESSION_MAX_FORMATS :: u32 where "FL_SESSION_MAX_FORMATS \<equiv> 8"
abbreviation FL_SESSION_WIRE_SIZE :: nat where "FL_SESSION_WIRE_SIZE \<equiv> 160"
abbreviation FL_PCM_S16 :: u32 where "FL_PCM_S16 \<equiv> 1"
abbreviation FL_PCM_F32 :: u32 where "FL_PCM_F32 \<equiv> 2"
abbreviation FL_LAYOUT_MONO :: u32 where "FL_LAYOUT_MONO \<equiv> 1"
abbreviation FL_LAYOUT_STEREO :: u32 where "FL_LAYOUT_STEREO \<equiv> 2"

text \<open>\<^verbatim>\<open>struct flSessionId { uint8_t bytes[16]; }\<close>: a byte list, of length 16 where it matters.\<close>
type_synonym flSessionId = "u8 list"

record flAudioFormat =
  af_pcm :: u32
  af_rate :: u32
  af_layout :: u32

record flVideoFormat =
  vf_format :: u32
  vf_width :: u32
  vf_height :: u32
  vf_fpsNum :: u32
  vf_fpsDen :: u32

text \<open>The two arrays have \<^verbatim>\<open>FL_SESSION_MAX_FORMATS\<close> entries; the counts say how many are used.\<close>
record flSessionCapabilities =
  cap_version :: u32
  cap_videoCount :: u32
  cap_audioCount :: u32
  cap_video :: "flVideoFormat list"
  cap_audio :: "flAudioFormat list"

record flSessionConfig =
  cfg_version :: u32
  cfg_sessionId :: flSessionId
  cfg_clockId :: flSessionId
  cfg_generation :: u64
  cfg_videoTrackId :: u32
  cfg_audioTrackId :: u32
  cfg_video :: flVideoFormat
  cfg_audio :: flAudioFormat
  cfg_epochNs :: i64
  cfg_videoQueueFrames :: u32
  cfg_audioQueueMs :: u32
  cfg_connectTimeoutMs :: u32
  cfg_idleTimeoutMs :: u32

record flClockMapping =
  cm_sourceClockId :: flSessionId
  cm_targetClockId :: flSessionId
  cm_sourceAnchorNs :: i64
  cm_targetAnchorNs :: i64
  cm_uncertaintyNs :: u64

section \<open>Local helpers\<close>

definition versionValid :: "u32 \<Rightarrow> bool" where
  "versionValid v \<longleftrightarrow> v = FL_SESSION_VERSION \<or> v = FL_SESSION_OPTIONAL_TRACKS_VERSION"

definition videoEmpty :: "flVideoFormat \<Rightarrow> bool" where
  "videoEmpty v \<longleftrightarrow> vf_format v = 0 \<and> vf_width v = 0 \<and> vf_height v = 0 \<and> vf_fpsNum v = 0 \<and>
     vf_fpsDen v = 0"

definition audioEmpty :: "flAudioFormat \<Rightarrow> bool" where
  "audioEmpty a \<longleftrightarrow> af_pcm a = 0 \<and> af_rate a = 0 \<and> af_layout a = 0"

definition idValid :: "flSessionId \<Rightarrow> bool" where
  "idValid i \<longleftrightarrow> fold (\<lambda>b v. v OR b) i 0 \<noteq> 0"

text \<open>\<^verbatim>\<open>memcmp(a.bytes, b.bytes, 16) == 0\<close>\<close>
definition same_id :: "flSessionId \<Rightarrow> flSessionId \<Rightarrow> bool" where
  "same_id a b \<longleftrightarrow> take 16 a = take 16 b"

definition audioValid :: "flAudioFormat \<Rightarrow> bool" where
  "audioValid a \<longleftrightarrow> (af_pcm a = FL_PCM_S16 \<or> af_pcm a = FL_PCM_F32) \<and>
     8000 \<le> af_rate a \<and> af_rate a \<le> 192000 \<and>
     (af_layout a = FL_LAYOUT_MONO \<or> af_layout a = FL_LAYOUT_STEREO)"

definition videoValid :: "flVideoFormat \<Rightarrow> bool" where
  "videoValid v \<longleftrightarrow> FL_FORMAT_BGRA8 \<le> vf_format v \<and> vf_format v \<le> FL_FORMAT_RGBA8 \<and>
     vf_width v \<noteq> 0 \<and> vf_height v \<noteq> 0 \<and> vf_width v \<le> 16384 \<and> vf_height v \<le> 16384 \<and>
     vf_fpsNum v \<noteq> 0 \<and> vf_fpsNum v \<le> 1000000 \<and> vf_fpsDen v \<noteq> 0 \<and> vf_fpsDen v \<le> 1000000 \<and>
     (vf_format v \<noteq> FL_FORMAT_NV12 \<or> vf_width v AND 1 = 0 \<and> vf_height v AND 1 = 0)"

definition audio_eq :: "flAudioFormat \<Rightarrow> flAudioFormat \<Rightarrow> bool" where
  "audio_eq a b \<longleftrightarrow> af_pcm a = af_pcm b \<and> af_rate a = af_rate b \<and> af_layout a = af_layout b"

definition video_eq :: "flVideoFormat \<Rightarrow> flVideoFormat \<Rightarrow> bool" where
  "video_eq a b \<longleftrightarrow> vf_format a = vf_format b \<and> vf_width a = vf_width b \<and>
     vf_height a = vf_height b \<and>
     (ucast (vf_fpsNum a) :: u64) * ucast (vf_fpsDen b) =
       ucast (vf_fpsNum b) * ucast (vf_fpsDen a)"

abbreviation used_video :: "flSessionCapabilities \<Rightarrow> flVideoFormat list" where
  "used_video c \<equiv> take (unat (cap_videoCount c)) (cap_video c)"

abbreviation used_audio :: "flSessionCapabilities \<Rightarrow> flAudioFormat list" where
  "used_audio c \<equiv> take (unat (cap_audioCount c)) (cap_audio c)"

fun caps :: "flSessionCapabilities option \<Rightarrow> flSessionResult" where
  "caps None = FL_SESSION_INVALID"
| "caps (Some c) =
     (if \<not> versionValid (cap_version c) then FL_SESSION_VERSION_ERROR
      else if cap_videoCount c > FL_SESSION_MAX_FORMATS \<or> cap_audioCount c > FL_SESSION_MAX_FORMATS \<or>
        (cap_videoCount c = 0 \<and> cap_audioCount c = 0) then FL_SESSION_INVALID
      else if cap_version c = FL_SESSION_VERSION \<and>
        (cap_videoCount c = 0 \<or> cap_audioCount c = 0) then FL_SESSION_INVALID
      else if list_ex (\<lambda>v. \<not> videoValid v) (used_video c) then FL_SESSION_INVALID
      else if list_ex (\<lambda>a. \<not> audioValid a) (used_audio c) then FL_SESSION_INVALID
      else FL_SESSION_OK)"

text \<open>
  \<^verbatim>\<open>bool add(int64_t a, int64_t b, int64_t& r)\<close>: \<open>None\<close> when the guard refuses; the guard's
  own subtractions cannot overflow, since each is taken on the side where \<open>b\<close> has the right sign.
\<close>
definition checked_add :: "i64 \<Rightarrow> i64 \<Rightarrow> i64 option" where
  "checked_add a b =
     (if (0 <s b \<and> INT64_MAX - b <s a) \<or> (b <s 0 \<and> a <s INT64_MIN - b) then None
      else Some (a + b))"

definition session_put :: "u64 \<Rightarrow> nat \<Rightarrow> u8 list" where
  "session_put v n = le_put n v"

definition session_get :: "u8 list \<Rightarrow> nat \<Rightarrow> u64 \<times> u8 list" where
  "session_get p n = le_get n p"

section \<open>Negotiation\<close>

text \<open>
  The selection loops.  \<open>chosen\<close> starts zeroed, and the loop condition \<^verbatim>\<open>!chosen.width\<close>
  (\<^verbatim>\<open>!chosen.rate\<close>) stops it once a format has been taken.
\<close>

fun choose_video :: "flVideoFormat list \<Rightarrow> flVideoFormat list \<Rightarrow> flVideoFormat \<Rightarrow> flVideoFormat" where
  "choose_video [] cs chosen = chosen"
| "choose_video (v # vs) cs chosen =
     (if vf_width chosen \<noteq> 0 then chosen
      else choose_video vs cs (if list_ex (video_eq v) cs then v else chosen))"

fun choose_audio_pass ::
  "bool \<Rightarrow> flAudioFormat list \<Rightarrow> flAudioFormat list \<Rightarrow> flAudioFormat \<Rightarrow> flAudioFormat" where
  "choose_audio_pass preferred [] cs chosen = chosen"
| "choose_audio_pass preferred (a # as) cs chosen =
     (if af_rate chosen \<noteq> 0 then chosen
      else if preferred \<and> af_rate a \<noteq> 48000 then choose_audio_pass preferred as cs chosen
      else choose_audio_pass preferred as cs (if list_ex (audio_eq a) cs then a else chosen))"

definition no_video :: flVideoFormat where
  "no_video = \<lparr>vf_format = 0, vf_width = 0, vf_height = 0, vf_fpsNum = 0, vf_fpsDen = 0\<rparr>"

definition no_audio :: flAudioFormat where
  "no_audio = \<lparr>af_pcm = 0, af_rate = 0, af_layout = 0\<rparr>"

definition choose_audio :: "flAudioFormat list \<Rightarrow> flAudioFormat list \<Rightarrow> flAudioFormat" where
  "choose_audio as cs =
     (let chosen = choose_audio_pass True as cs no_audio
      in if af_rate chosen \<noteq> 0 then chosen else choose_audio_pass False as cs chosen)"

definition flSessionNegotiate ::
  "flSessionCapabilities option \<Rightarrow> flSessionCapabilities option \<Rightarrow>
   flVideoFormat option \<Rightarrow> flAudioFormat option \<Rightarrow>
   flSessionResult \<times> flVideoFormat option \<times> flAudioFormat option" where
  "flSessionNegotiate p c v a =
     (if v = None \<or> a = None then (FL_SESSION_INVALID, v, a)
      else if caps p \<noteq> FL_SESSION_OK then (caps p, v, a)
      else if caps c \<noteq> FL_SESSION_OK then (caps c, v, a)
      else case (p, c) of
        (Some p, Some c) \<Rightarrow>
          (if cap_version p \<noteq> cap_version c then (FL_SESSION_VERSION_ERROR, v, a)
           else if (cap_videoCount p \<noteq> 0) \<noteq> (cap_videoCount c \<noteq> 0) \<or>
             (cap_audioCount p \<noteq> 0) \<noteq> (cap_audioCount c \<noteq> 0) then (FL_SESSION_INCOMPATIBLE, v, a)
           else
             let chosenV = choose_video (used_video p) (used_video c) no_video;
                 chosenA = choose_audio (used_audio p) (used_audio c)
             in if (cap_videoCount p \<noteq> 0 \<and> vf_width chosenV = 0) \<or>
                  (cap_audioCount p \<noteq> 0 \<and> af_rate chosenA = 0) then (FL_SESSION_INCOMPATIBLE, v, a)
                else (FL_SESSION_OK, assign v chosenV, assign a chosenA))
      | _ \<Rightarrow> (FL_SESSION_INVALID, v, a))"

section \<open>Validation\<close>

fun flSessionValidate :: "flSessionConfig option \<Rightarrow> flSessionResult" where
  "flSessionValidate None = FL_SESSION_INVALID"
| "flSessionValidate (Some c) =
     (if \<not> versionValid (cfg_version c) then FL_SESSION_VERSION_ERROR
      else if \<not> idValid (cfg_sessionId c) \<or> \<not> idValid (cfg_clockId c) \<or> cfg_generation c = 0 \<or>
        cfg_epochNs c <s 0 \<or> cfg_connectTimeoutMs c = 0 \<or> cfg_connectTimeoutMs c > 60000 \<or>
        cfg_idleTimeoutMs c = 0 \<or> cfg_idleTimeoutMs c > 60000 then FL_SESSION_INVALID
      else if cfg_videoTrackId c = 0 \<and> cfg_audioTrackId c = 0 then FL_SESSION_INVALID
      else if cfg_version c = FL_SESSION_VERSION \<and>
        (cfg_videoTrackId c = 0 \<or> cfg_audioTrackId c = 0) then FL_SESSION_INVALID
      else if cfg_videoTrackId c \<noteq> 0 \<and> cfg_videoTrackId c = cfg_audioTrackId c then FL_SESSION_INVALID
      else if (if cfg_videoTrackId c \<noteq> 0
               then \<not> videoValid (cfg_video c) \<or> cfg_videoQueueFrames c = 0 \<or> cfg_videoQueueFrames c > 16
               else \<not> videoEmpty (cfg_video c) \<or> cfg_videoQueueFrames c \<noteq> 0) then FL_SESSION_INVALID
      else if (if cfg_audioTrackId c \<noteq> 0
               then \<not> audioValid (cfg_audio c) \<or> cfg_audioQueueMs c = 0 \<or> cfg_audioQueueMs c > 2000
               else \<not> audioEmpty (cfg_audio c) \<or> cfg_audioQueueMs c \<noteq> 0) then FL_SESSION_INVALID
      else FL_SESSION_OK)"

text \<open>The body of the loop \<^verbatim>\<open>for(const auto* offer:{p,q})\<close>; \<open>FL_SESSION_OK\<close> continues it.\<close>
definition check_offer :: "flSessionConfig \<Rightarrow> flSessionCapabilities \<Rightarrow> flSessionResult" where
  "check_offer c offer =
     (if cap_version offer \<noteq> cfg_version c then FL_SESSION_VERSION_ERROR
      else if (cap_videoCount offer \<noteq> 0) \<noteq> (cfg_videoTrackId c \<noteq> 0) \<or>
        (cap_audioCount offer \<noteq> 0) \<noteq> (cfg_audioTrackId c \<noteq> 0) then FL_SESSION_INCOMPATIBLE
      else
        let video = (cfg_videoTrackId c = 0 \<or> list_ex (video_eq (cfg_video c)) (used_video offer));
            audio = (cfg_audioTrackId c = 0 \<or> list_ex (audio_eq (cfg_audio c)) (used_audio offer))
        in if \<not> video \<or> \<not> audio then FL_SESSION_INCOMPATIBLE else FL_SESSION_OK)"

definition flSessionValidateSelection ::
  "flSessionConfig option \<Rightarrow> flSessionCapabilities option \<Rightarrow> flSessionCapabilities option \<Rightarrow>
   flSessionResult" where
  "flSessionValidateSelection c p q =
     (if flSessionValidate c \<noteq> FL_SESSION_OK then flSessionValidate c
      else if caps p \<noteq> FL_SESSION_OK then caps p
      else if caps q \<noteq> FL_SESSION_OK then caps q
      else case (c, p, q) of
        (Some c, Some p, Some q) \<Rightarrow>
          (if check_offer c p \<noteq> FL_SESSION_OK then check_offer c p else check_offer c q)
      | _ \<Rightarrow> FL_SESSION_INVALID)"

definition flSessionValidateReplacement ::
  "flSessionConfig option \<Rightarrow> flSessionConfig option \<Rightarrow> flSessionResult" where
  "flSessionValidateReplacement c n =
     (if flSessionValidate c \<noteq> FL_SESSION_OK then flSessionValidate c
      else if flSessionValidate n \<noteq> FL_SESSION_OK then flSessionValidate n
      else case (c, n) of
        (Some c, Some n) \<Rightarrow>
          (if cfg_version c \<noteq> cfg_version n then FL_SESSION_VERSION_ERROR
           else if \<not> same_id (cfg_sessionId c) (cfg_sessionId n) \<or>
             cfg_videoTrackId c \<noteq> cfg_videoTrackId n \<or>
             cfg_audioTrackId c \<noteq> cfg_audioTrackId n then FL_SESSION_INVALID
           else if cfg_generation n > cfg_generation c then FL_SESSION_OK else FL_SESSION_STALE)
      | _ \<Rightarrow> FL_SESSION_INVALID)"

section \<open>Wire codec\<close>

definition session_magic :: "u32 \<Rightarrow> u64" where
  "session_magic v = (if v = FL_SESSION_VERSION then 0x31535646 else 0x32535646)"

text \<open>
  The bytes \<^verbatim>\<open>flSessionEncode\<close> stores: the buffer is zeroed first, so what follows the last
  field stays zero up to the wire size.
\<close>
definition session_body :: "flSessionConfig \<Rightarrow> u8 list" where
  "session_body c =
     take 16 (cfg_sessionId c) @ take 16 (cfg_clockId c) @
     session_put (cfg_generation c) 8 @
     session_put (ucast (cfg_videoTrackId c)) 4 @ session_put (ucast (cfg_audioTrackId c)) 4 @
     session_put (ucast (vf_format (cfg_video c))) 4 @ session_put (ucast (vf_width (cfg_video c))) 4 @
     session_put (ucast (vf_height (cfg_video c))) 4 @ session_put (ucast (vf_fpsNum (cfg_video c))) 4 @
     session_put (ucast (vf_fpsDen (cfg_video c))) 4 @
     session_put (ucast (af_pcm (cfg_audio c))) 4 @ session_put (ucast (af_rate (cfg_audio c))) 4 @
     session_put (ucast (af_layout (cfg_audio c))) 4 @
     session_put (cfg_epochNs c) 8 @
     session_put (ucast (cfg_videoQueueFrames c)) 4 @ session_put (ucast (cfg_audioQueueMs c)) 4 @
     session_put (ucast (cfg_connectTimeoutMs c)) 4 @ session_put (ucast (cfg_idleTimeoutMs c)) 4"

definition session_fields :: "flSessionConfig \<Rightarrow> u8 list" where
  "session_fields c =
     session_put (session_magic (cfg_version c)) 4 @ session_put (ucast (cfg_version c)) 4 @
     session_body c"

definition session_wire :: "flSessionConfig \<Rightarrow> u8 list" where
  "session_wire c =
     session_fields c @ replicate (FL_SESSION_WIRE_SIZE - length (session_fields c)) 0"

definition flSessionEncode ::
  "flSessionConfig option \<Rightarrow> u8 list option \<Rightarrow> nat \<Rightarrow> flSessionResult \<times> u8 list option" where
  "flSessionEncode c data sz =
     (if data = None \<or> sz \<noteq> FL_SESSION_WIRE_SIZE then (FL_SESSION_INVALID, data)
      else if flSessionValidate c \<noteq> FL_SESSION_OK then (flSessionValidate c, data)
      else (FL_SESSION_OK, assign data (session_wire (the c))))"

text \<open>
  The field reads of \<^verbatim>\<open>flSessionDecode\<close> after the version check: the configuration, the raw
  epoch word and the unread bytes.
\<close>
definition session_read :: "u32 \<Rightarrow> u8 list \<Rightarrow> flSessionConfig \<times> u64 \<times> u8 list" where
  "session_read version p0 =
     (let sessionId = take 16 p0; p1 = drop 16 p0;
          clockId = take 16 p1; p2 = drop 16 p1;
          (generation, p3) = session_get p2 8;
          (videoTrackId, p4) = session_get p3 4; (audioTrackId, p5) = session_get p4 4;
          (format, p6) = session_get p5 4; (width, p7) = session_get p6 4;
          (height, p8) = session_get p7 4; (fpsNum, p9) = session_get p8 4;
          (fpsDen, p10) = session_get p9 4;
          (pcm, p11) = session_get p10 4; (rate, p12) = session_get p11 4;
          (layout, p13) = session_get p12 4;
          (epoch, p14) = session_get p13 8;
          (videoQueueFrames, p15) = session_get p14 4; (audioQueueMs, p16) = session_get p15 4;
          (connectTimeoutMs, p17) = session_get p16 4; (idleTimeoutMs, p18) = session_get p17 4
      in (\<lparr>cfg_version = version, cfg_sessionId = sessionId, cfg_clockId = clockId,
           cfg_generation = generation, cfg_videoTrackId = ucast videoTrackId,
           cfg_audioTrackId = ucast audioTrackId,
           cfg_video = \<lparr>vf_format = ucast format, vf_width = ucast width, vf_height = ucast height,
             vf_fpsNum = ucast fpsNum, vf_fpsDen = ucast fpsDen\<rparr>,
           cfg_audio = \<lparr>af_pcm = ucast pcm, af_rate = ucast rate, af_layout = ucast layout\<rparr>,
           cfg_epochNs = epoch, cfg_videoQueueFrames = ucast videoQueueFrames,
           cfg_audioQueueMs = ucast audioQueueMs, cfg_connectTimeoutMs = ucast connectTimeoutMs,
           cfg_idleTimeoutMs = ucast idleTimeoutMs\<rparr>, epoch, p18))"

definition flSessionDecode ::
  "u8 list option \<Rightarrow> nat \<Rightarrow> flSessionConfig option \<Rightarrow> flSessionResult \<times> flSessionConfig option" where
  "flSessionDecode data sz out =
     (if data = None \<or> out = None \<or> sz \<noteq> FL_SESSION_WIRE_SIZE then (FL_SESSION_INVALID, out)
      else
        let (magic, p) = session_get (the data) 4
        in if magic \<noteq> 0x31535646 \<and> magic \<noteq> 0x32535646 then (FL_SESSION_INVALID, out)
        else
          let (v, p) = session_get p 4; version = ucast v :: u32
          in if \<not> versionValid version \<or> magic \<noteq> session_magic version
             then (FL_SESSION_VERSION_ERROR, out)
          else
            let (c, epoch, rest) = session_read version p
            in if epoch > INT64_MAX then (FL_SESSION_TIME_RANGE, out)
            else if list_ex (\<lambda>b. b \<noteq> 0) rest then (FL_SESSION_INVALID, out)
            else (flSessionValidate (Some c),
                  if flSessionValidate (Some c) = FL_SESSION_OK then assign out c else out))"

section \<open>Clock arithmetic\<close>

definition flSessionMapPts ::
  "flSessionConfig option \<Rightarrow> flClockMapping option \<Rightarrow> u64 \<Rightarrow> i64 \<Rightarrow> i64 option \<Rightarrow>
   flSessionResult \<times> i64 option" where
  "flSessionMapPts c m maxError pts out =
     (if flSessionValidate c \<noteq> FL_SESSION_OK then (flSessionValidate c, out)
      else case (c, m) of
        (Some c, Some m) \<Rightarrow>
          (if out = None \<or> pts <s 0 \<or> \<not> same_id (cfg_clockId c) (cm_sourceClockId m) \<or>
             \<not> idValid (cm_targetClockId m) \<or> cm_sourceAnchorNs m <s 0 \<or> cm_targetAnchorNs m <s 0
           then (FL_SESSION_INVALID, out)
           else if cm_uncertaintyNs m > maxError then (FL_SESSION_INCOMPATIBLE, out)
           else if same_id (cm_sourceClockId m) (cm_targetClockId m) \<and>
             (cm_sourceAnchorNs m \<noteq> cm_targetAnchorNs m \<or> cm_uncertaintyNs m \<noteq> 0)
           then (FL_SESSION_INVALID, out)
           else case checked_add (cfg_epochNs c) pts of
             None \<Rightarrow> (FL_SESSION_TIME_RANGE, out)
           | Some absolute \<Rightarrow> (case checked_add absolute (- cm_sourceAnchorNs m) of
               None \<Rightarrow> (FL_SESSION_TIME_RANGE, out)
             | Some result \<Rightarrow> (case checked_add result (cm_targetAnchorNs m) of
                 None \<Rightarrow> (FL_SESSION_TIME_RANGE, out)
               | Some result \<Rightarrow>
                   if result <s 0 then (FL_SESSION_TIME_RANGE, out)
                   else (FL_SESSION_OK, assign out result))))
      | _ \<Rightarrow> (FL_SESSION_INVALID, out))"

definition flSessionSampleOffset ::
  "u64 \<Rightarrow> u32 \<Rightarrow> i64 option \<Rightarrow> flSessionResult \<times> i64 option" where
  "flSessionSampleOffset index rate out =
     (if out = None \<or> rate < 8000 \<or> rate > 192000 then (FL_SESSION_INVALID, out)
      else
        let r = (ucast rate :: u64);
            seconds = index div r;
            part = (index mod r) * 1000000000 div r
        in if seconds > INT64_MAX div 1000000000 then (FL_SESSION_TIME_RANGE, out)
        else
          let result = seconds * 1000000000 + part
          in if result > INT64_MAX then (FL_SESSION_TIME_RANGE, out)
             else (FL_SESSION_OK, assign out result))"

section \<open>Specification vocabulary\<close>

text \<open>A configuration whose two identifiers have the 16 bytes of the C array.\<close>
definition wf_config :: "flSessionConfig \<Rightarrow> bool" where
  "wf_config c \<longleftrightarrow> length (cfg_sessionId c) = 16 \<and> length (cfg_clockId c) = 16"

text \<open>\<^verbatim>\<open>flSessionConfig c{}\<close>: every member zero.\<close>
definition zero_config :: flSessionConfig where
  "zero_config = \<lparr>cfg_version = 0, cfg_sessionId = replicate 16 0, cfg_clockId = replicate 16 0,
     cfg_generation = 0, cfg_videoTrackId = 0, cfg_audioTrackId = 0, cfg_video = no_video,
     cfg_audio = no_audio, cfg_epochNs = 0, cfg_videoQueueFrames = 0, cfg_audioQueueMs = 0,
     cfg_connectTimeoutMs = 0, cfg_idleTimeoutMs = 0\<rparr>"

text \<open>The decoder as a partial function on byte buffers.\<close>
definition session_decode_bytes :: "u8 list \<Rightarrow> flSessionConfig option" where
  "session_decode_bytes bs =
     (if length bs = FL_SESSION_WIRE_SIZE
      then case flSessionDecode (Some bs) (length bs) (Some zero_config) of
             (r, out) \<Rightarrow> if r = FL_SESSION_OK then out else None
      else None)"

text \<open>What the header promises of the selection: producer video order; 48 kHz audio first, then
  producer audio order; exact intersection only.\<close>
definition pick_video :: "flSessionCapabilities \<Rightarrow> flSessionCapabilities \<Rightarrow> flVideoFormat option" where
  "pick_video p c = (if cap_videoCount p = 0 then Some no_video
     else find (\<lambda>v. list_ex (video_eq v) (used_video c)) (used_video p))"

definition pick_audio :: "flSessionCapabilities \<Rightarrow> flSessionCapabilities \<Rightarrow> flAudioFormat option" where
  "pick_audio p c = (if cap_audioCount p = 0 then Some no_audio
     else case find (\<lambda>a. af_rate a = 48000 \<and> list_ex (audio_eq a) (used_audio c)) (used_audio p) of
       Some a \<Rightarrow> Some a
     | None \<Rightarrow> find (\<lambda>a. list_ex (audio_eq a) (used_audio c)) (used_audio p))"

definition comparable :: "flSessionCapabilities \<Rightarrow> flSessionCapabilities \<Rightarrow> bool" where
  "comparable p c \<longleftrightarrow> caps (Some p) = FL_SESSION_OK \<and> caps (Some c) = FL_SESSION_OK \<and>
     cap_version p = cap_version c \<and> (cap_videoCount p = 0 \<longleftrightarrow> cap_videoCount c = 0) \<and>
     (cap_audioCount p = 0 \<longleftrightarrow> cap_audioCount c = 0)"

text \<open>The preconditions under which a timestamp is mapped at all.\<close>
definition mapping_ok ::
  "flSessionConfig \<Rightarrow> flClockMapping \<Rightarrow> u64 \<Rightarrow> i64 \<Rightarrow> bool" where
  "mapping_ok c m maxError pts \<longleftrightarrow> flSessionValidate (Some c) = FL_SESSION_OK \<and> 0 \<le> sint pts \<and>
     same_id (cfg_clockId c) (cm_sourceClockId m) \<and> idValid (cm_targetClockId m) \<and>
     0 \<le> sint (cm_sourceAnchorNs m) \<and> 0 \<le> sint (cm_targetAnchorNs m) \<and>
     cm_uncertaintyNs m \<le> maxError \<and>
     (same_id (cm_sourceClockId m) (cm_targetClockId m) \<longrightarrow>
        cm_sourceAnchorNs m = cm_targetAnchorNs m \<and> cm_uncertaintyNs m = 0)"

text \<open>A complete two-track configuration, used by the witnesses.\<close>
definition example_config :: flSessionConfig where
  "example_config = \<lparr>cfg_version = 1, cfg_sessionId = replicate 16 7, cfg_clockId = replicate 16 9,
     cfg_generation = 5, cfg_videoTrackId = 1, cfg_audioTrackId = 2,
     cfg_video = \<lparr>vf_format = 2, vf_width = 1280, vf_height = 720, vf_fpsNum = 60, vf_fpsDen = 1\<rparr>,
     cfg_audio = \<lparr>af_pcm = 1, af_rate = 48000, af_layout = 2\<rparr>, cfg_epochNs = 1000,
     cfg_videoQueueFrames = 2, cfg_audioQueueMs = 100, cfg_connectTimeoutMs = 5000,
     cfg_idleTimeoutMs = 1000\<rparr>"

definition example_caps :: flSessionCapabilities where
  "example_caps = \<lparr>cap_version = 1, cap_videoCount = 1, cap_audioCount = 2,
     cap_video = replicate 8 \<lparr>vf_format = 2, vf_width = 1280, vf_height = 720, vf_fpsNum = 60, vf_fpsDen = 1\<rparr>,
     cap_audio = \<lparr>af_pcm = 1, af_rate = 44100, af_layout = 2\<rparr> #
       replicate 7 \<lparr>af_pcm = 1, af_rate = 48000, af_layout = 2\<rparr>\<rparr>"

text \<open>The two validators are unfolded only where a proof asks for it.\<close>
declare caps.simps [simp del] flSessionValidate.simps [simp del]

section \<open>Lemmas on the codec\<close>

lemmas session_codec_defs = session_put_def session_get_def

lemma length_session_put [simp]: "length (session_put v n) = n"
  by (simp add: session_put_def)

lemma length_session_body: "wf_config c \<Longrightarrow> length (session_body c) = 104"
  by (simp add: session_body_def wf_config_def)

lemma length_session_fields: "wf_config c \<Longrightarrow> length (session_fields c) = 112"
  by (simp add: session_fields_def length_session_body)

lemma session_get_put [wire_simps]:
  "session_get (session_put v 4 @ xs) 4 = (take_bit 32 v, xs)"
  "session_get (session_put v 8 @ xs) 8 = (v, xs)"
  using le_get_le_put [of 4 v xs] le_get_le_put [of 8 v xs]
  by (simp_all add: session_codec_defs)

lemma format_eta [simp]:
  "\<lparr>vf_format = vf_format v, vf_width = vf_width v, vf_height = vf_height v,
     vf_fpsNum = vf_fpsNum v, vf_fpsDen = vf_fpsDen v\<rparr> = v"
  "\<lparr>af_pcm = af_pcm a, af_rate = af_rate a, af_layout = af_layout a\<rparr> = a"
  by simp_all

lemma session_magic_bits [simp]: "take_bit 32 (session_magic v) = session_magic v"
  by (simp add: session_magic_def)

lemma session_magic_cases: "session_magic v = 0x31535646 \<or> session_magic v = 0x32535646"
  by (simp add: session_magic_def)

lemma valid_epoch: "flSessionValidate (Some c) = FL_SESSION_OK \<Longrightarrow> \<not> INT64_MAX < cfg_epochNs c"
  using uint_nonneg64 [of "cfg_epochNs c"] sint_range64 [of "cfg_epochNs c"]
  by (auto simp: flSessionValidate.simps word_sless_alt word_less_def split: if_splits)

lemma valid_version: "flSessionValidate (Some c) = FL_SESSION_OK \<Longrightarrow> versionValid (cfg_version c)"
  by (auto simp: flSessionValidate.simps split: if_splits)

lemma session_read_body:
  "wf_config c \<Longrightarrow> session_read (cfg_version c) (session_body c @ zs) = (c, cfg_epochNs c, zs)"
  by (simp add: session_read_def session_body_def wf_config_def wire_simps)

lemma session_decode_wire:
  assumes "flSessionValidate (Some c) = FL_SESSION_OK" "wf_config c"
  shows "flSessionDecode (Some (session_wire c)) FL_SESSION_WIRE_SIZE (Some out) = (FL_SESSION_OK, Some c)"
  using assms valid_epoch [OF assms(1)] valid_version [OF assms(1)] session_magic_cases [of "cfg_version c"]
  by (auto simp: flSessionDecode_def session_wire_def length_session_fields session_fields_def
        wire_simps session_read_body list_ex_iff)

text \<open>Conversely, what the decoder accepts is the encoding of what it returns.\<close>

lemma session_get_val:
  "n \<le> length p \<Longrightarrow> session_get p n = (le_val (take n p), drop n p)"
  by (simp add: session_get_def le_get_val)

lemma session_put_val:
  "n \<le> 8 \<Longrightarrow> n \<le> length p \<Longrightarrow> session_put (le_val (take n p)) n = take n p"
  using le_put_take [of n p, where 'a = 64] by (simp add: session_put_def)

lemma session_put_val32:
  "4 \<le> length p \<Longrightarrow> session_put (ucast (ucast (le_val (take 4 p) :: u64) :: u32)) 4 = take 4 p"
  by (simp add: session_put_val)

lemma session_body_read:
  assumes "104 \<le> length p" "session_read v p = (c, epoch, rest)"
  shows "cfg_version c = v \<and> wf_config c \<and> epoch = cfg_epochNs c \<and> p = session_body c @ rest"
proof -
  have "session_body c = take 104 p \<and> rest = drop 104 p \<and> wf_config c \<and> cfg_version c = v \<and>
      epoch = cfg_epochNs c"
    using assms
    by (auto simp: session_read_def session_get_val session_body_def session_put_val
        session_put_val32 take_drop_append wf_config_def)
  then show ?thesis by simp
qed

lemma session_wire_decode:
  assumes "length bs = FL_SESSION_WIRE_SIZE"
    and "flSessionDecode (Some bs) FL_SESSION_WIRE_SIZE (Some out) = (FL_SESSION_OK, r)"
  shows "\<exists>c. r = Some c \<and> flSessionValidate (Some c) = FL_SESSION_OK \<and> wf_config c \<and> session_wire c = bs"
proof -
  let ?v = "ucast (le_val (take 4 (drop 4 bs)) :: u64) :: u32"
  obtain c epoch rest where read: "session_read ?v (drop 8 bs) = (c, epoch, rest)"
    by (metis prod_cases3)
  have *: "le_val (take 4 bs) = session_magic ?v" "list_all (\<lambda>b. b = 0) rest"
    "flSessionValidate (Some c) = FL_SESSION_OK" "r = Some c"
    using assms read
    by (auto simp: flSessionDecode_def session_get_val list_ex_iff list_all_iff
        Let_def split: if_splits)
  have body: "cfg_version c = ?v" "wf_config c" "drop 8 bs = session_body c @ rest"
    using session_body_read [OF _ read] assms(1) by auto
  have "length rest = 48"
    using arg_cong [OF body(3), of length] length_session_body [OF body(2)] assms(1) by simp
  then have "rest = replicate 48 0"
    using *(2) by (intro replicate_eqI) (auto simp: list_all_iff)
  moreover have "session_fields c = take 8 bs @ session_body c"
    using *(1) body(1) assms(1)
    by (simp add: session_fields_def session_put_val session_put_val32 take_drop_append flip: *(1))
  ultimately have "session_wire c = bs"
    using body(3) length_session_fields [OF body(2)] append_take_drop_id [of 8 bs]
    by (simp add: session_wire_def)
  with * body show ?thesis by blast
qed

section \<open>Lemmas on negotiation\<close>

lemma caps_formats:
  assumes "caps (Some c) = FL_SESSION_OK"
  shows "v \<in> set (used_video c) \<Longrightarrow> videoValid v" "a \<in> set (used_audio c) \<Longrightarrow> audioValid a"
  using assms by (auto simp: caps.simps list_ex_iff split: if_splits)

lemma choose_video_taken: "vf_width chosen \<noteq> 0 \<Longrightarrow> choose_video vs cs chosen = chosen"
  by (cases vs) auto

lemma choose_video_find:
  "\<forall>v \<in> set vs. vf_width v \<noteq> 0 \<Longrightarrow> vf_width chosen = 0 \<Longrightarrow>
   choose_video vs cs chosen =
     (case find (\<lambda>v. list_ex (video_eq v) cs) vs of None \<Rightarrow> chosen | Some v \<Rightarrow> v)"
  by (induction vs) (auto simp: choose_video_taken)

lemma choose_audio_pass_taken: "af_rate chosen \<noteq> 0 \<Longrightarrow> choose_audio_pass b as cs chosen = chosen"
  by (cases as) auto

lemma choose_audio_pass_find:
  "\<forall>a \<in> set as. af_rate a \<noteq> 0 \<Longrightarrow> af_rate chosen = 0 \<Longrightarrow>
   choose_audio_pass b as cs chosen =
     (case find (\<lambda>a. (b \<longrightarrow> af_rate a = 48000) \<and> list_ex (audio_eq a) cs) as of
        None \<Rightarrow> chosen | Some a \<Rightarrow> a)"
  by (induction as) (auto simp: choose_audio_pass_taken)

lemma videoValid_width: "videoValid v \<Longrightarrow> vf_width v \<noteq> 0"
  by (simp add: videoValid_def)

lemma audioValid_rate: "audioValid a \<Longrightarrow> af_rate a \<noteq> 0"
  by (auto simp: audioValid_def)

lemma no_format_zero [simp]: "vf_width no_video = 0" "af_rate no_audio = 0"
  by (simp_all add: no_video_def no_audio_def)

lemma chosen_video_pick:
  assumes "caps (Some p) = FL_SESSION_OK" "cap_videoCount p \<noteq> 0"
  shows "choose_video (used_video p) (used_video c) no_video =
      (case pick_video p c of None \<Rightarrow> no_video | Some v \<Rightarrow> v)"
    and "pick_video p c = Some v \<Longrightarrow> vf_width v \<noteq> 0"
  using assms caps_formats(1) [OF assms(1)] videoValid_width
  by (auto simp: pick_video_def choose_video_find dest!: find_in_set)

lemma chosen_audio_pick:
  assumes "caps (Some p) = FL_SESSION_OK" "cap_audioCount p \<noteq> 0"
  shows "choose_audio (used_audio p) (used_audio c) =
      (case pick_audio p c of None \<Rightarrow> no_audio | Some a \<Rightarrow> a)"
    and "pick_audio p c = Some a \<Longrightarrow> af_rate a \<noteq> 0"
proof -
  have rates: "\<forall>a \<in> set (used_audio p). af_rate a \<noteq> 0"
    using caps_formats(2) [OF assms(1)] audioValid_rate by blast
  show "pick_audio p c = Some a \<Longrightarrow> af_rate a \<noteq> 0"
    using rates assms(2) by (auto simp: pick_audio_def dest!: find_in_set split: option.splits)
  show "choose_audio (used_audio p) (used_audio c) =
      (case pick_audio p c of None \<Rightarrow> no_audio | Some a \<Rightarrow> a)"
    using rates assms(2)
    by (auto simp: choose_audio_def pick_audio_def choose_audio_pass_find Let_def
        dest!: find_in_set split: option.splits)
qed

lemma choose_audio_none [simp]: "choose_audio [] cs = no_audio"
  by (simp add: choose_audio_def)


lemma negotiate_result:
  assumes "comparable p c"
  shows "flSessionNegotiate (Some p) (Some c) (Some v) (Some a) =
    (case (pick_video p c, pick_audio p c) of
       (Some v', Some a') \<Rightarrow> (FL_SESSION_OK, Some v', Some a')
     | _ \<Rightarrow> (FL_SESSION_INCOMPATIBLE, Some v, Some a))"
proof -
  have V: "cap_videoCount p = 0 \<Longrightarrow> choose_video (used_video p) (used_video c) no_video = no_video"
    and A: "cap_audioCount p = 0 \<Longrightarrow> choose_audio (used_audio p) (used_audio c) = no_audio"
    by simp_all
  show ?thesis
    using assms chosen_video_pick [of p c] chosen_audio_pick [of p c] V A
    by (auto simp: flSessionNegotiate_def comparable_def Let_def pick_video_def [of p c] pick_audio_def [of p c]
       split: option.splits)
qed

lemma video_eq_refl: "video_eq v v"
  by (simp add: video_eq_def)

lemma audio_eq_refl: "audio_eq a a"
  by (simp add: audio_eq_def)

section \<open>Lemmas on checked arithmetic\<close>

lemma unat_prod32: "unat ((ucast (a :: u32) :: u64) * ucast (b :: u32)) = unat a * unat b"
proof -
  have "unat a * unat b < 2 ^ 32 * 2 ^ 32"
    using unsigned_less [of a, where ?'a = nat] unsigned_less [of b, where ?'a = nat]
    by (intro mult_strict_mono) simp_all
  then show ?thesis by (simp add: unat_mult64)
qed


lemma checked_add_iff:
  "checked_add a b = Some r \<longleftrightarrow>
     - (2 ^ 63) \<le> sint a + sint b \<and> sint a + sint b < 2 ^ 63 \<and> r = a + b"
proof -
  have max: "sint (INT64_MAX) = 2 ^ 63 - 1" and min: "sint (INT64_MIN) = - (2 ^ 63)" by simp_all
  consider "sint b = 0" | "0 < sint b" | "sint b < 0" by linarith
  then show ?thesis
  proof cases
    case 1
    then show ?thesis using sint_range64 [of a] by (auto simp: checked_add_def word_sless_alt)
  next
    case 2
    then have "sint (INT64_MAX - b) = 2 ^ 63 - 1 - sint b"
      using sint_range64 [of b] sint_diff64 [of INT64_MAX b] max by simp
    then show ?thesis using 2 sint_range64 [of a]
      by (auto simp: checked_add_def word_sless_alt)
  next
    case 3
    then have "sint (INT64_MIN - b) = - (2 ^ 63) - sint b"
      using sint_range64 [of b] sint_diff64 [of INT64_MIN b] min by simp
    then show ?thesis using 3 sint_range64 [of a]
      by (auto simp: checked_add_def word_sless_alt)
  qed
qed

lemma checked_add_None:
  "checked_add a b = None \<longleftrightarrow> \<not> (- (2 ^ 63) \<le> sint a + sint b \<and> sint a + sint b < 2 ^ 63)"
  using checked_add_iff [of a b] by (cases "checked_add a b") auto

lemma valid_epoch_nonneg: "flSessionValidate (Some c) = FL_SESSION_OK \<Longrightarrow> 0 \<le> sint (cfg_epochNs c)"
  by (auto simp: flSessionValidate.simps word_sless_alt split: if_splits)

lemma checked_add_Some:
  "- (2 ^ 63) \<le> sint a + sint b \<Longrightarrow> sint a + sint b < 2 ^ 63 \<Longrightarrow> checked_add a b = Some (a + b)"
  by (simp add: checked_add_iff)

lemma mapPts_chain:
  assumes "mapping_ok c m maxError pts"
  shows "flSessionMapPts (Some c) (Some m) maxError pts (Some x) =
    (case checked_add (cfg_epochNs c) pts of None \<Rightarrow> (FL_SESSION_TIME_RANGE, Some x)
     | Some absolute \<Rightarrow> (case checked_add absolute (- cm_sourceAnchorNs m) of
         None \<Rightarrow> (FL_SESSION_TIME_RANGE, Some x)
       | Some result \<Rightarrow> (case checked_add result (cm_targetAnchorNs m) of
           None \<Rightarrow> (FL_SESSION_TIME_RANGE, Some x)
         | Some result \<Rightarrow> if result <s 0 then (FL_SESSION_TIME_RANGE, Some x) else (FL_SESSION_OK, Some result))))"
  using assms
  by (auto simp: flSessionMapPts_def mapping_ok_def word_sless_alt linorder_not_less [symmetric] split: option.split)

section \<open>The codec as an instance of the interface\<close>

interpretation session_codec:
  wire_codec "\<lambda>c. flSessionValidate (Some c) = FL_SESSION_OK \<and> wf_config c"
    session_wire session_decode_bytes FL_SESSION_WIRE_SIZE
proof (unfold_locales, goal_cases)
  case (1 c)
  then show ?case by (simp add: session_wire_def length_session_fields)
next
  case (2 c)
  then show ?case
    using session_decode_wire [of c zero_config]
    by (simp add: session_decode_bytes_def session_wire_def length_session_fields
       )
next
  case (3 bs c)
  then show ?case
    using session_wire_decode [of bs zero_config]
    by (force simp: session_decode_bytes_def
        split: if_splits prod.splits)
qed

lemma session_decode_unchanged:
  "fst (flSessionDecode data sz out) \<noteq> FL_SESSION_OK \<Longrightarrow>
   snd (flSessionDecode data sz out) = out"
  by (auto simp: flSessionDecode_def Let_def split: prod.splits if_splits)

lemma decode_bytes_of_decode:
  assumes "length bs = FL_SESSION_WIRE_SIZE"
    and "flSessionDecode (Some bs) FL_SESSION_WIRE_SIZE (Some out) = (FL_SESSION_OK, Some c)"
  shows "session_decode_bytes bs = Some c"
  using session_wire_decode [OF assms] session_codec.dec_iff [of bs c] by simp

lemma example_config_valid:
  "flSessionValidate (Some example_config) = FL_SESSION_OK" "wf_config example_config"
  by code_simp+

section \<open>Properties\<close>

text \<open>
  Encoding then decoding a session configuration returns it: whenever \<open>flSessionEncode\<close>
  succeeds, \<open>flSessionDecode\<close> of the produced buffer succeeds with exactly that configuration.
\<close>
theorem session_roundtrip:
  assumes "wf_config c"
    and "flSessionEncode (Some c) (Some buf) FL_SESSION_WIRE_SIZE = (FL_SESSION_OK, Some bs)"
  shows "length bs = FL_SESSION_WIRE_SIZE \<and>
    flSessionDecode (Some bs) FL_SESSION_WIRE_SIZE (Some out) = (FL_SESSION_OK, Some c)"
proof -
  from assms have "flSessionValidate (Some c) = FL_SESSION_OK" and "bs = session_wire c"
    by (auto simp: flSessionEncode_def split: if_splits)
  with assms(1) show ?thesis
    using session_decode_wire session_codec.enc_size by blast
qed

theorem session_roundtrip_witness:
  "\<exists>bs. flSessionEncode (Some example_config) (Some []) 160 = (FL_SESSION_OK, Some bs) \<and>
     flSessionDecode (Some bs) 160 (Some zero_config) = (FL_SESSION_OK, Some example_config)"
proof -
  have e: "flSessionEncode (Some example_config) (Some []) FL_SESSION_WIRE_SIZE =
      (FL_SESSION_OK, Some (session_wire example_config))"
    using example_config_valid(1) by (simp add: flSessionEncode_def)
  show ?thesis
    using e session_roundtrip [OF example_config_valid(2) e, of zero_config] by blast
qed

text \<open>
  C24. The decoder is canonical and leaves its output alone on failure: a 160-byte buffer is
  accepted only if it is, byte for byte, what \<open>flSessionEncode\<close> produces for the valid
  configuration returned (matching magic and version, zero reserved bytes); on every other
  result the output configuration keeps its old value.
\<close>
theorem session_decode_canonical:
  assumes "length bs = FL_SESSION_WIRE_SIZE"
    and "flSessionDecode (Some bs) FL_SESSION_WIRE_SIZE (Some old) = (r, new)"
  shows "if r = FL_SESSION_OK
    then \<exists>c. new = Some c \<and>
      flSessionEncode (Some c) (Some buf) FL_SESSION_WIRE_SIZE = (FL_SESSION_OK, Some bs)
    else new = Some old"
proof (cases "r = FL_SESSION_OK")
  case True
  with session_wire_decode [OF assms(1), of old new] assms(2) show ?thesis
    by (auto simp: flSessionEncode_def)
next
  case False
  with session_decode_unchanged [of "Some bs" FL_SESSION_WIRE_SIZE "Some old"] assms(2)
  show ?thesis by simp
qed

theorem session_decode_canonical_witness:
  "flSessionDecode (Some (replicate 160 0)) 160 (Some example_config) =
     (FL_SESSION_INVALID, Some example_config)"
proof -
  have r: "flSessionDecode (Some (replicate 160 0)) FL_SESSION_WIRE_SIZE (Some example_config) =
      (FL_SESSION_INVALID, snd (flSessionDecode (Some (replicate 160 0)) FL_SESSION_WIRE_SIZE (Some example_config)))"
    by code_simp
  show ?thesis
    using session_decode_canonical [OF _ r] r by simp
qed

text \<open>
  Negotiation is sound, complete and ordered as documented: for comparable offers (both
  well formed, same version, same track presence) the result is the first producer video
  format the consumer also has and the first common 48 kHz audio format, or failing that the
  first common audio format; if a track has no common format the result is
  \<open>FL_SESSION_INCOMPATIBLE\<close> and the outputs are untouched.
\<close>
theorem negotiate_spec:
  assumes "comparable p c"
  shows "flSessionNegotiate (Some p) (Some c) (Some v) (Some a) =
    (case (pick_video p c, pick_audio p c) of
       (Some v', Some a') \<Rightarrow> (FL_SESSION_OK, Some v', Some a')
     | _ \<Rightarrow> (FL_SESSION_INCOMPATIBLE, Some v, Some a))"
  by (rule negotiate_result) (rule assms)

theorem negotiate_spec_witness:
  "comparable example_caps example_caps \<and>
   flSessionNegotiate (Some example_caps) (Some example_caps) (Some no_video) (Some no_audio) =
     (FL_SESSION_OK, Some (cfg_video example_config), Some (cfg_audio example_config))"
proof -
  have c: "comparable example_caps example_caps" by code_simp
  have "pick_video example_caps example_caps = Some (cfg_video example_config)"
    and "pick_audio example_caps example_caps = Some (cfg_audio example_config)"
    by code_simp+
  then show ?thesis using c negotiate_spec [OF c, of no_video no_audio] by simp
qed

text \<open>
  A negotiated pair of formats is accepted by the selection check of both peers: any valid
  configuration that carries the negotiated formats, the offers' version and exactly their
  tracks passes \<open>flSessionValidateSelection\<close>.
\<close>
theorem negotiated_selection_accepted:
  assumes "flSessionNegotiate (Some p) (Some c) (Some v0) (Some a0) = (FL_SESSION_OK, Some v, Some a)"
    and "flSessionValidate (Some cfg) = FL_SESSION_OK"
    and "cfg_version cfg = cap_version p" "cfg_video cfg = v" "cfg_audio cfg = a"
    and "cfg_videoTrackId cfg = 0 \<longleftrightarrow> cap_videoCount p = 0"
    and "cfg_audioTrackId cfg = 0 \<longleftrightarrow> cap_audioCount p = 0"
  shows "flSessionValidateSelection (Some cfg) (Some p) (Some c) = FL_SESSION_OK"
proof -
  from assms(1) have cmp: "comparable p c"
    by (auto simp: flSessionNegotiate_def comparable_def Let_def split: if_splits)
  with assms(1) negotiate_result [OF cmp, of v0 a0]
  have pv: "pick_video p c = Some v" and pa: "pick_audio p c = Some a"
    by (auto split: option.splits)
  have "cap_videoCount p \<noteq> 0 \<Longrightarrow> v \<in> set (used_video p) \<and> list_ex (video_eq v) (used_video c)"
    using pv by (auto simp: pick_video_def dest!: find_in_set)
  moreover have "cap_audioCount p \<noteq> 0 \<Longrightarrow> a \<in> set (used_audio p) \<and> list_ex (audio_eq a) (used_audio c)"
    using pa by (auto simp: pick_audio_def dest!: find_in_set split: option.splits)
  ultimately show ?thesis
    using assms(2-) cmp
    by (auto simp: flSessionValidateSelection_def check_offer_def comparable_def Let_def list_ex_iff intro: video_eq_refl audio_eq_refl)
qed

theorem negotiated_selection_accepted_witness:
  "flSessionValidateSelection (Some example_config) (Some example_caps) (Some example_caps) = FL_SESSION_OK"
proof (rule negotiated_selection_accepted)
  show "flSessionNegotiate (Some example_caps) (Some example_caps) (Some no_video) (Some no_audio) =
     (FL_SESSION_OK, Some (cfg_video example_config), Some (cfg_audio example_config))"
    by code_simp
qed (rule example_config_valid, code_simp+)

text \<open>
  The frame-rate comparison never wraps: two video formats compare equal exactly when their
  formats and sizes are equal and the frame rates are equal as rational numbers.
\<close>
theorem video_eq_exact:
  "video_eq a b \<longleftrightarrow> vf_format a = vf_format b \<and> vf_width a = vf_width b \<and> vf_height a = vf_height b \<and>
     unat (vf_fpsNum a) * unat (vf_fpsDen b) = unat (vf_fpsNum b) * unat (vf_fpsDen a)"
  by (simp add: video_eq_def unat_prod32 word_unat_eq_iff)

text \<open>
  Timestamp mapping is exact: once the arguments are admissible, the target time is the
  integer \<open>epoch + pts - sourceAnchor + targetAnchor\<close>, returned whenever the absolute time and the
  result fit a nonnegative \<^verbatim>\<open>int64_t\<close>; otherwise the answer is \<open>FL_SESSION_TIME_RANGE\<close> and the
  output is unchanged. No intermediate addition wraps.
\<close>
theorem mapPts_spec:
  assumes ok: "mapping_ok c m maxError pts"
  defines "exact \<equiv> sint (cfg_epochNs c) + sint pts - sint (cm_sourceAnchorNs m) + sint (cm_targetAnchorNs m)"
  shows "flSessionMapPts (Some c) (Some m) maxError pts (Some x) =
     (if sint (cfg_epochNs c) + sint pts < 2 ^ 63 \<and> 0 \<le> exact \<and> exact < 2 ^ 63
      then (FL_SESSION_OK, Some (word_of_int exact)) else (FL_SESSION_TIME_RANGE, Some x))"
proof (cases "sint (cfg_epochNs c) + sint pts < 2 ^ 63")
  case False
  then have "checked_add (cfg_epochNs c) pts = None" by (simp add: checked_add_None)
  with False show ?thesis by (simp add: mapPts_chain [OF ok])
next
  case True
  let ?abs = "cfg_epochNs c + pts" and ?s = "cm_sourceAnchorNs m" and ?t = "cm_targetAnchorNs m"
  have nn: "0 \<le> sint (cfg_epochNs c)" "0 \<le> sint pts" "0 \<le> sint ?s" "0 \<le> sint ?t"
    using ok valid_epoch_nonneg [of c] by (simp_all add: mapping_ok_def)
  have neg: "sint (- ?s) = - sint ?s" by (rule sint_neg64) (rule nn)
  have abs: "checked_add (cfg_epochNs c) pts = Some ?abs" "sint ?abs = sint (cfg_epochNs c) + sint pts"
    using True nn by (simp_all add: checked_add_Some sint_add64)
  have rel: "checked_add ?abs (- ?s) = Some (?abs + - ?s)" "sint (?abs + - ?s) = sint ?abs - sint ?s"
    using True nn sint_range64 [of ?s] checked_add_Some [of ?abs "- ?s"] sint_add64 [of ?abs "- ?s"]
    by (simp_all add: abs(2) neg)
  have exact: "exact = sint (?abs + - ?s) + sint ?t" by (simp only: exact_def abs(2) rel(2))
  have low: "- (2 ^ 63) \<le> exact" using nn sint_range64 [of ?s] by (simp add: exact_def)
  show ?thesis
  proof (cases "exact < 2 ^ 63")
    case False
    then have "checked_add (?abs + - ?s) ?t = None" by (simp only: exact checked_add_None) blast
    with False show ?thesis by (simp add: mapPts_chain [OF ok] abs(1) rel(1))
  next
    case fits: True
    have "checked_add (?abs + - ?s) ?t = Some (?abs + - ?s + ?t)" "sint (?abs + - ?s + ?t) = exact"
      using fits low by (simp_all only: exact checked_add_Some sint_add64)
    moreover have "word_of_int exact = ?abs + - ?s + ?t"
      using calculation(2) by (metis of_int_sint scast_id)
    ultimately show ?thesis using True fits
      by (simp add: mapPts_chain [OF ok] abs(1) rel(1) word_sless_alt)
  qed
qed

theorem mapPts_spec_witness:
  "flSessionMapPts (Some example_config)
     (Some \<lparr>cm_sourceClockId = replicate 16 9, cm_targetClockId = replicate 16 3,
        cm_sourceAnchorNs = 500, cm_targetAnchorNs = 70, cm_uncertaintyNs = 4\<rparr>) 10 33 (Some 0) =
   (FL_SESSION_OK, Some 603)"
proof -
  let ?m = "\<lparr>cm_sourceClockId = replicate 16 9, cm_targetClockId = replicate 16 3,
        cm_sourceAnchorNs = 500, cm_targetAnchorNs = 70, cm_uncertaintyNs = 4\<rparr>"
  have "mapping_ok example_config ?m 10 33" by code_simp
  from mapPts_spec [OF this, of 0] show ?thesis by (simp add: example_config_def)
qed

text \<open>
  The offset of a sample is \<open>floor(index * 10^9 / rate)\<close> nanoseconds for every 64-bit index and
  every admissible rate, although the product itself would overflow; it is refused with
  \<open>FL_SESSION_TIME_RANGE\<close> exactly when that number does not fit an \<^verbatim>\<open>int64_t\<close>.
\<close>
theorem sampleOffset_spec:
  fixes index :: u64 and rate :: u32
  assumes "8000 \<le> rate" "rate \<le> 192000"
  defines "offset \<equiv> unat index * 10 ^ 9 div unat rate"
  shows "flSessionSampleOffset index rate (Some x) =
    (if offset < 2 ^ 63 then (FL_SESSION_OK, Some (of_nat offset)) else (FL_SESSION_TIME_RANGE, Some x))"
proof -
  let ?i = "unat index" and ?r = "unat rate" and ?R = "ucast rate :: u64"
  have r: "8000 \<le> ?r" "?r \<le> 192000" using assms(1,2) by (simp_all add: word_le_nat_alt)
  have R: "unat ?R = ?r" by simp
  have split: "offset = (?i div ?r) * 10 ^ 9 + (?i mod ?r) * 10 ^ 9 div ?r"
  proof -
    have "?i * 10 ^ 9 = (?r * (?i div ?r) + ?i mod ?r) * 10 ^ 9"
      by (simp only: mult_div_mod_eq)
    also have "\<dots> = ?r * ((?i div ?r) * 10 ^ 9) + (?i mod ?r) * 10 ^ 9"
      by (simp only: add_mult_distrib mult.assoc)
    finally have "offset = (?r * ((?i div ?r) * 10 ^ 9) + (?i mod ?r) * 10 ^ 9) div ?r"
      by (simp only: offset_def)
    with r show ?thesis by simp
  qed
  have m: "?i mod ?r < ?r" using r by simp
  then have m2: "?i mod ?r < 192000" using r by linarith
  have part_lt: "(?i mod ?r) * 10 ^ 9 div ?r < 10 ^ 9"
    using m by (simp add: less_mult_imp_div_less mult.commute)
  have sec: "unat (index div ?R) = ?i div ?r" by (simp add: unat_div R)
  have prod: "unat (index mod ?R * 1000000000) = (?i mod ?r) * 10 ^ 9"
    using m2 by (simp add: unat_word_ariths unat_mod R)
  have part: "unat (index mod ?R * 1000000000 div ?R) = (?i mod ?r) * 10 ^ 9 div ?r"
    by (simp add: unat_div prod R)
  have max: "unat (INT64_MAX div 1000000000) = (2 ^ 63 - 1) div 10 ^ 9" by simp
  show ?thesis
  proof (cases "?i div ?r \<le> (2 ^ 63 - 1) div 10 ^ 9")
    case False
    then have "\<not> offset < 2 ^ 63" by (simp add: split)
    with False assms(1,2) show ?thesis
      by (simp add: flSessionSampleOffset_def Let_def word_less_nat_alt sec not_less [symmetric])
  next
    case True
    then have "?i div ?r * 10 ^ 9 < 2 ^ 63" by simp
    moreover from this have "unat (index div ?R * 1000000000) = ?i div ?r * 10 ^ 9"
      by (subst unat_mult64) (simp_all only: sec, simp_all)
    ultimately have "unat (index div ?R * 1000000000 + index mod ?R * 1000000000 div ?R) = offset"
      using part_lt unat_add64 [of "index div ?R * 1000000000" "index mod ?R * 1000000000 div ?R"]
      by (simp only: part split) simp
    with True assms(1,2) show ?thesis
      by (auto simp: flSessionSampleOffset_def Let_def word_less_nat_alt word_le_nat_alt sec not_less)
  qed
qed

theorem sampleOffset_spec_witness:
  "flSessionSampleOffset 48001 48000 (Some 0) = (FL_SESSION_OK, Some 1000020833)"
  using sampleOffset_spec [of 48000 48001 0] by simp

text \<open>
  Session replacement is a strict order: nothing replaces itself, and replacements compose, so
  a chain of accepted replacements only ever moves to larger generations of the same session.
\<close>
theorem replacement_strict_order:
  assumes "flSessionValidateReplacement (Some a) (Some b) = FL_SESSION_OK"
    and "flSessionValidateReplacement (Some b) (Some c) = FL_SESSION_OK"
  shows "flSessionValidateReplacement (Some a) (Some c) = FL_SESSION_OK \<and>
    flSessionValidateReplacement (Some b) (Some a) = FL_SESSION_STALE \<and>
    cfg_generation a < cfg_generation b"
  using assms
  by (auto simp: flSessionValidateReplacement_def same_id_def
      split: if_splits)

theorem replacement_strict_order_witness:
  "flSessionValidateReplacement (Some example_config) (Some (example_config\<lparr>cfg_generation := 7\<rparr>)) =
     FL_SESSION_OK"
proof -
  have "flSessionValidateReplacement (Some example_config)
      (Some (example_config\<lparr>cfg_generation := 6\<rparr>)) = FL_SESSION_OK"
    and "flSessionValidateReplacement (Some (example_config\<lparr>cfg_generation := 6\<rparr>))
      (Some (example_config\<lparr>cfg_generation := 7\<rparr>)) = FL_SESSION_OK"
    by code_simp+
  from replacement_strict_order [OF this] show ?thesis by blast
qed

end
