(* ===== verification/FL_Events.thy ===== *)
theory FL_Events
  imports FL_Session
begin

text \<open>
  The ordered control stream of a session: \<^verbatim>\<open>gst/fl_gst_event_channel.hpp\<close>.  The producer end numbers and
  writes 64-byte big-endian records; the consumer end runs a reader thread that checks each record and queues at
  most 32 events.  The answers of GIO (how many bytes a write placed, what a wait or a read brought) are arguments;
  the thread is one step per loop iteration, so that calls of the owner interleave with it at its lock boundaries.
\<close>

section \<open>Data\<close>

datatype FlGstSessionResult =
  FL_GST_SESSION_READY | FL_GST_SESSION_TIMEOUT | FL_GST_SESSION_CANCELLED | FL_GST_SESSION_INVALID | FL_GST_SESSION_STALE

abbreviation FL_GST_VIDEO_GAP :: u32 where "FL_GST_VIDEO_GAP \<equiv> 1"
abbreviation FL_GST_VIDEO_BARRIER :: u32 where "FL_GST_VIDEO_BARRIER \<equiv> 2"
abbreviation FL_GST_VIDEO_FLUSH :: u32 where "FL_GST_VIDEO_FLUSH \<equiv> 3"
abbreviation FL_GST_VIDEO_END :: u32 where "FL_GST_VIDEO_END \<equiv> 4"

record FlGstVideoEvent =
  ve_kind :: u32
  ve_afterFrames :: u64
  ve_ptsNs :: u64
  ve_durationNs :: u64

text \<open>
  \<open>ec_cancelled\<close> is the state of \<^verbatim>\<open>cancel_\<close>, \<open>ec_serial\<close> the reader's local counter, \<open>ec_reading\<close> says that its loop has not
  returned, and \<open>ec_out\<close> collects the bytes the stream has taken.
\<close>
record FlGstEventChannel =
  ec_producer :: bool
  ec_generation :: u64
  ec_events :: "FlGstVideoEvent list"
  ec_failed :: bool
  ec_cancelled :: bool
  ec_sent :: u64
  ec_serial :: u64
  ec_reading :: bool
  ec_out :: "u8 list"

datatype ReadAnswer = RaTimedOut | RaWaitFailed | RaRead "u8 list"

section \<open>Operations\<close>

definition be_put :: "nat \<Rightarrow> 'a::len word \<Rightarrow> u8 list" where
  "be_put n v = rev (le_put n v)"

definition be_read :: "nat \<Rightarrow> nat \<Rightarrow> u8 list \<Rightarrow> 'a::len word" where
  "be_read off n b = le_val (rev (take n (drop off b)))"

definition FLEVT001 :: "u8 list" where
  "FLEVT001 = [0x46, 0x4C, 0x45, 0x56, 0x54, 0x30, 0x30, 0x31]"

definition event_wire :: "u64 \<Rightarrow> FlGstVideoEvent \<Rightarrow> u64 \<Rightarrow> u8 list" where
  "event_wire generation e serial =
     FLEVT001 @ be_put 8 generation @ be_put 4 (ve_kind e) @ be_put 4 (0 :: u32) @ be_put 8 (ve_afterFrames e) @
     be_put 8 (ve_ptsNs e) @ be_put 8 (ve_durationNs e) @ be_put 8 serial @ be_put 8 (0 :: u64)"

definition event_fields :: "u8 list \<Rightarrow> FlGstVideoEvent" where
  "event_fields wire =
     \<lparr>ve_kind = be_read 16 4 wire, ve_afterFrames = be_read 24 8 wire, ve_ptsNs = be_read 32 8 wire, ve_durationNs = be_read 40 8 wire\<rparr>"

definition event_valid :: "FlGstVideoEvent \<Rightarrow> bool" where
  "event_valid e \<longleftrightarrow> ve_kind e \<ge> FL_GST_VIDEO_GAP \<and> ve_kind e \<le> FL_GST_VIDEO_END \<and> ve_ptsNs e \<le> INT64_MAX \<and>
     ve_durationNs e \<le> INT64_MAX - ve_ptsNs e \<and>
     (if ve_kind e = FL_GST_VIDEO_GAP then ve_durationNs e > 0 else ve_durationNs e = 0)"

definition events_new :: "bool \<Rightarrow> u64 \<Rightarrow> FlGstEventChannel" where
  "events_new producer generation =
     \<lparr>ec_producer = producer, ec_generation = generation, ec_events = [], ec_failed = False, ec_cancelled = False, ec_sent = 0,
      ec_serial = 0, ec_reading = \<not> producer, ec_out = []\<rparr>"

definition events_cancel :: "FlGstEventChannel \<Rightarrow> FlGstEventChannel" where
  "events_cancel ch = ch\<lparr>ec_cancelled := True\<rparr>"

definition events_fail :: "FlGstEventChannel \<Rightarrow> FlGstEventChannel" where
  "events_fail ch = ch\<lparr>ec_failed := True, ec_cancelled := True\<rparr>"

text \<open>\<open>accepted\<close> is the number of bytes \<^verbatim>\<open>g_output_stream_write_all\<close> places before it stops; it succeeds when that is all of them.\<close>
definition events_send :: "nat \<Rightarrow> FlGstEventChannel \<Rightarrow> FlGstVideoEvent \<Rightarrow> FlGstSessionResult \<times> FlGstEventChannel" where
  "events_send accepted ch e =
     (if \<not> ec_producer ch \<or> \<not> event_valid e then (FL_GST_SESSION_INVALID, ch)
      else if ec_failed ch \<or> ec_cancelled ch then (FL_GST_SESSION_CANCELLED, ch)
      else if ec_sent ch = UINT64_MAX then (FL_GST_SESSION_INVALID, ch)
      else
        let wire = event_wire (ec_generation ch) e (ec_sent ch + 1);
            ch1 = ch\<lparr>ec_sent := ec_sent ch + 1, ec_out := ec_out ch @ take accepted wire\<rparr>
        in if accepted < length wire then (FL_GST_SESSION_CANCELLED, events_fail ch1) else (FL_GST_SESSION_READY, ch1))"

definition record_ok :: "u64 \<Rightarrow> u64 \<Rightarrow> u8 list \<Rightarrow> bool" where
  "record_ok generation serial wire \<longleftrightarrow>
     take 8 wire = FLEVT001 \<and> (be_read 8 8 wire :: u64) = generation \<and> (be_read 20 4 wire :: u32) = 0 \<and> (be_read 56 8 wire :: u64) = 0 \<and>
     serial \<noteq> UINT64_MAX \<and> (be_read 48 8 wire :: u64) = serial + 1 \<and> event_valid (event_fields wire)"

text \<open>One iteration of \<^verbatim>\<open>readLoop\<close>.\<close>
definition read_step :: "ReadAnswer \<Rightarrow> FlGstEventChannel \<Rightarrow> FlGstEventChannel" where
  "read_step answer ch =
     (if \<not> ec_reading ch then ch
      else if ec_cancelled ch then ch\<lparr>ec_reading := False\<rparr>
      else case answer of
        RaTimedOut \<Rightarrow> ch
      | RaWaitFailed \<Rightarrow> (events_fail ch)\<lparr>ec_reading := False\<rparr>
      | RaRead wire \<Rightarrow>
          (if length wire \<noteq> 64 then (events_fail ch)\<lparr>ec_reading := False\<rparr>
           else if \<not> record_ok (ec_generation ch) (ec_serial ch) wire then (events_fail ch)\<lparr>ec_reading := False\<rparr>
           else if ve_kind (event_fields wire) = FL_GST_VIDEO_FLUSH then (events_fail ch)\<lparr>ec_reading := False\<rparr>
           else if length (ec_events ch) \<ge> 32 then (events_fail ch)\<lparr>ec_reading := False\<rparr>
           else ch\<lparr>ec_serial := ec_serial ch + 1, ec_events := ec_events ch @ [event_fields wire]\<rparr>))"

definition peekEnd :: "FlGstEventChannel \<Rightarrow> FlGstVideoEvent option \<Rightarrow> bool \<times> FlGstVideoEvent option" where
  "peekEnd ch out =
     (if ec_producer ch \<or> out = None then (False, out)
      else case find (\<lambda>e. ve_kind e = FL_GST_VIDEO_END) (ec_events ch) of
        Some e \<Rightarrow> (True, assign out e)
      | None \<Rightarrow> (False, out))"

text \<open>The wait of \<^verbatim>\<open>receive\<close>: the reader's iterations that fall into the timeout, until the predicate holds.\<close>
fun receive_wait :: "ReadAnswer list \<Rightarrow> FlGstEventChannel \<Rightarrow> FlGstEventChannel" where
  "receive_wait [] ch = ch"
| "receive_wait (a # as) ch =
     (if ec_events ch \<noteq> [] \<or> ec_failed ch \<or> ec_cancelled ch then ch else receive_wait as (read_step a ch))"

definition events_receive ::
  "ReadAnswer list \<Rightarrow> FlGstEventChannel \<Rightarrow> u32 \<Rightarrow> FlGstVideoEvent option \<Rightarrow> FlGstSessionResult \<times> FlGstEventChannel \<times> FlGstVideoEvent option" where
  "events_receive answers ch timeout out =
     (if ec_producer ch \<or> out = None \<or> timeout > 60000 then (FL_GST_SESSION_INVALID, ch, out)
      else
        let ch1 = receive_wait answers ch
        in case ec_events ch1 of
             e # es \<Rightarrow> (FL_GST_SESSION_READY, ch1\<lparr>ec_events := es\<rparr>, assign out e)
           | [] \<Rightarrow> (if ec_failed ch1 \<or> ec_cancelled ch1 then FL_GST_SESSION_CANCELLED else FL_GST_SESSION_TIMEOUT, ch1, out))"

text \<open>
  A run of the two ends over one stream.  The list of records in flight holds what the producer wrote and the reader has
  not read yet, one entry per write; \<open>sent\<close> are the events whose send returned \<^verbatim>\<open>FL_GST_SESSION_READY\<close> and \<open>got\<close> those that
  \<^verbatim>\<open>receive\<close> returned.
\<close>
definition new_bytes :: "FlGstEventChannel \<Rightarrow> FlGstEventChannel \<Rightarrow> u8 list list" where
  "new_bytes p p' = (let new = drop (length (ec_out p)) (ec_out p') in if new = [] then [] else [new])"

inductive event_run :: "u64 \<Rightarrow> FlGstEventChannel \<Rightarrow> FlGstEventChannel \<Rightarrow> u8 list list \<Rightarrow> FlGstVideoEvent list \<Rightarrow> FlGstVideoEvent list \<Rightarrow> bool"
  for g where
  start: "event_run g (events_new True g) (events_new False g) [] [] []"
| send: "event_run g p c fl sent got \<Longrightarrow> events_send k p e = (r, p') \<Longrightarrow>
    event_run g p' c (fl @ new_bytes p p') (if r = FL_GST_SESSION_READY then sent @ [e] else sent) got"
| cancel_producer: "event_run g p c fl sent got \<Longrightarrow> event_run g (events_cancel p) c fl sent got"
| cancel_consumer: "event_run g p c fl sent got \<Longrightarrow> event_run g p (events_cancel c) fl sent got"
| no_record: "event_run g p c fl sent got \<Longrightarrow> a = RaTimedOut \<or> a = RaWaitFailed \<Longrightarrow> event_run g p (read_step a c) fl sent got"
| read_record: "event_run g p c (w # fl) sent got \<Longrightarrow> event_run g p (read_step (RaRead w) c) fl sent got"
| receive: "event_run g p c fl sent got \<Longrightarrow> events_receive [] c t (Some out) = (r, c', Some e) \<Longrightarrow>
    event_run g p c' fl sent (if r = FL_GST_SESSION_READY then got @ [e] else got)"

fun wires :: "u64 \<Rightarrow> u64 \<Rightarrow> FlGstVideoEvent list \<Rightarrow> u8 list list" where
  "wires g n [] = []"
| "wires g n (e # es) = event_wire g e (n + 1) # wires g (n + 1) es"

definition ev_inv where
  "ev_inv g p c fl sent got \<longleftrightarrow>
     ec_producer p \<and> \<not> ec_producer c \<and> ec_generation p = g \<and> ec_generation c = g \<and> length (ec_events c) \<le> 32 \<and>
     (\<exists>rest. sent = got @ ec_events c @ rest \<and>
       (ec_reading c \<and> \<not> ec_cancelled c \<longrightarrow>
         (\<exists>part. fl = wires g (ec_serial c) rest @ part \<and> (\<forall>w \<in> set part. length w < 64) \<and>
           (ec_failed p \<or> part = [] \<and> ec_sent p = ec_serial c + of_nat (length rest)))))"

definition example_gap :: FlGstVideoEvent where
  "example_gap = \<lparr>ve_kind = FL_GST_VIDEO_GAP, ve_afterFrames = 3, ve_ptsNs = 40, ve_durationNs = 20\<rparr>"

section \<open>Lemmas\<close>

lemma be_put_length [simp]: "length (be_put n v) = n"
  by (simp add: be_put_def)

lemma event_wire_length [simp]: "length (event_wire g e n) = 64"
  by (simp add: event_wire_def FLEVT001_def)

lemma be_val_put: "8 * n = LENGTH('a) \<Longrightarrow> le_val (rev (be_put n (v :: 'a::len word))) = v"
  by (simp add: be_put_def le_val_le_put)

lemma be_put_val: "length bs = n \<Longrightarrow> 8 * n = LENGTH('a) \<Longrightarrow> be_put n (le_val (rev bs) :: 'a::len word) = bs"
  using le_put_le_val [where bs = "rev bs" and 'a = 'a] by (simp add: be_put_def)

lemma event_wire_fields:
  "take 8 (event_wire g e n) = FLEVT001" "(be_read 8 8 (event_wire g e n) :: u64) = g" "(be_read 20 4 (event_wire g e n) :: u32) = 0"
  "(be_read 56 8 (event_wire g e n) :: u64) = 0" "(be_read 48 8 (event_wire g e n) :: u64) = n"
  "event_fields (event_wire g e n) = e"
  by (simp_all add: event_wire_def be_read_def event_fields_def FLEVT001_def be_val_put del: rev_rev_ident)

text \<open>The checks of the reader accept exactly the records of the producer with the next serial number.\<close>
lemma record_ok_iff:
  assumes "length wire = 64"
  shows "record_ok g n wire \<longleftrightarrow> n \<noteq> UINT64_MAX \<and> (\<exists>e. event_valid e \<and> wire = event_wire g e (n + 1))"
proof
  assume r: "record_ok g n wire"
  have split: "wire = take 8 wire @ take 8 (drop 8 wire) @ take 4 (drop 16 wire) @ take 4 (drop 20 wire) @ take 8 (drop 24 wire) @
      take 8 (drop 32 wire) @ take 8 (drop 40 wire) @ take 8 (drop 48 wire) @ take 8 (drop 56 wire)"
    using assms by (simp add: take_drop_rest)
  have p: "be_put 8 (be_read i 8 wire :: u64) = take 8 (drop i wire)" if "i + 8 \<le> 64" for i
    using that assms be_put_val [where bs = "take 8 (drop i wire)" and 'a = 64] by (simp add: be_read_def)
  have q: "be_put 4 (be_read i 4 wire :: u32) = take 4 (drop i wire)" if "i + 4 \<le> 64" for i
    using that assms be_put_val [where bs = "take 4 (drop i wire)" and 'a = 32] by (simp add: be_read_def)
  have "wire = event_wire g (event_fields wire) (n + 1)"
    using r p [of 8] q [of 16] q [of 20] p [of 24] p [of 32] p [of 40] p [of 48] p [of 56]
    by (subst split) (simp add: event_wire_def event_fields_def record_ok_def)
  with r show "n \<noteq> UINT64_MAX \<and> (\<exists>e. event_valid e \<and> wire = event_wire g e (n + 1))" by (auto simp: record_ok_def)
qed (auto simp: record_ok_def event_wire_fields)


lemma wires_append: "wires g n (es @ [e]) = wires g n es @ [event_wire g e (n + of_nat (length es) + 1)]"
  by (induction es arbitrary: n) (simp_all add: ac_simps)

text \<open>What a send does, by its answer.\<close>
lemma events_send_cases:
  assumes "events_send k p e = (r, p')"
  obtains (refused) "p' = p" "r \<noteq> FL_GST_SESSION_READY"
  | (short) "k < 64" "r = FL_GST_SESSION_CANCELLED" "p' = events_fail (p\<lparr>ec_sent := ec_sent p + 1, ec_out := ec_out p @ take k (event_wire (ec_generation p) e (ec_sent p + 1))\<rparr>)"
      "\<not> ec_failed p"
  | (written) "r = FL_GST_SESSION_READY" "event_valid e" "\<not> ec_failed p"
      "p' = p\<lparr>ec_sent := ec_sent p + 1, ec_out := ec_out p @ event_wire (ec_generation p) e (ec_sent p + 1)\<rparr>"
proof -
  consider (a) "\<not> ec_producer p \<or> \<not> event_valid e \<or> ec_failed p \<or> ec_cancelled p \<or> ec_sent p = UINT64_MAX"
    | (b) "ec_producer p" "event_valid e" "\<not> ec_failed p" "\<not> ec_cancelled p" "ec_sent p \<noteq> UINT64_MAX" "k < 64"
    | (c) "ec_producer p" "event_valid e" "\<not> ec_failed p" "\<not> ec_cancelled p" "ec_sent p \<noteq> UINT64_MAX" "\<not> k < 64"
    by argo
  then show ?thesis
  proof cases
    case a
    with assms show ?thesis by (intro refused) (simp_all add: events_send_def split: if_splits)
  next
    case b
    with assms show ?thesis by (intro short) (simp_all add: events_send_def Let_def)
  next
    case c
    with assms show ?thesis by (intro written) (simp_all add: events_send_def Let_def)
  qed
qed

lemma read_step_cases:
  obtains (same) "read_step a c = c" "a = RaTimedOut \<or> \<not> ec_reading c"
  | (stopped) "\<not> ec_reading (read_step a c)" "ec_events (read_step a c) = ec_events c" "ec_producer (read_step a c) = ec_producer c"
      "ec_generation (read_step a c) = ec_generation c" "ec_cancelled (read_step a c)"
  | (queued) e where "a = RaRead (event_wire (ec_generation c) e (ec_serial c + 1))" "event_valid e" "ve_kind e \<noteq> FL_GST_VIDEO_FLUSH"
      "length (ec_events c) < 32" "ec_reading c" "\<not> ec_cancelled c" "ec_serial c \<noteq> UINT64_MAX"
      "read_step a c = c\<lparr>ec_serial := ec_serial c + 1, ec_events := ec_events c @ [e]\<rparr>"
proof (cases "ec_reading c \<and> \<not> ec_cancelled c")
  case False
  show ?thesis
  proof (cases "ec_reading c")
    case True
    with False show ?thesis by (intro that(2)) (simp_all add: read_step_def)
  next
    case False
    then show ?thesis by (intro that(1)) (simp_all add: read_step_def)
  qed
next
  case True
  show ?thesis
  proof (cases a)
    case (RaRead wire)
    show ?thesis
    proof (cases "length wire = 64 \<and> record_ok (ec_generation c) (ec_serial c) wire \<and> ve_kind (event_fields wire) \<noteq> FL_GST_VIDEO_FLUSH \<and>
        length (ec_events c) < 32")
      case ok: True
      then obtain e where "event_valid e" "wire = event_wire (ec_generation c) e (ec_serial c + 1)" "ec_serial c \<noteq> UINT64_MAX"
        using record_ok_iff by blast
      with ok True RaRead show ?thesis by (intro that(3) [of e]) (simp_all add: read_step_def event_wire_fields)
    next
      case False
      then show ?thesis using True RaRead by (intro that(2)) (auto simp: read_step_def events_fail_def)
    qed
  next
    case RaTimedOut
    with True show ?thesis by (intro that(1)) (simp_all add: read_step_def)
  next
    case RaWaitFailed
    with True show ?thesis by (intro that(2)) (simp_all add: read_step_def events_fail_def)
  qed
qed

lemma ev_inv_stopped:
  assumes "ev_inv g p c fl sent got" "ec_cancelled c' \<or> \<not> ec_reading c'" "ec_events c' = ec_events c" "ec_producer c' = ec_producer c"
    "ec_generation c' = ec_generation c"
  shows "ev_inv g p c' fl' sent got"
  using assms by (auto simp: ev_inv_def)

lemma ev_inv_send:
  assumes "ev_inv g p c fl sent got" "events_send k p e = (r, p')"
  shows "ev_inv g p' c (fl @ new_bytes p p') (if r = FL_GST_SESSION_READY then sent @ [e] else sent) got"
  using assms(2)
proof (cases rule: events_send_cases)
  case refused
  then show ?thesis using assms(1) by (simp add: new_bytes_def)
next
  case short
  then have "\<forall>w \<in> set (new_bytes p p'). length w < 64" by (auto simp: new_bytes_def Let_def events_fail_def split: if_splits)
  with short assms(1) show ?thesis by (auto simp: ev_inv_def events_fail_def)
next
  case written
  have ne: "event_wire x e y \<noteq> []" for x y using event_wire_length [of x e y] by (metis list.size(3) zero_neq_numeral)
  have nb: "new_bytes p p' = [event_wire g e (ec_sent p + 1)]" using assms(1) written(4) ne by (simp add: new_bytes_def ev_inv_def)
  from assms(1) obtain rest where rest: "sent = got @ ec_events c @ rest"
    "ec_reading c \<and> \<not> ec_cancelled c \<longrightarrow> fl = wires g (ec_serial c) rest \<and> ec_sent p = ec_serial c + of_nat (length rest)"
    using written(3) by (auto simp: ev_inv_def)
  have "ec_reading c \<and> \<not> ec_cancelled c \<longrightarrow> fl @ new_bytes p p' = wires g (ec_serial c) (rest @ [e]) \<and>
      ec_sent p' = ec_serial c + of_nat (length (rest @ [e]))"
    using rest(2) nb written(4) by (auto simp: wires_append ac_simps)
  moreover have "sent @ [e] = got @ ec_events c @ rest @ [e]" using rest(1) by simp
  ultimately show ?thesis using assms(1) written unfolding ev_inv_def by (auto intro!: exI [of _ "rest @ [e]"])
qed

lemma ev_inv_read:
  assumes "ev_inv g p c (w # fl) sent got"
  shows "ev_inv g p (read_step (RaRead w) c) fl sent got"
proof (cases "RaRead w" c rule: read_step_cases)
  case same
  then show ?thesis using assms by (auto simp: ev_inv_def)
next
  case stopped
  then show ?thesis using assms by (intro ev_inv_stopped [OF assms]) auto
next
  case (queued e)
  have c: "ec_generation c = g" using assms by (simp add: ev_inv_def)
  from assms queued(5,6) obtain rest part where r: "sent = got @ ec_events c @ rest" "w # fl = wires g (ec_serial c) rest @ part"
    "\<forall>w \<in> set part. length w < 64" "ec_failed p \<or> part = [] \<and> ec_sent p = ec_serial c + of_nat (length rest)"
    by (auto simp: ev_inv_def)
  have "length w = 64" using queued(1) by simp
  then obtain e' rest' where rest: "rest = e' # rest'" using r(2,3) by (cases rest) auto
  have "event_wire g e' (ec_serial c + 1) = event_wire g e (ec_serial c + 1)" using r(2) rest queued(1) c by simp
  then have "e' = e" using event_wire_fields(6) by metis
  then show ?thesis using assms r rest queued unfolding ev_inv_def
    by (auto intro!: exI [of _ rest'] exI [of _ part] simp: ac_simps)
qed

lemma ev_inv_receive:
  assumes "ev_inv g p c fl sent got" "events_receive [] c t (Some out) = (r, c', Some e)"
  shows "ev_inv g p c' fl sent (if r = FL_GST_SESSION_READY then got @ [e] else got)"
  using assms by (cases "ec_events c") (auto simp: events_receive_def ev_inv_def split: if_splits)

lemma event_run_inv: "event_run g p c fl sent got \<Longrightarrow> ev_inv g p c fl sent got"
proof (induction rule: event_run.induct)
  case start
  show ?case by (simp add: ev_inv_def events_new_def)
next
  case (cancel_producer p c fl sent got)
  then show ?case by (simp add: ev_inv_def events_cancel_def)
next
  case (cancel_consumer p c fl sent got)
  show ?case by (rule ev_inv_stopped [OF cancel_consumer.IH]) (simp_all add: events_cancel_def)
next
  case (no_record p c fl sent got a)
  show ?case
  proof (cases a c rule: read_step_cases)
    case same
    then show ?thesis using no_record by simp
  next
    case stopped
    then show ?thesis using no_record by (intro ev_inv_stopped [OF no_record.IH]) auto
  qed (use no_record in simp)
next
  case (send p c fl sent got k e r p')
  show ?case by (rule ev_inv_send [OF send.IH send.hyps(2)])
next
  case (read_record p c w fl sent got)
  show ?case by (rule ev_inv_read [OF read_record.IH])
next
  case (receive p c fl sent got t out r c' e)
  show ?case by (rule ev_inv_receive [OF receive.IH receive.hyps(2)])
qed

section \<open>Properties\<close>

text \<open>
  C28. A reader admits exactly the next record of its peer.  Of all byte strings that can arrive at a live reader, the only one that is queued
  is the 64-byte encoding of a valid event other than a flush, with the session's generation and the next serial number, and
  only while fewer than 32 events wait; every other one (short, replayed, skipped, reordered, of another generation, with a
  nonzero reserved field) fails the channel for good and leaves the queue as it was.
\<close>
theorem event_record_exact:
  assumes "ec_reading c" "\<not> ec_cancelled c"
  shows "(\<exists>e. w = event_wire (ec_generation c) e (ec_serial c + 1) \<and> event_valid e \<and> ve_kind e \<noteq> FL_GST_VIDEO_FLUSH \<and>
      length (ec_events c) < 32 \<and> ec_serial c \<noteq> UINT64_MAX \<and>
      read_step (RaRead w) c = c\<lparr>ec_serial := ec_serial c + 1, ec_events := ec_events c @ [e]\<rparr>) \<or>
    (read_step (RaRead w) c = (events_fail c)\<lparr>ec_reading := False\<rparr> \<and>
      \<not> (\<exists>e. w = event_wire (ec_generation c) e (ec_serial c + 1) \<and> event_valid e \<and> ve_kind e \<noteq> FL_GST_VIDEO_FLUSH \<and>
        length (ec_events c) < 32 \<and> ec_serial c \<noteq> UINT64_MAX))"
proof (cases "length w = 64 \<and> record_ok (ec_generation c) (ec_serial c) w \<and> ve_kind (event_fields w) \<noteq> FL_GST_VIDEO_FLUSH \<and>
    length (ec_events c) < 32")
  case True
  then obtain e where "event_valid e" "w = event_wire (ec_generation c) e (ec_serial c + 1)" "ec_serial c \<noteq> UINT64_MAX"
    using record_ok_iff by blast
  with True assms show ?thesis by (intro disjI1 exI [of _ e]) (simp add: read_step_def event_wire_fields)
next
  case False
  then have "read_step (RaRead w) c = (events_fail c)\<lparr>ec_reading := False\<rparr>" using assms by (auto simp: read_step_def)
  moreover have "\<not> (\<exists>e. w = event_wire (ec_generation c) e (ec_serial c + 1) \<and> event_valid e \<and> ve_kind e \<noteq> FL_GST_VIDEO_FLUSH \<and>
        length (ec_events c) < 32 \<and> ec_serial c \<noteq> UINT64_MAX)" using False record_ok_iff [of w] event_wire_fields(6) event_wire_length by metis
  ultimately show ?thesis by blast
qed

theorem event_record_exact_witness:
  "read_step (RaRead [1, 2, 3]) (events_new False 7) = (events_fail (events_new False 7))\<lparr>ec_reading := False\<rparr>"
proof -
  have "[1, 2, 3] \<noteq> event_wire x e y" for x e y
    by (rule notI, drule arg_cong [of _ _ length]) simp
  then show ?thesis using event_record_exact [of "events_new False 7" "[1, 2, 3]"] by (auto simp: events_new_def)
qed

text \<open>
  C29. Control events arrive in order, once.  In every interleaving of sends, reader iterations, receives and
  cancellations on either side, with any write failing at any byte, the events received are a prefix of the
  events sent; the queue never holds more than 32; and while the consumer end is alive every event sent was
  received, is queued, or is still in flight as a complete record.
\<close>
theorem event_stream_ordered:
  assumes "event_run g p c fl sent got"
  shows "\<exists>rest. sent = got @ ec_events c @ rest \<and> length (ec_events c) \<le> 32 \<and>
    (ec_reading c \<and> \<not> ec_cancelled c \<longrightarrow> length rest = length (filter (\<lambda>w. length w = 64) fl))"
proof -
  have "length (filter (\<lambda>w. length w = 64) (wires g n es)) = length es" for n es by (induction es arbitrary: n) auto
  moreover have "filter (\<lambda>w. length w = 64) part = []" if "\<forall>w \<in> set part. length w < 64" for part :: "u8 list list"
    using that by (auto simp: filter_empty_conv)
  ultimately show ?thesis using event_run_inv [OF assms] unfolding ev_inv_def by (metis filter_append append_Nil2)
qed

theorem event_stream_ordered_witness:
  "\<exists>p c. event_run 7 p c [] [example_gap] [example_gap] \<and> ec_events c = []"
proof -
  let ?w = "event_wire 7 example_gap 1"
  have v: "event_valid example_gap" by (simp add: event_valid_def example_gap_def)
  have ne: "?w \<noteq> []" using event_wire_length [of 7 example_gap 1] by (metis list.size(3) zero_neq_numeral)
  obtain p where s: "events_send 64 (events_new True 7) example_gap = (FL_GST_SESSION_READY, p)" "ec_out p = ?w"
    using v by (simp add: events_send_def events_new_def Let_def)
  have "new_bytes (events_new True 7) p = [?w]" using s(2) ne by (simp add: new_bytes_def events_new_def)
  with event_run.send [OF event_run.start s(1)] have r1: "event_run 7 p (events_new False 7) [?w] [example_gap] []" by simp
  let ?c = "(events_new False 7)\<lparr>ec_serial := 1, ec_events := [example_gap]\<rparr>"
  have "record_ok 7 0 ?w" using v by (simp add: record_ok_def event_wire_fields)
  then have "read_step (RaRead ?w) (events_new False 7) = ?c" by (simp add: read_step_def events_new_def event_wire_fields) (simp add: example_gap_def)
  with event_run.read_record [OF r1] have r2: "event_run 7 p ?c [] [example_gap] []" by simp
  have "events_receive [] ?c 0 (Some example_gap) = (FL_GST_SESSION_READY, ?c\<lparr>ec_events := []\<rparr>, Some example_gap)"
    by (simp add: events_receive_def events_new_def)
  from event_run.receive [OF r2 this] have r3: "event_run 7 p (?c\<lparr>ec_events := []\<rparr>) [] [example_gap] [example_gap]" by simp
  from event_stream_ordered [OF r3] have "ec_events (?c\<lparr>ec_events := []\<rparr>) = []" by auto
  with r3 show ?thesis by blast
qed

end
