(* ===== verification/FL_Coordinator.thy ===== *)
theory FL_Coordinator
  imports FL_Events
begin

text \<open>
  The session coordinator that the media elements of one pipeline share: \<^verbatim>\<open>gst/framelink_session_context.cpp\<close>.
  Every operation runs under the object's mutex, so it is one function on the object's state; the two waits are loops over the
  calls that other threads make meanwhile.  A null or foreign object pointer is refused by every entry point before
  anything else; the model starts from an existing object.  Reference counts of the streams are not modelled: a
  stream is a number, and the shutdowns of its socket are recorded.
\<close>

section \<open>Data\<close>

abbreviation FL_GST_TRACK_VIDEO :: u32 where "FL_GST_TRACK_VIDEO \<equiv> 1"
abbreviation FL_GST_TRACK_AUDIO :: u32 where "FL_GST_TRACK_AUDIO \<equiv> 2"

text \<open>\<open>gs_shutdown\<close> and \<open>gs_dropped\<close> record the sockets shut down and the event channels cancelled and released.\<close>
record FlGstSession =
  gs_events :: "FlGstEventChannel option"
  gs_required :: u32
  gs_registered :: u32
  gs_ready :: u32
  gs_configured :: bool
  gs_cancelled :: bool
  gs_mapped :: bool
  gs_videoEnded :: bool
  gs_videoFrames :: u64
  gs_videoLastPts :: i64
  gs_mapping :: flClockMapping
  gs_maxUncertainty :: u64
  gs_audioConnection :: "nat option"
  gs_audioProducer :: bool
  gs_audioClaimed :: bool
  gs_config :: flSessionConfig
  gs_shutdown :: "nat list"
  gs_dropped :: "FlGstEventChannel list"

definition zero_mapping :: flClockMapping where
  "zero_mapping = \<lparr>cm_sourceClockId = replicate 16 0, cm_targetClockId = replicate 16 0, cm_sourceAnchorNs = 0, cm_targetAnchorNs = 0,
     cm_uncertaintyNs = 0\<rparr>"

section \<open>Operations\<close>

definition fl_gst_session_new :: "u32 \<Rightarrow> FlGstSession option" where
  "fl_gst_session_new required =
     (if required = 0 \<or> required AND NOT 3 \<noteq> 0 then None
      else Some \<lparr>gs_events = None, gs_required = required, gs_registered = 0, gs_ready = 0, gs_configured = False, gs_cancelled = False,
        gs_mapped = False, gs_videoEnded = False, gs_videoFrames = 0, gs_videoLastPts = 0, gs_mapping = zero_mapping, gs_maxUncertainty = 0,
        gs_audioConnection = None, gs_audioProducer = False, gs_audioClaimed = False, gs_config = zero_config, gs_shutdown = [],
        gs_dropped = []\<rparr>)"

definition config_tracks :: "flSessionConfig \<Rightarrow> u32" where
  "config_tracks c = (if cfg_videoTrackId c \<noteq> 0 then 1 else 0) OR (if cfg_audioTrackId c \<noteq> 0 then 2 else 0)"

definition shutdown_audio :: "FlGstSession \<Rightarrow> FlGstSession" where
  "shutdown_audio s = (case gs_audioConnection s of None \<Rightarrow> s | Some a \<Rightarrow> s\<lparr>gs_shutdown := gs_shutdown s @ [a]\<rparr>)"

definition drop_events :: "FlGstSession \<Rightarrow> FlGstSession" where
  "drop_events s = (case gs_events s of None \<Rightarrow> s | Some ch \<Rightarrow> s\<lparr>gs_dropped := gs_dropped s @ [events_cancel ch], gs_events := None\<rparr>)"

definition fl_gst_session_configure ::
  "FlGstSession \<Rightarrow> flSessionConfig option \<Rightarrow> flSessionCapabilities option \<Rightarrow> flSessionCapabilities option \<Rightarrow> FlGstSessionResult \<times> FlGstSession" where
  "fl_gst_session_configure s c p q =
     (if flSessionValidateSelection c p q \<noteq> FL_SESSION_OK then (FL_GST_SESSION_INVALID, s)
      else case c of
        None \<Rightarrow> (FL_GST_SESSION_INVALID, s)
      | Some c \<Rightarrow>
          if config_tracks c \<noteq> gs_required s then (FL_GST_SESSION_INVALID, s)
          else
            let r = flSessionValidateReplacement (Some (gs_config s)) (Some c)
            in if gs_configured s \<and> r \<noteq> FL_SESSION_OK
               then (if r = FL_SESSION_STALE then FL_GST_SESSION_STALE else FL_GST_SESSION_INVALID, s)
               else (FL_GST_SESSION_READY,
                 (drop_events ((shutdown_audio s)\<lparr>gs_audioConnection := None\<rparr>))
                   \<lparr>gs_audioClaimed := False, gs_videoEnded := False, gs_videoFrames := 0, gs_videoLastPts := - 1, gs_config := c,
                    gs_mapped := False, gs_configured := True, gs_cancelled := False, gs_ready := 0\<rparr>))"

definition fl_gst_session_register_track :: "FlGstSession \<Rightarrow> u32 \<Rightarrow> FlGstSessionResult \<times> FlGstSession" where
  "fl_gst_session_register_track s track =
     (if track \<noteq> 1 \<and> track \<noteq> 2 then (FL_GST_SESSION_INVALID, s)
      else if gs_required s AND track = 0 \<or> gs_registered s AND track \<noteq> 0 then (FL_GST_SESSION_INVALID, s)
      else (FL_GST_SESSION_READY, s\<lparr>gs_registered := gs_registered s OR track\<rparr>))"

definition fl_gst_session_track_ready :: "FlGstSession \<Rightarrow> u32 \<Rightarrow> u64 \<Rightarrow> FlGstSessionResult \<times> FlGstSession" where
  "fl_gst_session_track_ready s track generation =
     (if track \<noteq> 1 \<and> track \<noteq> 2 then (FL_GST_SESSION_INVALID, s)
      else if gs_cancelled s then (FL_GST_SESSION_CANCELLED, s)
      else if \<not> gs_configured s \<or> cfg_generation (gs_config s) \<noteq> generation then (FL_GST_SESSION_STALE, s)
      else if gs_registered s AND track = 0 then (FL_GST_SESSION_INVALID, s)
      else (FL_GST_SESSION_READY, s\<lparr>gs_ready := gs_ready s OR track\<rparr>))"

definition fl_gst_session_cancel :: "FlGstSession \<Rightarrow> FlGstSession" where
  "fl_gst_session_cancel s =
     shutdown_audio (s\<lparr>gs_cancelled := True, gs_ready := 0, gs_events := map_option events_cancel (gs_events s)\<rparr>)"

definition same_mapping :: "FlGstSession \<Rightarrow> flClockMapping \<Rightarrow> u64 \<Rightarrow> bool" where
  "same_mapping s m maxError \<longleftrightarrow>
     same_id (cm_sourceClockId m) (cm_sourceClockId (gs_mapping s)) \<and> same_id (cm_targetClockId m) (cm_targetClockId (gs_mapping s)) \<and>
     cm_sourceAnchorNs m = cm_sourceAnchorNs (gs_mapping s) \<and> cm_targetAnchorNs m = cm_targetAnchorNs (gs_mapping s) \<and>
     cm_uncertaintyNs m = cm_uncertaintyNs (gs_mapping s) \<and> maxError = gs_maxUncertainty s"

definition fl_gst_session_set_mapping :: "FlGstSession \<Rightarrow> u64 \<Rightarrow> flClockMapping option \<Rightarrow> u64 \<Rightarrow> FlGstSessionResult \<times> FlGstSession" where
  "fl_gst_session_set_mapping s generation m maxError =
     (case m of
        None \<Rightarrow> (FL_GST_SESSION_INVALID, s)
      | Some m \<Rightarrow>
          if gs_cancelled s then (FL_GST_SESSION_CANCELLED, s)
          else if \<not> gs_configured s \<or> cfg_generation (gs_config s) \<noteq> generation then (FL_GST_SESSION_STALE, s)
          else if fst (flSessionMapPts (Some (gs_config s)) (Some m) maxError 0 (Some 0)) \<noteq> FL_SESSION_OK then (FL_GST_SESSION_INVALID, s)
          else if gs_mapped s \<and> \<not> same_mapping s m maxError then (FL_GST_SESSION_INVALID, s)
          else (FL_GST_SESSION_READY, s\<lparr>gs_mapping := m, gs_maxUncertainty := maxError, gs_mapped := True\<rparr>))"

definition mapped_pts :: "FlGstSession \<Rightarrow> i64 \<Rightarrow> i64 option \<Rightarrow> FlGstSessionResult \<times> i64 option" where
  "mapped_pts s pts out =
     (case flSessionMapPts (Some (gs_config s)) (Some (gs_mapping s)) (gs_maxUncertainty s) pts out of
        (r, out') \<Rightarrow> (if r = FL_SESSION_OK then FL_GST_SESSION_READY else FL_GST_SESSION_INVALID, out'))"

definition fl_gst_session_map_pts :: "FlGstSession \<Rightarrow> u64 \<Rightarrow> i64 \<Rightarrow> i64 option \<Rightarrow> FlGstSessionResult \<times> i64 option" where
  "fl_gst_session_map_pts s generation pts out =
     (if out = None then (FL_GST_SESSION_INVALID, out)
      else if gs_cancelled s then (FL_GST_SESSION_CANCELLED, out)
      else if \<not> gs_configured s \<or> cfg_generation (gs_config s) \<noteq> generation then (FL_GST_SESSION_STALE, out)
      else if \<not> gs_mapped s then (FL_GST_SESSION_INVALID, out)
      else mapped_pts s pts out)"

definition fl_gst_session_get_config :: "FlGstSession \<Rightarrow> flSessionConfig option \<Rightarrow> FlGstSessionResult \<times> FlGstSession \<times> flSessionConfig option" where
  "fl_gst_session_get_config s out =
     (if out = None then (FL_GST_SESSION_INVALID, s, out)
      else
        let s1 = (if case gs_events s of Some ch \<Rightarrow> ec_failed ch | None \<Rightarrow> False
                  then shutdown_audio (s\<lparr>gs_cancelled := True, gs_ready := 0\<rparr>) else s)
        in if gs_cancelled s1 then (FL_GST_SESSION_CANCELLED, s1, out)
           else if \<not> gs_configured s1 then (FL_GST_SESSION_STALE, s1, out)
           else (FL_GST_SESSION_READY, s1, assign out (gs_config s1)))"

text \<open>\<^verbatim>\<open>flSessionEncode\<close> into a local buffer, whose content counts only on success.\<close>
definition encode_local :: "flSessionConfig \<Rightarrow> flSessionResult \<times> u8 list option" where
  "encode_local c = flSessionEncode (Some c) (Some (replicate FL_SESSION_WIRE_SIZE 0)) FL_SESSION_WIRE_SIZE"

definition same_encoding :: "flSessionConfig \<Rightarrow> flSessionConfig \<Rightarrow> bool" where
  "same_encoding a b \<longleftrightarrow> fst (encode_local a) = FL_SESSION_OK \<and> fst (encode_local b) = FL_SESSION_OK \<and>
     snd (encode_local a) = snd (encode_local b)"

definition fl_gst_session_publish_audio :: "FlGstSession \<Rightarrow> flSessionConfig option \<Rightarrow> nat option \<Rightarrow> bool \<Rightarrow> bool \<times> FlGstSession" where
  "fl_gst_session_publish_audio s config stream producer =
     (case (config, stream) of
        (Some c, Some a) \<Rightarrow>
          if gs_cancelled s \<or> \<not> gs_configured s \<or> gs_audioConnection s \<noteq> None \<or> \<not> same_encoding c (gs_config s) then (False, s)
          else (True, s\<lparr>gs_audioConnection := Some a, gs_audioProducer := producer, gs_audioClaimed := False\<rparr>)
      | _ \<Rightarrow> (False, s))"

definition fl_gst_session_claim_audio_stream :: "FlGstSession \<Rightarrow> bool \<Rightarrow> u64 \<Rightarrow> nat option \<times> FlGstSession" where
  "fl_gst_session_claim_audio_stream s producer generation =
     (if gs_cancelled s \<or> \<not> gs_configured s \<or> cfg_generation (gs_config s) \<noteq> generation \<or> gs_audioConnection s = None \<or>
        gs_audioProducer s \<noteq> producer \<or> gs_audioClaimed s then (None, s)
      else (gs_audioConnection s, s\<lparr>gs_audioClaimed := True\<rparr>))"

definition fl_gst_session_map_running_time :: "FlGstSession \<Rightarrow> u64 \<Rightarrow> i64 \<Rightarrow> bool \<Rightarrow> i64 option \<Rightarrow> FlGstSessionResult \<times> i64 option" where
  "fl_gst_session_map_running_time s generation pts required out =
     (if out = None \<or> pts <s 0 then (FL_GST_SESSION_INVALID, out)
      else if gs_cancelled s then (FL_GST_SESSION_CANCELLED, out)
      else if \<not> gs_configured s \<or> cfg_generation (gs_config s) \<noteq> generation then (FL_GST_SESSION_STALE, out)
      else if \<not> gs_mapped s then (if required then (FL_GST_SESSION_INVALID, out) else (FL_GST_SESSION_READY, assign out pts))
      else mapped_pts s pts out)"

definition fl_gst_session_video_eos :: "FlGstSession \<Rightarrow> u64 \<Rightarrow> u64 \<Rightarrow> i64 \<Rightarrow> FlGstSessionResult \<times> FlGstSession" where
  "fl_gst_session_video_eos s generation frames pts =
     (if (if frames \<noteq> 0 then pts <s 0 else pts \<noteq> - 1) then (FL_GST_SESSION_INVALID, s)
      else if gs_cancelled s then (FL_GST_SESSION_CANCELLED, s)
      else if \<not> gs_configured s \<or> cfg_generation (gs_config s) \<noteq> generation then (FL_GST_SESSION_STALE, s)
      else if cfg_videoTrackId (gs_config s) = 0 then (FL_GST_SESSION_INVALID, s)
      else if gs_videoEnded s \<and> (gs_videoFrames s \<noteq> frames \<or> gs_videoLastPts s \<noteq> pts) then (FL_GST_SESSION_INVALID, s)
      else (FL_GST_SESSION_READY, s\<lparr>gs_videoEnded := True, gs_videoFrames := frames, gs_videoLastPts := pts\<rparr>))"

definition fl_gst_session_publish_events :: "FlGstSession \<Rightarrow> flSessionConfig option \<Rightarrow> nat option \<Rightarrow> bool \<Rightarrow> bool \<times> FlGstSession" where
  "fl_gst_session_publish_events s config stream producer =
     (case (config, stream) of
        (Some c, Some a) \<Rightarrow>
          if gs_cancelled s \<or> \<not> gs_configured s \<or> gs_events s \<noteq> None \<or> \<not> same_encoding c (gs_config s) then (False, s)
          else (True, s\<lparr>gs_events := Some (events_new producer (cfg_generation c))\<rparr>)
      | _ \<Rightarrow> (False, s))"

definition eventChannel :: "FlGstSession \<Rightarrow> u64 \<Rightarrow> FlGstEventChannel option" where
  "eventChannel s generation =
     (if gs_cancelled s \<or> \<not> gs_configured s \<or> cfg_generation (gs_config s) \<noteq> generation then None else gs_events s)"

definition fl_gst_session_has_event_stream :: "FlGstSession \<Rightarrow> u64 \<Rightarrow> bool" where
  "fl_gst_session_has_event_stream s generation \<longleftrightarrow> eventChannel s generation \<noteq> None"

definition fl_gst_session_send_video_event ::
  "nat \<Rightarrow> FlGstSession \<Rightarrow> u64 \<Rightarrow> FlGstVideoEvent option \<Rightarrow> FlGstSessionResult \<times> FlGstSession" where
  "fl_gst_session_send_video_event accepted s generation event =
     (case (eventChannel s generation, event) of
        (Some ch, Some e) \<Rightarrow> (case events_send accepted ch e of (r, ch') \<Rightarrow> (r, s\<lparr>gs_events := Some ch'\<rparr>))
      | _ \<Rightarrow> (FL_GST_SESSION_INVALID, s))"

definition fl_gst_session_peek_video_end :: "FlGstSession \<Rightarrow> u64 \<Rightarrow> FlGstVideoEvent option \<Rightarrow> FlGstSessionResult \<times> FlGstVideoEvent option" where
  "fl_gst_session_peek_video_end s generation event =
     (case eventChannel s generation of
        None \<Rightarrow> (FL_GST_SESSION_INVALID, event)
      | Some ch \<Rightarrow>
          if event = None then (FL_GST_SESSION_INVALID, event)
          else case peekEnd ch event of (found, event') \<Rightarrow> (if found then FL_GST_SESSION_READY else FL_GST_SESSION_TIMEOUT, event'))"

definition fl_gst_session_receive_video_event ::
  "ReadAnswer list \<Rightarrow> FlGstSession \<Rightarrow> u64 \<Rightarrow> u32 \<Rightarrow> FlGstVideoEvent option \<Rightarrow> FlGstSessionResult \<times> FlGstSession \<times> FlGstVideoEvent option" where
  "fl_gst_session_receive_video_event answers s generation timeout event =
     (case eventChannel s generation of
        None \<Rightarrow> (FL_GST_SESSION_INVALID, s, event)
      | Some ch \<Rightarrow> (case events_receive answers ch timeout event of (r, ch', event') \<Rightarrow> (r, s\<lparr>gs_events := Some ch'\<rparr>, event')))"

section \<open>Runs\<close>

text \<open>The calls that change the object, and the iterations of the reader thread of its event channel.\<close>
datatype session_call =
    ScConfigure "flSessionConfig option" "flSessionCapabilities option" "flSessionCapabilities option"
  | ScRegister u32
  | ScReady u32 u64
  | ScCancel
  | ScMapping u64 "flClockMapping option" u64
  | ScGetConfig "flSessionConfig option"
  | ScPublishAudio "flSessionConfig option" "nat option" bool
  | ScClaim bool u64
  | ScVideoEos u64 u64 i64
  | ScPublishEvents "flSessionConfig option" "nat option" bool
  | ScSend nat u64 "FlGstVideoEvent option"
  | ScReceive "ReadAnswer list" u64 u32 "FlGstVideoEvent option"
  | ScReader ReadAnswer

fun session_exec :: "session_call \<Rightarrow> FlGstSession \<Rightarrow> FlGstSession" where
  "session_exec (ScConfigure c p q) s = snd (fl_gst_session_configure s c p q)"
| "session_exec (ScRegister t) s = snd (fl_gst_session_register_track s t)"
| "session_exec (ScReady t g) s = snd (fl_gst_session_track_ready s t g)"
| "session_exec ScCancel s = fl_gst_session_cancel s"
| "session_exec (ScMapping g m e) s = snd (fl_gst_session_set_mapping s g m e)"
| "session_exec (ScGetConfig out) s = fst (snd (fl_gst_session_get_config s out))"
| "session_exec (ScPublishAudio c a p) s = snd (fl_gst_session_publish_audio s c a p)"
| "session_exec (ScClaim p g) s = snd (fl_gst_session_claim_audio_stream s p g)"
| "session_exec (ScVideoEos g f t) s = snd (fl_gst_session_video_eos s g f t)"
| "session_exec (ScPublishEvents c a p) s = snd (fl_gst_session_publish_events s c a p)"
| "session_exec (ScSend k g e) s = snd (fl_gst_session_send_video_event k s g e)"
| "session_exec (ScReceive as g t e) s = fst (snd (fl_gst_session_receive_video_event as s g t e))"
| "session_exec (ScReader a) s = s\<lparr>gs_events := map_option (read_step a) (gs_events s)\<rparr>"

fun is_configure :: "session_call \<Rightarrow> bool" where
  "is_configure (ScConfigure c p q) = True"
| "is_configure _ = False"

text \<open>
  The two waits.  The list holds the calls of other threads during the wait; its end is the deadline, after which the
  condition is not looked at again.  Calls that signal nothing change nothing the loops look at.
\<close>
fun wait_loop :: "session_call list \<Rightarrow> FlGstSession \<Rightarrow> u64 \<Rightarrow> flSessionConfig option \<Rightarrow> FlGstSessionResult \<times> FlGstSession \<times> flSessionConfig option" where
  "wait_loop calls s generation out =
     (if gs_cancelled s then (FL_GST_SESSION_CANCELLED, s, out)
      else if gs_configured s \<and> cfg_generation (gs_config s) \<noteq> generation then (FL_GST_SESSION_STALE, s, out)
      else if gs_configured s \<and> gs_ready s = gs_required s then (FL_GST_SESSION_READY, s, assign out (gs_config s))
      else case calls of
        [] \<Rightarrow> (FL_GST_SESSION_TIMEOUT, s, out)
      | c # cs \<Rightarrow> wait_loop cs (session_exec c s) generation out)"

definition fl_gst_session_wait ::
  "session_call list \<Rightarrow> FlGstSession \<Rightarrow> u64 \<Rightarrow> u32 \<Rightarrow> flSessionConfig option \<Rightarrow> FlGstSessionResult \<times> FlGstSession \<times> flSessionConfig option" where
  "fl_gst_session_wait calls s generation timeout out =
     (if out = None \<or> generation = 0 \<or> timeout = 0 \<or> timeout > 60000 then (FL_GST_SESSION_INVALID, s, out)
      else wait_loop calls s generation out)"

fun eos_loop :: "session_call list \<Rightarrow> FlGstSession \<Rightarrow> u64 \<Rightarrow> u32 \<Rightarrow> FlGstSessionResult \<times> FlGstSession \<times> (u64 \<times> i64) option" where
  "eos_loop calls s generation timeout =
     (if gs_cancelled s then (FL_GST_SESSION_CANCELLED, s, None)
      else if \<not> gs_configured s \<or> cfg_generation (gs_config s) \<noteq> generation then (FL_GST_SESSION_STALE, s, None)
      else if cfg_videoTrackId (gs_config s) = 0 then (FL_GST_SESSION_INVALID, s, None)
      else if gs_videoEnded s then (FL_GST_SESSION_READY, s, Some (gs_videoFrames s, gs_videoLastPts s))
      else if timeout = 0 then (FL_GST_SESSION_TIMEOUT, s, None)
      else case calls of
        [] \<Rightarrow> (FL_GST_SESSION_TIMEOUT, s, None)
      | c # cs \<Rightarrow> eos_loop cs (session_exec c s) generation timeout)"

text \<open>The two out-parameters are the last component: \<open>None\<close> leaves both unchanged.\<close>
definition fl_gst_session_wait_video_eos ::
  "session_call list \<Rightarrow> FlGstSession \<Rightarrow> u64 \<Rightarrow> u32 \<Rightarrow> bool \<Rightarrow> FlGstSessionResult \<times> FlGstSession \<times> (u64 \<times> i64) option" where
  "fl_gst_session_wait_video_eos calls s generation timeout outs =
     (if \<not> outs \<or> timeout > 60000 then (FL_GST_SESSION_INVALID, s, None) else eos_loop calls s generation timeout)"

definition coord_inv :: "FlGstSession \<Rightarrow> bool" where
  "coord_inv s \<longleftrightarrow>
     gs_required s \<noteq> 0 \<and> gs_required s AND NOT 3 = 0 \<and> gs_registered s AND NOT (gs_required s) = 0 \<and>
     gs_ready s AND NOT (gs_registered s) = 0 \<and> (gs_cancelled s \<longrightarrow> gs_ready s = 0) \<and> (gs_ready s \<noteq> 0 \<longrightarrow> gs_configured s) \<and>
     (gs_configured s \<longrightarrow> flSessionValidate (Some (gs_config s)) = FL_SESSION_OK \<and> config_tracks (gs_config s) = gs_required s \<and>
       wf_config (gs_config s)) \<and>
     (gs_mapped s \<longrightarrow> gs_configured s \<and>
       fst (flSessionMapPts (Some (gs_config s)) (Some (gs_mapping s)) (gs_maxUncertainty s) 0 (Some 0)) = FL_SESSION_OK) \<and>
     (gs_audioClaimed s \<longrightarrow> gs_audioConnection s \<noteq> None) \<and> (gs_audioConnection s \<noteq> None \<longrightarrow> gs_configured s) \<and>
     (\<forall>ch. gs_events s = Some ch \<longrightarrow> gs_configured s \<and> ec_generation ch = cfg_generation (gs_config s)) \<and>
     (gs_videoEnded s \<longrightarrow> gs_configured s \<and> cfg_videoTrackId (gs_config s) \<noteq> 0 \<and>
       (if gs_videoFrames s = 0 then gs_videoLastPts s = - 1 else 0 \<le> sint (gs_videoLastPts s)))"

text \<open>The identifiers in an argument are the 16-byte arrays of the C structures.\<close>
definition wf_mapping :: "flClockMapping \<Rightarrow> bool" where
  "wf_mapping m \<longleftrightarrow> length (cm_sourceClockId m) = 16 \<and> length (cm_targetClockId m) = 16"

fun call_wf :: "session_call \<Rightarrow> bool" where
  "call_wf (ScConfigure c p q) = pred_option wf_config c"
| "call_wf (ScPublishAudio c a p) = pred_option wf_config c"
| "call_wf (ScPublishEvents c a p) = pred_option wf_config c"
| "call_wf (ScMapping g m e) = pred_option wf_mapping m"
| "call_wf _ = True"

text \<open>No operation that names generation \<open>g\<close> succeeds.\<close>
definition refuses :: "FlGstSession \<Rightarrow> u64 \<Rightarrow> bool" where
  "refuses s g \<longleftrightarrow>
     (\<forall>t. fst (fl_gst_session_track_ready s t g) \<noteq> FL_GST_SESSION_READY) \<and>
     (\<forall>calls t out. fst (fl_gst_session_wait calls s g t out) \<noteq> FL_GST_SESSION_READY) \<and>
     (\<forall>m e. fst (fl_gst_session_set_mapping s g m e) \<noteq> FL_GST_SESSION_READY) \<and>
     (\<forall>pts out. fst (fl_gst_session_map_pts s g pts out) \<noteq> FL_GST_SESSION_READY) \<and>
     (\<forall>pts b out. fst (fl_gst_session_map_running_time s g pts b out) \<noteq> FL_GST_SESSION_READY) \<and>
     (\<forall>p. fst (fl_gst_session_claim_audio_stream s p g) = None) \<and>
     (\<forall>f t. fst (fl_gst_session_video_eos s g f t) \<noteq> FL_GST_SESSION_READY) \<and>
     (\<forall>calls t b. fst (fl_gst_session_wait_video_eos calls s g t b) \<noteq> FL_GST_SESSION_READY) \<and>
     eventChannel s g = None"

text \<open>The state of the object decides a wait for generation \<open>g\<close>.\<close>
definition wait_decided :: "FlGstSession \<Rightarrow> u64 \<Rightarrow> bool" where
  "wait_decided s g \<longleftrightarrow> gs_cancelled s \<or> gs_configured s \<and> (cfg_generation (gs_config s) \<noteq> g \<or> gs_ready s = gs_required s)"

text \<open>The parts of the object that every call other than a configuration keeps.\<close>
definition coord_view where
  "coord_view s = (gs_required s, gs_configured s, gs_config s)"

definition example_session :: FlGstSession where
  "example_session = snd (fl_gst_session_configure (the (fl_gst_session_new 3)) (Some example_config) (Some example_caps) (Some example_caps))"

declare wait_loop.simps [simp del] eos_loop.simps [simp del]

section \<open>Lemmas\<close>

lemma mask_or: "(a AND NOT m = 0) \<Longrightarrow> (t AND NOT m = 0) \<Longrightarrow> ((a OR t) AND NOT m = (0 :: u32))"
  by (auto simp: bit_eq_iff bit_simps)

lemma mask_mono: "a AND NOT b = 0 \<Longrightarrow> a AND NOT (b OR c) = (0 :: u32)"
  by (auto simp: bit_eq_iff bit_simps)

lemma exp_mask: "r AND 2 ^ k \<noteq> 0 \<Longrightarrow> 2 ^ k AND NOT r = (0 :: u32)"
  by (rule bit_word_eqI) (auto simp: bit_and_iff bit_not_iff bit_exp_iff and_exp_eq_0_iff_not_bit)

lemma track_mask: "t = 1 \<or> t = 2 \<Longrightarrow> r AND t \<noteq> 0 \<Longrightarrow> t AND NOT r = (0 :: u32)"
  using exp_mask [of r 0] exp_mask [of r 1] by auto

lemma encode_local_ok: "fst (encode_local c) = FL_SESSION_OK \<longleftrightarrow> flSessionValidate (Some c) = FL_SESSION_OK"
  by (simp add: encode_local_def flSessionEncode_def)

lemma same_encoding_eq: "wf_config a \<Longrightarrow> wf_config b \<Longrightarrow> same_encoding a b \<Longrightarrow> a = b"
  using session_codec.enc_inj [of a b] by (simp add: same_encoding_def encode_local_def flSessionEncode_def split: if_splits)

lemma shutdown_audio_fields [simp]:
  "gs_events (shutdown_audio s) = gs_events s" "gs_required (shutdown_audio s) = gs_required s" "gs_registered (shutdown_audio s) = gs_registered s"
  "gs_ready (shutdown_audio s) = gs_ready s" "gs_configured (shutdown_audio s) = gs_configured s" "gs_cancelled (shutdown_audio s) = gs_cancelled s"
  "gs_mapped (shutdown_audio s) = gs_mapped s" "gs_videoEnded (shutdown_audio s) = gs_videoEnded s" "gs_videoFrames (shutdown_audio s) = gs_videoFrames s"
  "gs_videoLastPts (shutdown_audio s) = gs_videoLastPts s" "gs_mapping (shutdown_audio s) = gs_mapping s"
  "gs_maxUncertainty (shutdown_audio s) = gs_maxUncertainty s" "gs_audioConnection (shutdown_audio s) = gs_audioConnection s"
  "gs_audioProducer (shutdown_audio s) = gs_audioProducer s" "gs_audioClaimed (shutdown_audio s) = gs_audioClaimed s"
  "gs_config (shutdown_audio s) = gs_config s"
  by (simp_all add: shutdown_audio_def split: option.splits)

lemma drop_events_fields [simp]:
  "gs_events (drop_events s) = None" "gs_required (drop_events s) = gs_required s" "gs_registered (drop_events s) = gs_registered s"
  "gs_audioConnection (drop_events s) = gs_audioConnection s"
  by (simp_all add: drop_events_def split: option.splits)

lemma events_generation [simp]:
  "ec_generation (events_cancel ch) = ec_generation ch" "ec_generation (read_step a ch) = ec_generation ch"
  "ec_generation (snd (events_send k ch e)) = ec_generation ch"
  by (simp_all add: events_cancel_def read_step_def events_send_def events_fail_def Let_def split: ReadAnswer.splits)

lemma receive_wait_generation [simp]: "ec_generation (receive_wait as ch) = ec_generation ch"
  by (induction as ch rule: receive_wait.induct) auto

lemma events_receive_generation [simp]: "ec_generation (fst (snd (events_receive as ch t out))) = ec_generation ch"
  by (simp add: events_receive_def Let_def split: list.splits)

text \<open>A configuration that is accepted is valid and has exactly the required tracks.\<close>
lemma configure_cases:
  "(fst (fl_gst_session_configure s c p q) \<noteq> FL_GST_SESSION_READY \<and> snd (fl_gst_session_configure s c p q) = s) \<or>
   (fst (fl_gst_session_configure s c p q) = FL_GST_SESSION_READY \<and>
    (\<exists>c'. c = Some c' \<and> flSessionValidate c = FL_SESSION_OK \<and> config_tracks c' = gs_required s \<and>
      (gs_configured s \<longrightarrow> flSessionValidateReplacement (Some (gs_config s)) c = FL_SESSION_OK) \<and>
      snd (fl_gst_session_configure s c p q) = (drop_events ((shutdown_audio s)\<lparr>gs_audioConnection := None\<rparr>))
         \<lparr>gs_audioClaimed := False, gs_videoEnded := False, gs_videoFrames := 0, gs_videoLastPts := - 1, gs_config := c',
          gs_mapped := False, gs_configured := True, gs_cancelled := False, gs_ready := 0\<rparr>))"
proof (cases "flSessionValidateSelection c p q = FL_SESSION_OK")
  case True
  then have "flSessionValidate c = FL_SESSION_OK" by (simp add: flSessionValidateSelection_def split: if_splits)
  moreover from this obtain c' where c: "c = Some c'" by (cases c) (simp_all add: flSessionValidate.simps)
  ultimately show ?thesis using True
    by (cases "config_tracks c' = gs_required s"; cases "gs_configured s \<and> flSessionValidateReplacement (Some (gs_config s)) c \<noteq> FL_SESSION_OK")
      (simp_all add: fl_gst_session_configure_def Let_def)
qed (simp add: fl_gst_session_configure_def)

lemma coord_inv_new: "fl_gst_session_new r = Some s \<Longrightarrow> coord_inv s"
  by (auto simp: fl_gst_session_new_def coord_inv_def split: if_splits)

lemma coord_inv_configure:
  assumes "coord_inv s" "pred_option wf_config c"
  shows "coord_inv (snd (fl_gst_session_configure s c p q))"
  using configure_cases [of s c p q]
proof (elim disjE conjE exE)
  fix c' assume *: "c = Some c'" "flSessionValidate c = FL_SESSION_OK" "config_tracks c' = gs_required s"
    "snd (fl_gst_session_configure s c p q) = (drop_events ((shutdown_audio s)\<lparr>gs_audioConnection := None\<rparr>))
         \<lparr>gs_audioClaimed := False, gs_videoEnded := False, gs_videoFrames := 0, gs_videoLastPts := - 1, gs_config := c',
          gs_mapped := False, gs_configured := True, gs_cancelled := False, gs_ready := 0\<rparr>"
  show ?thesis using assms *(1-3) unfolding *(4) by (simp add: coord_inv_def)
qed (use assms in simp)

lemma coord_inv_register:
  assumes "coord_inv s"
  shows "coord_inv (snd (fl_gst_session_register_track s t))"
proof (cases "(t = 1 \<or> t = 2) \<and> gs_required s AND t \<noteq> 0 \<and> gs_registered s AND t = 0")
  case True
  then have "t AND NOT (gs_required s) = 0" using track_mask by blast
  moreover have "gs_registered s AND NOT (gs_required s) = 0" "gs_ready s AND NOT (gs_registered s) = 0"
    using assms by (simp_all add: coord_inv_def)
  ultimately have "(gs_registered s OR t) AND NOT (gs_required s) = 0" "gs_ready s AND NOT (gs_registered s OR t) = 0"
    by (blast intro: mask_or mask_mono)+
  moreover have "snd (fl_gst_session_register_track s t) = s\<lparr>gs_registered := gs_registered s OR t\<rparr>"
    using True by (auto simp: fl_gst_session_register_track_def)
  ultimately show ?thesis using assms by (simp add: coord_inv_def)
next
  case False
  then have "snd (fl_gst_session_register_track s t) = s" by (auto simp: fl_gst_session_register_track_def)
  then show ?thesis using assms by simp
qed

lemma coord_inv_ready:
  assumes "coord_inv s"
  shows "coord_inv (snd (fl_gst_session_track_ready s t g))"
proof (cases "(t = 1 \<or> t = 2) \<and> gs_registered s AND t \<noteq> 0 \<and> gs_configured s \<and> \<not> gs_cancelled s \<and> cfg_generation (gs_config s) = g")
  case True
  then have "t AND NOT (gs_registered s) = 0" using track_mask by blast
  then have "(gs_ready s OR t) AND NOT (gs_registered s) = 0" using assms by (simp add: coord_inv_def mask_or)
  moreover have "snd (fl_gst_session_track_ready s t g) = s\<lparr>gs_ready := gs_ready s OR t\<rparr>"
    using True by (auto simp: fl_gst_session_track_ready_def)
  ultimately show ?thesis using assms True by (simp add: coord_inv_def)
next
  case False
  then have "snd (fl_gst_session_track_ready s t g) = s" by (auto simp: fl_gst_session_track_ready_def)
  then show ?thesis using assms by simp
qed

lemma coord_inv_cancel: "coord_inv s \<Longrightarrow> coord_inv (fl_gst_session_cancel s)"
  by (auto simp: fl_gst_session_cancel_def coord_inv_def)

lemma coord_inv_mapping: "coord_inv s \<Longrightarrow> coord_inv (snd (fl_gst_session_set_mapping s g m e))"
  by (simp add: fl_gst_session_set_mapping_def coord_inv_def split: option.splits)

lemma get_config_state:
  "fst (snd (fl_gst_session_get_config s out)) = s \<or>
   fst (snd (fl_gst_session_get_config s out)) = shutdown_audio (s\<lparr>gs_cancelled := True, gs_ready := 0\<rparr>)"
  by (simp add: fl_gst_session_get_config_def Let_def)

lemma coord_inv_get_config: "coord_inv s \<Longrightarrow> coord_inv (fst (snd (fl_gst_session_get_config s out)))"
proof -
  assume i: "coord_inv s"
  then have "coord_inv (shutdown_audio (s\<lparr>gs_cancelled := True, gs_ready := 0\<rparr>))" by (simp add: coord_inv_def)
  then show ?thesis using get_config_state [of s out] i by (elim disjE) simp_all
qed

lemma coord_inv_publish_audio: "coord_inv s \<Longrightarrow> coord_inv (snd (fl_gst_session_publish_audio s c a p))"
  by (simp add: fl_gst_session_publish_audio_def coord_inv_def split: option.splits)

lemma coord_inv_claim: "coord_inv s \<Longrightarrow> coord_inv (snd (fl_gst_session_claim_audio_stream s p g))"
  by (simp add: fl_gst_session_claim_audio_stream_def coord_inv_def)

lemma coord_inv_eos: "coord_inv s \<Longrightarrow> coord_inv (snd (fl_gst_session_video_eos s g f t))"
  by (simp add: fl_gst_session_video_eos_def coord_inv_def word_sless_alt not_less)

lemma coord_inv_publish_events:
  assumes "coord_inv s" "pred_option wf_config c"
  shows "coord_inv (snd (fl_gst_session_publish_events s c a p))"
proof (cases "c = None \<or> a = None \<or> gs_cancelled s \<or> \<not> gs_configured s \<or> gs_events s \<noteq> None \<or> \<not> same_encoding (the c) (gs_config s)")
  case True
  then have "snd (fl_gst_session_publish_events s c a p) = s"
    by (auto simp: fl_gst_session_publish_events_def split: option.splits)
  then show ?thesis using assms by simp
next
  case False
  then obtain c' a' where c: "c = Some c'" "a = Some a'" by auto
  then have "c' = gs_config s" using False assms same_encoding_eq by (auto simp: coord_inv_def)
  then show ?thesis using False assms c by (simp add: fl_gst_session_publish_events_def coord_inv_def events_new_def)
qed

lemma coord_inv_events:
  assumes "coord_inv s" "\<And>ch. gs_events s = Some ch \<Longrightarrow> ec_generation (f ch) = ec_generation ch"
  shows "coord_inv (s\<lparr>gs_events := map_option f (gs_events s)\<rparr>)"
  using assms by (auto simp: coord_inv_def)

lemma eventChannel_some: "eventChannel s g = Some ch \<Longrightarrow> gs_events s = Some ch"
  by (simp add: eventChannel_def split: if_splits)

lemma coord_inv_send: "coord_inv s \<Longrightarrow> coord_inv (snd (fl_gst_session_send_video_event k s g e))"
proof (cases "eventChannel s g")
  case (Some ch)
  moreover assume "coord_inv s"
  ultimately show ?thesis
    using coord_inv_events [of s "\<lambda>ch. snd (events_send k ch (the e))"] eventChannel_some [OF Some]
    by (cases e) (simp_all add: fl_gst_session_send_video_event_def case_prod_unfold)
qed (simp add: fl_gst_session_send_video_event_def)

lemma coord_inv_receive: "coord_inv s \<Longrightarrow> coord_inv (fst (snd (fl_gst_session_receive_video_event as s g t e)))"
proof (cases "eventChannel s g")
  case (Some ch)
  moreover assume "coord_inv s"
  ultimately show ?thesis
    using coord_inv_events [of s "\<lambda>ch. fst (snd (events_receive as ch t e))"] eventChannel_some [OF Some]
    by (simp add: fl_gst_session_receive_video_event_def case_prod_unfold)
qed (simp add: fl_gst_session_receive_video_event_def)

lemma coord_inv_exec: "coord_inv s \<Longrightarrow> call_wf c \<Longrightarrow> coord_inv (session_exec c s)"
  by (cases c) (simp_all add: coord_inv_configure coord_inv_register coord_inv_ready coord_inv_cancel coord_inv_mapping coord_inv_get_config
      coord_inv_publish_audio coord_inv_claim coord_inv_eos coord_inv_publish_events coord_inv_send coord_inv_receive coord_inv_events)

lemma coord_inv_run: "coord_inv s \<Longrightarrow> \<forall>c \<in> set cs. call_wf c \<Longrightarrow> coord_inv (fold session_exec cs s)"
  by (induction cs arbitrary: s) (simp_all add: coord_inv_exec)


section \<open>Runs\<close>

text \<open>Everything but a configuration keeps the configuration, and an installed mapping and a claim stay.\<close>

lemma cancel_fields [simp]:
  "coord_view (fl_gst_session_cancel s) = coord_view s" "gs_mapped (fl_gst_session_cancel s) = gs_mapped s"
  "gs_mapping (fl_gst_session_cancel s) = gs_mapping s" "gs_maxUncertainty (fl_gst_session_cancel s) = gs_maxUncertainty s"
  "gs_audioClaimed (fl_gst_session_cancel s) = gs_audioClaimed s" "gs_audioConnection (fl_gst_session_cancel s) = gs_audioConnection s"
  by (simp_all add: fl_gst_session_cancel_def coord_view_def)

lemma view_exec: "\<not> is_configure c \<Longrightarrow> coord_view (session_exec c s) = coord_view s"
proof (cases c)
  case (ScGetConfig out)
  then show ?thesis using get_config_state [of s out] by (auto simp: coord_view_def)
qed (simp_all add: coord_view_def fl_gst_session_register_track_def fl_gst_session_track_ready_def fl_gst_session_set_mapping_def
    fl_gst_session_publish_audio_def fl_gst_session_claim_audio_stream_def fl_gst_session_video_eos_def fl_gst_session_publish_events_def
    fl_gst_session_send_video_event_def fl_gst_session_receive_video_event_def fl_gst_session_cancel_def case_prod_unfold split: option.splits)

lemma claim_exec:
  assumes "\<not> is_configure c" "gs_audioClaimed s" "gs_audioConnection s \<noteq> None"
  shows "gs_audioClaimed (session_exec c s) \<and> gs_audioConnection (session_exec c s) \<noteq> None"
proof (cases c)
  case (ScGetConfig out)
  then show ?thesis using get_config_state [of s out] assms by auto
qed (use assms in \<open>simp_all add: fl_gst_session_register_track_def fl_gst_session_track_ready_def fl_gst_session_set_mapping_def
    fl_gst_session_publish_audio_def fl_gst_session_claim_audio_stream_def fl_gst_session_video_eos_def fl_gst_session_publish_events_def
    fl_gst_session_send_video_event_def fl_gst_session_receive_video_event_def case_prod_unfold split: option.splits\<close>)

lemma same_mapping_eq: "wf_mapping m \<Longrightarrow> wf_mapping (gs_mapping s) \<Longrightarrow> same_mapping s m e \<Longrightarrow> m = gs_mapping s \<and> e = gs_maxUncertainty s"
  by (cases m; cases "gs_mapping s") (simp add: same_mapping_def same_id_def wf_mapping_def)

lemma mapping_exec:
  assumes "\<not> is_configure c" "call_wf c" "gs_mapped s" "wf_mapping (gs_mapping s)"
  shows "gs_mapped (session_exec c s) \<and> gs_mapping (session_exec c s) = gs_mapping s \<and> gs_maxUncertainty (session_exec c s) = gs_maxUncertainty s"
proof (cases c)
  case (ScGetConfig out)
  then show ?thesis using get_config_state [of s out] assms by auto
next
  case (ScMapping g m e)
  then show ?thesis using assms same_mapping_eq [of _ s e] by (cases m) (auto simp: fl_gst_session_set_mapping_def)
qed (use assms in \<open>simp_all add: fl_gst_session_register_track_def fl_gst_session_track_ready_def
    fl_gst_session_publish_audio_def fl_gst_session_claim_audio_stream_def fl_gst_session_video_eos_def fl_gst_session_publish_events_def
    fl_gst_session_send_video_event_def fl_gst_session_receive_video_event_def case_prod_unfold split: option.splits\<close>)

lemma run_keeps:
  assumes "P s" "\<And>c s. P s \<Longrightarrow> c \<in> set cs \<Longrightarrow> P (session_exec c s)"
  shows "P (fold session_exec cs s)"
  using assms by (induction cs arbitrary: s) simp_all

text \<open>The generation only grows and the session stays the same.\<close>
lemma generation_exec:
  assumes "gs_configured s" "g < cfg_generation (gs_config s)"
  shows "gs_configured (session_exec c s) \<and> g < cfg_generation (gs_config (session_exec c s)) \<and>
    same_id (cfg_sessionId (gs_config (session_exec c s))) (cfg_sessionId (gs_config s))"
proof (cases "is_configure c")
  case True
  then obtain cf p q where c: "c = ScConfigure cf p q" by (cases c) auto
  show ?thesis using configure_cases [of s cf p q]
  proof (elim disjE conjE exE)
    fix c' assume *: "cf = Some c'" "gs_configured s \<longrightarrow> flSessionValidateReplacement (Some (gs_config s)) cf = FL_SESSION_OK"
      "snd (fl_gst_session_configure s cf p q) = (drop_events ((shutdown_audio s)\<lparr>gs_audioConnection := None\<rparr>))
         \<lparr>gs_audioClaimed := False, gs_videoEnded := False, gs_videoFrames := 0, gs_videoLastPts := - 1, gs_config := c',
          gs_mapped := False, gs_configured := True, gs_cancelled := False, gs_ready := 0\<rparr>"
    have "flSessionValidateReplacement (Some (gs_config s)) (Some c') = FL_SESSION_OK" using *(1,2) assms(1) by simp
    then have "cfg_generation (gs_config s) < cfg_generation c'" "same_id (cfg_sessionId c') (cfg_sessionId (gs_config s))"
      by (auto simp: flSessionValidateReplacement_def same_id_def split: if_splits)
    then show ?thesis using assms c *(3) by simp
  qed (use assms c in \<open>simp add: same_id_def\<close>)
next
  case False
  then show ?thesis using view_exec [of c s] assms by (simp add: coord_view_def same_id_def)
qed

lemma cancelled_exec:
  assumes "\<not> is_configure c" "gs_cancelled s"
  shows "gs_cancelled (session_exec c s)"
proof (cases c)
  case (ScGetConfig out)
  then show ?thesis using get_config_state [of s out] assms by auto
qed (use assms in \<open>simp_all add: fl_gst_session_register_track_def fl_gst_session_track_ready_def fl_gst_session_set_mapping_def
    fl_gst_session_publish_audio_def fl_gst_session_claim_audio_stream_def fl_gst_session_video_eos_def fl_gst_session_publish_events_def
    fl_gst_session_send_video_event_def fl_gst_session_receive_video_event_def fl_gst_session_cancel_def case_prod_unfold split: option.splits\<close>)

lemma revoked_refuses:
  assumes "gs_cancelled s \<or> (gs_configured s \<and> cfg_generation (gs_config s) \<noteq> g)"
  shows "refuses s g"
  using assms
  by (elim disjE conjE) (simp_all add: refuses_def fl_gst_session_track_ready_def fl_gst_session_wait_def wait_loop.simps fl_gst_session_set_mapping_def
      fl_gst_session_map_pts_def fl_gst_session_map_running_time_def fl_gst_session_claim_audio_stream_def fl_gst_session_video_eos_def
      fl_gst_session_wait_video_eos_def eos_loop.simps eventChannel_def split: option.splits)

lemma wait_loop_spec:
  assumes "wait_loop cs s g (Some out) = (r, s', out')"
  shows "\<exists>k \<le> length cs. s' = fold session_exec (take k cs) s \<and>
    (\<forall>j < k. \<not> wait_decided (fold session_exec (take j cs) s) g) \<and>
    (if r = FL_GST_SESSION_TIMEOUT then k = length cs \<and> \<not> wait_decided s' g \<and> out' = Some out
     else wait_decided s' g \<and> (r = FL_GST_SESSION_READY \<longleftrightarrow> \<not> gs_cancelled s' \<and> gs_configured s' \<and> cfg_generation (gs_config s') = g \<and> gs_ready s' = gs_required s') \<and>
       out' = Some (if r = FL_GST_SESSION_READY then gs_config s' else out))"
  using assms
proof (induction cs arbitrary: s)
  case Nil
  then show ?case by (subst (asm) wait_loop.simps) (auto simp: wait_decided_def split: if_splits)
next
  case (Cons c cs)
  show ?case
  proof (cases "wait_decided s g")
    case True
    then show ?thesis using Cons.prems
      by (intro exI [of _ 0]) (subst (asm) wait_loop.simps, auto simp: wait_decided_def split: if_splits)
  next
    case False
    then have "wait_loop cs (session_exec c s) g (Some out) = (r, s', out')"
      using Cons.prems by (subst (asm) wait_loop.simps) (auto simp: wait_decided_def split: if_splits)
    from Cons.IH [OF this] obtain k where k: "k \<le> length cs" "s' = fold session_exec (take k cs) (session_exec c s)"
      "\<forall>j < k. \<not> wait_decided (fold session_exec (take j cs) (session_exec c s)) g"
      "if r = FL_GST_SESSION_TIMEOUT then k = length cs \<and> \<not> wait_decided s' g \<and> out' = Some out
       else wait_decided s' g \<and> (r = FL_GST_SESSION_READY \<longleftrightarrow> \<not> gs_cancelled s' \<and> gs_configured s' \<and> cfg_generation (gs_config s') = g \<and> gs_ready s' = gs_required s') \<and>
         out' = Some (if r = FL_GST_SESSION_READY then gs_config s' else out)" by blast
    have "\<forall>j < Suc k. \<not> wait_decided (fold session_exec (take j (c # cs)) s) g"
    proof (intro allI impI)
      show "\<not> wait_decided (fold session_exec (take j (c # cs)) s) g" if "j < Suc k" for j
        using that k(3) False by (cases j) auto
    qed
    moreover have "s' = fold session_exec (take (Suc k) (c # cs)) s" "Suc k \<le> length (c # cs)" using k(1,2) by simp_all
    ultimately show ?thesis using k(4) by (intro exI [of _ "Suc k"] conjI) (assumption, assumption, assumption, simp split: if_splits)
  qed
qed


section \<open>Properties\<close>

lemma example_session: "coord_inv example_session" "gs_configured example_session" "gs_config example_session = example_config"
proof -
  obtain s0 where s0: "fl_gst_session_new 3 = Some s0" by (simp add: fl_gst_session_new_def)
  note inv0 = coord_inv_new [OF s0]
  have sel: "flSessionValidateSelection (Some example_config) (Some example_caps) (Some example_caps) = FL_SESSION_OK" by code_simp
  have "config_tracks example_config = 3" by code_simp
  moreover have "gs_required s0 = 3" "\<not> gs_configured s0" using s0 by (auto simp: fl_gst_session_new_def)
  ultimately have "fst (fl_gst_session_configure s0 (Some example_config) (Some example_caps) (Some example_caps)) = FL_GST_SESSION_READY"
    using sel by (simp add: fl_gst_session_configure_def)
  with configure_cases [of s0 "Some example_config" "Some example_caps" "Some example_caps"]
  show "gs_configured example_session" "gs_config example_session = example_config" by (auto simp: example_session_def s0)
  show "coord_inv example_session"
    using coord_inv_configure [OF inv0, of "Some example_config"] example_config_valid(2) by (simp add: example_session_def s0)
qed

text \<open>
  C30. The coordinator is consistent in every run.  From its creation, whatever calls of any threads follow in whatever order:
  only required tracks are registered and only registered tracks are ready; a cancelled object has no ready track; a
  configured one holds a valid configuration with exactly the required tracks; an installed mapping maps; a claimed stream
  exists; the event channel carries the generation of the configuration; the recorded end of video is coherent.
\<close>
theorem coordinator_invariant:
  assumes "fl_gst_session_new r = Some s" "\<forall>c \<in> set cs. call_wf c"
  shows "coord_inv (fold session_exec cs s)"
  using coord_inv_run [OF coord_inv_new [OF assms(1)] assms(2)] .

theorem coordinator_invariant_witness:
  "\<exists>s. fl_gst_session_new 3 = Some s \<and> coord_inv (fold session_exec [ScRegister 1, ScReady 1 5, ScCancel] s)"
  using coordinator_invariant [of 3 _ "[ScRegister 1, ScReady 1 5, ScCancel]"] by (simp add: fl_gst_session_new_def)

text \<open>
  C31. Revoked generations stay revoked.  Once the object is configured with a generation above \<open>g\<close>, no later sequence of
  calls makes any operation that names \<open>g\<close> succeed: no readiness, no wait, no mapping, no claim, no event channel; the
  session identity never changes.  After a cancellation the same holds of every generation until the next configuration.
\<close>
theorem revoked_generation:
  "(gs_configured s \<and> g < cfg_generation (gs_config s) \<longrightarrow>
     refuses (fold session_exec cs s) g \<and>
     same_id (cfg_sessionId (gs_config (fold session_exec cs s))) (cfg_sessionId (gs_config s))) \<and>
   (list_all (\<lambda>c. \<not> is_configure c) cs \<longrightarrow> refuses (fold session_exec cs (fl_gst_session_cancel s)) h)"
proof (intro conjI impI; (elim conjE)?)
  assume a: "gs_configured s" "g < cfg_generation (gs_config s)"
  let ?P = "\<lambda>s'. gs_configured s' \<and> g < cfg_generation (gs_config s') \<and> same_id (cfg_sessionId (gs_config s')) (cfg_sessionId (gs_config s))"
  have P: "?P (fold session_exec cs s)"
    by (rule run_keeps [where P = ?P]) (use a generation_exec in \<open>fastforce simp: same_id_def\<close>)+
  then show "refuses (fold session_exec cs s) g" by (intro revoked_refuses) auto
  show "same_id (cfg_sessionId (gs_config (fold session_exec cs s))) (cfg_sessionId (gs_config s))" using P by simp
next
  assume "list_all (\<lambda>c. \<not> is_configure c) cs"
  then have "gs_cancelled (fold session_exec cs (fl_gst_session_cancel s))"
    by (intro run_keeps [where P = gs_cancelled]) (auto simp: fl_gst_session_cancel_def list_all_iff cancelled_exec)
  then show "refuses (fold session_exec cs (fl_gst_session_cancel s)) h" by (intro revoked_refuses) simp
qed

theorem revoked_generation_witness:
  "refuses (fold session_exec [ScRegister 1, ScReady 1 4] example_session) 4 \<and> refuses (fl_gst_session_cancel example_session) 5"
proof -
  have "4 < cfg_generation (gs_config example_session)" by (simp add: example_session example_config_def)
  then show ?thesis using revoked_generation [of example_session 4 "[ScRegister 1, ScReady 1 4]" 5] revoked_generation [of example_session 4 "[]" 5]
    by (simp add: example_session(2))
qed



text \<open>
  The readiness wait is exact.  With any calls of other threads during the wait, \<^verbatim>\<open>fl_gst_session_wait\<close> returns at the first moment
  at which the state decides it: with the configuration, exactly when the object is then configured with the awaited
  generation, not cancelled, and all required tracks are ready; it times out only if no moment of the wait decided it,
  and then the output is unchanged, as for every other failure.
\<close>
theorem session_wait_exact:
  assumes "fl_gst_session_wait cs s g t (Some out) = (r, s', out')" "g \<noteq> 0" "t \<noteq> 0" "t \<le> 60000"
  shows "\<exists>k \<le> length cs. s' = fold session_exec (take k cs) s \<and>
    (\<forall>j < k. \<not> wait_decided (fold session_exec (take j cs) s) g) \<and>
    (if r = FL_GST_SESSION_TIMEOUT then k = length cs \<and> \<not> wait_decided s' g \<and> out' = Some out
     else wait_decided s' g \<and>
       (r = FL_GST_SESSION_READY \<longleftrightarrow> \<not> gs_cancelled s' \<and> gs_configured s' \<and> cfg_generation (gs_config s') = g \<and> gs_ready s' = gs_required s') \<and>
       out' = Some (if r = FL_GST_SESSION_READY then gs_config s' else out))"
  using assms by (intro wait_loop_spec) (simp add: fl_gst_session_wait_def not_less [symmetric])

theorem session_wait_exact_witness:
  "\<exists>s'. fl_gst_session_wait [ScRegister 1] example_session 5 100 (Some zero_config) = (FL_GST_SESSION_TIMEOUT, s', Some zero_config) \<and>
     \<not> wait_decided s' 5"
proof -
  obtain r s' out' where w: "fl_gst_session_wait [ScRegister 1] example_session 5 100 (Some zero_config) = (r, s', out')"
    by (cases "fl_gst_session_wait [ScRegister 1] example_session 5 100 (Some zero_config)") auto
  moreover have "fst (fl_gst_session_wait [ScRegister 1] example_session 5 100 (Some zero_config)) = FL_GST_SESSION_TIMEOUT" by code_simp
  ultimately show ?thesis using session_wait_exact [OF w] by auto
qed

end
