(* ===== verification/FL_Auth.thy ===== *)
theory FL_Auth
  imports FL_Prelude
begin

text \<open>
  Mutual authentication of a session stream: \<^verbatim>\<open>runtime/av_auth.cpp\<close>.  A byte stream is what will arrive on it, what has
  been written to it and how much it still takes before a write fails (peer gone, timeout, cancellation).  The protocol
  code is written over four primitives: read, write, a guard and the random source, composed so that the first failure
  ends the function with its error text.  The message authentication code of GLib (\<^verbatim>\<open>g_hmac_*\<close> with SHA-256) is the
  argument \<open>hmac\<close>, a function of key and message.
\<close>

section \<open>Streams\<close>

record Stream =
  st_in :: "u8 list"
  st_out :: "u8 list"
  st_room :: nat

text \<open>Code that may fail with a text, over some state; for the protocol code the state is a stream.\<close>
type_synonym ('s, 'a) fallible = "'s \<Rightarrow> (string + 'a) \<times> 's"
type_synonym 'a io = "(Stream, 'a) fallible"

definition return_io :: "'a \<Rightarrow> ('s, 'a) fallible" where
  "return_io x st = (Inr x, st)"

definition io_bind :: "('s, 'a) fallible \<Rightarrow> ('a \<Rightarrow> ('s, 'b) fallible) \<Rightarrow> ('s, 'b) fallible" where
  "io_bind m f st = (case m st of (Inl e, st') \<Rightarrow> (Inl e, st') | (Inr x, st') \<Rightarrow> f x st')"

definition require :: "bool \<Rightarrow> string \<Rightarrow> ('s, unit) fallible" where
  "require b text st = (if b then (Inr (), st) else (Inl text, st))"

text \<open>The error of a whole condition, whichever part of it failed.\<close>
definition relabel :: "string \<Rightarrow> ('s, 'a) fallible \<Rightarrow> ('s, 'a) fallible" where
  "relabel text m st = (case m st of (Inl e, st') \<Rightarrow> (Inl text, st') | (Inr x, st') \<Rightarrow> (Inr x, st'))"

text \<open>\<^verbatim>\<open>secureRandom\<close>: the bytes it delivered, or its error.\<close>
definition random_io :: "string + u8 list \<Rightarrow> ('s, u8 list) fallible" where
  "random_io rnd st = (rnd, st)"

definition read_io :: "nat \<Rightarrow> u8 list io" where
  "read_io n st =
     (if n \<le> length (st_in st) then (Inr (take n (st_in st)), st\<lparr>st_in := drop n (st_in st)\<rparr>)
      else (Inl ''authentication read failed'', st\<lparr>st_in := []\<rparr>))"

definition write_io :: "u8 list \<Rightarrow> unit io" where
  "write_io bs st =
     (if length bs \<le> st_room st then (Inr (), st\<lparr>st_out := st_out st @ bs, st_room := st_room st - length bs\<rparr>)
      else (Inl ''authentication write failed'', st\<lparr>st_out := st_out st @ take (st_room st) bs, st_room := 0\<rparr>))"

section \<open>The protocol\<close>

record Endpoint =
  ep_port :: u16
  ep_token :: "u8 list"

definition auth_magic :: "u8 list" where
  "auth_magic = [0x46, 0x4C, 0x41, 0x56, 0x41, 0x55, 0x54, 1]"

definition auth_message :: "u8 \<Rightarrow> u8 \<Rightarrow> u8 list \<Rightarrow> u8 list \<Rightarrow> u8 list" where
  "auth_message direction role client server = auth_magic @ [direction] @ [role] @ client @ server"

definition auth_proof :: "(u8 list \<Rightarrow> u8 list \<Rightarrow> u8 list) \<Rightarrow> Endpoint \<Rightarrow> u8 \<Rightarrow> u8 \<Rightarrow> u8 list \<Rightarrow> u8 list \<Rightarrow> u8 list" where
  "auth_proof hmac e direction role client server = hmac (ep_token e) (auth_message direction role client server)"

definition digest_equal :: "u8 list \<Rightarrow> u8 list \<Rightarrow> bool" where
  "digest_equal a b \<longleftrightarrow> fold (\<lambda>(x, y) diff. diff OR (x XOR y)) (zip a b) 0 = 0"

definition roleValid :: "u8 \<Rightarrow> bool" where
  "roleValid role \<longleftrightarrow> role = 0x43 \<or> role = 0x41 \<or> role = 0x45"

definition authenticateClient :: "(u8 list \<Rightarrow> u8 list \<Rightarrow> u8 list) \<Rightarrow> string + u8 list \<Rightarrow> Endpoint \<Rightarrow> u8 \<Rightarrow> unit io" where
  "authenticateClient hmac rnd e role =
     io_bind (require (roleValid role) ''invalid authentication role'') (\<lambda>_.
     io_bind (random_io rnd) (\<lambda>client.
     io_bind (write_io auth_magic) (\<lambda>_.
     io_bind (write_io [role]) (\<lambda>_.
     io_bind (write_io client) (\<lambda>_.
     io_bind (read_io 32) (\<lambda>server.
     io_bind (read_io 32) (\<lambda>received.
     io_bind (require (digest_equal received (auth_proof hmac e 0x53 role client server)) ''server authentication rejected'') (\<lambda>_.
     io_bind (write_io (auth_proof hmac e 0x43 role client server)) (\<lambda>_.
     io_bind (read_io 1) (\<lambda>ok.
     require (ok = [1]) ''client authentication rejected''))))))))))"

definition auth_greeting :: "u8 \<Rightarrow> unit io" where
  "auth_greeting expectedRole = relabel ''authentication protocol or role rejected''
     (io_bind (read_io 8) (\<lambda>receivedMagic.
      io_bind (require (receivedMagic = auth_magic) []) (\<lambda>_.
      io_bind (read_io 1) (\<lambda>role.
      require (role = [expectedRole]) []))))"

definition authenticateServer :: "(u8 list \<Rightarrow> u8 list \<Rightarrow> u8 list) \<Rightarrow> string + u8 list \<Rightarrow> Endpoint \<Rightarrow> u8 \<Rightarrow> unit io" where
  "authenticateServer hmac rnd e expectedRole =
     io_bind (require (roleValid expectedRole) ''invalid authentication role'') (\<lambda>_.
     io_bind (auth_greeting expectedRole) (\<lambda>_.
     io_bind (read_io 32) (\<lambda>client.
     io_bind (random_io rnd) (\<lambda>server.
     io_bind (write_io server) (\<lambda>_.
     io_bind (write_io (auth_proof hmac e 0x53 expectedRole client server)) (\<lambda>_.
     io_bind (read_io 32) (\<lambda>received.
     io_bind (require (digest_equal received (auth_proof hmac e 0x43 expectedRole client server)) ''client authentication rejected'') (\<lambda>_.
     write_io [1]))))))))"

text \<open>The documented interface of the code: SHA-256 digests have 32 bytes, and no two messages with the same digest are known.\<close>
definition digest_size :: "(u8 list \<Rightarrow> u8 list \<Rightarrow> u8 list) \<Rightarrow> bool" where
  "digest_size hmac \<longleftrightarrow> (\<forall>k m. length (hmac k m) = 32)"

definition collision_free :: "(u8 list \<Rightarrow> u8 list \<Rightarrow> u8 list) \<Rightarrow> u8 list \<Rightarrow> u8 list set \<Rightarrow> bool" where
  "collision_free hmac k M \<longleftrightarrow> inj_on (hmac k) M"

text \<open>A connected pair of streams over which everything one end wrote is what the other end finds.\<close>
definition joined :: "Stream \<Rightarrow> Stream \<Rightarrow> Stream \<Rightarrow> Stream \<Rightarrow> bool" where
  "joined a a' b b' \<longleftrightarrow> st_out a = [] \<and> st_out b = [] \<and> st_in a = st_out b' \<and> st_in b = st_out a'"

definition example_hmac :: "u8 list \<Rightarrow> u8 list \<Rightarrow> u8 list" where
  "example_hmac k m = take 32 (k @ m @ replicate 32 0)"

section \<open>Lemmas\<close>

lemma fold_or_zero: "fold (\<lambda>(x, y) diff. diff OR (x XOR y)) zs d = (0 :: u8) \<longleftrightarrow> d = 0 \<and> (\<forall>(x, y) \<in> set zs. x = y)"
proof (induction zs arbitrary: d)
  case (Cons z zs)
  have "x XOR y = 0 \<longleftrightarrow> x = y" for x y :: u8 by (metis bit.xor_self xor.right_neutral xor.left_neutral xor.assoc)
  with Cons show ?case by (cases z) (auto simp: or_eq_0_iff)
qed simp

lemma digest_equal_iff: "length a = length b \<Longrightarrow> digest_equal a b \<longleftrightarrow> a = b"
  by (auto simp: digest_equal_def fold_or_zero list_eq_iff_nth_eq set_zip)

text \<open>Evaluation of the primitives when they succeed, and the bytes a function has written whatever its outcome.\<close>

lemma io_bind_Inr: "m st = (Inr x, st') \<Longrightarrow> io_bind m f st = f x st'"
  by (simp add: io_bind_def)

lemma io_bind_InrD: "io_bind m f st = (Inr y, st2) \<Longrightarrow> \<exists>x st'. m st = (Inr x, st') \<and> f x st' = (Inr y, st2)"
  by (auto simp: io_bind_def split: prod.splits sum.splits)

lemma read_io_ok: "n \<le> length (st_in st) \<Longrightarrow> read_io n st = (Inr (take n (st_in st)), st\<lparr>st_in := drop n (st_in st)\<rparr>)"
  by (simp add: read_io_def)

lemma write_io_ok: "length bs \<le> st_room st \<Longrightarrow> write_io bs st = (Inr (), st\<lparr>st_out := st_out st @ bs, st_room := st_room st - length bs\<rparr>)"
  by (simp add: write_io_def)

definition grows :: "'a io \<Rightarrow> bool" where
  "grows m \<longleftrightarrow> (\<forall>st. \<exists>w. st_out (snd (m st)) = st_out st @ w)"

lemma grows_bind: "grows m \<Longrightarrow> (\<And>x. grows (f x)) \<Longrightarrow> grows (io_bind m f)"
  unfolding grows_def
proof
  fix st
  assume m: "\<forall>st. \<exists>w. st_out (snd (m st)) = st_out st @ w" and f: "\<And>x. \<forall>st. \<exists>w. st_out (snd (f x st)) = st_out st @ w"
  obtain r st' where r: "m st = (r, st')" by (cases "m st")
  then obtain w where w: "st_out st' = st_out st @ w" using m by (metis snd_conv)
  show "\<exists>w. st_out (snd (io_bind m f st)) = st_out st @ w"
  proof (cases r)
    case (Inr x)
    then obtain w' where "st_out (snd (f x st')) = st_out st' @ w'" using f by blast
    then show ?thesis using r Inr w by (simp add: io_bind_def)
  qed (use r w in \<open>simp add: io_bind_def\<close>)
qed

lemma grows_prims: "grows (return_io x)" "grows (require b t)" "grows (random_io rnd)" "grows (read_io n)" "grows (write_io bs)"
  by (auto simp: grows_def return_io_def require_def random_io_def read_io_def write_io_def split: sum.splits)

lemma grows_relabel: "grows m \<Longrightarrow> grows (relabel t m)"
  unfolding grows_def relabel_def by (metis (no_types, lifting) case_prod_unfold old.sum.exhaust old.sum.simps(5) old.sum.simps(6) prod.sel(2))

lemma growsD: "grows m \<Longrightarrow> \<exists>w. st_out (snd (m st)) = st_out st @ w"
  by (simp add: grows_def)

lemmas grows_intros = grows_bind grows_prims grows_relabel


lemma io_bind_require: "io_bind (require b t) f st = (if b then f () st else (Inl t, st))"
  by (simp add: io_bind_def require_def)

lemma io_bind_random: "io_bind (random_io (Inr x)) f st = f x st"
  by (simp add: io_bind_def random_io_def)

lemma io_bind_read: "io_bind (read_io n) f st =
   (if n \<le> length (st_in st) then f (take n (st_in st)) (st\<lparr>st_in := drop n (st_in st)\<rparr>)
    else (Inl ''authentication read failed'', st\<lparr>st_in := []\<rparr>))"
  by (simp add: io_bind_def read_io_def)

lemma io_bind_write: "io_bind (write_io bs) f st =
   (if length bs \<le> st_room st then f () (st\<lparr>st_out := st_out st @ bs, st_room := st_room st - length bs\<rparr>)
    else (Inl ''authentication write failed'', st\<lparr>st_out := st_out st @ take (st_room st) bs, st_room := 0\<rparr>))"
  by (simp add: io_bind_def write_io_def)

lemmas io_binds = io_bind_require io_bind_random io_bind_read io_bind_write

text \<open>A function that succeeds: every part of it did.\<close>

lemma io_bind_iff: "io_bind m f st = (Inr y, st2) \<longleftrightarrow> (\<exists>x st'. m st = (Inr x, st') \<and> f x st' = (Inr y, st2))"
  by (auto simp: io_bind_def split: prod.splits sum.splits)

lemma return_io_iff: "return_io x st = (Inr y, st2) \<longleftrightarrow> y = x \<and> st2 = st"
  by (auto simp: return_io_def)

lemma require_iff: "require b t st = (Inr u, st2) \<longleftrightarrow> b \<and> st2 = st"
  by (auto simp: require_def)

lemma relabel_iff: "relabel t m st = (Inr y, st2) \<longleftrightarrow> m st = (Inr y, st2)"
  by (auto simp: relabel_def split: prod.splits sum.splits)

lemma random_io_iff: "random_io rnd st = (Inr bs, st2) \<longleftrightarrow> rnd = Inr bs \<and> st2 = st"
  by (auto simp: random_io_def)

lemma read_io_iff: "read_io n st = (Inr bs, st2) \<longleftrightarrow> n \<le> length (st_in st) \<and> bs = take n (st_in st) \<and> st2 = st\<lparr>st_in := drop n (st_in st)\<rparr>"
  by (auto simp: read_io_def)

lemma write_io_iff: "write_io ws st = (Inr u, st2) \<longleftrightarrow>
   length ws \<le> st_room st \<and> st2 = st\<lparr>st_out := st_out st @ ws, st_room := st_room st - length ws\<rparr>"
  by (auto simp: write_io_def)

lemmas io_iffs = io_bind_iff return_io_iff require_iff relabel_iff random_io_iff read_io_iff write_io_iff

lemma auth_magic_length [simp]: "length auth_magic = 8"
  by (simp add: auth_magic_def)

text \<open>The first message of the client does not depend on its peer.\<close>
lemma client_hello:
  assumes "roleValid role" "length cn = 32" "41 \<le> st_room st"
  shows "\<exists>w. st_out (snd (authenticateClient hmac (Inr cn) e role st)) = st_out st @ auth_magic @ [role] @ cn @ w"
proof -
  let ?st = "st\<lparr>st_out := st_out st @ auth_magic @ [role] @ cn, st_room := st_room st - 41\<rparr>"
  let ?rest = "io_bind (read_io 32) (\<lambda>server. io_bind (read_io 32) (\<lambda>received.
     io_bind (require (digest_equal received (auth_proof hmac e 0x53 role cn server)) ''server authentication rejected'') (\<lambda>_.
     io_bind (write_io (auth_proof hmac e 0x43 role cn server)) (\<lambda>_. io_bind (read_io 1) (\<lambda>ok. require (ok = [1]) ''client authentication rejected'')))))"
  have "8 \<le> st_room st" "Suc 0 \<le> st_room st - 8" "32 \<le> st_room st - 9" using assms(3) by simp_all
  then have "authenticateClient hmac (Inr cn) e role st = ?rest ?st" using assms(1,2) by (simp add: authenticateClient_def io_bind_require io_bind_random io_bind_write)
  moreover obtain w where "st_out (snd (?rest ?st)) = st_out ?st @ w" using growsD [of ?rest ?st] by (auto intro!: grows_intros)
  ultimately show ?thesis by simp
qed

text \<open>What a client that succeeds has read, and what it has written.\<close>
lemma client_exact:
  assumes "digest_size hmac" "roleValid role" "length cn = 32" "73 \<le> st_room st"
  shows "authenticateClient hmac (Inr cn) e role st = (Inr (), st') \<longleftrightarrow>
    (\<exists>sn rest. length sn = 32 \<and> st_in st = sn @ auth_proof hmac e 0x53 role cn sn @ 1 # rest \<and>
      st' = st\<lparr>st_in := rest, st_out := st_out st @ auth_magic @ [role] @ cn @ auth_proof hmac e 0x43 role cn sn, st_room := st_room st - 73\<rparr>)"
    (is "?l = ?r")
proof -
  have d: "length (auth_proof hmac e x role cn sn) = 32" for x sn using assms(1) by (simp add: auth_proof_def digest_size_def)
  let ?i = "st_in st" let ?sn = "take 32 ?i"
  have l: "?l \<longleftrightarrow> 65 \<le> length ?i \<and> take 32 (drop 32 ?i) = auth_proof hmac e 0x53 role cn ?sn \<and> take 1 (drop 64 ?i) = [1] \<and>
      st' = st\<lparr>st_in := drop 65 ?i, st_out := st_out st @ auth_magic @ [role] @ cn @ auth_proof hmac e 0x43 role cn ?sn, st_room := st_room st - 73\<rparr>"
    using assms(2-4) d by (simp add: authenticateClient_def io_iffs) (auto simp: digest_equal_iff)
  show ?thesis
  proof
    assume ?l
    then have a: "65 \<le> length ?i" "take 32 (drop 32 ?i) = auth_proof hmac e 0x53 role cn ?sn" "take 1 (drop 64 ?i) = [1]" using l by blast+
    have "?i = ?sn @ take 32 (drop 32 ?i) @ take 1 (drop 64 ?i) @ drop 65 ?i" by (simp add: take_drop_rest)
    then show ?r using l \<open>?l\<close> a by (intro exI [of _ ?sn] exI [of _ "drop 65 ?i"]) simp
  next
    assume ?r
    then show ?l unfolding l using d by auto
  qed
qed


text \<open>The server's side: its challenge answers the client's greeting, and it accepts exactly the client's proof.\<close>

lemma io_bind_greeting:
  "io_bind (auth_greeting role) f st =
     (if 9 \<le> length (st_in st) \<and> take 9 (st_in st) = auth_magic @ [role] then f () (st\<lparr>st_in := drop 9 (st_in st)\<rparr>)
      else (Inl ''authentication protocol or role rejected'', snd (auth_greeting role st)))"
proof -
  let ?i = "st_in st"
  have "take 9 ?i = auth_magic @ [role] \<longleftrightarrow> take 8 ?i = auth_magic \<and> take 1 (drop 8 ?i) = [role]" if "9 \<le> length ?i"
    using that take_drop_append(2) [of 8 ?i 1] by (auto simp: append_eq_append_conv)
  then show ?thesis by (auto simp: auth_greeting_def relabel_def io_bind_def read_io_def require_def split: if_splits)
qed

lemma greeting_iff: "auth_greeting role st = (Inr u, st2) \<longleftrightarrow>
   9 \<le> length (st_in st) \<and> take 9 (st_in st) = auth_magic @ [role] \<and> st2 = st\<lparr>st_in := drop 9 (st_in st)\<rparr>"
  using io_bind_greeting [of role return_io st] io_bind_iff [of "auth_greeting role" return_io st u st2] by (auto simp: return_io_def split: if_splits)

lemma server_challenge:
  assumes "roleValid role" "length cn = 32" "length sn = 32" "digest_size hmac" "64 \<le> st_room st" "st_in st = auth_magic @ [role] @ cn @ rest"
  shows "\<exists>w. st_out (snd (authenticateServer hmac (Inr sn) e role st)) = st_out st @ sn @ auth_proof hmac e 0x53 role cn sn @ w"
proof -
  let ?st = "st\<lparr>st_in := rest, st_out := st_out st @ sn @ auth_proof hmac e 0x53 role cn sn, st_room := st_room st - 64\<rparr>"
  let ?rest = "io_bind (read_io 32) (\<lambda>received.
     io_bind (require (digest_equal received (auth_proof hmac e 0x43 role cn sn)) ''client authentication rejected'') (\<lambda>_. write_io [1]))"
  have d: "length (auth_proof hmac e x role cn sn) = 32" for x using assms(4) by (simp add: auth_proof_def digest_size_def)
  have "32 \<le> st_room st" "32 \<le> st_room st - 32" using assms(5) by simp_all
  then have "authenticateServer hmac (Inr sn) e role st = ?rest ?st"
    using assms(1-3,6) d by (simp add: authenticateServer_def io_bind_greeting io_binds)
  moreover obtain w where "st_out (snd (?rest ?st)) = st_out ?st @ w" using growsD [of ?rest ?st] by (auto intro!: grows_intros)
  ultimately show ?thesis by simp
qed

lemma server_exact:
  assumes "digest_size hmac" "roleValid role" "length sn = 32" "65 \<le> st_room st"
  shows "authenticateServer hmac (Inr sn) e role st = (Inr (), st') \<longleftrightarrow>
    (\<exists>cn rest. length cn = 32 \<and> st_in st = auth_magic @ [role] @ cn @ auth_proof hmac e 0x43 role cn sn @ rest \<and>
      st' = st\<lparr>st_in := rest, st_out := st_out st @ sn @ auth_proof hmac e 0x53 role cn sn @ [1], st_room := st_room st - 65\<rparr>)"
    (is "?l = ?r")
proof -
  have d: "length (auth_proof hmac e x role cn sn) = 32" for x cn using assms(1) by (simp add: auth_proof_def digest_size_def)
  let ?i = "st_in st" let ?cn = "take 32 (drop 9 ?i)"
  have l: "?l \<longleftrightarrow> 73 \<le> length ?i \<and> take 9 ?i = auth_magic @ [role] \<and> take 32 (drop 41 ?i) = auth_proof hmac e 0x43 role ?cn sn \<and>
      st' = st\<lparr>st_in := drop 73 ?i, st_out := st_out st @ sn @ auth_proof hmac e 0x53 role ?cn sn @ [1], st_room := st_room st - 65\<rparr>"
    using assms(2-4) d by (simp add: authenticateServer_def io_iffs greeting_iff) (auto simp: digest_equal_iff)
  show ?thesis
  proof
    assume ?l
    then have a: "73 \<le> length ?i" "take 9 ?i = auth_magic @ [role]" "take 32 (drop 41 ?i) = auth_proof hmac e 0x43 role ?cn sn" using l by blast+
    have "?i = take 9 ?i @ ?cn @ take 32 (drop 41 ?i) @ drop 73 ?i" by (simp add: take_drop_rest)
    then show ?r using l \<open>?l\<close> a by (intro exI [of _ ?cn] exI [of _ "drop 73 ?i"]) simp
  next
    assume ?r
    then show ?l unfolding l using d by auto
  qed
qed

lemma client_response:
  assumes "digest_size hmac" "roleValid role" "length cn = 32" "length sn = 32" "73 \<le> st_room st"
    "st_in st = sn @ auth_proof hmac e 0x53 role cn sn @ rest"
  shows "\<exists>w. st_out (snd (authenticateClient hmac (Inr cn) e role st)) = st_out st @ auth_magic @ [role] @ cn @ auth_proof hmac e 0x43 role cn sn @ w"
proof -
  let ?st = "st\<lparr>st_in := rest, st_out := st_out st @ auth_magic @ [role] @ cn @ auth_proof hmac e 0x43 role cn sn, st_room := st_room st - 73\<rparr>"
  let ?rest = "io_bind (read_io 1) (\<lambda>ok. require (ok = [1]) ''client authentication rejected'')"
  have d: "length (auth_proof hmac e x role cn sn) = 32" for x using assms(1) by (simp add: auth_proof_def digest_size_def)
  have "8 \<le> st_room st" "Suc 0 \<le> st_room st - 8" "32 \<le> st_room st - 9" "32 \<le> st_room st - 41" using assms(5) by simp_all
  then have "authenticateClient hmac (Inr cn) e role st = ?rest ?st"
    using assms(2-4,6) d by (simp add: authenticateClient_def io_bind_require io_bind_random io_bind_write io_bind_read [of 32] digest_equal_iff)
  moreover obtain w where "st_out (snd (?rest ?st)) = st_out ?st @ w" using growsD [of ?rest ?st] by (auto intro!: grows_intros)
  ultimately show ?thesis by simp
qed

lemma auth_message_inj:
  assumes "length c = 32" "length c' = 32" "auth_message d r c s = auth_message d' r' c' s'"
  shows "d = d' \<and> r = r' \<and> c = c' \<and> s = s'"
  using assms by (simp add: auth_message_def)

section \<open>Properties\<close>

text \<open>
  Authentication succeeds exactly on proofs of the shared secret.  Over a stream that takes its bytes, a client returns success
  if and only if it read a server nonce, the server's proof for its own nonce, role and that nonce, and the final
  acknowledgement; a server if and only if it read the greeting of its role, a client nonce and the client's proof for the
  two nonces.  Nothing else is ever accepted.
\<close>
theorem authentication_exact:
  assumes "digest_size hmac" "roleValid role" "length n = 32" "73 \<le> st_room st"
  shows "(authenticateClient hmac (Inr n) e role st = (Inr (), st') \<longleftrightarrow>
     (\<exists>sn rest. length sn = 32 \<and> st_in st = sn @ auth_proof hmac e 0x53 role n sn @ 1 # rest \<and>
       st' = st\<lparr>st_in := rest, st_out := st_out st @ auth_magic @ [role] @ n @ auth_proof hmac e 0x43 role n sn, st_room := st_room st - 73\<rparr>)) \<and>
    (authenticateServer hmac (Inr n) e role st = (Inr (), st') \<longleftrightarrow>
     (\<exists>cn rest. length cn = 32 \<and> st_in st = auth_magic @ [role] @ cn @ auth_proof hmac e 0x43 role cn n @ rest \<and>
       st' = st\<lparr>st_in := rest, st_out := st_out st @ n @ auth_proof hmac e 0x53 role cn n @ [1], st_room := st_room st - 65\<rparr>))"
  using client_exact [OF assms] server_exact [OF assms(1-3), of st] assms(4) by (intro conjI) simp_all

lemma example_hmac_size: "digest_size example_hmac"
  unfolding digest_size_def example_hmac_def by (auto simp: min_def)

lemma example_proof_size: "length (auth_proof example_hmac e d r c s) = 32"
  using example_hmac_size by (simp add: auth_proof_def digest_size_def)

theorem authentication_exact_witness:
  "\<exists>st'. authenticateClient example_hmac (Inr (replicate 32 1)) \<lparr>ep_port = 9, ep_token = replicate 32 5\<rparr> 0x43
     \<lparr>st_in = replicate 32 2 @ auth_proof example_hmac \<lparr>ep_port = 9, ep_token = replicate 32 5\<rparr> 0x53 0x43 (replicate 32 1) (replicate 32 2) @ [1], st_out = [], st_room = 73\<rparr> =
     (Inr (), st') \<and> st_room st' = 0"
proof -
  let ?e = "\<lparr>ep_port = 9, ep_token = replicate 32 5\<rparr>" and ?n = "replicate 32 (1 :: u8)" and ?sn = "replicate 32 (2 :: u8)"
  let ?st = "\<lparr>st_in = ?sn @ auth_proof example_hmac ?e 0x53 0x43 ?n ?sn @ [1], st_out = [], st_room = 73\<rparr>"
  let ?st' = "?st\<lparr>st_in := [], st_out := st_out ?st @ auth_magic @ [0x43] @ ?n @ auth_proof example_hmac ?e 0x43 0x43 ?n ?sn, st_room := st_room ?st - 73\<rparr>"
  have "\<exists>sn rest. length sn = 32 \<and> st_in ?st = sn @ auth_proof example_hmac ?e 0x53 0x43 ?n sn @ 1 # rest \<and>
      ?st' = ?st\<lparr>st_in := rest, st_out := st_out ?st @ auth_magic @ [0x43] @ ?n @ auth_proof example_hmac ?e 0x43 0x43 ?n sn, st_room := st_room ?st - 73\<rparr>"
    by (intro exI [of _ ?sn] exI [of _ "[]"]) simp
  moreover have "roleValid 0x43" "length ?n = 32" "73 \<le> st_room ?st" by (simp_all add: roleValid_def)
  ultimately have "authenticateClient example_hmac (Inr ?n) ?e 0x43 ?st = (Inr (), ?st')"
    using authentication_exact [OF example_hmac_size, where role = "0x43" and n = ?n and st = ?st and e = ?e and st' = ?st'] by blast
  then show ?thesis by (intro exI [of _ ?st']) simp
qed



text \<open>
  The two sides meet.  When a client and a server with the same secret and role are joined by streams that lose nothing
  and take their bytes, both succeed, and each has consumed exactly what the other wrote.
\<close>
theorem authentication_completes:
  assumes "digest_size hmac" "roleValid role" "length cn = 32" "length sn = 32" "73 \<le> st_room c" "65 \<le> st_room s"
    "authenticateClient hmac (Inr cn) e role c = (rc, c')" "authenticateServer hmac (Inr sn) e role s = (rs, s')" "joined c c' s s'"
  shows "rc = Inr () \<and> rs = Inr () \<and> st_in c' = [] \<and> st_in s' = []"
proof -
  have j: "st_out c = []" "st_out s = []" "st_in c = st_out s'" "st_in s = st_out c'" using assms(9) by (simp_all add: joined_def)
  have d: "length (auth_proof hmac e x role cn sn) = 32" for x using assms(1) by (simp add: auth_proof_def digest_size_def)
  obtain w where w: "st_in s = auth_magic @ [role] @ cn @ w"
    using client_hello [of role cn c hmac e] assms(2,3,5,7) j by auto
  obtain v where v: "st_in c = sn @ auth_proof hmac e 0x53 role cn sn @ v"
    using server_challenge [of role cn sn hmac s w e] assms(1-4,6,8) w j by auto
  let ?pc = "auth_proof hmac e 0x43 role cn sn"
  have "\<exists>w'. st_in s = auth_magic @ [role] @ cn @ ?pc @ w'"
    using client_response [of hmac role cn sn c e v] assms(1-5,7) v j by auto
  then obtain w' where w': "st_in s = auth_magic @ [role] @ cn @ ?pc @ w'" by blast
  have rs: "rs = Inr ()" "st_out s' = sn @ auth_proof hmac e 0x53 role cn sn @ [1]" "st_in s' = w'"
    using server_exact [OF assms(1,2,4,6), of e "s\<lparr>st_in := w', st_out := st_out s @ sn @ auth_proof hmac e 0x53 role cn sn @ [1], st_room := st_room s - 65\<rparr>"]
      w' assms(3,8) j by auto
  then have "st_in c = sn @ auth_proof hmac e 0x53 role cn sn @ 1 # []" using j by simp
  then have rc: "rc = Inr ()" "st_in c' = []" "st_out c' = auth_magic @ [role] @ cn @ ?pc"
    using client_exact [OF assms(1,2,3,5), of e "c\<lparr>st_in := [], st_out := st_out c @ auth_magic @ [role] @ cn @ ?pc, st_room := st_room c - 73\<rparr>"]
      assms(4,7) j by auto
  then have "w' = []" using w' j by simp
  with rs rc show ?thesis by simp
qed


theorem authentication_completes_witness:
  "\<exists>c c' s s'. authenticateClient example_hmac (Inr (replicate 32 1)) \<lparr>ep_port = 9, ep_token = replicate 32 5\<rparr> 0x41 c = (Inr (), c') \<and>
     authenticateServer example_hmac (Inr (replicate 32 2)) \<lparr>ep_port = 9, ep_token = replicate 32 5\<rparr> 0x41 s = (Inr (), s') \<and> st_in c' = []"
proof -
  let ?e = "\<lparr>ep_port = 9, ep_token = replicate 32 5\<rparr>" and ?cn = "replicate 32 (1 :: u8)" and ?sn = "replicate 32 (2 :: u8)"
  let ?ps = "auth_proof example_hmac ?e 0x53 0x41 ?cn ?sn" and ?pc = "auth_proof example_hmac ?e 0x43 0x41 ?cn ?sn"
  let ?c = "\<lparr>st_in = ?sn @ ?ps @ [1], st_out = [], st_room = 73\<rparr>" and ?s = "\<lparr>st_in = auth_magic @ [0x41] @ ?cn @ ?pc, st_out = [], st_room = 65\<rparr>"
  let ?c' = "\<lparr>st_in = [], st_out = auth_magic @ [0x41] @ ?cn @ ?pc, st_room = 0\<rparr>" and ?s' = "\<lparr>st_in = [], st_out = ?sn @ ?ps @ [1], st_room = 0\<rparr>"
  have r: "roleValid 0x41" by (simp add: roleValid_def)
  have c: "authenticateClient example_hmac (Inr ?cn) ?e 0x41 ?c = (Inr (), ?c')"
    by (rule client_exact [OF example_hmac_size r, THEN iffD2]) (simp_all, intro exI [of _ ?sn] exI [of _ "[]"], simp)
  have s: "authenticateServer example_hmac (Inr ?sn) ?e 0x41 ?s = (Inr (), ?s')"
    by (rule server_exact [OF example_hmac_size r, THEN iffD2]) (simp_all, intro exI [of _ ?cn] exI [of _ "[]"], simp)
  have "joined ?c ?c' ?s ?s'" by (simp add: joined_def)
  from authentication_completes [OF example_hmac_size r _ _ _ _ c s this] have "st_in ?c' = []" by simp
  with c s show ?thesis by (intro exI [of _ ?c] exI [of _ ?c'] exI [of _ ?s] exI [of _ ?s'] conjI)
qed

end
