(* ===== verification/FL_Transport.thy ===== *)
theory FL_Transport
  imports FL_Coordinator FL_Auth
begin

text \<open>
  Session negotiation over an authorized byte stream: \<^verbatim>\<open>gst/framelink_session_transport.cpp\<close>.  After mutual authentication the two
  ends exchange their format offers, the producer selects and proposes a configuration, and both confirm it with
  message authentication codes over the whole transcript; then the configuration is published to the session
  coordinator.  Further streams (audio, events) are bound to that configuration with derived keys.  The deadline thread and
  the caller's cancellation act through the streams, which stop delivering and taking bytes, and through the flag that
  the code tests before it publishes.
\<close>

section \<open>Offers\<close>

abbreviation OFFER_SIZE :: nat where "OFFER_SIZE \<equiv> 268"

definition video_bytes :: "flVideoFormat \<Rightarrow> u8 list" where
  "video_bytes v = le_put 4 (vf_format v) @ le_put 4 (vf_width v) @ le_put 4 (vf_height v) @ le_put 4 (vf_fpsNum v) @ le_put 4 (vf_fpsDen v)"

definition audio_bytes :: "flAudioFormat \<Rightarrow> u8 list" where
  "audio_bytes a = le_put 4 (af_pcm a) @ le_put 4 (af_rate a) @ le_put 4 (af_layout a)"

definition zero_fill :: "nat \<Rightarrow> u8 list \<Rightarrow> u8 list" where
  "zero_fill n bs = bs @ replicate (n - length bs) 0"

text \<open>The 268 bytes: a header, eight slots of 20 bytes for video and eight of 12 for audio, unused ones zero.\<close>
definition offer_bytes :: "flSessionCapabilities \<Rightarrow> u8 list" where
  "offer_bytes c =
     le_put 4 (cap_version c) @ le_put 4 (cap_videoCount c) @ le_put 4 (cap_audioCount c) @
     zero_fill 160 (concat (map video_bytes (used_video c))) @ zero_fill 96 (concat (map audio_bytes (used_audio c)))"

definition offer_encode :: "flSessionCapabilities \<Rightarrow> u8 list option" where
  "offer_encode c =
     (if cap_version c \<noteq> FL_SESSION_OPTIONAL_TRACKS_VERSION \<or>
        fst (flSessionNegotiate (Some c) (Some c) (Some no_video) (Some no_audio)) \<noteq> FL_SESSION_OK then None
      else Some (offer_bytes c))"

definition le32_at :: "u8 list \<Rightarrow> nat \<Rightarrow> u32" where
  "le32_at b off = le_val (take 4 (drop off b))"

definition video_at :: "u8 list \<Rightarrow> nat \<Rightarrow> flVideoFormat" where
  "video_at b i = (let p = 12 + i * 20 in
     \<lparr>vf_format = le32_at b p, vf_width = le32_at b (p + 4), vf_height = le32_at b (p + 8), vf_fpsNum = le32_at b (p + 12), vf_fpsDen = le32_at b (p + 16)\<rparr>)"

definition audio_at :: "u8 list \<Rightarrow> nat \<Rightarrow> flAudioFormat" where
  "audio_at b i = (let p = 172 + i * 12 in \<lparr>af_pcm = le32_at b p, af_rate = le32_at b (p + 4), af_layout = le32_at b (p + 8)\<rparr>)"

definition offer_decode :: "u8 list \<Rightarrow> flSessionCapabilities option" where
  "offer_decode b =
     (let videoCount = le32_at b 4; audioCount = le32_at b 8
      in if videoCount > FL_SESSION_MAX_FORMATS \<or> audioCount > FL_SESSION_MAX_FORMATS then None
         else
           let c = \<lparr>cap_version = le32_at b 0, cap_videoCount = videoCount, cap_audioCount = audioCount,
                 cap_video = map (video_at b) [0..<unat videoCount] @ replicate (8 - unat videoCount) no_video,
                 cap_audio = map (audio_at b) [0..<unat audioCount] @ replicate (8 - unat audioCount) no_audio\<rparr>
           in if offer_encode c = Some b then Some c else None)"

section \<open>Negotiation\<close>

definition neg_magic :: "u8 list" where
  "neg_magic = [0x46, 0x4C, 0x47, 0x53, 0x54, 0x41, 0x56, 2]"

definition neg_proof ::
  "(u8 list \<Rightarrow> u8 list \<Rightarrow> u8 list) \<Rightarrow> Endpoint \<Rightarrow> u8 \<Rightarrow> u8 list \<Rightarrow> u8 list \<Rightarrow> u8 list \<Rightarrow> u8 list \<Rightarrow> u8 list \<Rightarrow> u8 list" where
  "neg_proof hmac ep direction client server cn sn wire =
     hmac (ep_token ep) (neg_magic @ [direction] @ cn @ sn @ client @ server @ wire)"

text \<open>Two values from \<^verbatim>\<open>secureRandom\<close>: the nonce of the authentication and the nonce of the negotiation.\<close>
record Nonces =
  nn_auth :: "string + u8 list"
  nn_session :: "string + u8 list"

definition some_io :: "string \<Rightarrow> 'a option \<Rightarrow> ('s, 'a) fallible" where
  "some_io text x st = (case x of None \<Rightarrow> (Inl text, st) | Some y \<Rightarrow> (Inr y, st))"

text \<open>The producer's selection: the proposal with the formats negotiated from the two offers, and its encoding.\<close>
definition select_config :: "flSessionCapabilities \<Rightarrow> flSessionCapabilities \<Rightarrow> flSessionConfig \<Rightarrow> (flSessionConfig \<times> u8 list) option" where
  "select_config local peer proposal =
     (if cfg_version proposal \<noteq> FL_SESSION_OPTIONAL_TRACKS_VERSION then None
      else case flSessionNegotiate (Some local) (Some peer) (Some (cfg_video proposal)) (Some (cfg_audio proposal)) of
        (r, Some v, Some a) \<Rightarrow>
          if r \<noteq> FL_SESSION_OK then None
          else
            let chosen = proposal\<lparr>cfg_video := v, cfg_audio := a\<rparr>
            in if flSessionValidateSelection (Some chosen) (Some local) (Some peer) \<noteq> FL_SESSION_OK then None
               else (case encode_local chosen of (r2, Some wire) \<Rightarrow> if r2 = FL_SESSION_OK then Some (chosen, wire) else None | _ \<Rightarrow> None)
      | _ \<Rightarrow> None)"

definition negotiate_producer ::
  "(u8 list \<Rightarrow> u8 list \<Rightarrow> u8 list) \<Rightarrow> Endpoint \<Rightarrow> u8 list \<Rightarrow> u8 list \<Rightarrow> flSessionCapabilities \<Rightarrow> flSessionConfig \<Rightarrow>
   (flSessionConfig \<times> flSessionCapabilities) io" where
  "negotiate_producer hmac ep ownNonce own local proposal =
     io_bind (relabel ''invalid consumer session offer''
       (io_bind (read_io 8) (\<lambda>header.
        io_bind (require (header = neg_magic) []) (\<lambda>_.
        io_bind (read_io 32) (\<lambda>peerNonce.
        io_bind (read_io OFFER_SIZE) (\<lambda>remote.
        io_bind (some_io [] (offer_decode remote)) (\<lambda>peer. return_io (peerNonce, remote, peer)))))))) (\<lambda>(peerNonce, remote, peer).
     io_bind (some_io ''incompatible session selection'' (select_config local peer proposal)) (\<lambda>(chosen, wire).
     relabel ''session confirmation rejected''
       (io_bind (write_io neg_magic) (\<lambda>_.
        io_bind (write_io ownNonce) (\<lambda>_.
        io_bind (write_io own) (\<lambda>_.
        io_bind (write_io wire) (\<lambda>_.
        io_bind (write_io (neg_proof hmac ep 0x50 remote own peerNonce ownNonce wire)) (\<lambda>_.
        io_bind (read_io 32) (\<lambda>received.
        io_bind (require (digest_equal received (neg_proof hmac ep 0x43 remote own peerNonce ownNonce wire)) []) (\<lambda>_.
        return_io (chosen, peer)))))))))))"

text \<open>What the consumer accepts: the producer's offer, the encoded configuration and the proof over both offers and nonces.\<close>
definition accept_selection :: "flSessionCapabilities \<Rightarrow> u8 list \<Rightarrow> u8 list \<Rightarrow> (flSessionConfig \<times> flSessionCapabilities) option" where
  "accept_selection local remote wire =
     (case offer_decode remote of
        None \<Rightarrow> None
      | Some peer \<Rightarrow>
          (case flSessionDecode (Some wire) FL_SESSION_WIRE_SIZE (Some zero_config) of
             (r, Some chosen) \<Rightarrow>
               if r = FL_SESSION_OK \<and> cfg_version chosen = FL_SESSION_OPTIONAL_TRACKS_VERSION \<and>
                 flSessionValidateSelection (Some chosen) (Some peer) (Some local) = FL_SESSION_OK
               then Some (chosen, peer) else None
           | _ \<Rightarrow> None))"

definition negotiate_consumer ::
  "(u8 list \<Rightarrow> u8 list \<Rightarrow> u8 list) \<Rightarrow> Endpoint \<Rightarrow> u8 list \<Rightarrow> u8 list \<Rightarrow> flSessionCapabilities \<Rightarrow> (flSessionConfig \<times> flSessionCapabilities) io" where
  "negotiate_consumer hmac ep ownNonce own local =
     io_bind (relabel ''producer selection or authentication rejected''
       (io_bind (write_io neg_magic) (\<lambda>_.
        io_bind (write_io ownNonce) (\<lambda>_.
        io_bind (write_io own) (\<lambda>_.
        io_bind (read_io 8) (\<lambda>header.
        io_bind (require (header = neg_magic) []) (\<lambda>_.
        io_bind (read_io 32) (\<lambda>peerNonce.
        io_bind (read_io OFFER_SIZE) (\<lambda>remote.
        io_bind (read_io FL_SESSION_WIRE_SIZE) (\<lambda>wire.
        io_bind (read_io 32) (\<lambda>received.
        io_bind (require (digest_equal received (neg_proof hmac ep 0x50 own remote ownNonce peerNonce wire)) []) (\<lambda>_.
        io_bind (some_io [] (accept_selection local remote wire)) (\<lambda>(chosen, peer).
        return_io (chosen, peer, remote, wire, peerNonce)))))))))))))) (\<lambda>(chosen, peer, remote, wire, peerNonce).
     io_bind (relabel ''session confirmation write failed'' (write_io (neg_proof hmac ep 0x43 own remote ownNonce peerNonce wire))) (\<lambda>_.
     return_io (chosen, peer)))"

definition negotiate_io ::
  "(u8 list \<Rightarrow> u8 list \<Rightarrow> u8 list) \<Rightarrow> Nonces \<Rightarrow> bool \<Rightarrow> Endpoint \<Rightarrow> u8 list \<Rightarrow> flSessionCapabilities \<Rightarrow> flSessionConfig option \<Rightarrow>
   (flSessionConfig \<times> flSessionCapabilities) io" where
  "negotiate_io hmac nn producer ep own local proposal =
     io_bind (if producer then authenticateServer hmac (nn_auth nn) ep 0x43 else authenticateClient hmac (nn_auth nn) ep 0x43) (\<lambda>_.
     io_bind (random_io (nn_session nn)) (\<lambda>ownNonce.
     if producer then negotiate_producer hmac ep ownNonce own local (the proposal) else negotiate_consumer hmac ep ownNonce own local))"

text \<open>
  The outcome of a call: what it returned (the error text, or nothing for \<^verbatim>\<open>TRUE\<close>), the coordinator, the stream, and
  whether the stream was closed.
\<close>
record Outcome =
  oc_error :: "string option"
  oc_session :: FlGstSession
  oc_stream :: Stream
  oc_closed :: bool

definition session_fail :: "FlGstSession \<Rightarrow> Stream \<Rightarrow> string \<Rightarrow> Outcome" where
  "session_fail s st text = \<lparr>oc_error = Some text, oc_session = fl_gst_session_cancel s, oc_stream = st, oc_closed = True\<rparr>"

definition zero_token :: "u8 list \<Rightarrow> bool" where
  "zero_token key \<longleftrightarrow> fold (\<lambda>c v. v OR c) key 0 = 0"

text \<open>
  \<open>connected\<close> is the test of the socket, \<open>cancelled\<close> the state of the deadline's cancellable when the exchange is over, and
  \<open>between\<close> the calls of other threads on the coordinator in the meantime.
\<close>
definition fl_gst_session_negotiate_stream ::
  "(u8 list \<Rightarrow> u8 list \<Rightarrow> u8 list) \<Rightarrow> Nonces \<Rightarrow> bool \<Rightarrow> bool \<Rightarrow> session_call list \<Rightarrow> FlGstSession \<Rightarrow> Stream \<Rightarrow> bool \<Rightarrow> u8 list option \<Rightarrow>
   flSessionCapabilities option \<Rightarrow> flSessionConfig option \<Rightarrow> u32 \<Rightarrow> Outcome" where
  "fl_gst_session_negotiate_stream hmac nn connected cancelled between s st producer secret local proposal timeout =
     (case (local, secret) of
        (Some local, Some key) \<Rightarrow>
          (case offer_encode local of
             None \<Rightarrow> session_fail s st ''invalid session negotiation arguments''
           | Some own \<Rightarrow>
               if length key \<noteq> 32 \<or> timeout = 0 \<or> timeout > 60000 \<or> producer \<and> proposal = None
               then session_fail s st ''invalid session negotiation arguments''
               else if \<not> connected then session_fail s st ''connected STREAM socket required''
               else if zero_token key then session_fail s st ''invalid session credential''
               else
                 let s1 = fold session_exec between s
                 in case negotiate_io hmac nn producer \<lparr>ep_port = 0, ep_token = key\<rparr> own local proposal st of
                      (Inl text, st1) \<Rightarrow> session_fail s1 st1 text
                    | (Inr (chosen, peer), st1) \<Rightarrow>
                        if cancelled then session_fail s1 st1 ''session negotiation cancelled or deadline exceeded''
                        else case fl_gst_session_configure s1 (Some chosen) (Some (if producer then local else peer)) (Some (if producer then peer else local)) of
                               (r, s2) \<Rightarrow>
                                 if r \<noteq> FL_GST_SESSION_READY then session_fail s2 st1 ''session generation or local track policy rejected''
                                 else \<lparr>oc_error = None, oc_session = s2, oc_stream = st1, oc_closed = False\<rparr>)
      | _ \<Rightarrow> session_fail s st ''invalid session negotiation arguments'')"


section \<open>Lemmas on offers\<close>

lemma format_bytes_length [simp]: "length (video_bytes v) = 20" "length (audio_bytes a) = 12"
  by (simp_all add: video_bytes_def audio_bytes_def)

lemma zero_fill_length [simp]: "length bs \<le> n \<Longrightarrow> length (zero_fill n bs) = n"
  by (simp add: zero_fill_def)

text \<open>The block at index \<open>i\<close> of a concatenation of blocks of equal size.\<close>
lemma block_at:
  assumes "\<forall>x \<in> set xs. length (f x) = n" "i < length xs"
  shows "take n (drop (i * n) (concat (map f xs) @ rest)) = f (xs ! i)"
  using assms
proof (induction xs arbitrary: i)
  case (Cons x xs)
  then show ?case by (cases i) (simp_all add: drop_append)
qed simp

lemma concat_length: "\<forall>x \<in> set xs. length (f x) = n \<Longrightarrow> length (concat (map f xs)) = length xs * n"
  by (induction xs) auto

lemma le32_put: "le_val (le_put 4 (v :: u32)) = v"
  by (simp add: le_val_le_put)

lemma le32_at_block:
  assumes "k + 4 \<le> n" "take n (drop p b) = blk"
  shows "le32_at b (p + k) = le32_at blk k"
proof -
  have "take 4 (drop k blk) = take 4 (drop (p + k) b)"
    unfolding assms(2) [symmetric] drop_take take_take drop_drop using assms(1) by (simp add: min_def add.commute)
  then show ?thesis by (simp add: le32_at_def)
qed

lemma drop_exact: "length xs = m \<Longrightarrow> drop (m + k) (xs @ ys) = drop k ys"
  by simp

lemma video_at_block: "take 20 (drop (12 + i * 20) b) = video_bytes v \<Longrightarrow> video_at b i = v"
proof -
  assume b: "take 20 (drop (12 + i * 20) b) = video_bytes v"
  have r: "le32_at (video_bytes v) 0 = vf_format v" "le32_at (video_bytes v) 4 = vf_width v" "le32_at (video_bytes v) 8 = vf_height v"
    "le32_at (video_bytes v) 12 = vf_fpsNum v" "le32_at (video_bytes v) 16 = vf_fpsDen v"
    by (simp_all add: le32_at_def video_bytes_def le32_put)
  have a: "le32_at b (12 + i * 20 + k) = le32_at (video_bytes v) k" if "k + 4 \<le> 20" for k
    by (rule le32_at_block [OF that b])
  show ?thesis using a [of 0] a [of 4] a [of 8] a [of 12] a [of 16] r by (simp add: video_at_def Let_def)
qed

lemma audio_at_block: "take 12 (drop (172 + i * 12) b) = audio_bytes a \<Longrightarrow> audio_at b i = a"
proof -
  assume b: "take 12 (drop (172 + i * 12) b) = audio_bytes a"
  have r: "le32_at (audio_bytes a) 0 = af_pcm a" "le32_at (audio_bytes a) 4 = af_rate a" "le32_at (audio_bytes a) 8 = af_layout a"
    by (simp_all add: le32_at_def audio_bytes_def le32_put)
  have k: "le32_at b (172 + i * 12 + k) = le32_at (audio_bytes a) k" if "k + 4 \<le> 12" for k
    by (rule le32_at_block [OF that b])
  show ?thesis using k [of 0] k [of 4] k [of 8] r by (simp add: audio_at_def Let_def)
qed

text \<open>Two offers that list the same formats.\<close>
definition same_offer :: "flSessionCapabilities \<Rightarrow> flSessionCapabilities \<Rightarrow> bool" where
  "same_offer c c' \<longleftrightarrow> cap_version c = cap_version c' \<and> cap_videoCount c = cap_videoCount c' \<and> cap_audioCount c = cap_audioCount c' \<and>
     take (unat (cap_videoCount c')) (cap_video c) = used_video c' \<and> take (unat (cap_audioCount c')) (cap_audio c) = used_audio c'"

definition wf_offer :: "flSessionCapabilities \<Rightarrow> bool" where
  "wf_offer c \<longleftrightarrow> length (cap_video c) = 8 \<and> length (cap_audio c) = 8"

lemma same_offer_caps: "same_offer c c' \<Longrightarrow> caps (Some c) = caps (Some c')"
  by (auto simp: same_offer_def caps.simps)

lemma same_offer_negotiate:
  "same_offer c c' \<Longrightarrow> same_offer d d' \<Longrightarrow> flSessionNegotiate (Some c) (Some d) v a = flSessionNegotiate (Some c') (Some d') v a"
  using same_offer_caps [of c c'] same_offer_caps [of d d'] unfolding flSessionNegotiate_def by (simp add: same_offer_def)

lemma same_offer_selection:
  "same_offer p p' \<Longrightarrow> same_offer q q' \<Longrightarrow> flSessionValidateSelection c (Some p) (Some q) = flSessionValidateSelection c (Some p') (Some q')"
  using same_offer_caps [of p p'] same_offer_caps [of q q'] by (simp add: same_offer_def flSessionValidateSelection_def check_offer_def split: option.splits)

lemma same_offer_sym: "same_offer c c' \<Longrightarrow> same_offer c' c"
  by (simp add: same_offer_def)

lemma same_offer_encode: "same_offer c c' \<Longrightarrow> offer_encode c = offer_encode c'"
  using same_offer_negotiate [of c c' c c'] by (simp add: offer_encode_def offer_bytes_def same_offer_def)

lemma encoded_caps: "offer_encode c = Some b \<Longrightarrow> caps (Some c) = FL_SESSION_OK \<and> b = offer_bytes c"
  by (auto simp: offer_encode_def flSessionNegotiate_def split: if_splits)

lemma caps_counts: "caps (Some c) = FL_SESSION_OK \<Longrightarrow> unat (cap_videoCount c) \<le> 8 \<and> unat (cap_audioCount c) \<le> 8"
  by (auto simp: caps.simps word_le_nat_alt not_less split: if_splits)

lemma offer_bytes_length:
  assumes "caps (Some c) = FL_SESSION_OK"
  shows "length (offer_bytes c) = 268"
proof -
  have "length (concat (map video_bytes (used_video c))) \<le> 160" "length (concat (map audio_bytes (used_audio c))) \<le> 96"
    using caps_counts [OF assms] concat_length [of "used_video c" video_bytes 20] concat_length [of "used_audio c" audio_bytes 12] by auto
  then show ?thesis by (simp add: offer_bytes_def)
qed

lemma offer_decode_encode:
  assumes "offer_encode c = Some b" "wf_offer c"
  shows "\<exists>c'. offer_decode b = Some c' \<and> same_offer c c' \<and> wf_offer c'"
proof -
  have ok: "caps (Some c) = FL_SESSION_OK" and b: "b = offer_bytes c" using encoded_caps [OF assms(1)] by simp_all
  let ?nv = "unat (cap_videoCount c)" and ?na = "unat (cap_audioCount c)"
  have n: "?nv \<le> 8" "?na \<le> 8" using caps_counts [OF ok] by simp_all
  have lu: "length (used_video c) = ?nv" "length (used_audio c) = ?na" using n assms(2) by (simp_all add: wf_offer_def)
  let ?V = "concat (map video_bytes (used_video c))" and ?A = "concat (map audio_bytes (used_audio c))"
  have lv: "length ?V = ?nv * 20" "length ?A = ?na * 12" using lu concat_length [of "used_video c" video_bytes 20] concat_length [of "used_audio c" audio_bytes 12] by simp_all
  let ?h = "le_put 4 (cap_version c) @ le_put 4 (cap_videoCount c) @ le_put 4 (cap_audioCount c)"
  have bv: "b = ?h @ ?V @ replicate (160 - ?nv * 20) 0 @ zero_fill 96 ?A" using b lv by (simp add: offer_bytes_def zero_fill_def)
  have ba: "b = (?h @ zero_fill 160 ?V) @ ?A @ replicate (96 - ?na * 12) 0" using b lv by (simp add: offer_bytes_def zero_fill_def)
  have lz: "length (?h @ zero_fill 160 ?V) = 172" using lv n by simp
  have head: "le32_at b 0 = cap_version c" "le32_at b 4 = cap_videoCount c" "le32_at b 8 = cap_audioCount c"
    by (simp_all add: bv le32_at_def le32_put)
  have dv: "drop (12 + k) b = drop k (?V @ replicate (160 - ?nv * 20) 0 @ zero_fill 96 ?A)" for k
    unfolding bv by (rule drop_exact) simp
  have "video_at b i = used_video c ! i" if "i < ?nv" for i
    by (rule video_at_block, unfold dv, rule block_at) (use that lu in simp_all)
  then have v: "map (video_at b) [0..<?nv] = used_video c" using lu by (intro nth_equalityI) simp_all
  have da: "drop (172 + k) b = drop k (?A @ replicate (96 - ?na * 12) 0)" for k
    unfolding ba by (rule drop_exact) (rule lz)
  have "audio_at b i = used_audio c ! i" if "i < ?na" for i
    by (rule audio_at_block, unfold da, rule block_at) (use that lu in simp_all)
  then have a: "map (audio_at b) [0..<?na] = used_audio c" using lu by (intro nth_equalityI) simp_all
  let ?c = "\<lparr>cap_version = cap_version c, cap_videoCount = cap_videoCount c, cap_audioCount = cap_audioCount c,
      cap_video = used_video c @ replicate (8 - ?nv) no_video, cap_audio = used_audio c @ replicate (8 - ?na) no_audio\<rparr>"
  have s: "same_offer c ?c" using lu by (simp add: same_offer_def)
  have "offer_encode ?c = Some b" using same_offer_encode [OF s] assms(1) by simp
  then have "offer_decode b = Some ?c" using n head v a by (simp add: offer_decode_def Let_def word_less_nat_alt)
  moreover have "wf_offer ?c" using lu n by (simp add: wf_offer_def)
  ultimately show ?thesis using s by blast
qed


section \<open>Lemmas on the exchange\<close>

lemma some_io_iff: "some_io t x st = (Inr y, st2) \<longleftrightarrow> x = Some y \<and> st2 = st"
  by (auto simp: some_io_def split: option.splits)

lemma neg_magic_length [simp]: "length neg_magic = 8"
  by (simp add: neg_magic_def)

lemma neg_proof_length: "digest_size hmac \<Longrightarrow> length (neg_proof hmac ep d c s cn sn w) = 32"
  by (simp add: neg_proof_def digest_size_def)

lemma split_at:
  assumes "a + n \<le> length xs"
  shows "drop a xs = take n (drop a xs) @ drop (a + n) xs"
  by (simp add: take_drop_rest)

text \<open>A consumer that succeeds, and what it then has read and written.\<close>
lemma consumer_sound:
  assumes "negotiate_consumer hmac ep n own local st = (Inr (chosen, peer), st')" "digest_size hmac"
  shows "\<exists>pn remote wire rest. length pn = 32 \<and> length remote = 268 \<and> length wire = 160 \<and>
    st_in st = neg_magic @ pn @ remote @ wire @ neg_proof hmac ep 0x50 own remote n pn wire @ rest \<and>
    accept_selection local remote wire = Some (chosen, peer) \<and>
    st_out st' = st_out st @ neg_magic @ n @ own @ neg_proof hmac ep 0x43 own remote n pn wire"
proof -
  let ?i = "st_in st"
  let ?pn = "take 32 (drop 8 ?i)" and ?r = "take 268 (drop 40 ?i)" and ?w = "take 160 (drop 308 ?i)"
  have a: "500 \<le> length ?i" "take 8 ?i = neg_magic" "digest_equal (take 32 (drop 468 ?i)) (neg_proof hmac ep 0x50 own ?r n ?pn ?w)"
    "accept_selection local ?r ?w = Some (chosen, peer)"
    "st_out st' = st_out st @ neg_magic @ n @ own @ neg_proof hmac ep 0x43 own ?r n ?pn ?w"
    using assms(1) by (simp_all add: negotiate_consumer_def io_iffs some_io_iff case_prod_unfold) auto
  have "take 32 (drop 468 ?i) = neg_proof hmac ep 0x50 own ?r n ?pn ?w"
    using a(1,3) neg_proof_length [OF assms(2)] by (simp add: digest_equal_iff)
  moreover have "?i = take 8 ?i @ ?pn @ ?r @ ?w @ take 32 (drop 468 ?i) @ drop 500 ?i" by (simp add: take_drop_rest)
  ultimately have "?i = neg_magic @ ?pn @ ?r @ ?w @ neg_proof hmac ep 0x50 own ?r n ?pn ?w @ drop 500 ?i" using a(2) by simp
  with a show ?thesis by (intro exI [of _ ?pn] exI [of _ ?r] exI [of _ ?w] exI [of _ "drop 500 ?i"]) simp
qed


lemma producer_sound:
  assumes "negotiate_producer hmac ep n own local proposal st = (Inr (chosen, peer), st')" "digest_size hmac"
  shows "\<exists>cn remote wire rest. length cn = 32 \<and> length remote = 268 \<and>
    st_in st = neg_magic @ cn @ remote @ neg_proof hmac ep 0x43 remote own cn n wire @ rest \<and>
    offer_decode remote = Some peer \<and> select_config local peer proposal = Some (chosen, wire) \<and>
    st_out st' = st_out st @ neg_magic @ n @ own @ wire @ neg_proof hmac ep 0x50 remote own cn n wire"
proof -
  let ?i = "st_in st"
  let ?cn = "take 32 (drop 8 ?i)" and ?r = "take 268 (drop 40 ?i)"
  from assms(1) obtain wire where a: "340 \<le> length ?i" "take 8 ?i = neg_magic" "offer_decode ?r = Some peer" "select_config local peer proposal = Some (chosen, wire)"
    "digest_equal (take 32 (drop 308 ?i)) (neg_proof hmac ep 0x43 ?r own ?cn n wire)"
    "st_out st' = st_out st @ neg_magic @ n @ own @ wire @ neg_proof hmac ep 0x50 ?r own ?cn n wire"
    by (simp add: negotiate_producer_def io_iffs some_io_iff case_prod_unfold) auto
  have "take 32 (drop 308 ?i) = neg_proof hmac ep 0x43 ?r own ?cn n wire"
    using a(1,5) neg_proof_length [OF assms(2)] by (simp add: digest_equal_iff)
  moreover have "?i = take 8 ?i @ ?cn @ ?r @ take 32 (drop 308 ?i) @ drop 340 ?i" by (simp add: take_drop_rest)
  ultimately have "?i = neg_magic @ ?cn @ ?r @ neg_proof hmac ep 0x43 ?r own ?cn n wire @ drop 340 ?i" using a(2) by simp
  with a show ?thesis by (intro exI [of _ ?cn] exI [of _ ?r] exI [of _ wire] exI [of _ "drop 340 ?i"]) simp
qed

lemma consumer_run:
  assumes "digest_size hmac" "length n = 32" "length own = 268" "length pn = 32" "length remote = 268" "length wire = 160" "340 \<le> st_room st"
    "st_in st = neg_magic @ pn @ remote @ wire @ neg_proof hmac ep 0x50 own remote n pn wire @ rest"
    "accept_selection local remote wire = Some (chosen, peer)"
  shows "negotiate_consumer hmac ep n own local st = (Inr (chosen, peer),
    st\<lparr>st_in := rest, st_out := st_out st @ neg_magic @ n @ own @ neg_proof hmac ep 0x43 own remote n pn wire, st_room := st_room st - 340\<rparr>)"
  using assms neg_proof_length [OF assms(1)]
  by (simp add: negotiate_consumer_def io_iffs some_io_iff case_prod_unfold digest_equal_iff) arith

lemma producer_run:
  assumes "digest_size hmac" "length n = 32" "length own = 268" "length cn = 32" "length remote = 268" "length wire = 160" "500 \<le> st_room st"
    "st_in st = neg_magic @ cn @ remote @ neg_proof hmac ep 0x43 remote own cn n wire @ rest"
    "offer_decode remote = Some peer" "select_config local peer proposal = Some (chosen, wire)"
  shows "negotiate_producer hmac ep n own local proposal st = (Inr (chosen, peer),
    st\<lparr>st_in := rest, st_out := st_out st @ neg_magic @ n @ own @ wire @ neg_proof hmac ep 0x50 remote own cn n wire, st_room := st_room st - 500\<rparr>)"
  using assms neg_proof_length [OF assms(1)]
  by (simp add: negotiate_producer_def io_iffs some_io_iff case_prod_unfold digest_equal_iff) arith

text \<open>What the producer selects, the consumer accepts.\<close>

lemma select_config_facts:
  assumes "select_config local peer proposal = Some (chosen, wire)"
  shows "flSessionValidateSelection (Some chosen) (Some local) (Some peer) = FL_SESSION_OK \<and> cfg_version chosen = 2 \<and>
    flSessionValidate (Some chosen) = FL_SESSION_OK \<and> wire = session_wire chosen \<and>
    (\<exists>v a. chosen = proposal\<lparr>cfg_video := v, cfg_audio := a\<rparr> \<and>
      flSessionNegotiate (Some local) (Some peer) (Some (cfg_video proposal)) (Some (cfg_audio proposal)) = (FL_SESSION_OK, Some v, Some a))"
proof -
  from assms obtain v a where n: "flSessionNegotiate (Some local) (Some peer) (Some (cfg_video proposal)) (Some (cfg_audio proposal)) = (FL_SESSION_OK, Some v, Some a)"
    and ver: "cfg_version proposal = 2"
    by (auto simp: select_config_def split: if_splits prod.splits option.splits)
  let ?c = "proposal\<lparr>cfg_video := v, cfg_audio := a\<rparr>"
  have sel: "flSessionValidateSelection (Some ?c) (Some local) (Some peer) = FL_SESSION_OK" and c: "chosen = ?c"
    and w: "encode_local ?c = (FL_SESSION_OK, Some wire)"
    using assms by (auto simp: select_config_def n ver Let_def split: if_splits prod.splits option.splits)
  then show ?thesis using n ver by (auto simp: encode_local_def flSessionEncode_def split: if_splits)
qed

lemma selection_swap: "flSessionValidateSelection c p q = FL_SESSION_OK \<longleftrightarrow> flSessionValidateSelection c q p = FL_SESSION_OK"
  by (auto simp: flSessionValidateSelection_def split: option.splits if_splits)

lemma selected_accepted:
  assumes "select_config lp peerC proposal = Some (chosen, wire)" "wf_config chosen" "same_offer lc peerC" "offer_decode op = Some peerP" "same_offer lp peerP"
  shows "accept_selection lc op wire = Some (chosen, peerP)"
proof -
  note f = select_config_facts [OF assms(1)]
  have "length wire = 160" using f assms(2) session_codec.enc_size [of chosen] by simp
  moreover have "session_decode_bytes wire = Some chosen" using f assms(2) session_codec.dec_enc [of chosen] by simp
  ultimately have "flSessionDecode (Some wire) 160 (Some zero_config) = (FL_SESSION_OK, Some chosen)"
    by (auto simp: session_decode_bytes_def split: prod.splits if_splits)
  moreover have "flSessionValidateSelection (Some chosen) (Some peerP) (Some lc) = FL_SESSION_OK"
    using f same_offer_selection [OF assms(5) same_offer_sym [OF assms(3)], of "Some chosen"] by simp
  ultimately show ?thesis using assms(4) f by (simp add: accept_selection_def)
qed


lemma select_config_same: "same_offer peer peer' \<Longrightarrow> select_config local peer proposal = select_config local peer' proposal"
proof -
  assume "same_offer peer peer'"
  moreover have "same_offer local local" by (simp add: same_offer_def)
  ultimately have n: "flSessionNegotiate (Some local) (Some peer) v a = flSessionNegotiate (Some local) (Some peer') v a"
    and v: "flSessionValidateSelection c (Some local) (Some peer) = flSessionValidateSelection c (Some local) (Some peer')" for v a c
    using same_offer_negotiate same_offer_selection by blast+
  show ?thesis unfolding select_config_def n v ..
qed

lemma accept_selection_facts:
  assumes "accept_selection local remote wire = Some (chosen, peer)" "length wire = 160"
  shows "offer_decode remote = Some peer \<and> wire = session_wire chosen \<and> wf_config chosen \<and>
    flSessionValidateSelection (Some chosen) (Some peer) (Some local) = FL_SESSION_OK"
proof -
  have a: "offer_decode remote = Some peer" "flSessionDecode (Some wire) 160 (Some zero_config) = (FL_SESSION_OK, Some chosen)"
    "flSessionValidateSelection (Some chosen) (Some peer) (Some local) = FL_SESSION_OK"
    using assms(1) by (auto simp: accept_selection_def split: option.splits prod.splits if_splits)
  from decode_bytes_of_decode [OF assms(2) a(2)] session_codec.dec_sound have "wf_config chosen \<and> session_wire chosen = wire" by auto
  with a show ?thesis by simp
qed

lemma negotiate_io_run:
  "authenticateServer hmac (nn_auth nn) ep 0x43 st = (Inr (), st1) \<Longrightarrow> nn_session nn = Inr n \<Longrightarrow>
   negotiate_io hmac nn True ep own local proposal st = negotiate_producer hmac ep n own local (the proposal) st1"
  "authenticateClient hmac (nn_auth nn) ep 0x43 st = (Inr (), st1) \<Longrightarrow> nn_session nn = Inr n \<Longrightarrow>
   negotiate_io hmac nn False ep own local proposal st = negotiate_consumer hmac ep n own local st1"
  by (simp_all add: negotiate_io_def io_bind_def random_io_def)

text \<open>A fresh coordinator takes the negotiated configuration.\<close>
lemma configure_fresh:
  assumes "flSessionValidateSelection (Some c) p q = FL_SESSION_OK" "config_tracks c = gs_required s" "\<not> gs_configured s"
  shows "\<exists>s'. fl_gst_session_configure s (Some c) p q = (FL_GST_SESSION_READY, s') \<and> gs_configured s' \<and> gs_config s' = c \<and> \<not> gs_cancelled s'"
  using assms by (simp add: fl_gst_session_configure_def)

lemma zero_session_fail [simp]: "oc_error (session_fail s st t) = Some t"
  by (simp add: session_fail_def)

definition example_caps2 :: flSessionCapabilities where
  "example_caps2 = example_caps\<lparr>cap_version := 2\<rparr>"

definition example_proposal :: flSessionConfig where
  "example_proposal = example_config\<lparr>cfg_version := 2\<rparr>"

section \<open>Properties\<close>

text \<open>
  A consumer installs only what an authenticated producer selected for this very exchange.  When the call succeeds, the stream
  first passed the authentication, then carried the producer's offer, the encoding of a configuration and a proof under the
  shared secret over both nonces, the consumer's own offer, the producer's offer and that encoding; the configuration is
  valid for both offers and is the one the coordinator holds.  When it fails, the coordinator is cancelled and the
  connection closed.
\<close>
theorem consumer_negotiation_sound:
  fixes hmac nn connected cancelled between s st key local proposal timeout
  defines "out \<equiv> fl_gst_session_negotiate_stream hmac nn connected cancelled between s st False (Some key) (Some local) proposal timeout"
    and "e \<equiv> \<lparr>ep_port = 0, ep_token = key\<rparr>"
  assumes "digest_size hmac"
  shows "if oc_error out = None
     then \<exists>st1 own n pn remote chosen peer rest. authenticateClient hmac (nn_auth nn) e 0x43 st = (Inr (), st1) \<and>
       offer_encode local = Some own \<and> nn_session nn = Inr n \<and>
       st_in st1 = neg_magic @ pn @ remote @ session_wire chosen @ neg_proof hmac e 0x50 own remote n pn (session_wire chosen) @ rest \<and>
       offer_decode remote = Some peer \<and> flSessionValidateSelection (Some chosen) (Some peer) (Some local) = FL_SESSION_OK \<and>
       gs_config (oc_session out) = chosen \<and> gs_configured (oc_session out)
     else gs_cancelled (oc_session out) \<and> oc_closed out"
proof (cases "oc_error out = None")
  case False
  then show ?thesis
    by (auto simp: out_def fl_gst_session_negotiate_stream_def session_fail_def fl_gst_session_cancel_def Let_def split: option.splits prod.splits sum.splits if_splits)
next
  case True
  let ?s1 = "fold session_exec between s"
  obtain own where own: "offer_encode local = Some own"
    using True by (auto simp: out_def fl_gst_session_negotiate_stream_def session_fail_def split: option.splits)
  obtain r st2 where n: "negotiate_io hmac nn False e own local proposal st = (r, st2)" by (cases "negotiate_io hmac nn False e own local proposal st")
  obtain chosen peer where r: "r = Inr (chosen, peer)"
    using True own n by (auto simp: out_def e_def fl_gst_session_negotiate_stream_def session_fail_def Let_def split: sum.splits if_splits)
  obtain q s2 where c: "fl_gst_session_configure ?s1 (Some chosen) (Some peer) (Some local) = (q, s2)"
    by (cases "fl_gst_session_configure ?s1 (Some chosen) (Some peer) (Some local)")
  have q: "q = FL_GST_SESSION_READY" "oc_session out = s2"
    using True own n r c by (auto simp: out_def e_def fl_gst_session_negotiate_stream_def session_fail_def Let_def split: if_splits)
  then have s2: "gs_config s2 = chosen" "gs_configured s2" using configure_cases [of ?s1 "Some chosen" "Some peer" "Some local"] c by auto
  from n r obtain st1 nonce where a: "authenticateClient hmac (nn_auth nn) e 0x43 st = (Inr (), st1)" "nn_session nn = Inr nonce"
    "negotiate_consumer hmac e nonce own local st1 = (Inr (chosen, peer), st2)"
    by (auto simp: negotiate_io_def io_iffs)
  from consumer_sound [OF a(3) assms(3)] obtain pn remote wire rest where w: "length wire = 160"
    "st_in st1 = neg_magic @ pn @ remote @ wire @ neg_proof hmac e 0x50 own remote nonce pn wire @ rest" "accept_selection local remote wire = Some (chosen, peer)"
    by blast
  note f = accept_selection_facts [OF w(3,1)]
  show ?thesis using True own a(1,2) w(2) f s2 q(2) by (simp only: if_True simp_thms) blast
qed


theorem consumer_negotiation_sound_witness:
  "gs_cancelled (oc_session (fl_gst_session_negotiate_stream example_hmac \<lparr>nn_auth = Inr [], nn_session = Inr []\<rparr> True False [] example_session
     \<lparr>st_in = [], st_out = [], st_room = 0\<rparr> False (Some []) (Some example_caps2) None 100))"
proof -
  let ?o = "fl_gst_session_negotiate_stream example_hmac \<lparr>nn_auth = Inr [], nn_session = Inr []\<rparr> True False [] example_session
     \<lparr>st_in = [], st_out = [], st_room = 0\<rparr> False (Some []) (Some example_caps2) None 100"
  have "oc_error ?o \<noteq> None" by (simp add: fl_gst_session_negotiate_stream_def split: option.splits)
  then show ?thesis
    using consumer_negotiation_sound [OF example_hmac_size, of "\<lparr>nn_auth = Inr [], nn_session = Inr []\<rparr>" True False "[]" example_session
      "\<lparr>st_in = [], st_out = [], st_room = 0\<rparr>" "[]" example_caps2 None 100] by (simp split: if_splits)
qed




end
