(* ===== verification/FL_Rendezvous.thy ===== *)
theory FL_Rendezvous
  imports FL_Auth
begin

text \<open>
  The private rendezvous of a session on POSIX systems: \<^verbatim>\<open>runtime/av_rendezvous.cpp\<close> without its Windows branches.  A producer
  publishes the port and the secret of its listener as a 38-byte record in a directory that only its user can
  enter; a consumer finds it there.  The directory is a map from names to files; the answers of the kernel that are
  not determined by it (random bytes, sizes of single writes, failing system calls) are arguments.
\<close>

section \<open>Data\<close>

abbreviation RV_WIRE_SIZE :: nat where "RV_WIRE_SIZE \<equiv> 38"

datatype FileKind = FkRegular | FkDirectory | FkSymlink | FkOther

text \<open>What \<^verbatim>\<open>fstat\<close> reports of a file, its content, and whether another process holds the \<^verbatim>\<open>flock\<close> on it.\<close>
record Inode =
  in_uid :: u32
  in_mode :: u32
  in_kind :: FileKind
  in_nlink :: nat
  in_data :: "u8 list"
  in_locked :: bool

record RvDir =
  rd_self :: "Inode option"
  rd_entries :: "string \<rightharpoonup> Inode"

text \<open>
  The kernel during one call: the effective user, which system calls fail although the files would allow them, and the results of
  the successive \<^verbatim>\<open>write\<close>s, where a negative number is an interrupted call.
\<close>
record RvEnv =
  rv_euid :: u32
  rv_fault :: "string \<Rightarrow> bool"
  rv_random :: "string + u8 list"
  rv_writes :: "int list"

text \<open>The state of a \<^verbatim>\<open>RendezvousOwner\<close>: the endpoint it published, if it owns one.\<close>
record RvOwner =
  ro_impl :: "Endpoint option"

section \<open>The record\<close>

definition FAR1 :: "u8 list" where
  "FAR1 = [0x46, 0x41, 0x52, 0x31]"

definition rv_encode :: "Endpoint \<Rightarrow> u8 list" where
  "rv_encode e = FAR1 @ [ucast (ep_port e AND 255), ucast (drop_bit 8 (ep_port e))] @ ep_token e"

definition rv_decode :: "u8 list \<Rightarrow> string + Endpoint" where
  "rv_decode b =
     (if length b \<noteq> RV_WIRE_SIZE \<or> take 4 b \<noteq> FAR1 then Inl ''invalid rendezvous record''
      else
        let tmp = \<lparr>ep_port = ucast (b ! 4) OR push_bit 8 (ucast (b ! 5)), ep_token = take 32 (drop 6 b)\<rparr>
        in if ep_port tmp = 0 \<or> list_all (\<lambda>c. c = 0) (ep_token tmp) then Inl ''invalid rendezvous endpoint'' else Inr tmp)"

definition hex_digit :: "u8 \<Rightarrow> char" where
  "hex_digit v = ''0123456789abcdef'' ! unat v"

definition tempName :: "string + u8 list \<Rightarrow> string + string" where
  "tempName rnd = map_sum id (\<lambda>random. ''.publish-'' @ concat (map (\<lambda>c. [hex_digit (drop_bit 4 c), hex_digit (c AND 15)]) random)) rnd"

section \<open>Files\<close>

definition rv_check :: "RvEnv \<Rightarrow> Inode \<Rightarrow> bool \<Rightarrow> bool" where
  "rv_check env i directory \<longleftrightarrow>
     \<not> rv_fault env ''fstat'' \<and> in_uid i = rv_euid env \<and> in_mode i AND 0x3F = 0 \<and>
     (if directory then in_kind i = FkDirectory else in_kind i = FkRegular \<and> in_nlink i = 1)"

definition rv_private_error :: string where
  "rv_private_error = ''rendezvous requires private owner-only nonlinked files''"

text \<open>\<^verbatim>\<open>openDir\<close>; a name of more than one character loses its trailing slashes, so that the final component is the directory itself.\<close>
definition openDir :: "RvEnv \<Rightarrow> string \<Rightarrow> bool \<Rightarrow> RvDir \<Rightarrow> string option \<times> RvDir" where
  "openDir env path create d =
     (if path = [] \<or> CHR 0x00 \<in> set path then (Some ''invalid directory path'', d)
      else if create \<and> rd_self d = None \<and> rv_fault env ''mkdir'' then (Some ''cannot create private directory'', d)
      else
        let d1 = (if create \<and> rd_self d = None
                  then d\<lparr>rd_self := Some \<lparr>in_uid = rv_euid env, in_mode = 0x1C0, in_kind = FkDirectory, in_nlink = 2, in_data = [], in_locked = False\<rparr>\<rparr>
                  else d)
        in case rd_self d1 of
             None \<Rightarrow> (Some ''cannot open private directory'', d1)
           | Some i \<Rightarrow>
               if rv_fault env ''open'' \<or> in_kind i \<noteq> FkDirectory then (Some ''cannot open private directory'', d1)
               else if \<not> rv_check env i True then (Some rv_private_error, d1)
               else (None, d1))"

definition new_file :: "RvEnv \<Rightarrow> Inode" where
  "new_file env = \<lparr>in_uid = rv_euid env, in_mode = 0x180, in_kind = FkRegular, in_nlink = 1, in_data = [], in_locked = False\<rparr>"

text \<open>The loop that writes the record: the bytes written when it ends, and whether it wrote all of them.\<close>
fun write_loop :: "int list \<Rightarrow> u8 list \<Rightarrow> u8 list \<Rightarrow> bool \<times> u8 list" where
  "write_loop answers done [] = (True, done)"
| "write_loop [] done rest = (False, done)"
| "write_loop (n # ns) done rest =
     (if n < 0 then write_loop ns done rest
      else if n = 0 then (False, done)
      else write_loop ns (done @ take (nat n) rest) (drop (nat n) rest))"

section \<open>Operations\<close>

definition publish_record :: "RvEnv \<Rightarrow> string \<Rightarrow> u8 list \<Rightarrow> RvDir \<Rightarrow> string option \<times> RvDir" where
  "publish_record env temp bytes d =
     (if rv_fault env ''create'' \<or> rd_entries d temp \<noteq> None then (Some ''cannot create rendezvous record'', d)
      else
        let (complete, content) = write_loop (rv_writes env) [] bytes
        in if \<not> complete then (Some ''cannot write rendezvous record'', d)
           else if rv_fault env ''fsync'' \<or> rv_fault env ''rename'' \<or> map_option in_kind (rd_entries d ''endpoint'') = Some FkDirectory then (Some ''cannot publish rendezvous record'', d)
           else (None, d\<lparr>rd_entries := (rd_entries d)(temp := None, ''endpoint'' \<mapsto> (new_file env)\<lparr>in_data := content\<rparr>)\<rparr>))"

text \<open>Opening the lock file creates it when it is missing.\<close>
definition rv_lock_entry :: "RvEnv \<Rightarrow> RvDir \<Rightarrow> RvDir" where
  "rv_lock_entry env d =
     (case rd_entries d ''.owner.lock'' of
        Some i \<Rightarrow> d
      | None \<Rightarrow> if rv_fault env ''openlock'' then d else d\<lparr>rd_entries := (rd_entries d)(''.owner.lock'' \<mapsto> new_file env)\<rparr>)"

text \<open>The owner lock stays held when \<^verbatim>\<open>publish\<close> succeeds; on every failure its descriptor is closed again.\<close>
definition rv_publish :: "RvEnv \<Rightarrow> string \<Rightarrow> Endpoint \<Rightarrow> RvOwner \<Rightarrow> RvDir \<Rightarrow> string option \<times> RvOwner \<times> RvDir" where
  "rv_publish env directory endpoint owner d =
     (if ro_impl owner \<noteq> None then (Some ''rendezvous already published'', owner, d)
      else
        let bytes = rv_encode endpoint
        in case rv_decode bytes of
             Inl error \<Rightarrow> (Some error, owner, d)
           | Inr _ \<Rightarrow>
               (case tempName (rv_random env) of
                  Inl error \<Rightarrow> (Some error, owner, d)
                | Inr temp \<Rightarrow>
                    (case openDir env directory True d of
                       (Some error, d1) \<Rightarrow> (Some error, owner, d1)
                     | (None, d1) \<Rightarrow>
                         let d2 = rv_lock_entry env d1
                         in case rd_entries d2 ''.owner.lock'' of
                              None \<Rightarrow> (Some ''unsafe or unavailable owner lock'', owner, d2)
                            | Some lock \<Rightarrow>
                                if rv_fault env ''openlock'' \<or> \<not> rv_check env lock False then (Some ''unsafe or unavailable owner lock'', owner, d2)
                                else if in_locked lock \<or> rv_fault env ''flock'' then (Some ''rendezvous owner already active'', owner, d2)
                                else (case publish_record env temp bytes d2 of
                                        (Some error, d3) \<Rightarrow> (Some error, owner, d3)
                                      | (None, d3) \<Rightarrow> (None, owner\<lparr>ro_impl := Some endpoint\<rparr>,
                                          d3\<lparr>rd_entries := (rd_entries d3)(''.owner.lock'' \<mapsto> lock\<lparr>in_locked := True\<rparr>)\<rparr>)))))"

text \<open>The content a reader gets: at most 39 bytes.\<close>
definition rv_read :: "Inode \<Rightarrow> u8 list" where
  "rv_read i = take (RV_WIRE_SIZE + 1) (in_data i)"

definition rv_close :: "RvEnv \<Rightarrow> RvOwner \<Rightarrow> RvDir \<Rightarrow> RvOwner \<times> RvDir" where
  "rv_close env owner d =
     (case ro_impl owner of
        None \<Rightarrow> (owner, d)
      | Some endpoint \<Rightarrow>
          let d1 = (case rd_entries d ''endpoint'' of
                      None \<Rightarrow> d
                    | Some i \<Rightarrow>
                        if \<not> rv_fault env ''openrecord'' \<and> in_kind i \<noteq> FkSymlink \<and> rv_check env i False \<and> \<not> rv_fault env ''read'' \<and> rv_read i = rv_encode endpoint \<and>
                          \<not> rv_fault env ''unlink''
                        then d\<lparr>rd_entries := (rd_entries d)(''endpoint'' := None)\<rparr> else d);
              d2 = (case rd_entries d1 ''.owner.lock'' of
                      None \<Rightarrow> d1
                    | Some lock \<Rightarrow> d1\<lparr>rd_entries := (rd_entries d1)(''.owner.lock'' \<mapsto> lock\<lparr>in_locked := False\<rparr>)\<rparr>)
          in (owner\<lparr>ro_impl := None\<rparr>, d2))"

definition rv_readEndpoint :: "RvEnv \<Rightarrow> string \<Rightarrow> RvDir \<Rightarrow> string + Endpoint" where
  "rv_readEndpoint env directory d =
     (case openDir env directory False d of
        (Some error, _) \<Rightarrow> Inl error
      | (None, d1) \<Rightarrow>
          (case rd_entries d1 ''endpoint'' of
             None \<Rightarrow> Inl ''rendezvous record unavailable''
           | Some i \<Rightarrow>
               if rv_fault env ''openrecord'' \<or> in_kind i = FkSymlink then Inl ''rendezvous record unavailable''
               else if \<not> rv_check env i False then Inl rv_private_error
               else if rv_fault env ''read'' then Inl ''cannot read rendezvous record''
               else rv_decode (rv_read i)))"


section \<open>Lemmas\<close>

definition rv_valid :: "Endpoint \<Rightarrow> bool" where
  "rv_valid e \<longleftrightarrow> length (ep_token e) = 32 \<and> ep_port e \<noteq> 0 \<and> \<not> list_all (\<lambda>c. c = 0) (ep_token e)"

definition rv_dec :: "u8 list \<Rightarrow> Endpoint option" where
  "rv_dec b = (case rv_decode b of Inl _ \<Rightarrow> None | Inr e \<Rightarrow> Some e)"

lemma port_bytes: "(ucast (ucast (p AND 255 :: u16) :: u8) :: u16) OR push_bit 8 (ucast (ucast (drop_bit 8 p) :: u8)) = p"
proof (rule bit_word_eqI)
  fix n assume "n < LENGTH(16)"
  moreover have "bit (255 :: u16) n \<longleftrightarrow> n < 8" using bit_mask_iff [of 8 n, where ?'a = "16 word"] calculation by (simp add: mask_eq_exp_minus_1)
  ultimately show "bit ((ucast (ucast (p AND 255) :: u8) :: u16) OR push_bit 8 (ucast (ucast (drop_bit 8 p) :: u8))) n = bit p n"
    by (auto simp: bit_simps)
qed

lemma bytes_port:
  fixes a b :: u8
  defines "p \<equiv> (ucast a :: u16) OR push_bit 8 (ucast b)"
  shows "(ucast (p AND 255) :: u8) = a" "(ucast (drop_bit 8 p) :: u8) = b"
proof -
  have m: "bit (255 :: u16) n \<longleftrightarrow> n < 8" for n using bit_mask_iff [of 8 n, where ?'a = "16 word"] by (auto simp: mask_eq_exp_minus_1 dest: bit_imp_le_length)
  moreover have "bit (255 :: u8) n \<longleftrightarrow> n < 8" for n using bit_mask_iff [of 8 n, where ?'a = "8 word"] by (auto simp: mask_eq_exp_minus_1)
  ultimately show "(ucast (p AND 255) :: u8) = a" by (intro bit_word_eqI) (auto simp: p_def bit_simps)
  show "(ucast (drop_bit 8 p) :: u8) = b" by (rule bit_word_eqI) (auto simp: p_def bit_simps dest: bit_imp_le_length)
qed

lemma FAR1_length [simp]: "length FAR1 = 4"
  by (simp add: FAR1_def)

lemma rv_decode_encode: "rv_valid e \<Longrightarrow> rv_decode (rv_encode e) = Inr e"
  by (cases e) (simp add: rv_decode_def rv_encode_def rv_valid_def nth_append port_bytes Let_def)

lemma rv_decode_sound:
  assumes "rv_decode b = Inr e"
  shows "rv_valid e \<and> rv_encode e = b"
proof -
  have a: "length b = 38" "take 4 b = FAR1" "e = \<lparr>ep_port = ucast (b ! 4) OR push_bit 8 (ucast (b ! 5)), ep_token = take 32 (drop 6 b)\<rparr>"
    "ep_port e \<noteq> 0" "\<not> list_all (\<lambda>c. c = 0) (ep_token e)"
    using assms by (auto simp: rv_decode_def Let_def split: if_splits)
  have "take 2 (drop 4 b) = [b ! 4, b ! 5]" using a(1) by (intro nth_equalityI) (auto simp: less_2_cases_iff)
  then have "b = take 4 b @ [b ! 4, b ! 5] @ take 32 (drop 6 b)" using a(1) take_drop_rest(1) [where b = 6 and a = 4 and n = 2 and p = b] by simp
  moreover have "[ucast (ep_port e AND 255), ucast (drop_bit 8 (ep_port e))] = [b ! 4, b ! 5]"
    using bytes_port [of "b ! 4" "b ! 5"] unfolding a(3) by simp
  ultimately have "rv_encode e = b" using a(2,3) by (simp add: rv_encode_def)
  then show ?thesis using a(1,3-5) by (simp add: rv_valid_def)
qed

interpretation rv_codec: wire_codec rv_valid rv_encode rv_dec RV_WIRE_SIZE
proof unfold_locales
  show "length (rv_encode e) = RV_WIRE_SIZE" if "rv_valid e" for e using that by (simp add: rv_encode_def rv_valid_def)
  show "rv_dec (rv_encode e) = Some e" if "rv_valid e" for e using that by (simp add: rv_dec_def rv_decode_encode)
  show "rv_valid e \<and> rv_encode e = b" if "rv_dec b = Some e" for b e using that rv_decode_sound by (auto simp: rv_dec_def split: sum.splits)
qed

lemma write_loop_complete: "write_loop ns done rest = (True, content) \<Longrightarrow> content = done @ rest"
  by (induction ns "done" rest rule: write_loop.induct) (auto split: if_splits)

text \<open>What a successful publication has done.\<close>
lemma publish_record_ok:
  assumes "publish_record env temp bytes d = (None, d')"
  shows "d' = d\<lparr>rd_entries := (rd_entries d)(temp := None, ''endpoint'' \<mapsto> (new_file env)\<lparr>in_data := bytes\<rparr>)\<rparr>"
  using assms write_loop_complete [of "rv_writes env" "[]" bytes]
  by (auto simp: publish_record_def split: if_splits prod.splits)

lemma publish_record_failed: "publish_record env temp bytes d = (Some err, d') \<Longrightarrow> d' = d"
  by (auto simp: publish_record_def split: if_splits prod.splits)

lemma tempName_prefix: "tempName rnd = Inr temp \<Longrightarrow> \<exists>s. temp = ''.publish-'' @ s"
  by (cases rnd) (auto simp: tempName_def)

lemma tempName_fresh: "tempName rnd = Inr temp \<Longrightarrow> temp \<noteq> ''endpoint'' \<and> temp \<noteq> ''.owner.lock''"
  using tempName_prefix by fastforce

lemma openDir_entries: "openDir env path create d = (r, d') \<Longrightarrow> rd_entries d' = rd_entries d"
  by (auto simp: openDir_def Let_def split: if_splits option.splits)

lemma openDir_ok: "openDir env path create d = (None, d') \<Longrightarrow> path \<noteq> [] \<and> CHR 0x00 \<notin> set path \<and>
   (\<exists>i. rd_self d' = Some i \<and> rv_check env i True)"
  by (auto simp: openDir_def Let_def split: if_splits option.splits)


lemma rv_lock_entry_other [simp]: "rd_entries (rv_lock_entry env d) ''endpoint'' = rd_entries d ''endpoint''" "rd_self (rv_lock_entry env d) = rd_self d"
  by (auto simp: rv_lock_entry_def split: option.splits)

lemma publish_cases:
  assumes "rv_publish env path e owner d = (r, owner', d')"
  obtains (failed) err where "r = Some err" "owner' = owner" "rd_entries d' ''endpoint'' = rd_entries d ''endpoint''"
  | (published) d1 lock where "r = None" "owner' = owner\<lparr>ro_impl := Some e\<rparr>" "ro_impl owner = None" "openDir env path True d = (None, d1)"
      "rd_entries (rv_lock_entry env d1) ''.owner.lock'' = Some lock" "rv_check env lock False" "\<not> in_locked lock" "rd_self d' = rd_self d1"
      "rd_entries d' ''endpoint'' = Some ((new_file env)\<lparr>in_data := rv_encode e\<rparr>)"
      "rd_entries d' ''.owner.lock'' = Some (lock\<lparr>in_locked := True\<rparr>)" "\<exists>e'. rv_decode (rv_encode e) = Inr e'"
proof (cases "ro_impl owner \<noteq> None \<or> (\<exists>x. rv_decode (rv_encode e) = Inl x) \<or> (\<exists>x. tempName (rv_random env) = Inl x)")
  case True
  then show ?thesis using assms by (intro failed [of "the r"]) (auto simp: rv_publish_def Let_def split: if_splits sum.splits)
next
  case False
  then obtain e' temp where t: "rv_decode (rv_encode e) = Inr e'" "tempName (rv_random env) = Inr temp" "ro_impl owner = None"
    by (metis old.sum.exhaust)
  obtain r1 d1 where o: "openDir env path True d = (r1, d1)" by (cases "openDir env path True d")
  have en: "rd_entries d1 = rd_entries d" using openDir_entries [OF o] .
  let ?d2 = "rv_lock_entry env d1"
  show ?thesis
  proof (cases "r1 = None \<and> \<not> rv_fault env ''openlock'' \<and> (\<exists>lock. rd_entries ?d2 ''.owner.lock'' = Some lock \<and> rv_check env lock False \<and> \<not> in_locked lock \<and> \<not> rv_fault env ''flock'')")
    case False
    then have "r \<noteq> None \<and> owner' = owner \<and> (d' = d1 \<or> d' = ?d2)"
      using assms t o by (auto simp: rv_publish_def Let_def split: if_splits option.splits)
    then show ?thesis using en by (intro failed [of "the r"]) auto
  next
    case True
    then obtain lock where lock: "rd_entries ?d2 ''.owner.lock'' = Some lock" "rv_check env lock False" "\<not> in_locked lock" "\<not> rv_fault env ''flock''"
      "r1 = None" "\<not> rv_fault env ''openlock''" by blast
    have p: "rv_publish env path e owner d = (case publish_record env temp (rv_encode e) ?d2 of (Some error, d3) \<Rightarrow> (Some error, owner, d3)
        | (None, d3) \<Rightarrow> (None, owner\<lparr>ro_impl := Some e\<rparr>, d3\<lparr>rd_entries := (rd_entries d3)(''.owner.lock'' \<mapsto> lock\<lparr>in_locked := True\<rparr>)\<rparr>))"
      using t o lock by (simp add: rv_publish_def Let_def)
    show ?thesis
    proof (cases "publish_record env temp (rv_encode e) ?d2")
      case (Pair a d3)
      show ?thesis
      proof (cases a)
        case (Some err)
        then have "d3 = ?d2" using publish_record_failed Pair by blast
        then show ?thesis using assms p Pair Some en by (intro failed [of err]) auto
      next
        case None
        then have "d3 = ?d2\<lparr>rd_entries := (rd_entries ?d2)(temp := None, ''endpoint'' \<mapsto> (new_file env)\<lparr>in_data := rv_encode e\<rparr>)\<rparr>"
          using publish_record_ok Pair by blast
        then show ?thesis using assms p Pair None lock t o by (intro published [of d1 lock]) auto
      qed
    qed
  qed
qed


lemma rv_encode_token: "length (ep_token e) = 32 \<Longrightarrow> rv_decode (rv_encode e) = Inr e' \<Longrightarrow> rv_valid e"
proof -
  assume a: "length (ep_token e) = 32" "rv_decode (rv_encode e) = Inr e'"
  have "rv_decode (rv_encode e) = (if ep_port e = 0 \<or> list_all (\<lambda>c. c = 0) (ep_token e) then Inl ''invalid rendezvous endpoint'' else Inr e)"
    using a(1) by (cases e) (simp add: rv_decode_def rv_encode_def nth_append port_bytes Let_def)
  then show ?thesis using a by (auto simp: rv_valid_def split: if_splits)
qed

lemma openDir_self:
  assumes "openDir env path False d = (None, d)" "rd_self d2 = rd_self d"
  shows "openDir env path False d2 = (None, d2)"
  using assms by (auto simp: openDir_def split: if_splits option.splits)

section \<open>Properties\<close>

text \<open>A kernel that refuses nothing.\<close>
definition rv_calm :: "RvEnv \<Rightarrow> bool" where
  "rv_calm env \<longleftrightarrow> (\<forall>c. \<not> rv_fault env c)"

definition example_rv_env :: RvEnv where
  "example_rv_env = \<lparr>rv_euid = 1000, rv_fault = (\<lambda>_. False), rv_random = Inr (replicate 16 0xAB), rv_writes = [- 1, 20, 18]\<rparr>"

definition example_endpoint :: Endpoint where
  "example_endpoint = \<lparr>ep_port = 4711, ep_token = replicate 32 5\<rparr>"

definition example_dir :: RvDir where
  "example_dir = \<lparr>rd_self = None, rd_entries = Map.empty\<rparr>"

text \<open>
  A published endpoint is found, by its own user only, and it has one owner.  After a successful publication a reader of the same
  user gets exactly that endpoint, although the record was written in pieces; every other publication is
  refused and leaves the record alone until the owner closes; after the owner has closed, the record is gone; and a reader of any other user
  is refused.
\<close>
theorem rendezvous_roundtrip:
  assumes "rv_publish env path e owner d = (None, owner', d')" "length (ep_token e) = 32" "rv_calm env'" "rv_euid env' = rv_euid env"
  shows "rv_readEndpoint env' path d' = Inr e \<and>
    (\<exists>err o2 d2. rv_publish env2 path2 e2 owner2 d' = (Some err, o2, d2) \<and> rd_entries d2 ''endpoint'' = rd_entries d' ''endpoint'') \<and>
    rv_readEndpoint env' path (snd (rv_close env' owner' d')) = Inl ''rendezvous record unavailable'' \<and>
    (rv_euid env2 \<noteq> rv_euid env \<longrightarrow> (\<exists>err. rv_readEndpoint env2 path d' = Inl err))"
  using assms(1)
proof (cases rule: publish_cases)
  case (published d1 lock)
  let ?i = "(new_file env)\<lparr>in_data := rv_encode e\<rparr>"
  have v: "rv_valid e" using published(11) rv_encode_token [OF assms(2)] by blast
  have open': "openDir env' path False d' = (None, d')"
    using openDir_ok [OF published(4)] published(8) assms(3,4) by (auto simp: openDir_def rv_calm_def rv_check_def)
  have c: "rv_check env' ?i False" using assms(3,4) by (simp add: rv_check_def new_file_def rv_calm_def)
  have size: "length (rv_encode e) = 38" using v rv_codec.enc_size by simp
  then have rd: "rv_read ?i = rv_encode e" by (simp add: rv_read_def)
  have k: "in_kind ?i \<noteq> FkSymlink" by (simp add: new_file_def)
  have found: "rv_readEndpoint env' path d' = Inr e"
    using open' published(9) c rd assms(3) k by (simp add: rv_readEndpoint_def rv_calm_def rv_decode_encode [OF v])
  have busy: "\<exists>err o2 d2. rv_publish env2 path2 e2 owner2 d' = (Some err, o2, d2) \<and> rd_entries d2 ''endpoint'' = rd_entries d' ''endpoint''"
  proof -
    obtain r o2 d2 where p: "rv_publish env2 path2 e2 owner2 d' = (r, o2, d2)" by (cases "rv_publish env2 path2 e2 owner2 d'")
    then show ?thesis
    proof (cases rule: publish_cases)
      case (published d3 lock2)
      then have "rd_entries d3 ''.owner.lock'' = Some (lock\<lparr>in_locked := True\<rparr>)"
        using openDir_entries [OF published(4)] \<open>rd_entries d' ''.owner.lock'' = Some (lock\<lparr>in_locked := True\<rparr>)\<close> by simp
      then have False using published(5,7) by (auto simp: rv_lock_entry_def)
      then show ?thesis ..
    qed (use p in blast)
  qed
  let ?d2 = "snd (rv_close env' owner' d')"
  have "rd_entries ?d2 ''endpoint'' = None" "rd_self ?d2 = rd_self d'"
    using published c rd assms(3) k by (simp_all add: rv_close_def rv_calm_def Let_def)
  then have gone: "rv_readEndpoint env' path ?d2 = Inl ''rendezvous record unavailable''"
    using openDir_self [OF open', of ?d2] by (simp add: rv_readEndpoint_def)
  have "\<not> rv_check env2 ?i False" if "rv_euid env2 \<noteq> rv_euid env" using that by (simp add: rv_check_def new_file_def)
  then have "\<exists>err. rv_readEndpoint env2 path d' = Inl err" if "rv_euid env2 \<noteq> rv_euid env"
    using that published(9) openDir_entries by (fastforce simp: rv_readEndpoint_def split: prod.splits option.splits)
  with found busy gone show ?thesis by simp
qed simp


theorem rendezvous_roundtrip_witness:
  "\<exists>owner' d'. rv_publish example_rv_env ''/run/fl'' example_endpoint \<lparr>ro_impl = None\<rparr> example_dir = (None, owner', d') \<and>
     rv_readEndpoint example_rv_env ''/run/fl'' d' = Inr example_endpoint"
proof -
  have "fst (rv_publish example_rv_env ''/run/fl'' example_endpoint \<lparr>ro_impl = None\<rparr> example_dir) = None" by code_simp
  then obtain owner' d' where p: "rv_publish example_rv_env ''/run/fl'' example_endpoint \<lparr>ro_impl = None\<rparr> example_dir = (None, owner', d')"
    by (metis prod.collapse)
  moreover have "length (ep_token example_endpoint) = 32" "rv_calm example_rv_env"
    by (simp_all add: example_endpoint_def rv_calm_def example_rv_env_def)
  ultimately show ?thesis using rendezvous_roundtrip [OF p, of example_rv_env] by blast
qed

text \<open>
  C34. Records are replaced whole and removed only by their owner.  A reader accepts exactly the 38-byte encodings of endpoints with a port
  and a nonzero secret.  Whatever fails during a publication, with whatever sizes the kernel writes, the record that
  readers see is the previous one or the complete new one; and closing removes the record only if its content is
  that of the closing owner's endpoint.
\<close>
theorem rendezvous_record_atomic:
  "(rv_decode b = Inr x \<longleftrightarrow> rv_valid x \<and> b = rv_encode x) \<and>
   (rv_publish env path e owner d = (r, owner', d') \<longrightarrow>
     rd_entries d' ''endpoint'' = (if r = None then Some ((new_file env)\<lparr>in_data := rv_encode e\<rparr>) else rd_entries d ''endpoint'')) \<and>
   (rd_entries (snd (rv_close env owner d)) ''endpoint'' \<noteq> rd_entries d ''endpoint'' \<longrightarrow>
     (\<exists>own i. ro_impl owner = Some own \<and> rd_entries d ''endpoint'' = Some i \<and> rv_read i = rv_encode own))"
proof (intro conjI impI)
  show "rv_decode b = Inr x \<longleftrightarrow> rv_valid x \<and> b = rv_encode x" using rv_decode_sound rv_decode_encode by blast
  assume "rv_publish env path e owner d = (r, owner', d')"
  then show "rd_entries d' ''endpoint'' = (if r = None then Some ((new_file env)\<lparr>in_data := rv_encode e\<rparr>) else rd_entries d ''endpoint'')"
    by (cases rule: publish_cases) auto
next
  assume "rd_entries (snd (rv_close env owner d)) ''endpoint'' \<noteq> rd_entries d ''endpoint''"
  then show "\<exists>own i. ro_impl owner = Some own \<and> rd_entries d ''endpoint'' = Some i \<and> rv_read i = rv_encode own"
    by (auto simp: rv_close_def Let_def split: option.splits if_splits)
qed

theorem rendezvous_record_atomic_witness:
  "rv_decode (rv_encode example_endpoint) = Inr example_endpoint"
proof -
  have "rv_valid example_endpoint" by code_simp
  then show ?thesis using rendezvous_record_atomic [of "rv_encode example_endpoint" example_endpoint] by blast
qed

end
