(* ===== verification/FL_LocalSession.thy ===== *)
theory FL_LocalSession
  imports FL_Transport FL_Rendezvous
begin

text \<open>
  Complete session setup between two processes of one user: the rest of \<^verbatim>\<open>gst/framelink_session_transport.cpp\<close>.  Binding of the
  audio and event streams to the negotiated configuration, the authenticated clock exchange, the video channel lease, the
  ready and drain handshakes and the pipeline clock.  Connections, random bytes, clock readings and the results of the
  channel calls are arguments; a stream that a deadline cuts off is one that stops delivering.
\<close>

section \<open>Binding further streams\<close>

text \<open>A C string with its terminating zero.\<close>
definition label_bytes :: "string \<Rightarrow> u8 list" where
  "label_bytes s = map of_char s @ [0]"

definition derived_token :: "(u8 list \<Rightarrow> u8 list \<Rightarrow> u8 list) \<Rightarrow> u8 list \<Rightarrow> string \<Rightarrow> u8 list \<Rightarrow> u8 list" where
  "derived_token hmac key label wire = hmac key (label_bytes label @ wire)"

text \<open>What differs between the two stream kinds.\<close>
record StreamKind =
  sk_name :: string
  sk_label :: string
  sk_role :: u8
  sk_track :: "flSessionConfig \<Rightarrow> u32"
  sk_publish :: "FlGstSession \<Rightarrow> flSessionConfig option \<Rightarrow> nat option \<Rightarrow> bool \<Rightarrow> bool \<times> FlGstSession"

definition audio_kind :: StreamKind where
  "audio_kind = \<lparr>sk_name = ''audio'', sk_label = ''FrameLink public audio session v2'', sk_role = 0x41, sk_track = cfg_audioTrackId,
     sk_publish = fl_gst_session_publish_audio\<rparr>"

definition event_kind :: StreamKind where
  "event_kind = \<lparr>sk_name = ''event'', sk_label = ''FrameLink public event session v2'', sk_role = 0x45, sk_track = cfg_videoTrackId,
     sk_publish = fl_gst_session_publish_events\<rparr>"

text \<open>The tail of the function: the configuration must still be the one the stream was authenticated for.\<close>
definition publish_stream :: "StreamKind \<Rightarrow> bool \<Rightarrow> flSessionConfig \<Rightarrow> nat \<Rightarrow> bool \<Rightarrow> FlGstSession \<Rightarrow> Stream \<Rightarrow> Outcome" where
  "publish_stream k cancelled cfg stream producer s st =
     (if cancelled then session_fail s st (sk_name k @ '' session changed during authentication'')
      else case fl_gst_session_get_config s (Some zero_config) of
        (r, s1, current) \<Rightarrow>
          if r \<noteq> FL_GST_SESSION_READY \<or> fst (encode_local (the current)) \<noteq> FL_SESSION_OK \<or>
            snd (encode_local (the current)) \<noteq> snd (encode_local cfg)
          then session_fail s1 st (sk_name k @ '' session changed during authentication'')
          else case sk_publish k s1 (Some cfg) (Some stream) producer of
            (ok, s2) \<Rightarrow>
              if \<not> ok then session_fail s2 st (sk_name k @ '' stream publication rejected'')
              else \<lparr>oc_error = None, oc_session = s2, oc_stream = st, oc_closed = False\<rparr>)"

definition authenticate_stream ::
  "StreamKind \<Rightarrow> (u8 list \<Rightarrow> u8 list \<Rightarrow> u8 list) \<Rightarrow> string + u8 list \<Rightarrow> bool \<Rightarrow> bool \<Rightarrow> session_call list \<Rightarrow> FlGstSession \<Rightarrow> nat \<Rightarrow> Stream \<Rightarrow> bool \<Rightarrow>
   u8 list option \<Rightarrow> u32 \<Rightarrow> Outcome" where
  "authenticate_stream k hmac rnd connected cancelled between s stream st producer secret timeout =
     (if secret = None \<or> length (the secret) \<noteq> 32 \<or> timeout = 0 \<or> timeout > 60000 then session_fail s st (''invalid '' @ sk_name k @ '' session binding'')
      else case fl_gst_session_get_config s (Some zero_config) of
        (r, s1, out) \<Rightarrow>
          let cfg = the out; key = the secret
          in if r \<noteq> FL_GST_SESSION_READY \<or> sk_track k cfg = 0 \<or> cfg_version cfg \<noteq> FL_SESSION_OPTIONAL_TRACKS_VERSION \<or>
               fst (encode_local cfg) \<noteq> FL_SESSION_OK
             then session_fail s1 st (''invalid '' @ sk_name k @ '' session binding'')
             else if \<not> connected then session_fail s1 st (''connected '' @ sk_name k @ '' STREAM socket required'')
             else if zero_token key then session_fail s1 st (''invalid '' @ sk_name k @ '' session credential'')
             else
               let ep = \<lparr>ep_port = 0, ep_token = derived_token hmac key (sk_label k) (the (snd (encode_local cfg)))\<rparr>;
                   s2 = fold session_exec between s1
               in case (if producer then authenticateServer hmac rnd ep (sk_role k) else authenticateClient hmac rnd ep (sk_role k)) st of
                    (Inl text, st1) \<Rightarrow> session_fail s2 st1 text
                  | (Inr _, st1) \<Rightarrow> publish_stream k cancelled cfg stream producer s2 st1)"

definition fl_gst_session_authenticate_audio_stream where
  "fl_gst_session_authenticate_audio_stream = authenticate_stream audio_kind"

definition fl_gst_session_authenticate_event_stream where
  "fl_gst_session_authenticate_event_stream = authenticate_stream event_kind"

section \<open>Clock exchange\<close>

definition labelled :: "(u8 list \<Rightarrow> u8 list \<Rightarrow> u8 list) \<Rightarrow> Endpoint \<Rightarrow> string \<Rightarrow> u8 list \<Rightarrow> u8 list \<Rightarrow> u8 list" where
  "labelled hmac ep label a b = hmac (ep_token ep) (label_bytes label @ a @ b)"

definition clockLabel :: string where
  "clockLabel = ''FrameLink public clock v1''"

definition clock_producer :: "(u8 list \<Rightarrow> u8 list \<Rightarrow> u8 list) \<Rightarrow> Endpoint \<Rightarrow> u64 \<Rightarrow> unit io" where
  "clock_producer hmac ep now =
     io_bind (relabel ''clock request deadline or failure'' (read_io 16)) (\<lambda>nonce.
     relabel ''clock reply failed'' (write_io (le_put 8 now @ labelled hmac ep clockLabel nonce (le_put 8 now))))"

text \<open>The midpoint estimate from the two local readings around the exchange and the producer's reading.\<close>
definition clock_mapping :: "flSessionId \<Rightarrow> flSessionId \<Rightarrow> u64 \<Rightarrow> u64 \<Rightarrow> u64 \<Rightarrow> flClockMapping option" where
  "clock_mapping sourceId targetId t0 t1 source =
     (if t1 < t0 \<or> source > INT64_MAX \<or> t1 > INT64_MAX then None
      else Some \<lparr>cm_sourceClockId = sourceId, cm_targetClockId = targetId, cm_sourceAnchorNs = source, cm_targetAnchorNs = t0 + (t1 - t0) div 2,
             cm_uncertaintyNs = (t1 - t0 + 1) div 2\<rparr>)"

definition clock_consumer ::
  "(u8 list \<Rightarrow> u8 list \<Rightarrow> u8 list) \<Rightarrow> Endpoint \<Rightarrow> string + u8 list \<Rightarrow> string + u8 list \<Rightarrow> flSessionId \<Rightarrow> u64 \<Rightarrow> u64 \<Rightarrow> flClockMapping io" where
  "clock_consumer hmac ep rnd targetRnd sourceId t0 t1 =
     io_bind (random_io rnd) (\<lambda>nonce.
     io_bind (relabel ''clock exchange deadline or failure'' (io_bind (write_io nonce) (\<lambda>_. read_io 40))) (\<lambda>reply.
     io_bind (require (digest_equal (labelled hmac ep clockLabel nonce (take 8 reply)) (drop 8 reply)) ''clock reply authentication failed'') (\<lambda>_.
     io_bind (random_io targetRnd) (\<lambda>targetId.
     some_io ''invalid clock exchange'' (clock_mapping sourceId targetId t0 t1 (le_val (take 8 reply)))))))"

section \<open>Handshakes on the retained control connection\<close>

text \<open>One byte from the consumer: \<^verbatim>\<open>'R'\<close> when its pipeline plays, \<^verbatim>\<open>'D'\<close> when it has drained.\<close>
definition marker_io :: "bool \<Rightarrow> u8 \<Rightarrow> unit io" where
  "marker_io producer m = (if producer then io_bind (read_io 1) (\<lambda>b. require (b = [m]) []) else write_io [m])"

definition fl_gst_session_local_ready :: "FlGstSession \<Rightarrow> Stream option \<Rightarrow> bool \<Rightarrow> u32 \<Rightarrow> string option \<times> FlGstSession \<times> Stream option" where
  "fl_gst_session_local_ready s control producer timeout =
     (if timeout = 0 \<or> timeout > 60000 then (Some ''invalid ready request'', s, control)
      else case control of
        None \<Rightarrow> (Some ''no local control connection'', s, None)
      | Some st \<Rightarrow>
          (case marker_io producer 0x52 st of
             (Inl _, st1) \<Rightarrow> (Some (if producer then ''consumer did not report ready before the deadline'' else ''ready report failed''),
               fl_gst_session_cancel s, Some st1)
           | (Inr _, st1) \<Rightarrow> (None, s, Some st1)))"

text \<open>The connection is taken out of the session first, so that a second call finds none, and closed in any case.\<close>
definition fl_gst_session_finish_local :: "Stream option \<Rightarrow> bool \<Rightarrow> u32 \<Rightarrow> string option \<times> Stream option \<times> Stream list" where
  "fl_gst_session_finish_local control producer timeout =
     (if timeout = 0 \<or> timeout > 60000 then (Some ''invalid finish request'', control, [])
      else case control of
        None \<Rightarrow> (Some ''no local control connection (already finished or not a local session)'', None, [])
      | Some st \<Rightarrow>
          (case marker_io producer 0x44 st of
             (Inl _, st1) \<Rightarrow> (Some (if producer then ''consumer did not report drain before the deadline'' else ''drain report failed''), None, [st1])
           | (Inr _, st1) \<Rightarrow> (None, None, [st1])))"

section \<open>Pipeline clock\<close>

abbreviation GST_SECOND :: u64 where "GST_SECOND \<equiv> 1000000000"
abbreviation GST_CLOCK_TIME_NONE :: u64 where "GST_CLOCK_TIME_NONE \<equiv> UINT64_MAX"

record Pipeline =
  pl_playing :: bool
  pl_systemClock :: bool
  pl_noStart :: bool
  pl_base :: u64
  pl_latency :: u64
  pl_slept :: u64

text \<open>\<open>pl_playing\<close> is a state above \<^verbatim>\<open>READY\<close>; \<open>pl_slept\<close> counts the microseconds of \<^verbatim>\<open>g_usleep\<close>.\<close>
definition fl_gst_session_apply_pipeline_clock ::
  "FlGstSession \<Rightarrow> u64 \<Rightarrow> Pipeline \<Rightarrow> bool \<Rightarrow> u64 \<Rightarrow> string option \<times> FlGstSession \<times> Pipeline" where
  "fl_gst_session_apply_pipeline_clock s now p producer latency =
     (case fl_gst_session_get_config s (Some zero_config) of
        (r, s1, out) \<Rightarrow>
          let c = the out
          in if r \<noteq> FL_GST_SESSION_READY \<or> pl_playing p \<or> \<not> producer \<and> latency = GST_CLOCK_TIME_NONE
             then (Some ''configured session and NULL/READY pipeline required'', s1, p)
             else
               let p1 = p\<lparr>pl_systemClock := True\<rparr>;
                   wait = (if producer \<and> now < cfg_epochNs c then cfg_epochNs c - now else 0)
               in if wait > GST_SECOND then (Some ''session epoch too far in the future'', s1, p1)
                  else
                    let p2 = (if producer \<and> now < cfg_epochNs c then p1\<lparr>pl_slept := pl_slept p1 + (wait div 1000 + 1)\<rparr> else p1);
                        p3 = p2\<lparr>pl_noStart := True, pl_base := (if producer then cfg_epochNs c else 0)\<rparr>
                    in (None, s1, if producer then p3 else p3\<lparr>pl_latency := latency\<rparr>))"


section \<open>Setup of a local session\<close>

text \<open>
  What the process sees during one setup call: random bytes, the bound port, the rendezvous directory at each poll and
  whether the deadline had passed when a poll succeeded (\<open>le_cut\<close>), the connections in the order in which the code makes
  them or the reason why there is none, clock readings, and the answers of the channel functions.
\<close>
record LocalEnv =
  le_hmac :: "u8 list \<Rightarrow> u8 list \<Rightarrow> u8 list"
  le_token :: "string + u8 list"
  le_port :: "u16 option"
  le_rv :: RvEnv
  le_polls :: "RvDir list"
  le_cut :: bool
  le_control :: "string + Stream"
  le_audio :: "string + nat \<times> Stream"
  le_events :: "string + nat \<times> Stream"
  le_connected :: bool
  le_cancelled :: bool
  le_sessionId :: "string + u8 list"
  le_clockId :: "string + u8 list"
  le_nonces :: Nonces
  le_audioRandom :: "string + u8 list"
  le_eventRandom :: "string + u8 list"
  le_clockRandom :: "string + u8 list"
  le_targetId :: "string + u8 list"
  le_now :: u64
  le_t0 :: u64
  le_t1 :: u64
  le_epoch :: "(u64 \<Rightarrow> i64) option"
  le_create :: "string \<Rightarrow> u32 \<Rightarrow> u32 \<Rightarrow> u32 \<Rightarrow> u32 \<Rightarrow> u32 \<Rightarrow> flResult \<times> nat option"
  le_opens :: "(flResult \<times> nat option) list"

text \<open>
  The coordinator, the rendezvous directory and this call's ownership of its record, and the channels that the call
  created or attached and those it closed again.
\<close>
record LocalState =
  lo_session :: FlGstSession
  lo_owner :: RvOwner
  lo_dir :: RvDir
  lo_made :: "nat list"
  lo_closed :: "nat list"

type_synonym 'a local_io = "(LocalState, 'a) fallible"

definition lo_fail :: "string \<Rightarrow> 'a local_io" where
  "lo_fail text lo = (Inl text, lo\<lparr>lo_session := fl_gst_session_cancel (lo_session lo)\<rparr>)"

definition lo_require :: "bool \<Rightarrow> string \<Rightarrow> unit local_io" where
  "lo_require b text = (if b then return_io () else lo_fail text)"

definition lo_some :: "string \<Rightarrow> 'a option \<Rightarrow> 'a local_io" where
  "lo_some text x = (case x of None \<Rightarrow> lo_fail text | Some y \<Rightarrow> return_io y)"

text \<open>The next connection: the reason of its failure is appended to the message.\<close>
definition lo_connect :: "string \<Rightarrow> string + 'a \<Rightarrow> 'a local_io" where
  "lo_connect what x = (case x of Inl reason \<Rightarrow> lo_fail (if reason = [] then what else what @ '': '' @ reason) | Inr y \<Rightarrow> return_io y)"

text \<open>The scope of the rendezvous owner: its record is withdrawn on every exit.\<close>
definition owner_scope :: "RvEnv \<Rightarrow> 'a local_io \<Rightarrow> 'a local_io" where
  "owner_scope env m lo =
     (case m (lo\<lparr>lo_owner := \<lparr>ro_impl = None\<rparr>\<rparr>) of
        (r, lo1) \<Rightarrow> (case rv_close env (lo_owner lo1) (lo_dir lo1) of (owner, d) \<Rightarrow> (r, lo1\<lparr>lo_owner := owner, lo_dir := d\<rparr>)))"

definition lo_random :: "string + u8 list \<Rightarrow> u8 list local_io" where
  "lo_random rnd = (case rnd of Inl text \<Rightarrow> lo_fail text | Inr bs \<Rightarrow> return_io bs)"

text \<open>An exchange on a stream; its failure is reported and cancels the session.\<close>
definition lo_stream :: "'a io \<Rightarrow> Stream \<Rightarrow> ('a \<times> Stream) local_io" where
  "lo_stream m st = (case m st of (Inl text, st1) \<Rightarrow> lo_fail text | (Inr x, st1) \<Rightarrow> return_io (x, st1))"

text \<open>A function of the transport, which on failure has cancelled the session itself.\<close>
definition lo_outcome :: "(FlGstSession \<Rightarrow> Outcome) \<Rightarrow> Stream local_io" where
  "lo_outcome f lo =
     (let o1 = f (lo_session lo); lo1 = lo\<lparr>lo_session := oc_session o1\<rparr>
      in case oc_error o1 of None \<Rightarrow> (Inr (oc_stream o1), lo1) | Some text \<Rightarrow> (Inl text, lo1))"

definition lo_config :: "flSessionConfig option local_io" where
  "lo_config lo = (case fl_gst_session_get_config (lo_session lo) (Some zero_config) of
     (r, s, out) \<Rightarrow> (Inr (if r = FL_GST_SESSION_READY then out else None), lo\<lparr>lo_session := s\<rparr>))"

definition connection :: "string + 'a \<Rightarrow> 'a option" where
  "connection x = (case x of Inl _ \<Rightarrow> None | Inr y \<Rightarrow> Some y)"

fun discover :: "RvEnv \<Rightarrow> string \<Rightarrow> RvDir list \<Rightarrow> Endpoint option" where
  "discover env path [] = None"
| "discover env path (d # ds) = (case rv_readEndpoint env path d of Inr e \<Rightarrow> Some e | Inl _ \<Rightarrow> discover env path ds)"

text \<open>The secret and port of this session: published by the producer, found by the consumer.\<close>
definition local_endpoint :: "LocalEnv \<Rightarrow> bool \<Rightarrow> string \<Rightarrow> Endpoint local_io" where
  "local_endpoint env producer path =
     (if producer then
        io_bind (lo_random (le_token env)) (\<lambda>token.
        io_bind (lo_some ''cannot bind private loopback session listener'' (le_port env)) (\<lambda>port.
        (\<lambda>lo. let endpoint = \<lparr>ep_port = port, ep_token = token\<rparr>
              in case rv_publish (le_rv env) path endpoint (lo_owner lo) (lo_dir lo) of
                   (Some text, owner, d) \<Rightarrow> lo_fail text (lo\<lparr>lo_owner := owner, lo_dir := d\<rparr>)
                 | (None, owner, d) \<Rightarrow> (Inr endpoint, lo\<lparr>lo_owner := owner, lo_dir := d\<rparr>))))
      else lo_some ''local session discovery deadline or cancellation''
        (if le_cut env then None else discover (le_rv env) path (le_polls env)))"

definition av_proposal :: "LocalEnv \<Rightarrow> flSessionCapabilities \<Rightarrow> u32 \<Rightarrow> u32 \<Rightarrow> u32 \<Rightarrow> u32 \<Rightarrow> flSessionConfig" where
  "av_proposal env local videoQueue queueMs timeout idle =
     zero_config\<lparr>cfg_version := FL_SESSION_OPTIONAL_TRACKS_VERSION, cfg_generation := 1,
       cfg_videoTrackId := (if cap_videoCount local \<noteq> 0 then 1 else 0), cfg_audioTrackId := (if cap_audioCount local \<noteq> 0 then 2 else 0),
       cfg_videoQueueFrames := (if cap_videoCount local \<noteq> 0 then videoQueue else 0), cfg_audioQueueMs := (if cap_audioCount local \<noteq> 0 then queueMs else 0),
       cfg_connectTimeoutMs := timeout, cfg_idleTimeoutMs := idle,
       cfg_epochNs := (case le_epoch env of Some f \<Rightarrow> f (le_now env) | None \<Rightarrow> le_now env + 200000000)\<rparr>"

definition av_arguments_ok :: "string \<Rightarrow> flSessionCapabilities \<Rightarrow> u32 \<Rightarrow> u32 \<Rightarrow> u32 \<Rightarrow> u32 \<Rightarrow> u32 \<Rightarrow> bool" where
  "av_arguments_ok path local videoQueue pool queueMs timeout idle \<longleftrightarrow>
     path \<noteq> [] \<and> cap_version local = FL_SESSION_OPTIONAL_TRACKS_VERSION \<and> (cap_videoCount local \<noteq> 0 \<or> cap_audioCount local \<noteq> 0) \<and>
     (cap_videoCount local \<noteq> 0 \<longrightarrow> videoQueue \<noteq> 0 \<and> videoQueue \<le> 16 \<and> pool \<noteq> 1 \<and> pool \<le> 16) \<and>
     (cap_audioCount local \<noteq> 0 \<longrightarrow> queueMs \<noteq> 0 \<and> queueMs \<le> 2000) \<and> timeout \<noteq> 0 \<and> timeout \<le> 60000 \<and> idle \<noteq> 0 \<and> idle \<le> 60000"

definition local_ids :: "LocalEnv \<Rightarrow> bool \<Rightarrow> flSessionConfig \<Rightarrow> flSessionConfig local_io" where
  "local_ids env producer proposal =
     (if \<not> producer then return_io proposal
      else io_bind (lo_random (le_sessionId env)) (\<lambda>sid. io_bind (lo_random (le_clockId env)) (\<lambda>cid.
        return_io (proposal\<lparr>cfg_sessionId := sid, cfg_clockId := cid\<rparr>))))"

definition local_negotiate ::
  "LocalEnv \<Rightarrow> bool \<Rightarrow> Endpoint \<Rightarrow> flSessionCapabilities \<Rightarrow> flSessionConfig \<Rightarrow> u32 \<Rightarrow> Stream \<Rightarrow> Stream local_io" where
  "local_negotiate env producer endpoint local proposal timeout control =
     lo_outcome (\<lambda>s. fl_gst_session_negotiate_stream (le_hmac env) (le_nonces env) (le_connected env) (le_cancelled env) [] s control producer
       (Some (ep_token endpoint)) (Some local) (if producer then Some proposal else None) timeout)"

text \<open>The negotiated configuration, if both ends have the tracks asked for here and the queues fit.\<close>
definition local_selected :: "flSessionCapabilities \<Rightarrow> u32 \<Rightarrow> u32 \<Rightarrow> flSessionConfig local_io" where
  "local_selected local videoQueue queueMs =
     io_bind lo_config (\<lambda>c.
     io_bind (lo_some ''negotiated session unavailable'' c) (\<lambda>selected.
     io_bind (lo_require (fst (encode_local selected) = FL_SESSION_OK) ''negotiated session unavailable'') (\<lambda>_.
     io_bind (lo_require ((cfg_videoTrackId selected \<noteq> 0) = (cap_videoCount local \<noteq> 0) \<and> (cfg_audioTrackId selected \<noteq> 0) = (cap_audioCount local \<noteq> 0))
       ''peer track set differs from local tracks'') (\<lambda>_.
     io_bind (lo_require (\<not> (cfg_audioTrackId selected \<noteq> 0 \<and> cfg_audioQueueMs selected > queueMs) \<and>
         \<not> (cfg_videoTrackId selected \<noteq> 0 \<and> cfg_videoQueueFrames selected > videoQueue)) ''peer queue budget exceeds local limit'') (\<lambda>_.
     return_io selected)))))"

definition local_clock :: "LocalEnv \<Rightarrow> bool \<Rightarrow> Endpoint \<Rightarrow> flSessionConfig \<Rightarrow> Stream \<Rightarrow> Stream local_io" where
  "local_clock env producer endpoint selected control =
     (if producer then io_bind (lo_stream (clock_producer (le_hmac env) endpoint (le_now env)) control) (\<lambda>(_, st). return_io st)
      else
        io_bind (lo_stream (clock_consumer (le_hmac env) endpoint (le_clockRandom env) (le_targetId env) (cfg_clockId selected) (le_t0 env) (le_t1 env)) control)
          (\<lambda>(m, st) lo. case fl_gst_session_set_mapping (lo_session lo) (cfg_generation selected) (Some m) 50000000 of
             (r, s) \<Rightarrow> if r \<noteq> FL_GST_SESSION_READY then lo_fail ''clock uncertainty exceeds 50ms or mapping rejected'' (lo\<lparr>lo_session := s\<rparr>)
                        else (Inr st, lo\<lparr>lo_session := s\<rparr>)))"

definition channel_name :: "(u8 list \<Rightarrow> u8 list \<Rightarrow> u8 list) \<Rightarrow> Endpoint \<Rightarrow> u8 list \<Rightarrow> string" where
  "channel_name hmac endpoint wire =
     ''flav-'' @ concat (map (\<lambda>c. [hex_digit (drop_bit 4 c), hex_digit (c AND 15)]) (take 12 (labelled hmac endpoint ''FrameLink public video channel v1'' wire [])))"

text \<open>The attach loop: repeated while the channel is not there, until the deadline.\<close>
fun attach_loop :: "(flResult \<times> nat option) list \<Rightarrow> flResult \<times> nat option" where
  "attach_loop [] = (FL_NOT_FOUND, None)"
| "attach_loop ((r, ch) # rest) = (if r = FL_NOT_FOUND then attach_loop rest else (r, ch))"

definition close_channel :: "nat \<Rightarrow> string \<Rightarrow> 'a local_io" where
  "close_channel ch text lo = lo_fail text (lo\<lparr>lo_closed := lo_closed lo @ [ch]\<rparr>)"

definition make_channel :: "string \<Rightarrow> flResult \<times> nat option \<Rightarrow> nat local_io" where
  "make_channel text answer lo =
     (case answer of (r, ch) \<Rightarrow>
        if r \<noteq> FL_OK \<or> ch = None then lo_fail text lo else (Inr (the ch), lo\<lparr>lo_made := lo_made lo @ [the ch]\<rparr>))"

definition or_close :: "nat \<Rightarrow> string \<Rightarrow> 'a io \<Rightarrow> Stream \<Rightarrow> ('a \<times> Stream) local_io" where
  "or_close ch text m st = (case m st of (Inl _, st1) \<Rightarrow> close_channel ch text | (Inr x, st1) \<Rightarrow> return_io (x, st1))"

definition local_video :: "LocalEnv \<Rightarrow> bool \<Rightarrow> Endpoint \<Rightarrow> flSessionConfig \<Rightarrow> u32 \<Rightarrow> u32 \<Rightarrow> Stream \<Rightarrow> (nat \<times> Stream) local_io" where
  "local_video env producer endpoint selected pool flags control =
     (let name = channel_name (le_hmac env) endpoint (the (snd (encode_local selected)))
      in if \<not> producer then
           io_bind (make_channel ''cannot create consumer video channel'' (le_create env name (vf_width (cfg_video selected)) (vf_height (cfg_video selected))
             (vf_format (cfg_video selected)) (if pool \<noteq> 0 then pool else 4) (if flags \<noteq> 0 then flags else 0x21))) (\<lambda>ch.
           io_bind (or_close ch ''video channel announcement failed'' (write_io [0x56]) control) (\<lambda>(_, st1).
           io_bind (or_close ch ''producer did not attach to the video channel'' (io_bind (read_io 1) (\<lambda>b. require (b = [0x50]) [])) st1) (\<lambda>(_, st2).
           return_io (ch, st2))))
         else
           io_bind (lo_stream (relabel ''consumer video channel announcement missing'' (io_bind (read_io 1) (\<lambda>b. require (b = [0x56]) []))) control) (\<lambda>(_, st1).
           io_bind (make_channel ''cannot attach producer video channel'' (attach_loop (le_opens env))) (\<lambda>ch.
           io_bind (or_close ch ''video attach confirmation failed'' (write_io [0x50]) st1) (\<lambda>(_, st2).
           return_io (ch, st2)))))"

text \<open>The two further streams, each on a connection of its own and only for a track that was selected.\<close>
definition local_audio :: "LocalEnv \<Rightarrow> bool \<Rightarrow> Endpoint \<Rightarrow> u32 \<Rightarrow> nat \<times> Stream \<Rightarrow> Stream local_io" where
  "local_audio env producer endpoint timeout conn =
     lo_outcome (\<lambda>s. fl_gst_session_authenticate_audio_stream (le_hmac env) (le_audioRandom env) (le_connected env) (le_cancelled env) [] s (fst conn) (snd conn)
       producer (Some (ep_token endpoint)) timeout)"

definition local_events :: "LocalEnv \<Rightarrow> bool \<Rightarrow> Endpoint \<Rightarrow> u32 \<Rightarrow> nat \<times> Stream \<Rightarrow> Stream local_io" where
  "local_events env producer endpoint timeout conn =
     lo_outcome (\<lambda>s. fl_gst_session_authenticate_event_stream (le_hmac env) (le_eventRandom env) (le_connected env) (le_cancelled env) [] s (fst conn) (snd conn)
       producer (Some (ep_token endpoint)) timeout)"

definition local_streams :: "LocalEnv \<Rightarrow> bool \<Rightarrow> Endpoint \<Rightarrow> u32 \<Rightarrow> flSessionConfig \<Rightarrow> unit local_io" where
  "local_streams env producer endpoint timeout selected =
     io_bind (if cfg_audioTrackId selected = 0 then return_io ()
       else io_bind (lo_connect ''local audio connection deadline or failure'' (le_audio env)) (\<lambda>conn.
            io_bind (local_audio env producer endpoint timeout conn) (\<lambda>_. return_io ()))) (\<lambda>_.
     if cfg_videoTrackId selected = 0 then return_io ()
       else io_bind (lo_connect ''local event connection deadline or failure'' (le_events env)) (\<lambda>conn.
            io_bind (local_events env producer endpoint timeout conn) (\<lambda>_. return_io ())))"

definition fl_gst_session_open_local_av_epoch ::
  "LocalEnv \<Rightarrow> bool \<Rightarrow> string \<Rightarrow> flSessionCapabilities \<Rightarrow> u32 \<Rightarrow> u32 \<Rightarrow> u32 \<Rightarrow> u32 \<Rightarrow> u32 \<Rightarrow> u32 \<Rightarrow> (nat option \<times> Stream) local_io" where
  "fl_gst_session_open_local_av_epoch env producer path local videoQueue pool queueMs timeout idle flags =
     io_bind (lo_require (av_arguments_ok path local videoQueue pool queueMs timeout idle) ''invalid local A/V session configuration'') (\<lambda>_.
     io_bind (lo_some ''unsupported local A/V capabilities'' (offer_encode local)) (\<lambda>_.
     owner_scope (le_rv env) (
     io_bind (local_endpoint env producer path) (\<lambda>endpoint.
     io_bind (lo_connect ''local control connection deadline or failure'' (le_control env)) (\<lambda>control.
     io_bind (lo_require (\<not> producer \<or> \<not> cfg_epochNs (av_proposal env local videoQueue queueMs timeout idle) <s 0) ''invalid session epoch'') (\<lambda>_.
     io_bind (local_ids env producer (av_proposal env local videoQueue queueMs timeout idle)) (\<lambda>proposal.
     io_bind (local_negotiate env producer endpoint local proposal timeout control) (\<lambda>control1.
     io_bind (local_selected local videoQueue queueMs) (\<lambda>selected.
     io_bind (local_clock env producer endpoint selected control1) (\<lambda>control2.
     io_bind (local_streams env producer endpoint timeout selected) (\<lambda>_.
     if cfg_videoTrackId selected = 0 then return_io (None, control2)
     else io_bind (local_video env producer endpoint selected pool flags control2) (\<lambda>(ch, control3). return_io (Some ch, control3)))))))))))))"

text \<open>The audio-only variant: one PCM format on both sides, no clock exchange and no video.\<close>
definition audio_caps :: "flAudioFormat \<Rightarrow> flSessionCapabilities" where
  "audio_caps format = \<lparr>cap_version = FL_SESSION_OPTIONAL_TRACKS_VERSION, cap_videoCount = 0, cap_audioCount = 1, cap_video = replicate 8 no_video,
     cap_audio = format # replicate 7 no_audio\<rparr>"

definition audio_proposal :: "flAudioFormat \<Rightarrow> u32 \<Rightarrow> u32 \<Rightarrow> u32 \<Rightarrow> flSessionConfig" where
  "audio_proposal format queueMs timeout idle =
     zero_config\<lparr>cfg_version := FL_SESSION_OPTIONAL_TRACKS_VERSION, cfg_generation := 1, cfg_audioTrackId := 2, cfg_audio := format,
       cfg_audioQueueMs := queueMs, cfg_connectTimeoutMs := timeout, cfg_idleTimeoutMs := idle\<rparr>"

text \<open>Here the reason of a failed connection is not reported.\<close>
definition fl_gst_session_open_local_audio :: "LocalEnv \<Rightarrow> bool \<Rightarrow> string \<Rightarrow> flAudioFormat \<Rightarrow> u32 \<Rightarrow> u32 \<Rightarrow> u32 \<Rightarrow> unit local_io" where
  "fl_gst_session_open_local_audio env producer path format queueMs timeout idle =
     io_bind (lo_require (path \<noteq> [] \<and> queueMs \<noteq> 0 \<and> queueMs \<le> 2000 \<and> timeout \<noteq> 0 \<and> timeout \<le> 60000 \<and> idle \<noteq> 0 \<and> idle \<le> 60000)
       ''invalid local audio session configuration'') (\<lambda>_.
     io_bind (lo_some ''unsupported local PCM format'' (offer_encode (audio_caps format))) (\<lambda>_.
     owner_scope (le_rv env) (
     io_bind (local_endpoint env producer path) (\<lambda>endpoint.
     io_bind (lo_some ''local control connection deadline or failure'' (connection (le_control env))) (\<lambda>control.
     io_bind (local_ids env producer (audio_proposal format queueMs timeout idle)) (\<lambda>proposal.
     io_bind (local_negotiate env producer endpoint (audio_caps format) proposal timeout control) (\<lambda>_.
     io_bind lo_config (\<lambda>c.
     io_bind (lo_some ''peer audio queue budget exceeds local limit'' c) (\<lambda>selected.
     io_bind (lo_require (\<not> cfg_audioQueueMs selected > queueMs) ''peer audio queue budget exceeds local limit'') (\<lambda>_.
     io_bind (lo_some ''local audio connection deadline or failure'' (connection (le_audio env))) (\<lambda>conn.
     io_bind (local_audio env producer endpoint timeout conn) (\<lambda>_. return_io ()))))))))))))"


text \<open>A consumer's view of one exchange: 9 ns between its two clock readings.\<close>
definition example_local :: LocalEnv where
  "example_local = \<lparr>le_hmac = example_hmac, le_token = Inr (replicate 32 5), le_port = Some 9, le_rv = example_rv_env, le_polls = [], le_cut = False,
     le_control = Inr \<lparr>st_in = [], st_out = [], st_room = 0\<rparr>, le_audio = Inl [], le_events = Inl [], le_connected = True, le_cancelled = False,
     le_sessionId = Inr (replicate 16 1), le_clockId = Inr (replicate 16 2), le_nonces = \<lparr>nn_auth = Inr (replicate 32 1), nn_session = Inr (replicate 32 2)\<rparr>,
     le_audioRandom = Inr [], le_eventRandom = Inr [], le_clockRandom = Inr (replicate 16 3), le_targetId = Inr (replicate 16 4),
     le_now = 500, le_t0 = 1000, le_t1 = 1009, le_epoch = None, le_create = (\<lambda>_ _ _ _ _ _. (FL_OK, Some 1)), le_opens = []\<rparr>"

definition example_state :: LocalState where
  "example_state = \<lparr>lo_session = example_session, lo_owner = \<lparr>ro_impl = None\<rparr>, lo_dir = example_dir, lo_made = [], lo_closed = []\<rparr>"

section \<open>Lemmas\<close>

lemma get_config_ready:
  "fl_gst_session_get_config s (Some z) = (r, s1, out) \<Longrightarrow> r = FL_GST_SESSION_READY \<Longrightarrow>
   s1 = s \<and> out = Some (gs_config s) \<and> \<not> gs_cancelled s \<and> gs_configured s"
  by (auto simp: fl_gst_session_get_config_def Let_def split: if_splits)

lemma cancel_cancels [simp]: "gs_cancelled (fl_gst_session_cancel s)"
  by (simp add: fl_gst_session_cancel_def)

lemma encode_local_wire: "fst (encode_local c) = FL_SESSION_OK \<Longrightarrow> wf_config c \<Longrightarrow> snd (encode_local c) = Some (session_wire c)"
  by (simp add: encode_local_def flSessionEncode_def split: if_splits)

lemma publish_stream_ok:
  assumes "oc_error (publish_stream k cancelled cfg a p s st) = None"
  obtains s2 where "publish_stream k cancelled cfg a p s st = \<lparr>oc_error = None, oc_session = s2, oc_stream = st, oc_closed = False\<rparr>"
    "\<not> gs_cancelled s" "gs_configured s" "fst (encode_local (gs_config s)) = FL_SESSION_OK"
    "snd (encode_local (gs_config s)) = snd (encode_local cfg)" "sk_publish k s (Some cfg) (Some a) p = (True, s2)"
proof -
  obtain r s1 cur where g: "fl_gst_session_get_config s (Some zero_config) = (r, s1, cur)" by (cases "fl_gst_session_get_config s (Some zero_config)")
  have r: "r = FL_GST_SESSION_READY" using assms g by (auto simp: publish_stream_def split: if_splits)
  note f = get_config_ready [OF g r]
  obtain ok s2 where p: "sk_publish k s (Some cfg) (Some a) p = (ok, s2)" by (cases "sk_publish k s (Some cfg) (Some a) p")
  show ?thesis using assms g f p that [of s2] by (auto simp: publish_stream_def split: if_splits)
qed

lemma publish_stream_fails: "oc_error (publish_stream k cancelled cfg a p s st) \<noteq> None \<Longrightarrow>
   gs_cancelled (oc_session (publish_stream k cancelled cfg a p s st)) \<and> oc_closed (publish_stream k cancelled cfg a p s st)"
  by (auto simp: publish_stream_def session_fail_def split: prod.splits if_splits)

lemma authenticate_stream_fails:
  assumes "oc_error (authenticate_stream k hmac rnd connected cancelled between s a st p secret timeout) \<noteq> None"
  shows "gs_cancelled (oc_session (authenticate_stream k hmac rnd connected cancelled between s a st p secret timeout)) \<and>
    oc_closed (authenticate_stream k hmac rnd connected cancelled between s a st p secret timeout)"
  using assms publish_stream_fails
  by (auto simp: authenticate_stream_def session_fail_def Let_def split: prod.splits sum.splits if_splits)

lemma authenticate_stream_ok:
  fixes k hmac rnd connected cancelled between s a st p secret timeout
  defines "out \<equiv> authenticate_stream k hmac rnd connected cancelled between s a st p secret timeout"
  assumes "oc_error out = None" "coord_inv s" "\<forall>c \<in> set between. call_wf c"
  obtains key where "secret = Some key" "length key = 32" "\<not> zero_token key" "gs_configured s" "sk_track k (gs_config s) \<noteq> 0"
    "(if p then authenticateServer hmac rnd \<lparr>ep_port = 0, ep_token = derived_token hmac key (sk_label k) (session_wire (gs_config s))\<rparr> (sk_role k)
      else authenticateClient hmac rnd \<lparr>ep_port = 0, ep_token = derived_token hmac key (sk_label k) (session_wire (gs_config s))\<rparr> (sk_role k)) st =
     (Inr (), oc_stream out)"
    "gs_config (fold session_exec between s) = gs_config s" "\<not> gs_cancelled (fold session_exec between s)"
    "sk_publish k (fold session_exec between s) (Some (gs_config s)) (Some a) p = (True, oc_session out)"
proof -
  let ?s2 = "fold session_exec between s"
  obtain key where key: "secret = Some key" using assms(2) by (auto simp: out_def authenticate_stream_def session_fail_def split: if_splits)
  obtain r s1 cur where g: "fl_gst_session_get_config s (Some zero_config) = (r, s1, cur)" by (cases "fl_gst_session_get_config s (Some zero_config)")
  have r: "r = FL_GST_SESSION_READY" using assms(2) g by (auto simp: out_def authenticate_stream_def session_fail_def Let_def split: if_splits)
  note f = get_config_ready [OF g r]
  have c: "length key = 32" "\<not> zero_token key" "sk_track k (gs_config s) \<noteq> 0" "fst (encode_local (gs_config s)) = FL_SESSION_OK"
    using assms(2) g f key by (auto simp: out_def authenticate_stream_def session_fail_def Let_def split: if_splits)
  have wf: "wf_config (gs_config s)" using assms(3) f by (simp add: coord_inv_def)
  have w: "snd (encode_local (gs_config s)) = Some (session_wire (gs_config s))" by (rule encode_local_wire [OF c(4) wf])
  let ?ep = "\<lparr>ep_port = 0, ep_token = derived_token hmac key (sk_label k) (session_wire (gs_config s))\<rparr>"
  let ?auth = "(if p then authenticateServer hmac rnd ?ep (sk_role k) else authenticateClient hmac rnd ?ep (sk_role k)) st"
  obtain q st1 where q: "?auth = (q, st1)" by (cases ?auth)
  have o: "out = (case q of Inl text \<Rightarrow> session_fail ?s2 st1 text | Inr _ \<Rightarrow> publish_stream k cancelled (gs_config s) a p ?s2 st1)"
    using assms(2) g f key c w q by (auto simp: out_def authenticate_stream_def session_fail_def Let_def split: if_splits sum.splits)
  then have qi: "q = Inr ()" using assms(2) by (auto simp: session_fail_def split: sum.splits)
  from o qi assms(2) have "oc_error (publish_stream k cancelled (gs_config s) a p ?s2 st1) = None" by simp
  then obtain s3 where s3: "out = \<lparr>oc_error = None, oc_session = s3, oc_stream = st1, oc_closed = False\<rparr>"
    "\<not> gs_cancelled ?s2" "gs_configured ?s2" "fst (encode_local (gs_config ?s2)) = FL_SESSION_OK"
    "snd (encode_local (gs_config ?s2)) = snd (encode_local (gs_config s))" "sk_publish k ?s2 (Some (gs_config s)) (Some a) p = (True, s3)"
    using o qi by (elim publish_stream_ok) auto
  have "wf_config (gs_config ?s2)" using coord_inv_run [OF assms(3,4)] s3(3) by (simp add: coord_inv_def)
  then have "gs_config ?s2 = gs_config s"
    using same_encoding_eq [of "gs_config ?s2" "gs_config s"] wf s3(4,5) c(4) by (simp add: same_encoding_def)
  then show ?thesis using that [of key] key c f q qi s3 by simp
qed

lemma publish_audio_ok: "fl_gst_session_publish_audio s (Some c) (Some a) p = (True, s') \<Longrightarrow>
   gs_config s' = gs_config s \<and> gs_cancelled s' = gs_cancelled s \<and> gs_audioConnection s' = Some a \<and> gs_audioProducer s' = p \<and> \<not> gs_audioClaimed s'"
  by (auto simp: fl_gst_session_publish_audio_def split: if_splits)

lemma publish_events_ok: "fl_gst_session_publish_events s (Some c) (Some a) p = (True, s') \<Longrightarrow>
   gs_config s' = gs_config s \<and> gs_cancelled s' = gs_cancelled s \<and> gs_events s' = Some (events_new p (cfg_generation c))"
  by (auto simp: fl_gst_session_publish_events_def split: if_splits)

lemma kind_fields [simp]:
  "sk_label audio_kind = ''FrameLink public audio session v2''" "sk_role audio_kind = 0x41" "sk_track audio_kind = cfg_audioTrackId"
  "sk_publish audio_kind = fl_gst_session_publish_audio"
  "sk_label event_kind = ''FrameLink public event session v2''" "sk_role event_kind = 0x45" "sk_track event_kind = cfg_videoTrackId"
  "sk_publish event_kind = fl_gst_session_publish_events"
  by (simp_all add: audio_kind_def event_kind_def)

section \<open>Properties\<close>

text \<open>
  C36. A published stream is bound to the session.  If the audio stream (or the event stream) is authenticated while other threads use
  the coordinator, then success means: the peer proved knowledge of the key derived from the session secret and the exact
  encoding of the configuration that was installed before and is installed still; the connection, and no other, is
  published for this end, unclaimed; the object is not cancelled.  Failure cancels the object and closes the connection.
\<close>
theorem stream_binding:
  fixes hmac rnd connected cancelled between s a st p key timeout
  defines "audio \<equiv> fl_gst_session_authenticate_audio_stream hmac rnd connected cancelled between s a st p (Some key) timeout"
    and "event \<equiv> fl_gst_session_authenticate_event_stream hmac rnd connected cancelled between s a st p (Some key) timeout"
    and "proved \<equiv> \<lambda>label role st'. (if p then authenticateServer else authenticateClient) hmac rnd
        \<lparr>ep_port = 0, ep_token = hmac key (map of_char label @ 0 # session_wire (gs_config s))\<rparr> role st = (Inr (), st')"
  assumes "coord_inv s" "\<forall>c \<in> set between. call_wf c"
  shows "(if oc_error audio = None
      then proved ''FrameLink public audio session v2'' 0x41 (oc_stream audio) \<and> cfg_audioTrackId (gs_config s) \<noteq> 0 \<and>
        gs_config (oc_session audio) = gs_config s \<and> \<not> gs_cancelled (oc_session audio) \<and>
        gs_audioConnection (oc_session audio) = Some a \<and> gs_audioProducer (oc_session audio) = p \<and> \<not> gs_audioClaimed (oc_session audio)
      else gs_cancelled (oc_session audio) \<and> oc_closed audio) \<and>
    (if oc_error event = None
      then proved ''FrameLink public event session v2'' 0x45 (oc_stream event) \<and> cfg_videoTrackId (gs_config s) \<noteq> 0 \<and>
        gs_config (oc_session event) = gs_config s \<and> \<not> gs_cancelled (oc_session event) \<and>
        gs_events (oc_session event) = Some (events_new p (cfg_generation (gs_config s)))
      else gs_cancelled (oc_session event) \<and> oc_closed event)"
proof (intro conjI)
  let ?s2 = "fold session_exec between s"
  show "if oc_error audio = None
      then proved ''FrameLink public audio session v2'' 0x41 (oc_stream audio) \<and> cfg_audioTrackId (gs_config s) \<noteq> 0 \<and>
        gs_config (oc_session audio) = gs_config s \<and> \<not> gs_cancelled (oc_session audio) \<and>
        gs_audioConnection (oc_session audio) = Some a \<and> gs_audioProducer (oc_session audio) = p \<and> \<not> gs_audioClaimed (oc_session audio)
      else gs_cancelled (oc_session audio) \<and> oc_closed audio"
  proof (cases "oc_error audio = None")
    case True
    have o: "audio = authenticate_stream audio_kind hmac rnd connected cancelled between s a st p (Some key) timeout"
      by (simp add: audio_def fl_gst_session_authenticate_audio_stream_def)
    show ?thesis
      by (rule authenticate_stream_ok [OF True [unfolded o] assms(4,5)], unfold o [symmetric])
        (use True in \<open>auto simp: proved_def derived_token_def label_bytes_def dest: publish_audio_ok\<close>)
  next
    case False
    have o: "audio = authenticate_stream audio_kind hmac rnd connected cancelled between s a st p (Some key) timeout"
      by (simp add: audio_def fl_gst_session_authenticate_audio_stream_def)
    show ?thesis using authenticate_stream_fails [OF False [unfolded o], folded o] by (simp only: if_not_P [OF False])
  qed
  show "if oc_error event = None
      then proved ''FrameLink public event session v2'' 0x45 (oc_stream event) \<and> cfg_videoTrackId (gs_config s) \<noteq> 0 \<and>
        gs_config (oc_session event) = gs_config s \<and> \<not> gs_cancelled (oc_session event) \<and>
        gs_events (oc_session event) = Some (events_new p (cfg_generation (gs_config s)))
      else gs_cancelled (oc_session event) \<and> oc_closed event"
  proof (cases "oc_error event = None")
    case True
    have o: "event = authenticate_stream event_kind hmac rnd connected cancelled between s a st p (Some key) timeout"
      by (simp add: event_def fl_gst_session_authenticate_event_stream_def)
    show ?thesis
      by (rule authenticate_stream_ok [OF True [unfolded o] assms(4,5)], unfold o [symmetric])
        (use True in \<open>auto simp: proved_def derived_token_def label_bytes_def dest: publish_events_ok\<close>)
  next
    case False
    have o: "event = authenticate_stream event_kind hmac rnd connected cancelled between s a st p (Some key) timeout"
      by (simp add: event_def fl_gst_session_authenticate_event_stream_def)
    show ?thesis using authenticate_stream_fails [OF False [unfolded o], folded o] by (simp only: if_not_P [OF False])
  qed
qed


theorem stream_binding_witness:
  "gs_cancelled (oc_session (fl_gst_session_authenticate_audio_stream example_hmac (Inr []) True False [] example_session 7
     \<lparr>st_in = [], st_out = [], st_room = 0\<rparr> False (Some []) 100))"
proof -
  have "oc_error (fl_gst_session_authenticate_audio_stream example_hmac (Inr []) True False [] example_session 7
     \<lparr>st_in = [], st_out = [], st_room = 0\<rparr> False (Some []) 100) \<noteq> None"
    by (simp add: fl_gst_session_authenticate_audio_stream_def authenticate_stream_def)
  with stream_binding [OF example_session(1), of "[]" example_hmac "Inr []" True False 7 "\<lparr>st_in = [], st_out = [], st_room = 0\<rparr>" False "[]" 100]
  show ?thesis by (simp split: if_splits)
qed

lemma clock_mapping_sound:
  assumes "clock_mapping sid tid t0 t1 source = Some m" "t0 \<le> t" "t \<le> t1"
  shows "\<bar>uint (cm_targetAnchorNs m) - uint t\<bar> \<le> uint (cm_uncertaintyNs m)"
    "cm_sourceAnchorNs m = source" "cm_sourceClockId m = sid" "cm_targetClockId m = tid"
    "uint (cm_uncertaintyNs m) = (uint t1 - uint t0 + 1) div 2"
proof -
  have r: "\<not> t1 < t0" "\<not> source > INT64_MAX" "\<not> t1 > INT64_MAX" and m: "m = \<lparr>cm_sourceClockId = sid, cm_targetClockId = tid, cm_sourceAnchorNs = source,
      cm_targetAnchorNs = t0 + (t1 - t0) div 2, cm_uncertaintyNs = (t1 - t0 + 1) div 2\<rparr>"
    using assms(1) by (auto simp: clock_mapping_def split: if_splits)
  have o: "uint t0 \<le> uint t1" "uint t1 \<le> 2 ^ 63 - 1" "uint t0 \<le> uint t" "uint t \<le> uint t1"
    using r assms(2,3) by (simp_all add: word_less_def word_le_def not_less)
  have d: "uint (t1 - t0) = uint t1 - uint t0" using o by (subst uint_sub_lem [THEN iffD1]) simp_all
  have n: "uint t1 - uint t0 < 2 ^ 63" "uint t0 + (uint t1 - uint t0) div 2 < 2 ^ 63" using o uint_ge_0 [of t0] by linarith+
  have d1: "uint (t1 - t0 + 1) = uint t1 - uint t0 + 1"
    using n d by (subst uint_add_lem [THEN iffD1]) simp_all
  have u: "uint ((t1 - t0 + 1) div 2) = (uint t1 - uint t0 + 1) div 2" by (simp only: uint_div d1) simp
  have h: "uint ((t1 - t0) div 2) = (uint t1 - uint t0) div 2" by (simp only: uint_div d) simp
  have a: "uint (t0 + (t1 - t0) div 2) = uint t0 + (uint t1 - uint t0) div 2"
    using n h by (subst uint_add_lem [THEN iffD1]) simp_all
  show "\<bar>uint (cm_targetAnchorNs m) - uint t\<bar> \<le> uint (cm_uncertaintyNs m)" using o by (simp add: m a u)
  show "cm_sourceAnchorNs m = source" "cm_sourceClockId m = sid" "cm_targetClockId m = tid" by (simp_all add: m)
  show "uint (cm_uncertaintyNs m) = (uint t1 - uint t0 + 1) div 2" using u by (simp add: m)
qed


text \<open>The clock exchange of the consumer, when it succeeds.\<close>
lemma clock_consumer_ok:
  assumes "clock_consumer hmac ep rnd targetRnd sid t0 t1 st = (Inr m, st')" "digest_size hmac"
  obtains nonce tid now where "rnd = Inr nonce" "targetRnd = Inr tid"
    "st_in st = le_put 8 now @ labelled hmac ep clockLabel nonce (le_put 8 now) @ st_in st'" "clock_mapping sid tid t0 t1 now = Some m"
proof -
  from assms(1) obtain nonce tid where r: "rnd = Inr nonce" "targetRnd = Inr tid" "40 \<le> length (st_in st)"
    "digest_equal (labelled hmac ep clockLabel nonce (take 8 (st_in st))) (drop 8 (take 40 (st_in st)))"
    "clock_mapping sid tid t0 t1 (le_val (take 8 (st_in st))) = Some m" "st_in st' = drop 40 (st_in st)"
    by (auto simp: clock_consumer_def io_iffs some_io_iff)
  have mac: "labelled hmac ep clockLabel nonce (take 8 (st_in st)) = drop 8 (take 40 (st_in st))"
    using r(3,4) assms(2) by (subst digest_equal_iff [symmetric]) (simp_all add: labelled_def digest_size_def)
  have p: "le_put 8 (le_val (take 8 (st_in st)) :: u64) = take 8 (st_in st)" using r(3) le_put_le_val [of "take 8 (st_in st)", where 'a = 64] by (simp add: min_def)
  have "st_in st = take 8 (st_in st) @ drop 8 (take 40 (st_in st)) @ st_in st'"
    unfolding r(6) by (simp add: drop_take take_drop_rest)
  then show ?thesis using that [of nonce tid "le_val (take 8 (st_in st))"] r p mac by simp
qed

lemma map_pts_uncertainty: "fst (flSessionMapPts (Some c) (Some m) maxError x out) = FL_SESSION_OK \<Longrightarrow> cm_uncertaintyNs m \<le> maxError"
  by (auto simp: flSessionMapPts_def Let_def split: if_splits option.splits)

text \<open>
  C37. The clock relation is authentic and its uncertainty is honest.  When the consumer's exchange succeeds, the reply carried a
  producer time authenticated under the session secret for this exchange's nonce; the installed mapping anchors exactly that time;
  whatever the true local instant between the two local readings at which the producer read its clock, it differs from the
  target anchor by at most the recorded uncertainty; and that uncertainty is half the round trip, rounded up, and at most 50 ms.
\<close>
theorem clock_mapping_honest:
  assumes "local_clock env False endpoint selected control lo = (Inr st, lo')" "digest_size (le_hmac env)"
    "le_t0 env \<le> t" "t \<le> le_t1 env"
  shows "\<exists>nonce now. le_clockRandom env = Inr nonce \<and>
     st_in control = le_put 8 now @ labelled (le_hmac env) endpoint clockLabel nonce (le_put 8 now) @ st_in st \<and>
     gs_mapped (lo_session lo') \<and> cm_sourceAnchorNs (gs_mapping (lo_session lo')) = now \<and>
     cm_sourceClockId (gs_mapping (lo_session lo')) = cfg_clockId selected \<and>
     \<bar>uint (cm_targetAnchorNs (gs_mapping (lo_session lo'))) - uint t\<bar> \<le> uint (cm_uncertaintyNs (gs_mapping (lo_session lo'))) \<and>
     uint (cm_uncertaintyNs (gs_mapping (lo_session lo'))) = (uint (le_t1 env) - uint (le_t0 env) + 1) div 2 \<and>
     cm_uncertaintyNs (gs_mapping (lo_session lo')) \<le> 50000000"
proof -
  from assms(1) obtain m s where m: "clock_consumer (le_hmac env) endpoint (le_clockRandom env) (le_targetId env) (cfg_clockId selected) (le_t0 env) (le_t1 env) control =
      (Inr m, st)" and s: "fl_gst_session_set_mapping (lo_session lo) (cfg_generation selected) (Some m) 50000000 = (FL_GST_SESSION_READY, s)" "lo' = lo\<lparr>lo_session := s\<rparr>"
    by (auto simp: local_clock_def io_bind_iff lo_stream_def lo_fail_def return_io_def split: sum.splits prod.splits if_splits)
  have map: "gs_mapping s = m" "gs_mapped s" "cm_uncertaintyNs m \<le> 50000000"
    using s(1) by (auto simp: fl_gst_session_set_mapping_def intro: map_pts_uncertainty split: if_splits)
  from m assms(2) obtain nonce tid now where c: "le_clockRandom env = Inr nonce"
    "st_in control = le_put 8 now @ labelled (le_hmac env) endpoint clockLabel nonce (le_put 8 now) @ st_in st"
    "clock_mapping (cfg_clockId selected) tid (le_t0 env) (le_t1 env) now = Some m" by (rule clock_consumer_ok)
  show ?thesis using c(1,2) map s(2) clock_mapping_sound [OF c(3) assms(3,4)] by (intro exI [of _ nonce] exI [of _ now]) simp
qed


theorem clock_mapping_honest_witness:
  "\<bar>uint (cm_targetAnchorNs (gs_mapping (lo_session (snd (local_clock example_local False \<lparr>ep_port = 9, ep_token = replicate 32 5\<rparr> example_config
     \<lparr>st_in = le_put 8 (500 :: u64) @ labelled example_hmac \<lparr>ep_port = 9, ep_token = replicate 32 5\<rparr> clockLabel (replicate 16 3) (le_put 8 (500 :: u64)),
       st_out = [], st_room = 16\<rparr> example_state))))) - 1004\<bar> \<le> 5"
proof -
  let ?e = "\<lparr>ep_port = 9, ep_token = replicate 32 5\<rparr>"
  let ?st = "\<lparr>st_in = le_put 8 (500 :: u64) @ labelled example_hmac ?e clockLabel (replicate 16 3) (le_put 8 (500 :: u64)), st_out = [], st_room = 16\<rparr>"
  have ok: "\<not> isl (fst (local_clock example_local False ?e example_config ?st example_state))" by code_simp
  obtain r lo' where r: "local_clock example_local False ?e example_config ?st example_state = (r, lo')"
    by (cases "local_clock example_local False ?e example_config ?st example_state")
  with ok obtain st where st: "local_clock example_local False ?e example_config ?st example_state = (Inr st, lo')" by (cases r) auto
  have h: "digest_size (le_hmac example_local)" "le_t0 example_local = 1000" "le_t1 example_local = 1009" by (simp_all add: example_local_def example_hmac_size)
  from clock_mapping_honest [OF st h(1), of 1004] h(2,3) st show ?thesis by auto
qed

section \<open>Outcome of the setup\<close>

text \<open>Steps that make no channel and that, when they fail, leave the coordinator cancelled.\<close>
definition quiet :: "'a local_io \<Rightarrow> bool" where
  "quiet m \<longleftrightarrow> (\<forall>lo. lo_made (snd (m lo)) = lo_made lo \<and> lo_closed (snd (m lo)) = lo_closed lo \<and>
     (isl (fst (m lo)) \<longrightarrow> gs_cancelled (lo_session (snd (m lo)))))"

lemma quiet_bind: "quiet m \<Longrightarrow> (\<And>x. quiet (f x)) \<Longrightarrow> quiet (io_bind m f)"
  unfolding quiet_def io_bind_def by (auto split: prod.splits sum.splits) (metis fst_conv snd_conv isl_def)+

lemma quiet_return: "quiet (return_io x)"
  by (simp add: quiet_def return_io_def)

lemma quiet_fail: "quiet (lo_fail t)"
  by (simp add: quiet_def lo_fail_def)

lemma quiet_prims: "quiet (lo_require b t)" "quiet (lo_some t x)" "quiet (lo_random r)" "quiet (lo_connect t y)" "quiet (lo_stream m st)"
  by (auto simp: lo_require_def lo_some_def lo_random_def lo_connect_def lo_stream_def quiet_return quiet_fail split: option.splits sum.splits prod.splits)

lemma quiet_outcome: "(\<And>s. oc_error (f s) \<noteq> None \<Longrightarrow> gs_cancelled (oc_session (f s))) \<Longrightarrow> quiet (lo_outcome f)"
  by (auto simp: quiet_def lo_outcome_def Let_def split: option.splits)

lemma quiet_config: "quiet lo_config"
  by (simp add: quiet_def lo_config_def split: prod.splits)

lemma quiet_endpoint: "quiet (local_endpoint env p path)"
proof -
  have "quiet (\<lambda>lo. let endpoint = \<lparr>ep_port = port, ep_token = token\<rparr>
              in case rv_publish (le_rv env) path endpoint (lo_owner lo) (lo_dir lo) of
                   (Some text, owner, d) \<Rightarrow> lo_fail text (lo\<lparr>lo_owner := owner, lo_dir := d\<rparr>)
                 | (None, owner, d) \<Rightarrow> (Inr endpoint, lo\<lparr>lo_owner := owner, lo_dir := d\<rparr>))" for port token
    by (auto simp: quiet_def lo_fail_def Let_def split: prod.splits option.splits)
  then show ?thesis unfolding local_endpoint_def by (auto intro!: quiet_bind quiet_prims)
qed

lemma negotiate_fails: "oc_error (fl_gst_session_negotiate_stream h nn c x b s st p k l q t) \<noteq> None \<Longrightarrow>
   gs_cancelled (oc_session (fl_gst_session_negotiate_stream h nn c x b s st p k l q t))"
  by (auto simp: fl_gst_session_negotiate_stream_def session_fail_def Let_def split: option.splits prod.splits sum.splits if_splits)

lemma quiet_steps:
  "quiet (local_ids env p c)" "quiet (local_negotiate env p e l c t st)" "quiet (local_selected l v q)" "quiet (local_audio env p e t conn)"
  "quiet (local_events env p e t conn)"
  by (auto simp: local_ids_def local_negotiate_def local_selected_def local_audio_def local_events_def fl_gst_session_authenticate_audio_stream_def
      fl_gst_session_authenticate_event_stream_def intro!: quiet_bind quiet_prims quiet_return quiet_config quiet_outcome negotiate_fails
      authenticate_stream_fails [THEN conjunct1])

lemma quiet_streams: "quiet (local_streams env p e t c)"
  unfolding local_streams_def by (auto intro!: quiet_bind quiet_prims quiet_return quiet_steps)

lemma quiet_clock: "quiet (local_clock env p e c st)"
proof -
  have "quiet (\<lambda>lo. case fl_gst_session_set_mapping (lo_session lo) g (Some m) x of
      (r, s) \<Rightarrow> if r \<noteq> FL_GST_SESSION_READY then lo_fail t (lo\<lparr>lo_session := s\<rparr>) else (Inr st, lo\<lparr>lo_session := s\<rparr>))" for g m x t st
    by (auto simp: quiet_def lo_fail_def split: prod.splits)
  then show ?thesis unfolding local_clock_def by (auto intro!: quiet_bind quiet_prims quiet_return split: prod.splits)
qed


text \<open>
  The channels of a step: \<open>sel\<close> of its result are those it made and left open; when it fails it has cancelled the coordinator
  and closed every channel it made.
\<close>
definition leaves :: "('a \<Rightarrow> nat list) \<Rightarrow> 'a local_io \<Rightarrow> bool" where
  "leaves sel m \<longleftrightarrow> (\<forall>lo. case m lo of
     (Inr x, lo') \<Rightarrow> lo_made lo' = lo_made lo @ sel x \<and> lo_closed lo' = lo_closed lo
   | (Inl _, lo') \<Rightarrow> gs_cancelled (lo_session lo') \<and> (\<exists>chs. lo_made lo' = lo_made lo @ chs \<and> lo_closed lo' = lo_closed lo @ chs))"

lemma leaves_Inr: "leaves sel m \<Longrightarrow> m lo = (Inr x, lo') \<Longrightarrow> lo_made lo' = lo_made lo @ sel x \<and> lo_closed lo' = lo_closed lo"
  unfolding leaves_def by (drule spec [of _ lo]) simp

lemma leaves_Inl: "leaves sel m \<Longrightarrow> m lo = (Inl t, lo') \<Longrightarrow>
   gs_cancelled (lo_session lo') \<and> (\<exists>chs. lo_made lo' = lo_made lo @ chs \<and> lo_closed lo' = lo_closed lo @ chs)"
  unfolding leaves_def by (drule spec [of _ lo]) simp

lemma leavesI:
  assumes "\<And>lo x lo'. m lo = (Inr x, lo') \<Longrightarrow> lo_made lo' = lo_made lo @ sel x \<and> lo_closed lo' = lo_closed lo"
    "\<And>lo t lo'. m lo = (Inl t, lo') \<Longrightarrow> gs_cancelled (lo_session lo') \<and> (\<exists>chs. lo_made lo' = lo_made lo @ chs \<and> lo_closed lo' = lo_closed lo @ chs)"
  shows "leaves sel m"
  unfolding leaves_def using assms by (auto split: prod.splits sum.splits)

lemma quietD: "quiet m \<Longrightarrow> m lo = (r, lo') \<Longrightarrow> lo_made lo' = lo_made lo \<and> lo_closed lo' = lo_closed lo \<and> (isl r \<longrightarrow> gs_cancelled (lo_session lo'))"
  unfolding quiet_def by (drule spec [of _ lo]) simp

lemma leaves_bind:
  assumes "quiet m" "\<And>x. leaves sel (f x)"
  shows "leaves sel (io_bind m f)"
proof (rule leavesI)
  fix lo x lo'
  assume "io_bind m f lo = (Inr x, lo')"
  then obtain y lo1 where "m lo = (Inr y, lo1)" "f y lo1 = (Inr x, lo')" by (auto simp: io_bind_iff)
  then show "lo_made lo' = lo_made lo @ sel x \<and> lo_closed lo' = lo_closed lo" using quietD [OF assms(1)] leaves_Inr [OF assms(2)] by fastforce
next
  fix lo t lo'
  assume a: "io_bind m f lo = (Inl t, lo')"
  obtain r lo1 where m: "m lo = (r, lo1)" by (cases "m lo")
  note q = quietD [OF assms(1) m]
  show "gs_cancelled (lo_session lo') \<and> (\<exists>chs. lo_made lo' = lo_made lo @ chs \<and> lo_closed lo' = lo_closed lo @ chs)"
  proof (cases r)
    case (Inl e)
    then show ?thesis using a m q by (simp add: io_bind_def)
  next
    case (Inr y)
    then show ?thesis using a m q leaves_Inl [OF assms(2), of y lo1 t lo'] by (simp add: io_bind_def)
  qed
qed

lemma leaves_make:
  assumes "\<And>ch lo. (\<exists>y. f ch lo = (Inr (ch, y), lo)) \<or>
    (\<exists>t. f ch lo = (Inl t, lo\<lparr>lo_closed := lo_closed lo @ [ch], lo_session := fl_gst_session_cancel (lo_session lo)\<rparr>))"
  shows "leaves (\<lambda>(ch, _). [ch]) (io_bind (make_channel t answer) f)"
proof (rule leavesI)
  fix lo x lo'
  assume "io_bind (make_channel t answer) f lo = (Inr x, lo')"
  then show "lo_made lo' = lo_made lo @ (case x of (ch, _) \<Rightarrow> [ch]) \<and> lo_closed lo' = lo_closed lo"
    using assms [of "the (snd answer)" "lo\<lparr>lo_made := lo_made lo @ [the (snd answer)]\<rparr>"]
    by (cases answer) (auto simp: io_bind_iff make_channel_def lo_fail_def split: if_splits)
next
  fix lo e lo'
  assume "io_bind (make_channel t answer) f lo = (Inl e, lo')"
  then show "gs_cancelled (lo_session lo') \<and> (\<exists>chs. lo_made lo' = lo_made lo @ chs \<and> lo_closed lo' = lo_closed lo @ chs)"
    using assms [of "the (snd answer)" "lo\<lparr>lo_made := lo_made lo @ [the (snd answer)]\<rparr>"]
    by (cases answer) (auto simp: io_bind_def make_channel_def lo_fail_def split: if_splits)
qed

lemma leaves_video: "leaves (\<lambda>(ch, _). [ch]) (local_video env p e c pool flags st)"
proof (cases p)
  case True
  have v: "leaves (\<lambda>(ch, _). [ch]) (io_bind (make_channel t answer) (\<lambda>ch. io_bind (or_close ch u m st1) (\<lambda>(_, st2). return_io (ch, st2))))" for t answer u m st1
    by (rule leaves_make) (auto simp: io_bind_def or_close_def close_channel_def lo_fail_def return_io_def split: prod.splits sum.splits)
  show ?thesis unfolding local_video_def Let_def if_not_P [OF not_not [THEN iffD2, OF True]]
  proof (rule leaves_bind [OF quiet_prims(5)])
    fix x :: "unit \<times> Stream"
    show "leaves (\<lambda>(ch, _). [ch]) (case x of (_, st1) \<Rightarrow> io_bind (make_channel ''cannot attach producer video channel'' (attach_loop (le_opens env))) (\<lambda>ch.
      io_bind (or_close ch ''video attach confirmation failed'' (write_io [0x50]) st1) (\<lambda>(_, st2). return_io (ch, st2))))"
      by (cases x) (simp only: prod.case v)
  qed
next
  case False
  have "leaves (\<lambda>(ch, _). [ch]) (io_bind (make_channel t answer) (\<lambda>ch. io_bind (or_close ch u m st1) (\<lambda>(_, st2).
      io_bind (or_close ch u' m' st2) (\<lambda>(_, st3). return_io (ch, st3)))))" for t answer u m st1 u' m'
    by (rule leaves_make) (auto simp: io_bind_def or_close_def close_channel_def lo_fail_def return_io_def split: prod.splits sum.splits)
  then show ?thesis unfolding local_video_def Let_def if_P [OF False] .
qed

abbreviation lease :: "nat option \<times> 'a \<Rightarrow> nat list" where
  "lease x \<equiv> (case fst x of None \<Rightarrow> [] | Some ch \<Rightarrow> [ch])"

lemma leaves_none: "leaves lease (return_io (None, st))"
  by (rule leavesI) (auto simp: return_io_def)

lemma leaves_some: "leaves (\<lambda>(ch, _). [ch]) m \<Longrightarrow> leaves lease (io_bind m (\<lambda>(ch, st). return_io (Some ch, st)))"
proof (rule leavesI)
  assume m: "leaves (\<lambda>(ch, _). [ch]) m"
  fix lo lo'
  show "lo_made lo' = lo_made lo @ lease x \<and> lo_closed lo' = lo_closed lo" if "io_bind m (\<lambda>(ch, st). return_io (Some ch, st)) lo = (Inr x, lo')" for x
    using that leaves_Inr [OF m, of lo] by (auto simp: io_bind_iff return_io_iff split: prod.splits)
  show "gs_cancelled (lo_session lo') \<and> (\<exists>chs. lo_made lo' = lo_made lo @ chs \<and> lo_closed lo' = lo_closed lo @ chs)"
    if "io_bind m (\<lambda>(ch, st). return_io (Some ch, st)) lo = (Inl t, lo')" for t
    using that leaves_Inl [OF m, of lo] by (auto simp: io_bind_def return_io_def split: prod.splits sum.splits)
qed

lemma owner_scope_eq: "owner_scope env m lo = (r, lo') \<Longrightarrow>
   \<exists>lo1. m (lo\<lparr>lo_owner := \<lparr>ro_impl = None\<rparr>\<rparr>) = (r, lo1) \<and> lo_made lo' = lo_made lo1 \<and> lo_closed lo' = lo_closed lo1 \<and> lo_session lo' = lo_session lo1 \<and>
     ro_impl (lo_owner lo') = None"
  by (auto simp: owner_scope_def rv_close_def Let_def split: prod.splits option.splits)

lemma leaves_scope:
  assumes "leaves sel m"
  shows "leaves sel (owner_scope env m)"
proof (rule leavesI)
  fix lo lo'
  show "lo_made lo' = lo_made lo @ sel x \<and> lo_closed lo' = lo_closed lo" if "owner_scope env m lo = (Inr x, lo')" for x
    using owner_scope_eq [OF that] leaves_Inr [OF assms] by fastforce
  show "gs_cancelled (lo_session lo') \<and> (\<exists>chs. lo_made lo' = lo_made lo @ chs \<and> lo_closed lo' = lo_closed lo @ chs)"
    if "owner_scope env m lo = (Inl t, lo')" for t
    using owner_scope_eq [OF that] leaves_Inl [OF assms] by fastforce
qed

lemma leaves_open: "leaves lease (fl_gst_session_open_local_av_epoch env p path local vq pool qms t idle flags)"
  unfolding fl_gst_session_open_local_av_epoch_def
  by (intro leaves_bind leaves_scope quiet_prims quiet_endpoint quiet_steps quiet_clock quiet_streams) (auto intro: leaves_none leaves_some leaves_video)


text \<open>
  A setup leaves nothing half open.  Whatever the peer, the network, the clock, the rendezvous directory and the channel functions do: when the call
  fails, the coordinator is cancelled and every video channel that was created or attached on the way has been closed;
  when it succeeds, it hands out the one channel it made, or none for a session without video, and has closed none.  In
  both cases it no longer owns the rendezvous record.
\<close>
theorem open_local_outcome:
  assumes "fl_gst_session_open_local_av_epoch env producer path local videoQueue pool queueMs timeout idle flags lo = (r, lo')"
    "lo_made lo = []" "lo_closed lo = []" "ro_impl (lo_owner lo) = None"
  shows "ro_impl (lo_owner lo') = None \<and>
    (case r of Inl _ \<Rightarrow> gs_cancelled (lo_session lo') \<and> lo_closed lo' = lo_made lo'
     | Inr (channel, _) \<Rightarrow> lo_closed lo' = [] \<and> lo_made lo' = (case channel of None \<Rightarrow> [] | Some ch \<Rightarrow> [ch]))"
proof
  show "ro_impl (lo_owner lo') = None"
    using assms(1,4) unfolding fl_gst_session_open_local_av_epoch_def
    by (auto simp: io_bind_def lo_require_def lo_some_def lo_fail_def return_io_def dest!: owner_scope_eq split: if_splits option.splits)
  show "case r of Inl _ \<Rightarrow> gs_cancelled (lo_session lo') \<and> lo_closed lo' = lo_made lo'
     | Inr (channel, _) \<Rightarrow> lo_closed lo' = [] \<and> lo_made lo' = (case channel of None \<Rightarrow> [] | Some ch \<Rightarrow> [ch])"
    using assms(1-3) leaves_Inr [OF leaves_open] leaves_Inl [OF leaves_open] by (fastforce split: sum.splits)
qed

theorem open_local_outcome_witness:
  "gs_cancelled (lo_session (snd (fl_gst_session_open_local_av_epoch example_local True ''/run/fl'' example_caps2 4 4 100 100 100 0 example_state)))"
proof -
  obtain r lo' where r: "fl_gst_session_open_local_av_epoch example_local True ''/run/fl'' example_caps2 4 4 100 100 100 0 example_state = (r, lo')"
    by (cases "fl_gst_session_open_local_av_epoch example_local True ''/run/fl'' example_caps2 4 4 100 100 100 0 example_state")
  have "isl (fst (fl_gst_session_open_local_av_epoch example_local True ''/run/fl'' example_caps2 4 4 100 100 100 0 example_state))" by code_simp
  then obtain e where e: "r = Inl e" using r by (cases r) auto
  have "lo_made example_state = []" "lo_closed example_state = []" "ro_impl (lo_owner example_state) = None" by (simp_all add: example_state_def)
  from open_local_outcome [OF r this] show ?thesis by (simp add: r e)
qed

end
