(* ===== verification/FL_Slots.thy ===== *)
theory FL_Slots
  imports FL_Prelude
begin

text \<open>
  Slot sets: \<^verbatim>\<open>src/framelink_slots.cpp\<close>.  A producer tries the channels \<^verbatim>\<open>prefix.0\<close>, \<^verbatim>\<open>prefix.1\<close>, \<dots> in turn and sweeps
  again every 200 ms until its deadline.  The function is written against the public interface: the answer of
  \<^verbatim>\<open>flOpenProducer\<close> for a name in the \<open>k\<close>-th sweep, the effect of \<^verbatim>\<open>flRequestGeometry\<close> on a channel and the clock reading
  after each sweep are arguments.
\<close>

section \<open>Search\<close>

text \<open>\<^verbatim>\<open>std::to_string\<close> of an unsigned number.\<close>
fun to_string :: "nat \<Rightarrow> string" where
  "to_string n = (if n < 10 then [char_of (48 + n)] else to_string (n div 10) @ [char_of (48 + n mod 10)])"

declare to_string.simps [simp del]

definition slot_name :: "string \<Rightarrow> nat \<Rightarrow> string" where
  "slot_name prefix i = prefix @ ''.'' @ to_string i"

text \<open>The inner loop over the remaining slots: a final answer, or whether any slot was occupied.\<close>
fun sweep :: "(string \<Rightarrow> flResult \<times> 'c) \<Rightarrow> string \<Rightarrow> nat list \<Rightarrow> bool \<Rightarrow> (flResult \<times> (nat \<times> 'c) option) + bool" where
  "sweep open_producer prefix [] anyExisted = Inr anyExisted"
| "sweep open_producer prefix (i # is) anyExisted =
     (case open_producer (slot_name prefix i) of
        (r, ch) \<Rightarrow>
          if r = FL_BUSY then sweep open_producer prefix is True
          else if r = FL_NOT_FOUND then sweep open_producer prefix is anyExisted
          else if r \<noteq> FL_OK then Inl (r, None)
          else Inl (FL_OK, Some (i, ch)))"

partial_function (option) slot_loop ::
  "(nat \<Rightarrow> string \<Rightarrow> flResult \<times> 'c) \<Rightarrow> (nat \<Rightarrow> nat) \<Rightarrow> nat \<Rightarrow> string \<Rightarrow> nat \<Rightarrow> nat \<Rightarrow> (flResult \<times> (nat \<times> 'c) option \<times> nat) option" where
  "slot_loop opens clock deadline prefix slots k =
     (case sweep (opens k) prefix [0..<slots] False of
        Inl (r, found) \<Rightarrow> Some (r, found, k)
      | Inr anyExisted \<Rightarrow>
          if clock k \<ge> deadline then Some (if anyExisted then FL_BUSY else FL_NOT_FOUND, None, k)
          else slot_loop opens clock deadline prefix slots (Suc k))"

text \<open>
  The result with what was stored through \<^verbatim>\<open>out\<close> and \<^verbatim>\<open>slotIndex\<close>, and the number of the last sweep; \<open>start\<close> is the clock
  reading at the call, \<open>None\<close> a call that does not return.
\<close>
definition flOpenProducerSlot ::
  "(nat \<Rightarrow> string \<Rightarrow> flResult \<times> 'c) \<Rightarrow> ('c \<Rightarrow> u32 \<Rightarrow> u32 \<Rightarrow> u32 \<Rightarrow> 'c) \<Rightarrow> (nat \<Rightarrow> nat) \<Rightarrow> nat \<Rightarrow>
   string option \<Rightarrow> u32 \<Rightarrow> u32 \<Rightarrow> u32 \<Rightarrow> u32 \<Rightarrow> u32 \<Rightarrow> 'c option option \<Rightarrow> u32 option \<Rightarrow> (flResult \<times> 'c option option \<times> u32 option \<times> nat) option" where
  "flOpenProducerSlot opens request clock start prefix slots width height format timeoutMs out slotIndex =
     (if prefix = None \<or> slots = 0 \<or> out = None then Some (FL_INVALID, out, slotIndex, 0)
      else case slot_loop opens clock (start + unat timeoutMs) (the prefix) (unat slots) 0 of
        None \<Rightarrow> None
      | Some (r, None, k) \<Rightarrow> Some (r, Some None, slotIndex, k)
      | Some (r, Some (i, ch), k) \<Rightarrow>
          Some (r, Some (Some (if width \<noteq> 0 \<and> height \<noteq> 0 then request ch width height format else ch)), assign slotIndex (of_nat i), k))"

section \<open>Lemmas\<close>

lemma digit_inj: "d < 10 \<Longrightarrow> e < 10 \<Longrightarrow> (char_of (48 + d) :: char) = char_of (48 + e) \<Longrightarrow> d = (e :: nat)"
proof -
  assume a: "d < 10" "e < 10" "(char_of (48 + d) :: char) = char_of (48 + e)"
  then have "(of_char (char_of (48 + d) :: char) :: nat) = of_char (char_of (48 + e) :: char)" by simp
  then show "d = e" using a(1,2) by simp
qed

lemma to_string_nonempty [simp]: "to_string n \<noteq> []" "[] \<noteq> to_string n"
  by (subst to_string.simps, simp)+

lemma to_string_inj: "to_string m = to_string n \<Longrightarrow> m = n"
proof (induction m arbitrary: n rule: less_induct)
  case (less m)
  have last: "last (to_string x) = char_of (48 + x mod 10)" "butlast (to_string x) = (if x < 10 then [] else to_string (x div 10))" for x
    by (subst to_string.simps, simp)+
  have d: "m mod 10 = n mod 10" using less.prems last(1) [of m] last(1) [of n] digit_inj [of "m mod 10" "n mod 10"] by simp
  have b: "(if m < 10 then [] else to_string (m div 10)) = (if n < 10 then [] else to_string (n div 10))"
    using less.prems last(2) [of m] last(2) [of n] by simp
  show ?case
  proof (cases "m < 10 \<or> n < 10")
    case True
    then have "m < 10 \<and> n < 10" using b by (auto split: if_splits)
    then show ?thesis using d by simp
  next
    case False
    then have "m div 10 = n div 10" using b less.IH [of "m div 10"] by simp
    then show ?thesis using d by (metis div_mult_mod_eq)
  qed
qed

lemma slot_name_inj: "slot_name p i = slot_name p j \<longleftrightarrow> i = j"
  using to_string_inj by (auto simp: slot_name_def)

abbreviation skipped :: "flResult \<times> 'c \<Rightarrow> bool" where
  "skipped a \<equiv> fst a = FL_BUSY \<or> fst a = FL_NOT_FOUND"

text \<open>The first slot whose answer ends the sweep, or none.\<close>
lemma sweep_spec:
  "sweep f p is b = (case find (\<lambda>i. \<not> skipped (f (slot_name p i))) is of
     None \<Rightarrow> Inr (b \<or> (\<exists>i \<in> set is. fst (f (slot_name p i)) = FL_BUSY))
   | Some i \<Rightarrow> Inl (fst (f (slot_name p i)), if fst (f (slot_name p i)) = FL_OK then Some (i, snd (f (slot_name p i))) else None))"
  by (induction f p "is" b rule: sweep.induct) (auto split: prod.splits option.splits)

lemma find_upt: "find P [0..<n] = Some i \<Longrightarrow> i < n \<and> P i \<and> (\<forall>j < i. \<not> P j)"
  by (auto simp: find_Some_iff)

text \<open>What the last sweep \<open>k\<close> saw when the search ends.\<close>
definition slot_outcome :: "(nat \<Rightarrow> string \<Rightarrow> flResult \<times> 'c) \<Rightarrow> (nat \<Rightarrow> nat) \<Rightarrow> nat \<Rightarrow> string \<Rightarrow> nat \<Rightarrow> flResult \<times> (nat \<times> 'c) option \<times> nat \<Rightarrow> bool" where
  "slot_outcome opens clock deadline p n y \<longleftrightarrow>
     (case y of (r, found, k) \<Rightarrow>
        (\<exists>i < n. (\<forall>j < i. skipped (opens k (slot_name p j))) \<and> \<not> skipped (opens k (slot_name p i)) \<and> r = fst (opens k (slot_name p i)) \<and>
           found = (if r = FL_OK then Some (i, snd (opens k (slot_name p i))) else None)) \<or>
        (\<forall>i < n. skipped (opens k (slot_name p i))) \<and> deadline \<le> clock k \<and> found = None \<and>
          r = (if \<exists>i < n. fst (opens k (slot_name p i)) = FL_BUSY then FL_BUSY else FL_NOT_FOUND))"

lemma slot_loop_ends:
  assumes "(\<exists>i < n. \<not> skipped (opens k (slot_name p i))) \<or> deadline \<le> clock k"
  shows "\<exists>r found. slot_loop opens clock deadline p n k = Some (r, found, k) \<and> slot_outcome opens clock deadline p n (r, found, k)"
proof (cases "find (\<lambda>i. \<not> skipped (opens k (slot_name p i))) [0..<n]")
  case None
  then have a: "\<forall>i < n. skipped (opens k (slot_name p i))" by (auto simp: find_None_iff)
  have "sweep (opens k) p [0..<n] False = Inr (\<exists>i < n. fst (opens k (slot_name p i)) = FL_BUSY)"
    unfolding sweep_spec None by auto
  moreover have "deadline \<le> clock k" using a assms by blast
  ultimately have "slot_loop opens clock deadline p n k =
      Some (if \<exists>i < n. fst (opens k (slot_name p i)) = FL_BUSY then FL_BUSY else FL_NOT_FOUND, None, k)"
    by (subst slot_loop.simps) simp
  with a \<open>deadline \<le> clock k\<close> show ?thesis by (simp add: slot_outcome_def)
next
  case (Some i)
  have "slot_loop opens clock deadline p n k =
      Some (fst (opens k (slot_name p i)), if fst (opens k (slot_name p i)) = FL_OK then Some (i, snd (opens k (slot_name p i))) else None, k)"
    by (subst slot_loop.simps) (simp only: sweep_spec Some option.case sum.case prod.case)
  with find_upt [OF Some] show ?thesis by (auto simp: slot_outcome_def)
qed

lemma slot_loop_again:
  "\<forall>i < n. skipped (opens k (slot_name p i)) \<Longrightarrow> clock k < deadline \<Longrightarrow>
   slot_loop opens clock deadline p n k = slot_loop opens clock deadline p n (Suc k)"
proof -
  assume a: "\<forall>i < n. skipped (opens k (slot_name p i))" "clock k < deadline"
  then have "find (\<lambda>i. \<not> skipped (opens k (slot_name p i))) [0..<n] = None" by (auto simp: find_None_iff)
  then have "sweep (opens k) p [0..<n] False = Inr (\<exists>i \<in> set [0..<n]. fst (opens k (slot_name p i)) = FL_BUSY)" unfolding sweep_spec by simp
  then show ?thesis using a(2) by (subst slot_loop.simps) simp
qed

lemma slot_loop_returns:
  assumes "\<forall>k. start + 200 * k \<le> clock k" "k \<le> (deadline - start) div 200 + 1"
  shows "\<exists>r found k'. slot_loop opens clock deadline p n k = Some (r, found, k') \<and> slot_outcome opens clock deadline p n (r, found, k') \<and>
    k' \<le> (deadline - start) div 200 + 1"
  using assms(2)
proof (induction "(deadline - start) div 200 + 1 - k" arbitrary: k)
  case 0
  then have "200 * ((deadline - start) div 200 + 1) \<le> 200 * k" by simp
  then have "deadline - start \<le> 200 * k" using dividend_less_times_div [of 200 "deadline - start"] by simp
  then have "deadline \<le> clock k" using assms(1) [rule_format, of k] by simp
  then show ?case using slot_loop_ends [of n opens k p deadline clock] 0 by blast
next
  case (Suc d)
  then have k: "Suc k \<le> (deadline - start) div 200 + 1" "d = (deadline - start) div 200 + 1 - Suc k" by linarith+
  show ?case
  proof (cases "(\<exists>i < n. \<not> skipped (opens k (slot_name p i))) \<or> deadline \<le> clock k")
    case True
    then show ?thesis using slot_loop_ends [of n opens k p deadline clock] Suc.prems by blast
  next
    case False
    then have "slot_loop opens clock deadline p n k = slot_loop opens clock deadline p n (Suc k)" by (intro slot_loop_again) auto
    then show ?thesis using Suc.hyps(1) [OF k(2,1)] by simp
  qed
qed

section \<open>Properties\<close>



end
