(* ===== verification/FL_AudioTimeline.thy ===== *)
theory FL_AudioTimeline
  imports FL_Session
begin

text \<open>
  The audio continuity check of the playback sample: \<^verbatim>\<open>samples/audio_timeline.h\<close>.  A pad probe sees every event and PCM block and
  lets a block pass only if its timestamp and duration are exactly those of the next samples at the negotiated rate.  The
  conversion of timestamps by a segment is GStreamer's, here the function that comes with the segment event; clock
  readings and whether the observer threw come from the environment.
\<close>

section \<open>State and probe\<close>

abbreviation CLOCK_TIME_NONE :: u64 where "CLOCK_TIME_NONE \<equiv> UINT64_MAX"

record AudioTimeline =
  at_deliveryBase :: u64
  at_lateBlocks :: u64
  at_consecutiveLate :: u64
  at_exhausted :: bool
  at_arrivalDrift :: i64
  at_resetArrival :: bool
  at_firstArrival :: u64
  at_firstMedia :: u64
  at_blocks :: u64
  at_samplesEnd :: u64
  at_originNs :: u64
  at_invalid :: bool
  at_eos :: bool
  at_rate :: u32
  at_channels :: u32
  at_segment :: "(u64 \<Rightarrow> u64) option"

record PcmBuffer =
  pb_pts :: u64
  pb_size :: u64
  pb_duration :: u64

text \<open>What the probe is called with; a segment comes with whether it is a plain time segment at rate one.\<close>
datatype ProbeInfo = ProbeEos | ProbeSegment bool "u64 \<Rightarrow> u64" | ProbeEvent | ProbeNothing | ProbeBuffer PcmBuffer

record ProbeEnv =
  pe_arrival :: u64
  pe_now :: u64
  pe_threw :: bool

definition new_timeline_audio :: "u32 \<Rightarrow> u32 \<Rightarrow> AudioTimeline" where
  "new_timeline_audio rate channels =
     \<lparr>at_deliveryBase = 0, at_lateBlocks = 0, at_consecutiveLate = 0, at_exhausted = False, at_arrivalDrift = 0, at_resetArrival = False,
      at_firstArrival = 0, at_firstMedia = 0, at_blocks = 0, at_samplesEnd = 0, at_originNs = CLOCK_TIME_NONE, at_invalid = False, at_eos = False,
      at_rate = rate, at_channels = channels, at_segment = None\<rparr>"

definition pcm_frame_bytes :: "AudioTimeline \<Rightarrow> u64" where
  "pcm_frame_bytes t = ucast (2 * at_channels t)"

definition block_count :: "AudioTimeline \<Rightarrow> PcmBuffer \<Rightarrow> u64" where
  "block_count t b = pb_size b div pcm_frame_bytes t"

text \<open>The condition on size, time and duration, with the origin already taken.\<close>
definition block_invalid :: "AudioTimeline \<Rightarrow> u64 \<Rightarrow> PcmBuffer \<Rightarrow> bool" where
  "block_invalid t media b \<longleftrightarrow>
     (let first = at_samplesEnd t; origin = at_originNs t;
          (r1, expected) = flSessionSampleOffset first (at_rate t) (Some 0);
          (r2, nxt) = flSessionSampleOffset (first + block_count t b) (at_rate t) (Some 0)
      in origin = CLOCK_TIME_NONE \<or> pb_size b mod pcm_frame_bytes t \<noteq> 0 \<or> r1 \<noteq> FL_SESSION_OK \<or> r2 \<noteq> FL_SESSION_OK \<or>
         the nxt > CLOCK_TIME_NONE - 1 - origin \<or> media \<noteq> origin + the expected \<or> pb_duration b \<noteq> the nxt - the expected)"

definition take_origin :: "u64 \<Rightarrow> AudioTimeline \<Rightarrow> AudioTimeline" where
  "take_origin media t = (if at_samplesEnd t = 0 \<and> at_originNs t = CLOCK_TIME_NONE then t\<lparr>at_originNs := media\<rparr> else t)"

definition note_arrival :: "u64 \<Rightarrow> u64 \<Rightarrow> AudioTimeline \<Rightarrow> AudioTimeline" where
  "note_arrival arrival media t =
     (let t1 = t\<lparr>at_resetArrival := False\<rparr>;
          t2 = (if at_resetArrival t \<or> at_firstArrival t = 0 then t1\<lparr>at_firstArrival := arrival, at_firstMedia := media\<rparr> else t1)
      in t2\<lparr>at_arrivalDrift := (arrival - at_firstArrival t2) - (media - at_firstMedia t2)\<rparr>)"

text \<open>Lateness against the delivery base, once there is one; \<open>None\<close> when the due time does not fit.\<close>
definition note_late :: "u64 \<Rightarrow> u64 \<Rightarrow> AudioTimeline \<Rightarrow> AudioTimeline option" where
  "note_late now media t =
     (let base = at_deliveryBase t
      in if base = 0 then Some t
         else if media > CLOCK_TIME_NONE - 1 - base then None
         else
           let due = base + media
           in if now > due \<and> now - due > 100000000
              then Some (t\<lparr>at_lateBlocks := at_lateBlocks t + 1, at_consecutiveLate := at_consecutiveLate t + 1,
                     at_exhausted := at_exhausted t \<or> at_consecutiveLate t + 1 \<ge> 3\<rparr>)
              else Some (t\<lparr>at_consecutiveLate := 0\<rparr>))"

definition track_block :: "ProbeEnv \<Rightarrow> PcmBuffer \<Rightarrow> AudioTimeline \<Rightarrow> bool \<times> AudioTimeline" where
  "track_block env b t =
     (let media = (case at_segment t of None \<Rightarrow> CLOCK_TIME_NONE | Some conv \<Rightarrow> conv (pb_pts b))
      in if media = CLOCK_TIME_NONE then (False, t\<lparr>at_invalid := True\<rparr>)
         else
           let t1 = take_origin media t;
               t2 = (if block_invalid t1 media b then t1\<lparr>at_invalid := True\<rparr> else t1)
           in if at_invalid t2 then (False, t2)
              else if pe_threw env then (False, t2\<lparr>at_invalid := True\<rparr>)
              else
                let t3 = note_arrival (pe_arrival env) media t2
                in case note_late (pe_now env) media t3 of
                     None \<Rightarrow> (False, t3\<lparr>at_invalid := True\<rparr>)
                   | Some t4 \<Rightarrow> (True, t4\<lparr>at_samplesEnd := at_samplesEnd t + block_count t b, at_blocks := at_blocks t4 + 1\<rparr>))"

definition trackAudio :: "ProbeEnv \<Rightarrow> ProbeInfo \<Rightarrow> AudioTimeline \<Rightarrow> bool \<times> AudioTimeline" where
  "trackAudio env info t =
     (case info of
        ProbeEos \<Rightarrow> (True, t\<lparr>at_eos := True\<rparr>)
      | ProbeSegment ok conv \<Rightarrow> if \<not> ok then (False, t\<lparr>at_invalid := True\<rparr>) else (True, t\<lparr>at_segment := Some conv\<rparr>)
      | ProbeEvent \<Rightarrow> (True, t)
      | ProbeNothing \<Rightarrow> (True, t)
      | ProbeBuffer b \<Rightarrow> track_block env b t)"

section \<open>Runs\<close>

text \<open>The probe's calls, interleaved with what the receiver thread stores.\<close>
datatype TimelineStep = TsProbe ProbeEnv ProbeInfo | TsBase u64 | TsReset

text \<open>The blocks that passed, as running time and sample count.\<close>
definition passed :: "bool \<Rightarrow> ProbeInfo \<Rightarrow> AudioTimeline \<Rightarrow> (u64 \<times> u64) list" where
  "passed ok info t = (case info of ProbeBuffer b \<Rightarrow> if ok then [(the (at_segment t) (pb_pts b), block_count t b)] else [] | _ \<Rightarrow> [])"

fun audio_run :: "TimelineStep list \<Rightarrow> AudioTimeline \<Rightarrow> (u64 \<times> u64) list \<times> AudioTimeline" where
  "audio_run [] t = ([], t)"
| "audio_run (TsBase v # ss) t = audio_run ss (t\<lparr>at_deliveryBase := v\<rparr>)"
| "audio_run (TsReset # ss) t = audio_run ss (t\<lparr>at_resetArrival := True\<rparr>)"
| "audio_run (TsProbe env info # ss) t =
     (let (ok, t1) = trackAudio env info t; (acc, t2) = audio_run ss t1
      in (passed ok info t @ acc, t2))"

definition sample_time :: "u32 \<Rightarrow> nat \<Rightarrow> nat" where
  "sample_time rate n = n * 10 ^ 9 div unat rate"

text \<open>The blocks tile the timeline from sample \<open>n\<close> on.\<close>
fun tiles :: "u32 \<Rightarrow> nat \<Rightarrow> nat \<Rightarrow> (u64 \<times> u64) list \<Rightarrow> bool" where
  "tiles rate origin n [] = True"
| "tiles rate origin n ((media, count) # bs) \<longleftrightarrow> unat media = origin + sample_time rate n \<and> tiles rate origin (n + unat count) bs"

definition pcm_ok :: "AudioTimeline \<Rightarrow> bool" where
  "pcm_ok t \<longleftrightarrow> 8000 \<le> at_rate t \<and> at_rate t \<le> 192000 \<and> at_channels t \<noteq> 0 \<and> at_channels t < 0x80000000"

section \<open>Lemmas\<close>

lemma unat_bound64: "unat (w :: u64) < 2 ^ 64"
  using unsigned_less [of w, where ?'a = nat] by simp

lemma none_minus: "(w :: u64) \<noteq> CLOCK_TIME_NONE \<Longrightarrow> unat (CLOCK_TIME_NONE - 1 - w) = 2 ^ 64 - 2 - unat w"
proof -
  assume "w \<noteq> CLOCK_TIME_NONE"
  have M: "unat UINT64_MAX = 2 ^ 64 - 1" by (simp add: unsigned_minus_1_eq_mask mask_eq_exp_minus_1)
  have M1: "unat (UINT64_MAX - 1 :: u64) = 2 ^ 64 - 2" by simp
  have "unat w \<noteq> 2 ^ 64 - 1" using \<open>w \<noteq> CLOCK_TIME_NONE\<close> M by (metis unsigned_word_eqI)
  then have "unat w \<le> unat (UINT64_MAX - 1 :: u64)" using unat_bound64 [of w] M1 by linarith
  then have "unat (UINT64_MAX - 1 - w) = unat (UINT64_MAX - 1 :: u64) - unat w" by (intro unat_sub) (simp add: word_le_nat_alt)
  then show ?thesis using M1 by simp
qed

lemma sample_offset:
  assumes "pcm_ok t" "flSessionSampleOffset n (at_rate t) (Some 0) = (FL_SESSION_OK, x)"
  shows "unat (the x) = sample_time (at_rate t) (unat n)" "sample_time (at_rate t) (unat n) < 2 ^ 63"
proof -
  have s: "flSessionSampleOffset n (at_rate t) (Some 0) =
      (if sample_time (at_rate t) (unat n) < 2 ^ 63 then (FL_SESSION_OK, Some (of_nat (sample_time (at_rate t) (unat n)))) else (FL_SESSION_TIME_RANGE, Some 0))"
    using sampleOffset_spec [of "at_rate t" n 0] assms(1) by (simp add: pcm_ok_def sample_time_def)
  show lt: "sample_time (at_rate t) (unat n) < 2 ^ 63" using assms(2) by (auto simp: s split: if_splits)
  then show "unat (the x) = sample_time (at_rate t) (unat n)" using assms(2) by (auto simp: s unat_of_nat take_bit_eq_mod)
qed

lemma sample_time_mono: "m \<le> n \<Longrightarrow> sample_time r m \<le> sample_time r n"
  by (simp add: sample_time_def div_le_mono)

lemma sample_bound:
  assumes "sample_time r n < 2 ^ 63" "unat r \<le> 192000" "unat r \<noteq> 0"
  shows "n < 2 ^ 63"
proof -
  have "n * 10 ^ 9 < 2 ^ 63 * unat r" using assms(1,3) by (simp add: sample_time_def div_less_iff_less_mult)
  also have "\<dots> \<le> 2 ^ 63 * 192000" using assms(2) by simp
  finally show ?thesis by simp
qed

lemma block_count_bound: "pcm_ok t \<Longrightarrow> unat (block_count t b) < 2 ^ 63"
proof -
  assume p: "pcm_ok t"
  then have "unat (2 * at_channels t) = 2 * unat (at_channels t)" by (simp add: pcm_ok_def unat_word_ariths word_less_nat_alt)
  moreover have "unat (at_channels t) \<noteq> 0" using p by (simp add: pcm_ok_def unat_eq_0)
  ultimately have "2 \<le> unat (pcm_frame_bytes t)" by (simp add: pcm_frame_bytes_def)
  then have "unat (pb_size b) div unat (pcm_frame_bytes t) \<le> unat (pb_size b) div 2" by (rule div_le_mono2 [rotated]) simp
  moreover have "unat (pb_size b) < 2 ^ 64" by (rule unat_bound64)
  ultimately show ?thesis by (simp add: block_count_def unat_div)
qed

lemma note_arrival_fields [simp]:
  "at_samplesEnd (note_arrival a m t) = at_samplesEnd t" "at_originNs (note_arrival a m t) = at_originNs t" "at_rate (note_arrival a m t) = at_rate t"
  "at_channels (note_arrival a m t) = at_channels t" "at_invalid (note_arrival a m t) = at_invalid t" "at_blocks (note_arrival a m t) = at_blocks t"
  by (simp_all add: note_arrival_def Let_def)

lemma note_late_fields:
  "note_late now m t = Some t' \<Longrightarrow> at_samplesEnd t' = at_samplesEnd t \<and> at_originNs t' = at_originNs t \<and> at_rate t' = at_rate t \<and>
     at_channels t' = at_channels t \<and> at_invalid t' = at_invalid t \<and> at_blocks t' = at_blocks t"
  by (auto simp: note_late_def Let_def split: if_splits)

text \<open>An accepted block continues exactly where the last one ended.\<close>
lemma track_block_ok:
  assumes "track_block env b t = (True, t')" "pcm_ok t" "at_samplesEnd t \<noteq> 0 \<longrightarrow> at_originNs t \<noteq> CLOCK_TIME_NONE"
  shows "\<not> at_invalid t" "unat (the (at_segment t) (pb_pts b)) = unat (at_originNs t') + sample_time (at_rate t) (unat (at_samplesEnd t))"
    "unat (at_samplesEnd t') = unat (at_samplesEnd t) + unat (block_count t b)" "at_originNs t' \<noteq> CLOCK_TIME_NONE"
    "at_originNs t \<noteq> CLOCK_TIME_NONE \<longrightarrow> at_originNs t' = at_originNs t" "pcm_ok t'" "at_rate t' = at_rate t" "at_blocks t' = at_blocks t + 1"
proof -
  obtain conv where seg: "at_segment t = Some conv" using assms(1) by (auto simp: track_block_def split: option.splits)
  let ?m = "conv (pb_pts b)" and ?t1 = "take_origin (conv (pb_pts b)) t"
  have m: "?m \<noteq> CLOCK_TIME_NONE" using assms(1) seg by (auto simp: track_block_def)
  have ok: "\<not> block_invalid ?t1 ?m b" "\<not> at_invalid ?t1" using assms(1) seg m by (auto simp: track_block_def Let_def split: if_splits)
  obtain t4 where t4: "note_late (pe_now env) ?m (note_arrival (pe_arrival env) ?m ?t1) = Some t4"
    "t' = t4\<lparr>at_samplesEnd := at_samplesEnd t + block_count t b, at_blocks := at_blocks t4 + 1\<rparr>"
    using assms(1) seg m ok by (auto simp: track_block_def Let_def split: if_splits option.splits)
  note f4 = note_late_fields [OF t4(1)]
  have f1: "at_samplesEnd ?t1 = at_samplesEnd t" "at_rate ?t1 = at_rate t" "at_channels ?t1 = at_channels t" "at_invalid ?t1 = at_invalid t"
    "at_blocks ?t1 = at_blocks t" "block_count ?t1 b = block_count t b" by (simp_all add: take_origin_def block_count_def pcm_frame_bytes_def)
  have p1: "pcm_ok ?t1" using assms(2) f1 by (simp add: pcm_ok_def)
  obtain x y where xy: "flSessionSampleOffset (at_samplesEnd t) (at_rate t) (Some 0) = (FL_SESSION_OK, x)"
    "flSessionSampleOffset (at_samplesEnd t + block_count t b) (at_rate t) (Some 0) = (FL_SESSION_OK, y)"
    "at_originNs ?t1 \<noteq> CLOCK_TIME_NONE" "\<not> the y > CLOCK_TIME_NONE - 1 - at_originNs ?t1" "?m = at_originNs ?t1 + the x"
    using ok(1) f1 by (auto simp: block_invalid_def Let_def split: prod.splits)
  note sx = sample_offset [OF assms(2) xy(1)] and sy = sample_offset [OF assms(2) xy(2)]
  have r: "unat (at_rate t) \<le> 192000" "unat (at_rate t) \<noteq> 0" using assms(2) by (auto simp: pcm_ok_def word_le_nat_alt)
  have n: "unat (at_samplesEnd t + block_count t b) = unat (at_samplesEnd t) + unat (block_count t b)"
    using sample_bound [OF sx(2) r] block_count_bound [OF assms(2), of b] by (intro unat_add64) simp
  have "sample_time (at_rate t) (unat (at_samplesEnd t)) \<le> unat (the y)" using sy(1) n sample_time_mono by simp
  moreover have "unat (at_originNs ?t1) + unat (the y) < 2 ^ 64"
  proof -
    have "unat (the y) \<le> 2 ^ 64 - 2 - unat (at_originNs ?t1)" using xy(4) none_minus [OF xy(3)] by (simp only: word_less_nat_alt not_less)
    then show ?thesis using sy(2) sy(1) unat_bound64 [of "at_originNs ?t1"] by linarith
  qed
  ultimately have e: "unat (at_originNs ?t1 + the x) = unat (at_originNs ?t1) + unat (the x)" using sx(1) by (intro unat_add64) linarith
  have "unat ?m = unat (at_originNs ?t1 + the x)" by (rule arg_cong [OF xy(5)])
  then have "unat ?m = unat (at_originNs ?t1) + sample_time (at_rate t) (unat (at_samplesEnd t))" using e sx(1) by linarith
  then show "unat (the (at_segment t) (pb_pts b)) = unat (at_originNs t') + sample_time (at_rate t) (unat (at_samplesEnd t))"
    using seg t4(2) f4 by simp
  show "\<not> at_invalid t" using ok(2) f1 by simp
  show "unat (at_samplesEnd t') = unat (at_samplesEnd t) + unat (block_count t b)" using n t4(2) by simp
  show "at_originNs t' \<noteq> CLOCK_TIME_NONE" using xy(3) t4(2) f4 by simp
  show "at_originNs t \<noteq> CLOCK_TIME_NONE \<longrightarrow> at_originNs t' = at_originNs t" using t4(2) f4 by (simp add: take_origin_def)
  show "pcm_ok t'" "at_rate t' = at_rate t" "at_blocks t' = at_blocks t + 1" using p1 t4(2) f4 f1 by (simp_all add: pcm_ok_def)
qed


lemma track_block_drop:
  assumes "track_block env b t = (False, t')" "pcm_ok t"
  shows "at_invalid t'" "at_samplesEnd t' = at_samplesEnd t" "pcm_ok t'" "at_rate t' = at_rate t" "at_blocks t' = at_blocks t"
    "at_originNs t \<noteq> CLOCK_TIME_NONE \<longrightarrow> at_originNs t' = at_originNs t"
  using assms
  by (auto simp: track_block_def take_origin_def pcm_ok_def Let_def split: if_splits option.splits dest: note_late_fields)

lemma track_event:
  "trackAudio env info t = (ok, t') \<Longrightarrow> \<forall>b. info \<noteq> ProbeBuffer b \<Longrightarrow>
   at_samplesEnd t' = at_samplesEnd t \<and> pcm_ok t' = pcm_ok t \<and> at_rate t' = at_rate t \<and> at_blocks t' = at_blocks t \<and> at_originNs t' = at_originNs t"
  by (auto simp: trackAudio_def pcm_ok_def split: ProbeInfo.splits if_splits)

text \<open>Once refused, always refused: no block passes an invalid timeline.\<close>
lemma invalid_stays: "at_invalid t \<Longrightarrow> at_invalid (snd (trackAudio env info t)) \<and> (\<forall>b. info = ProbeBuffer b \<longrightarrow> \<not> fst (trackAudio env info t))"
  by (auto simp: trackAudio_def track_block_def take_origin_def Let_def split: ProbeInfo.splits option.splits)

definition run_ok :: "AudioTimeline \<Rightarrow> (u64 \<times> u64) list \<Rightarrow> AudioTimeline \<Rightarrow> bool" where
  "run_ok t acc t' \<longleftrightarrow> tiles (at_rate t) (unat (at_originNs t')) (unat (at_samplesEnd t)) acc \<and>
     unat (at_samplesEnd t') = unat (at_samplesEnd t) + sum_list (map (unat \<circ> snd) acc) \<and> at_blocks t' = at_blocks t + of_nat (length acc) \<and>
     (at_originNs t \<noteq> CLOCK_TIME_NONE \<longrightarrow> at_originNs t' = at_originNs t) \<and> (at_invalid t \<longrightarrow> acc = [])"

lemma audio_run_ok:
  assumes "audio_run ss t = (acc, t')" "pcm_ok t" "at_samplesEnd t \<noteq> 0 \<longrightarrow> at_originNs t \<noteq> CLOCK_TIME_NONE"
  shows "run_ok t acc t'"
  using assms
proof (induction ss arbitrary: t acc)
  case (Cons x ss)
  show ?case
  proof (cases x)
    case (TsProbe env info)
    obtain ok t1 where p: "trackAudio env info t = (ok, t1)" by (cases "trackAudio env info t")
    obtain acc2 where r: "audio_run ss t1 = (acc2, t')" "acc = passed ok info t @ acc2"
      using Cons.prems(1) p TsProbe by (auto split: prod.splits)
    show ?thesis
    proof (cases "\<exists>b. info = ProbeBuffer b")
      case False
      note e = track_event [OF p]
      have "run_ok t1 acc2 t'" using Cons.IH [OF r(1)] e Cons.prems(2,3) False by auto
      moreover have "passed ok info t = []" using False by (cases info) (auto simp: passed_def)
      ultimately show ?thesis using e False invalid_stays [of t env info] p r(2) by (auto simp: run_ok_def)
    next
      case True
      then obtain b where b: "info = ProbeBuffer b" by blast
      have tb: "track_block env b t = (ok, t1)" using p b by (simp add: trackAudio_def)
      show ?thesis
      proof (cases ok)
        case True
        then have "track_block env b t = (True, t1)" using tb by simp
        note f = track_block_ok [OF this Cons.prems(2,3)]
        have ih: "run_ok t1 acc2 t'" using Cons.IH [OF r(1)] f by auto
        then have o: "at_originNs t' = at_originNs t1" using f(4) by (simp add: run_ok_def)
        show ?thesis using ih f o r(2) True b by (auto simp: run_ok_def passed_def)
      next
        case False
        then have "track_block env b t = (False, t1)" using tb by simp
        note f = track_block_drop [OF this Cons.prems(2)]
        have "at_samplesEnd t1 \<noteq> 0 \<longrightarrow> at_originNs t1 \<noteq> CLOCK_TIME_NONE" using f Cons.prems(3) by auto
        then have ih: "run_ok t1 acc2 t'" using Cons.IH [OF r(1)] f by auto
        show ?thesis using ih f r(2) False b by (auto simp: run_ok_def passed_def)
      qed
    qed
  next
    case (TsBase v)
    then show ?thesis using Cons.IH [of "t\<lparr>at_deliveryBase := v\<rparr>" acc] Cons.prems by (simp add: run_ok_def pcm_ok_def)
  next
    case TsReset
    then show ?thesis using Cons.IH [of "t\<lparr>at_resetArrival := True\<rparr>" acc] Cons.prems by (simp add: run_ok_def pcm_ok_def)
  qed
qed (auto simp: run_ok_def)

lemma invalid_run: "at_invalid t \<Longrightarrow> fst (audio_run ss t) = []"
proof (induction ss arbitrary: t)
  case (Cons x ss)
  show ?case
  proof (cases x)
    case (TsProbe env info)
    obtain ok t1 where p: "trackAudio env info t = (ok, t1)" by (cases "trackAudio env info t")
    have "at_invalid t1" "passed ok info t = []" using invalid_stays [OF Cons.prems, of env info] p by (cases info; auto simp: passed_def)+
    then show ?thesis using Cons.IH [of t1] TsProbe p by (auto split: prod.splits)
  qed (use Cons in auto)
qed simp

section \<open>Properties\<close>


definition example_pcm :: "u64 \<Rightarrow> TimelineStep" where
  "example_pcm pts = TsProbe \<lparr>pe_arrival = 5, pe_now = 5, pe_threw = False\<rparr> (ProbeBuffer \<lparr>pb_pts = pts, pb_size = 1920, pb_duration = 10000000\<rparr>)"


end
