(* ===== verification/FL_Agreement.thy ===== *)
theory FL_Agreement
  imports FL_Memory FL_Coordinator FL_Auth
begin

text \<open>
  The memory agreement of an authenticated session, \<^verbatim>\<open>samples/av_memory_agreement.cpp\<close>: the two ends exchange their offers (requirements, path and
  the digest that names the exact pool), prove knowledge of the session secret for the whole transcript, evaluate the boundary and
  confirm the outcome to each other.  Streams, the message authentication code and the random source are those of \<open>FL_Auth\<close>.
\<close>

section \<open>Offers\<close>

record MemoryOffer =
  mo_requirements :: flMemoryRequirements
  mo_path :: flMemoryPath
  mo_resourceBinding :: "u8 list"

definition agree_magic :: "u8 list" where
  "agree_magic = [0x46, 0x4C, 0x4D, 0x45, 0x4D, 0x4F, 0x46, 1]"

definition nonzero_bytes :: "u8 list \<Rightarrow> bool" where
  "nonzero_bytes p \<longleftrightarrow> fold (\<lambda>x v. v OR x) p 0 \<noteq> 0"

definition offer_valid :: "MemoryOffer \<Rightarrow> bool" where
  "offer_valid o1 \<longleftrightarrow> flMemoryRequirementsValidate (Some (mo_requirements o1)) = FL_MEMORY_OK \<and>
     flMemoryPathValidate (Some (mo_path o1)) = FL_MEMORY_OK \<and> nonzero_bytes (mo_resourceBinding o1)"

definition role_byte :: "bool \<Rightarrow> u8" where
  "role_byte producer = (if producer then 0x50 else 0x43)"

definition offer_wire :: "MemoryOffer \<Rightarrow> bool \<Rightarrow> u8 list \<Rightarrow> u8 list \<Rightarrow> u8 list" where
  "offer_wire o1 producer nonce reqs =
     agree_magic @ [role_byte producer] @ replicate 7 0 @ nonce @ reqs @
     le_put 4 (mp_version (mo_path o1)) @ le_put 4 (mp_resourceType (mo_path o1)) @ le_put 4 (mp_supportedUsage (mo_path o1)) @
     le_put 4 (mp_operations (mo_path o1)) @ mo_resourceBinding o1"

definition agree_encode :: "string + u8 list \<Rightarrow> MemoryOffer \<Rightarrow> bool \<Rightarrow> u8 list io" where
  "agree_encode rnd o1 producer =
     io_bind (require (offer_valid o1) ''invalid memory offer or missing trusted binding'') (\<lambda>_.
     io_bind (random_io rnd) (\<lambda>nonce.
     let (r, reqs) = flMemoryRequirementsEncode (Some (mo_requirements o1)) (Some (replicate 64 0)) 64
     in io_bind (require (r = FL_MEMORY_OK) ''invalid memory requirements'') (\<lambda>_.
        return_io (offer_wire o1 producer nonce (the reqs)))))"

definition decoded_offer :: "u8 list \<Rightarrow> flMemoryRequirements \<Rightarrow> MemoryOffer" where
  "decoded_offer w reqs = \<lparr>mo_requirements = reqs,
     mo_path = \<lparr>mp_version = le_val (take 4 (drop 112 w)), mp_resourceType = le_val (take 4 (drop 116 w)),
       mp_supportedUsage = le_val (take 4 (drop 120 w)), mp_operations = le_val (take 4 (drop 124 w)), mp_reserved = replicate 4 0\<rparr>,
     mo_resourceBinding = take 32 (drop 128 w)\<rparr>"

definition agree_decode :: "u8 list \<Rightarrow> bool \<Rightarrow> MemoryOffer io" where
  "agree_decode w producer =
     io_bind (require (take 8 w = agree_magic \<and> w ! 8 = role_byte producer \<and> take 7 (drop 9 w) = replicate 7 0 \<and> nonzero_bytes (take 32 (drop 16 w)))
       ''memory extension version/role/nonce rejected'') (\<lambda>_.
     let (r, reqs) = flMemoryRequirementsDecode (Some (take 64 (drop 48 w))) 64 (Some zero_requirements)
     in io_bind (require (r = FL_MEMORY_OK) ''invalid remote memory requirements'') (\<lambda>_.
        let o1 = decoded_offer w (the reqs)
        in io_bind (require (offer_valid o1) ''invalid remote memory path/binding'') (\<lambda>_. return_io o1)))"

section \<open>The exchange\<close>

text \<open>\<^verbatim>\<open>FrameLink-memory-agreement-v1\<close> with its terminating zero.\<close>
definition agree_domain :: "u8 list" where
  "agree_domain = map (\<lambda>c. of_nat (of_char c)) ''FrameLink-memory-agreement-v1'' @ [0]"

definition transcript :: "u8 \<Rightarrow> u8 list \<Rightarrow> u8 list \<Rightarrow> u8 list \<Rightarrow> u8 list" where
  "transcript direction session p c = agree_domain @ [direction] @ session @ p @ c"

definition agree_proof :: "(u8 list \<Rightarrow> u8 list \<Rightarrow> u8 list) \<Rightarrow> Endpoint \<Rightarrow> u8 list \<Rightarrow> u8 list \<Rightarrow> u8 list \<Rightarrow> u8 \<Rightarrow> u8 list" where
  "agree_proof hmac e session p c direction = hmac (ep_token e) (transcript direction session p c)"

text \<open>The producer's offer comes first in the transcript, at both ends.\<close>
definition agree_prove :: "(u8 list \<Rightarrow> u8 list \<Rightarrow> u8 list) \<Rightarrow> Endpoint \<Rightarrow> u8 list \<Rightarrow> bool \<Rightarrow> u8 list \<Rightarrow> u8 list \<Rightarrow> u8 \<Rightarrow> u8 list" where
  "agree_prove hmac e session producer own other =
     agree_proof hmac e session (if producer then own else other) (if producer then other else own)"

definition agree_read :: "nat \<Rightarrow> u8 list io" where "agree_read n = relabel ''memory agreement I/O failed'' (read_io n)"
definition agree_write :: "u8 list \<Rightarrow> unit io" where "agree_write bs = relabel ''memory agreement I/O failed'' (write_io bs)"

text \<open>The consumer sends first.\<close>
definition agree_offers :: "bool \<Rightarrow> u8 list \<Rightarrow> u8 list io" where
  "agree_offers producer own =
     (if producer then io_bind (agree_read 160) (\<lambda>other. io_bind (agree_write own) (\<lambda>_. return_io other))
      else io_bind (agree_write own) (\<lambda>_. agree_read 160))"

definition boundary_ok :: "MemoryOffer \<Rightarrow> MemoryOffer \<Rightarrow> bool" where
  "boundary_ok a b \<longleftrightarrow> digest_equal (mo_resourceBinding a) (mo_resourceBinding b) \<and>
     fst (flMemoryEvaluateBoundary (Some [mo_requirements a, mo_requirements b]) (Some [mo_path a, mo_path b]) 2
       (Some [zero_decision, zero_decision])) = FL_MEMORY_OK"

text \<open>The byte that stands for the outcome in the confirmation.\<close>
definition verdict :: "bool \<Rightarrow> bool \<Rightarrow> u8" where
  "verdict producer accepted = (if producer then (if accepted then 0x70 else 0x78) else (if accepted then 0x63 else 0x79))"

definition agreeMemory ::
  "(u8 list \<Rightarrow> u8 list \<Rightarrow> u8 list) \<Rightarrow> string + u8 list \<Rightarrow> bool \<Rightarrow> Endpoint \<Rightarrow> flSessionConfig \<Rightarrow> bool \<Rightarrow> MemoryOffer \<Rightarrow> MemoryOffer io" where
  "agreeMemory hmac rnd timed e cfg producer local =
     io_bind (require (timed \<and> fst (encode_local cfg) = FL_SESSION_OK) ''memory agreement requires valid session and finite timeout'') (\<lambda>_.
     let session = the (snd (encode_local cfg)) in
     io_bind (agree_encode rnd local producer) (\<lambda>own.
     io_bind (agree_offers producer own) (\<lambda>other.
     io_bind (agree_decode other (\<not> producer)) (\<lambda>candidate.
     let proof = agree_prove hmac e session producer own other in
     io_bind (agree_write (proof (role_byte producer))) (\<lambda>_.
     io_bind (agree_read 32) (\<lambda>received.
     io_bind (require (digest_equal received (proof (role_byte (\<not> producer)))) ''memory agreement authentication/session binding rejected'') (\<lambda>_.
     let accepted = boundary_ok local candidate in
     io_bind (agree_write (proof (verdict producer accepted))) (\<lambda>_.
     io_bind (agree_read 32) (\<lambda>received2.
     io_bind (require (accepted \<and> digest_equal received2 (proof (verdict (\<not> producer) True)))
       ''memory requirements or exact resource binding incompatible'') (\<lambda>_.
     return_io candidate))))))))))"

section \<open>Lemmas on offers\<close>

text \<open>The arrays of the structure have their lengths.\<close>
definition wf_offer :: "MemoryOffer \<Rightarrow> bool" where
  "wf_offer o1 \<longleftrightarrow> wf_requirements (mo_requirements o1) \<and> length (mp_reserved (mo_path o1)) = 4 \<and> length (mo_resourceBinding o1) = 32"

text \<open>The offer a peer of the role sends with its nonce.\<close>
definition sent_offer :: "MemoryOffer \<Rightarrow> bool \<Rightarrow> u8 list \<Rightarrow> u8 list" where
  "sent_offer o1 producer nonce = offer_wire o1 producer nonce (memory_wire (mo_requirements o1))"

definition example_offer :: MemoryOffer where
  "example_offer = \<lparr>mo_requirements = zero_requirements\<lparr>mr_version := 1, mr_requiredUsage := FL_MEMORY_CPU_READ, mr_allowedResourceTypes := FL_MEMORY_DMABUF\<rparr>,
     mo_path = \<lparr>mp_version = 1, mp_resourceType = FL_MEMORY_DMABUF, mp_supportedUsage = FL_MEMORY_CPU_READ, mp_operations = 0, mp_reserved = [0, 0, 0, 0]\<rparr>,
     mo_resourceBinding = replicate 32 9\<rparr>"

lemma length_memory_wire [simp]: "length (memory_wire r) = 64"
  by (simp add: memory_wire_def)

lemma length_sent_offer: "wf_offer o1 \<Longrightarrow> length nonce = 32 \<Longrightarrow> length (sent_offer o1 producer nonce) = 160"
  by (simp add: sent_offer_def offer_wire_def agree_magic_def wf_offer_def)

lemma agree_encode_iff:
  "agree_encode (Inr nonce) o1 producer st = (Inr w, st') \<longleftrightarrow> offer_valid o1 \<and> w = sent_offer o1 producer nonce \<and> st' = st"
  by (auto simp: agree_encode_def io_iffs sent_offer_def flMemoryRequirementsEncode_def offer_valid_def)

lemma path_reserved: "flMemoryPathValidate (Some p) = FL_MEMORY_OK \<Longrightarrow> length (mp_reserved p) = 4 \<Longrightarrow> mp_reserved p = replicate 4 0"
  by (intro replicate_eqI) (auto simp: flMemoryPathValidate.simps zero_words_iff split: if_splits)

text \<open>A sent offer, field by field.\<close>
lemma sent_offer_fields:
  assumes "length nonce = 32" "wf_offer o1" "w = sent_offer o1 producer nonce"
  shows "take 8 w = agree_magic" "w ! 8 = role_byte producer" "take 7 (drop 9 w) = replicate 7 0" "take 32 (drop 16 w) = nonce"
    "take 64 (drop 48 w) = memory_wire (mo_requirements o1)" "decoded_offer w (mo_requirements o1) = o1\<lparr>mo_path := (mo_path o1)\<lparr>mp_reserved := replicate 4 0\<rparr>\<rparr>"
  using assms by (simp_all add: sent_offer_def offer_wire_def agree_magic_def wf_offer_def decoded_offer_def nth_append le_val_le_put)

lemma sent_offer_of_fields:
  assumes "length w = 160" "take 8 w = agree_magic" "w ! 8 = role_byte producer" "take 7 (drop 9 w) = replicate 7 0"
    "take 64 (drop 48 w) = memory_wire r"
  shows "w = sent_offer (decoded_offer w r) producer (take 32 (drop 16 w))"
proof -
  have "[w ! 8] = take 1 (drop 8 w)" using assms(1) by (simp add: take_Suc_conv_app_nth)
  then have r: "[role_byte producer] = take 1 (drop 8 w)" using assms(3) by simp
  have p: "le_put 4 (le_val (take 4 (drop k w)) :: u32) = take 4 (drop k w)" if "k + 4 \<le> 160" for k
    using le_put_take [of 4 "drop k w", where 'a = 32] assms(1) that by simp
  show ?thesis
    by (simp add: sent_offer_def offer_wire_def decoded_offer_def p r assms(2,4,5) [symmetric] take_drop_rest assms(1))
qed

text \<open>A received offer is accepted exactly when it is the canonical encoding of a valid one, sent by the other role under a nonce that is not zero.\<close>
lemma agree_decode_exact:
  assumes "length w = 160"
  shows "agree_decode w producer st = (Inr o1, st') \<longleftrightarrow> st' = st \<and>
    (\<exists>nonce. length nonce = 32 \<and> nonzero_bytes nonce \<and> offer_valid o1 \<and> wf_offer o1 \<and> w = sent_offer o1 producer nonce)" (is "?l \<longleftrightarrow> ?r")
proof
  assume ?l
  then obtain r where h: "take 8 w = agree_magic" "w ! 8 = role_byte producer" "take 7 (drop 9 w) = replicate 7 0" "nonzero_bytes (take 32 (drop 16 w))"
    and r: "flMemoryRequirementsDecode (Some (take 64 (drop 48 w))) 64 (Some zero_requirements) = (FL_MEMORY_OK, r)"
    and o1: "o1 = decoded_offer w (the r)" "offer_valid o1" "st' = st"
    by (auto simp: agree_decode_def io_iffs split_beta Let_def) (metis prod.collapse)
  obtain q where q: "r = Some q" "wf_requirements q" "memory_wire q = take 64 (drop 48 w)"
    using memory_wire_decode [OF _ r] assms by auto
  have "wf_offer o1" using assms q o1 by (simp add: wf_offer_def decoded_offer_def)
  moreover have "w = sent_offer o1 producer (take 32 (drop 16 w))"
    using sent_offer_of_fields [OF assms h(1-3), of q] q o1 by simp
  ultimately show ?r using assms h o1 by (auto intro!: exI [of _ "take 32 (drop 16 w)"])
next
  assume ?r
  then obtain nonce where n: "length nonce = 32" "nonzero_bytes nonce" "offer_valid o1" "wf_offer o1" "st' = st" and w: "w = sent_offer o1 producer nonce"
    by blast
  have "decoded_offer w (mo_requirements o1) = o1"
    using sent_offer_fields(6) [OF n(1,4) w] path_reserved [of "mo_path o1"] n w by (simp add: offer_valid_def wf_offer_def)
  moreover have "flMemoryRequirementsDecode (Some (memory_wire (mo_requirements o1))) 64 (Some zero_requirements) = (FL_MEMORY_OK, Some (mo_requirements o1))"
    using n by (intro memory_decode_wire) (simp_all add: offer_valid_def wf_offer_def)
  ultimately show ?l
    using n sent_offer_fields(1-5) [OF n(1,4) w] by (simp add: agree_decode_def io_iffs Let_def)
qed

section \<open>Lemmas on the exchange\<close>

lemma transcript_inj:
  assumes "transcript d s p c = transcript d' s' p' c'" "length s = length s'" "length p = length p'"
  shows "d = d' \<and> s = s' \<and> p = p' \<and> c = c'"
  using assms by (simp add: transcript_def)

lemma length_agree_prove: "digest_size hmac \<Longrightarrow> length (agree_prove hmac e s producer own other d) = 32"
  by (simp add: agree_prove_def agree_proof_def digest_size_def)

lemma agree_offers_iff:
  "agree_offers producer own st = (Inr other, st') \<longleftrightarrow> 160 \<le> length (st_in st) \<and> length own \<le> st_room st \<and> other = take 160 (st_in st) \<and>
     st' = st\<lparr>st_in := drop 160 (st_in st), st_out := st_out st @ own, st_room := st_room st - length own\<rparr>"
  by (auto simp: agree_offers_def agree_read_def agree_write_def io_iffs)

lemma boundary_sym_eval:
  "fst (flMemoryEvaluateBoundary (Some [r, r']) (Some [p, p']) 2 (Some ds)) = FL_MEMORY_OK \<longleftrightarrow>
   fst (flMemoryEvaluateBoundary (Some [r', r]) (Some [p', p]) 2 (Some ds)) = FL_MEMORY_OK"
  by (auto simp: flMemoryEvaluateBoundary_def Let_def or.commute split: prod.splits if_splits)

lemma boundary_ok_sym: "wf_offer a \<Longrightarrow> wf_offer b \<Longrightarrow> boundary_ok a b = boundary_ok b a"
  using boundary_sym_eval [of "mo_requirements a" "mo_requirements b" "mo_path a" "mo_path b" "[zero_decision, zero_decision]"]
  by (auto simp: boundary_ok_def wf_offer_def digest_equal_iff)

lemma split_input: "take 160 i @ take 32 (drop 160 i) @ take 32 (drop 192 i) @ drop 224 i = i"
  by (simp add: take_drop_rest)

lemma input_parts:
  assumes "i = a @ b @ c @ rest" "length a = 160" "length b = 32" "length c = 32"
  shows "224 \<le> length i \<and> take 160 i = a \<and> take 32 (drop 160 i) = b \<and> take 32 (drop 192 i) = c \<and> drop 192 i = c @ rest \<and> drop 224 i = rest"
  using assms by simp

text \<open>The steps of a successful run over the bytes it read.\<close>
lemma agreement_steps:
  fixes st :: Stream and session :: "u8 list"
  assumes "digest_size hmac" "offer_valid local" "wf_offer local" "length nonce = 32" "224 \<le> st_room st" "encode_local cfg = (FL_SESSION_OK, Some session)"
  shows "agreeMemory hmac (Inr nonce) True e cfg producer local st = (Inr remote, st') \<longleftrightarrow> (let own = sent_offer local producer nonce;
        i = st_in st; prove = agree_prove hmac e session producer own (take 160 i)
      in 224 \<le> length i \<and> (\<exists>pn. length pn = 32 \<and> nonzero_bytes pn \<and> offer_valid remote \<and> wf_offer remote \<and> take 160 i = sent_offer remote (\<not> producer) pn) \<and>
        take 32 (drop 160 i) = prove (role_byte (\<not> producer)) \<and> boundary_ok local remote \<and> take 32 (drop 192 i) = prove (verdict (\<not> producer) True) \<and>
        st' = st\<lparr>st_in := drop 224 i, st_out := st_out st @ own @ prove (role_byte producer) @ prove (verdict producer True), st_room := st_room st - 224\<rparr>)"
proof -
  let ?i = "st_in st" and ?own = "sent_offer local producer nonce"
  have own: "length ?own = 160" using assms by (simp add: length_sent_offer)
  have pl: "length (agree_prove hmac e session producer ?own w d) = 32" for w d using assms(1) by (rule length_agree_prove)
  have dec: "agree_decode (take 160 ?i) (\<not> producer) s = (Inr remote, s') \<longleftrightarrow> s' = s \<and>
      (\<exists>pn. length pn = 32 \<and> nonzero_bytes pn \<and> offer_valid remote \<and> wf_offer remote \<and> take 160 ?i = sent_offer remote (\<not> producer) pn)" if "160 \<le> length ?i" for s s'
    using agree_decode_exact [of "take 160 ?i"] that by simp
  show ?thesis
    using assms(2,5,6) own pl
    by (cases "160 \<le> length ?i")
      (simp_all add: agreeMemory_def io_iffs Let_def agree_encode_iff agree_offers_iff agree_write_def agree_read_def dec, auto simp: digest_equal_iff)
qed

text \<open>
  Over a stream that takes its bytes, \<^verbatim>\<open>agreeMemory\<close> returns a remote offer if and only if the bytes it
  read were the canonical encoding of that offer in the other role under a nonce that is not zero, then the peer's proof of the session secret
  for this very transcript (both offers with their nonces and the encoded session configuration), then the peer's authenticated acceptance
  of the same transcript; both offers are valid, name the same resource and pass the boundary evaluation.  It has then
  written exactly its own offer, its proof and its acceptance.  No other byte sequence is accepted.
\<close>
lemma agreement_exact:
  assumes "digest_size hmac" "offer_valid local" "wf_offer local" "length nonce = 32" "224 \<le> st_room st" "encode_local cfg = (FL_SESSION_OK, Some session)"
  shows "agreeMemory hmac (Inr nonce) True e cfg producer local st = (Inr remote, st') \<longleftrightarrow>
    (\<exists>peerNonce rest.
       let own = sent_offer local producer nonce; other = sent_offer remote (\<not> producer) peerNonce;
           prove = agree_prove hmac e session producer own other
       in length peerNonce = 32 \<and> nonzero_bytes peerNonce \<and> offer_valid remote \<and> wf_offer remote \<and> boundary_ok local remote \<and>
          st_in st = other @ prove (role_byte (\<not> producer)) @ prove (verdict (\<not> producer) True) @ rest \<and>
          st' = st\<lparr>st_in := rest, st_out := st_out st @ own @ prove (role_byte producer) @ prove (verdict producer True), st_room := st_room st - 224\<rparr>)"
  (is "?l \<longleftrightarrow> ?r")
proof -
  let ?i = "st_in st" and ?own = "sent_offer local producer nonce"
  let ?pr = "\<lambda>other. agree_prove hmac e session producer ?own other"
  have pl: "length (?pr w d) = 32" for w d using assms(1) by (rule length_agree_prove)
  let ?dec = "\<lambda>w pn. length pn = 32 \<and> nonzero_bytes pn \<and> offer_valid remote \<and> wf_offer remote \<and> w = sent_offer remote (\<not> producer) pn"
  have l: "?l \<longleftrightarrow> 224 \<le> length ?i \<and> (\<exists>pn. ?dec (take 160 ?i) pn) \<and>
      take 32 (drop 160 ?i) = ?pr (take 160 ?i) (role_byte (\<not> producer)) \<and> boundary_ok local remote \<and>
      take 32 (drop 192 ?i) = ?pr (take 160 ?i) (verdict (\<not> producer) True) \<and>
      st' = st\<lparr>st_in := drop 224 ?i, st_out := st_out st @ ?own @ ?pr (take 160 ?i) (role_byte producer) @ ?pr (take 160 ?i) (verdict producer True),
        st_room := st_room st - 224\<rparr>"
    by (rule agreement_steps [OF assms, unfolded Let_def])
  show ?thesis
  proof
    assume ?l
    then obtain pn where pn: "?dec (take 160 ?i) pn" and t: "take 32 (drop 160 ?i) = ?pr (take 160 ?i) (role_byte (\<not> producer))"
      "boundary_ok local remote" "take 32 (drop 192 ?i) = ?pr (take 160 ?i) (verdict (\<not> producer) True)"
      "st' = st\<lparr>st_in := drop 224 ?i, st_out := st_out st @ ?own @ ?pr (take 160 ?i) (role_byte producer) @ ?pr (take 160 ?i) (verdict producer True),
        st_room := st_room st - 224\<rparr>"
      unfolding l by blast
    have "?i = take 160 ?i @ ?pr (take 160 ?i) (role_byte (\<not> producer)) @ ?pr (take 160 ?i) (verdict (\<not> producer) True) @ drop 224 ?i"
      using split_input [of ?i] unfolding t(1,3) by (rule sym)
    then show ?r using t(2,4) pn by - (rule exI [of _ pn], rule exI [of _ "drop 224 ?i"], simp add: Let_def)
  next
    assume ?r
    then obtain pn rest where r: "?dec (sent_offer remote (\<not> producer) pn) pn" "boundary_ok local remote"
      "?i = sent_offer remote (\<not> producer) pn @ ?pr (sent_offer remote (\<not> producer) pn) (role_byte (\<not> producer)) @
         ?pr (sent_offer remote (\<not> producer) pn) (verdict (\<not> producer) True) @ rest"
      "st' = st\<lparr>st_in := rest, st_out := st_out st @ ?own @ ?pr (sent_offer remote (\<not> producer) pn) (role_byte producer) @
         ?pr (sent_offer remote (\<not> producer) pn) (verdict producer True), st_room := st_room st - 224\<rparr>"
      by (auto simp: Let_def)
    then have "length (sent_offer remote (\<not> producer) pn) = 160" by (simp add: length_sent_offer)
    from input_parts [OF r(3) this pl pl] show ?l unfolding l using r(1,2,4) by auto
  qed
qed

lemma example_offer: "offer_valid example_offer" "wf_offer example_offer" "boundary_ok example_offer example_offer"
  by code_simp+

lemma example_nonces: "nonzero_bytes (replicate 32 1)" "nonzero_bytes (replicate 32 2)"
  by code_simp+

text \<open>
  The two ends meet.  A producer and a consumer with the same secret and session configuration and compatible offers of one resource both
  return the other's offer, and each has consumed exactly what the other wrote.
\<close>
lemma agreement_completes:
  assumes "digest_size hmac" "offer_valid p" "wf_offer p" "offer_valid c" "wf_offer c" "boundary_ok p c" "encode_local cfg = (FL_SESSION_OK, Some session)"
    "length np = 32" "nonzero_bytes np" "length nc = 32" "nonzero_bytes nc"
  shows "let wp = sent_offer p True np; wc = sent_offer c False nc; prove = agree_proof hmac e session wp wc;
           toProducer = wc @ prove 0x43 @ prove 0x63; toConsumer = wp @ prove 0x50 @ prove 0x70
         in agreeMemory hmac (Inr np) True e cfg True p \<lparr>st_in = toProducer, st_out = [], st_room = 224\<rparr> =
              (Inr c, \<lparr>st_in = [], st_out = toConsumer, st_room = 0\<rparr>) \<and>
            agreeMemory hmac (Inr nc) True e cfg False c \<lparr>st_in = toConsumer, st_out = [], st_room = 224\<rparr> =
              (Inr p, \<lparr>st_in = [], st_out = toProducer, st_room = 0\<rparr>)"
proof -
  have "boundary_ok c p" using assms(3,5,6) boundary_ok_sym by blast
  then show ?thesis
    unfolding Let_def using assms
    by (intro conjI agreement_exact [OF assms(1,2,3,8) _ assms(7), THEN iffD2] agreement_exact [OF assms(1,4,5,10) _ assms(7), THEN iffD2])
      (simp_all add: Let_def agree_prove_def role_byte_def verdict_def exI [of _ nc] exI [of _ np])
qed

text \<open>
  Proofs cannot be transplanted: if no two of the messages authenticated under a secret have the same digest, a proof accepted in one exchange was
  computed in that direction, for that session configuration and for the same two offers; a rejection never passes for an acceptance.
\<close>
lemma agreement_binds:
  assumes "collision_free hmac (ep_token e) M" "transcript d s p c \<in> M" "transcript d' s' p' c' \<in> M" "length s = length s'" "length p = length p'"
    "digest_size hmac" "digest_equal (agree_proof hmac e s' p' c' d') (agree_proof hmac e s p c d)"
  shows "d' = d \<and> s' = s \<and> p' = p \<and> c' = c"
proof -
  have "agree_proof hmac e s' p' c' d' = agree_proof hmac e s p c d"
    using assms(6,7) by (subst digest_equal_iff [symmetric]) (simp_all add: agree_proof_def digest_size_def)
  then have "transcript d s p c = transcript d' s' p' c'"
    using assms(1-3) by (auto simp: agree_proof_def collision_free_def dest: inj_onD)
  from transcript_inj [OF this assms(4,5)] show ?thesis by simp
qed

lemma sent_offer_inj:
  assumes "sent_offer a producer n = sent_offer b producer m" "length n = 32" "length m = 32" "nonzero_bytes n"
    "offer_valid a" "offer_valid b" "wf_offer a" "wf_offer b"
  shows "a = b"
proof -
  have "m = n" using sent_offer_fields(4) [of n a _ producer] sent_offer_fields(4) [of m b _ producer] assms by metis
  then have "agree_decode (sent_offer a producer n) producer s = (Inr a, s)" "agree_decode (sent_offer a producer n) producer s = (Inr b, s)" for s
    using assms by (auto simp: agree_decode_exact length_sent_offer intro: exI [of _ n] exI [of _ m])
  then show ?thesis by (metis prod.inject sum.inject(2))
qed

lemma agreement_requires:
  assumes "agreeMemory hmac rnd timed e cfg producer local st = (Inr remote, st')"
  shows "timed \<and> offer_valid local \<and> fst (encode_local cfg) = FL_SESSION_OK"
  using assms by (auto simp: agreeMemory_def io_iffs Let_def agree_encode_def)

lemma encode_local_bytes:
  assumes "wf_config cfg" "fst (encode_local cfg) = FL_SESSION_OK"
  shows "encode_local cfg = (FL_SESSION_OK, Some (session_wire cfg))" "length (session_wire cfg) = 160"
  using assms session_codec.enc_size [of cfg] by (simp_all add: encode_local_def flSessionEncode_def split: if_splits)

text \<open>What one successful end has read and written.\<close>
lemma agreement_end:
  assumes "digest_size hmac" "agreeMemory hmac (Inr nonce) True e cfg producer local st = (Inr remote, st')" "wf_config cfg" "wf_offer local"
    "length nonce = 32" "st_out st = []" "224 \<le> st_room st"
  defines "own \<equiv> sent_offer local producer nonce"
  obtains pn where "length pn = 32" "nonzero_bytes pn" "offer_valid remote" "wf_offer remote" "boundary_ok local remote"
    "take 160 (st_in st) = sent_offer remote (\<not> producer) pn"
    "take 32 (drop 192 (st_in st)) = agree_prove hmac e (session_wire cfg) producer own (sent_offer remote (\<not> producer) pn) (verdict (\<not> producer) True)"
    "take 160 (st_out st') = own"
    "drop 192 (st_out st') = agree_prove hmac e (session_wire cfg) producer own (sent_offer remote (\<not> producer) pn) (verdict producer True)"
proof -
  note req = agreement_requires [OF assms(2)]
  then have s: "encode_local cfg = (FL_SESSION_OK, Some (session_wire cfg))" using encode_local_bytes assms(3) by blast
  have l: "length own = 160" unfolding own_def by (rule length_sent_offer [OF assms(4,5)])
  let ?pr = "\<lambda>pn. agree_prove hmac e (session_wire cfg) producer own (sent_offer remote (\<not> producer) pn)"
  from agreement_exact [OF assms(1) _ assms(4,5,7) s, THEN iffD1, OF _ assms(2)] req
  obtain pn rest where r: "length pn = 32" "nonzero_bytes pn" "offer_valid remote" "wf_offer remote" "boundary_ok local remote"
    "st_in st = sent_offer remote (\<not> producer) pn @ ?pr pn (role_byte (\<not> producer)) @ ?pr pn (verdict (\<not> producer) True) @ rest"
    "st_out st' = own @ ?pr pn (role_byte producer) @ ?pr pn (verdict producer True) @ []"
    unfolding Let_def own_def by (auto simp: assms(6))
  note pl = length_agree_prove [OF assms(1)]
  note parts = input_parts [OF r(6) length_sent_offer [OF r(4,1)] pl pl] input_parts [OF r(7) l pl pl]
  show thesis by (rule that [of pn]) (use parts r(1-5) in \<open>simp_all add: pl\<close>)
qed

section \<open>Properties\<close>

text \<open>
  C40. Success is mutual.  Suppose a producer and a consumer that hold the session secret both return from \<^verbatim>\<open>agreeMemory\<close> with success, over a network that may
  do anything to the other bytes, and the acceptance the producer read is the one the consumer wrote.  If the two
  acceptance messages have different digests unless they are equal, then both ends ran with the same session configuration, each holds exactly
  the other's offer, both name the same resource and the boundary evaluation accepts the pair in either order.
\<close>
theorem agreement_mutual:
  assumes "digest_size hmac"
    "agreeMemory hmac (Inr np) True e cfg True p sp = (Inr rc, sp')" "agreeMemory hmac (Inr nc) True e cfg' False c sc = (Inr rp, sc')"
    "wf_config cfg" "wf_config cfg'" "wf_offer p" "wf_offer c" "length np = 32" "length nc = 32"
    "st_out sp = []" "st_out sc = []" "224 \<le> st_room sp" "224 \<le> st_room sc"
    "take 32 (drop 192 (st_in sp)) = drop 192 (st_out sc')"
    "collision_free hmac (ep_token e)
       {transcript 0x63 (session_wire cfg) (take 160 (st_out sp')) (take 160 (st_in sp)),
        transcript 0x63 (session_wire cfg') (take 160 (st_in sc)) (take 160 (st_out sc'))}"
  shows "cfg' = cfg \<and> rc = c \<and> rp = p \<and> mo_resourceBinding p = mo_resourceBinding c \<and> boundary_ok p c \<and> boundary_ok c p"
proof -
  from agreement_end [OF assms(1,2,4,6,8,10,12)] obtain n where a: "length n = 32" "nonzero_bytes n" "offer_valid rc" "wf_offer rc" "boundary_ok p rc"
    "take 160 (st_in sp) = sent_offer rc False n" "take 160 (st_out sp') = sent_offer p True np"
    "take 32 (drop 192 (st_in sp)) = agree_proof hmac e (session_wire cfg) (take 160 (st_out sp')) (take 160 (st_in sp)) 0x63"
    by (auto simp: agree_prove_def verdict_def)
  from agreement_end [OF assms(1,3,5,7,9,11,13)] obtain m where b: "length m = 32" "nonzero_bytes m" "offer_valid rp" "wf_offer rp" "boundary_ok c rp"
    "take 160 (st_in sc) = sent_offer rp True m" "take 160 (st_out sc') = sent_offer c False nc"
    "drop 192 (st_out sc') = agree_proof hmac e (session_wire cfg') (take 160 (st_in sc)) (take 160 (st_out sc')) 0x63"
    by (auto simp: agree_prove_def verdict_def)
  note pa = agreement_requires [OF assms(2)] and pb = agreement_requires [OF assms(3)]
  have "session_wire cfg' = session_wire cfg \<and> take 160 (st_in sc) = take 160 (st_out sp') \<and> take 160 (st_out sc') = take 160 (st_in sp)"
    using agreement_binds [OF assms(15), of "0x63" "session_wire cfg" "take 160 (st_out sp')" "take 160 (st_in sp)" "0x63" "session_wire cfg'"
        "take 160 (st_in sc)" "take 160 (st_out sc')"] assms(1,14) a(6-8) b(6-8) pa pb
      encode_local_bytes(2) [OF assms(4)] encode_local_bytes(2) [OF assms(5)] length_sent_offer [OF assms(6,8)] length_sent_offer [OF b(4,1)]
    by (simp add: digest_equal_iff)
  then have eq: "same_encoding cfg cfg'" "sent_offer rp True m = sent_offer p True np" "sent_offer rc False n = sent_offer c False nc"
    using a(6,7) b(6,7) encode_local_bytes(1) [OF assms(4)] encode_local_bytes(1) [OF assms(5)] pa pb by (simp_all add: same_encoding_def)
  have "rc = c" using sent_offer_inj [OF eq(3) a(1) assms(9) a(2,3) _ a(4) assms(7)] pb by blast
  moreover have "rp = p" using sent_offer_inj [OF eq(2) b(1) assms(8) b(2,3) _ b(4) assms(6)] pa by blast
  moreover have "cfg = cfg'" using same_encoding_eq [OF assms(4,5) eq(1)] .
  ultimately show ?thesis using a(5) b(5) assms(6,7) by (auto simp: boundary_ok_def wf_offer_def digest_equal_iff)
qed

theorem agreement_mutual_witness:
  "\<exists>sp sp' sc sc'. agreeMemory example_hmac (Inr (replicate 32 1)) True \<lparr>ep_port = 9, ep_token = replicate 32 5\<rparr> example_config True example_offer sp =
      (Inr example_offer, sp') \<and>
    agreeMemory example_hmac (Inr (replicate 32 2)) True \<lparr>ep_port = 9, ep_token = replicate 32 5\<rparr> example_config False example_offer sc =
      (Inr example_offer, sc') \<and> boundary_ok example_offer example_offer"
proof -
  let ?e = "\<lparr>ep_port = 9, ep_token = replicate 32 5\<rparr>"
  let ?wp = "sent_offer example_offer True (replicate 32 1)" and ?wc = "sent_offer example_offer False (replicate 32 2)"
  let ?pr = "agree_proof example_hmac ?e (session_wire example_config) ?wp ?wc"
  let ?sp = "\<lparr>st_in = ?wc @ ?pr 0x43 @ ?pr 0x63, st_out = [], st_room = 224\<rparr>" and ?sc = "\<lparr>st_in = ?wp @ ?pr 0x50 @ ?pr 0x70, st_out = [], st_room = 224\<rparr>"
  let ?sp' = "\<lparr>st_in = [], st_out = ?wp @ ?pr 0x50 @ ?pr 0x70, st_room = 0\<rparr>" and ?sc' = "\<lparr>st_in = [], st_out = ?wc @ ?pr 0x43 @ ?pr 0x63, st_room = 0\<rparr>"
  have s: "encode_local example_config = (FL_SESSION_OK, Some (session_wire example_config))"
    using example_config_valid by (simp add: encode_local_def flSessionEncode_def)
  have l: "length ?wp = 160" "length ?wc = 160" "length (?pr d) = 32" for d
    using length_sent_offer [OF example_offer(2)] example_hmac_size by (simp_all add: agree_proof_def digest_size_def)
  have p: "agreeMemory example_hmac (Inr (replicate 32 1)) True ?e example_config True example_offer ?sp = (Inr example_offer, ?sp')"
    and c: "agreeMemory example_hmac (Inr (replicate 32 2)) True ?e example_config False example_offer ?sc = (Inr example_offer, ?sc')"
    using agreement_completes [OF example_hmac_size example_offer(1,2) example_offer(1-3) s _ example_nonces(1) _ example_nonces(2), of ?e]
    by (simp_all add: Let_def)
  have "boundary_ok example_offer example_offer"
    using agreement_mutual [OF example_hmac_size p c example_config_valid(2) example_config_valid(2) example_offer(2) example_offer(2)]
    by (simp add: l collision_free_def)
  with p c show ?thesis by (intro exI conjI)
qed

end
