(* ===== verification/FL_AhbImage.thy ===== *)
theory FL_AhbImage
  imports FL_Layout
begin

text \<open>
  Images of the Android backend: the part of \<^verbatim>\<open>src/framelink_android.cpp\<close> around \<^verbatim>\<open>struct flImage\<close>.  An image is backed by
  a native buffer whose storage order is the device's: BGRA channels use RGBA storage, NV12 channels any YUV layout
  with three planes.  Mapping locks the buffer and, where the layouts differ, gives the client a converted copy;
  unmapping converts the copy back and unlocks.  The memory of the native buffer and of the copy are functions from
  offsets to bytes; pointers into them are offsets.  The NDK's answers (whether a lock succeeds, the planes it
  reports) are arguments.  Dimensions are at most 8192, so offsets do not overflow and are natural numbers.
\<close>

section \<open>Data\<close>

abbreviation AHB_RGBA8 :: u32 where "AHB_RGBA8 \<equiv> 1"
abbreviation AHB_RGB10A2 :: u32 where "AHB_RGB10A2 \<equiv> 0x2b"
abbreviation AHB_YUV420 :: u32 where "AHB_YUV420 \<equiv> 0x23"

definition ahbFormatFor :: "flFormat \<Rightarrow> u32" where
  "ahbFormatFor f =
     (if f = FL_FORMAT_RGBA8 \<or> f = FL_FORMAT_BGRA8 then AHB_RGBA8
      else if f = FL_FORMAT_RGB10A2 then AHB_RGB10A2
      else if f = FL_FORMAT_NV12 then AHB_YUV420 else 0)"

text \<open>\<^verbatim>\<open>AHardwareBuffer_Plane\<close>\<close>
record AhbPlane =
  hp_data :: nat
  hp_pixelStride :: nat
  hp_rowStride :: nat

text \<open>Where a pointer handed to the client points: into the native buffer or into the converted copy.\<close>
datatype AhbView = NativeView | CopyView

text \<open>
  \<^verbatim>\<open>struct flImage\<close>: \<open>ai_addr\<close> is its own address, \<open>ai_ahb\<close> the native handle, \<open>ai_bytes\<close> the native buffer's contents and
  \<open>ai_locked\<close> whether it is locked; \<open>ai_nv12\<close> and \<open>ai_nv12Size\<close> are the vector \<^verbatim>\<open>nv12\<close>.
\<close>
record AhbImage =
  ai_addr :: nat
  ai_ahb :: "nat option"
  ai_bytes :: "nat \<Rightarrow> u8"
  ai_locked :: bool
  ai_mapped :: "AhbView option"
  ai_nativeMapped :: bool
  ai_strideBytes :: u64
  ai_format :: flFormat
  ai_planes :: "AhbPlane list"
  ai_nv12 :: "nat \<Rightarrow> u8"
  ai_nv12Size :: nat
  ai_nativeNv12 :: bool
  ai_width :: u32
  ai_height :: u32

definition new_ahb_image :: "nat \<Rightarrow> AhbImage" where
  "new_ahb_image addr =
     \<lparr>ai_addr = addr, ai_ahb = None, ai_bytes = (\<lambda>_. 0), ai_locked = False, ai_mapped = None, ai_nativeMapped = False, ai_strideBytes = 0,
      ai_format = FL_FORMAT_RGBA8, ai_planes = [], ai_nv12 = (\<lambda>_. 0), ai_nv12Size = 0, ai_nativeNv12 = False, ai_width = 0, ai_height = 0\<rparr>"

text \<open>One entry of \<^verbatim>\<open>flMappedImage\<close>.\<close>
record AhbMappedPlane =
  ap_view :: AhbView
  ap_offset :: nat
  ap_stride :: nat
  ap_rowBytes :: nat
  ap_rows :: nat

text \<open>What the NDK answers: \<open>lk_ok\<close> and \<open>lk_planes\<close> for the two lock calls, \<open>lk_oom\<close> when the copy cannot be allocated.\<close>
record LockEnv =
  lk_ok :: bool
  lk_planes :: "AhbPlane list option"
  lk_oom :: bool

section \<open>Conversion loops\<close>

text \<open>Assignments \<^verbatim>\<open>dst[d] = src[s]\<close> in order.\<close>
definition copies :: "(nat \<times> nat) list \<Rightarrow> (nat \<Rightarrow> u8) \<Rightarrow> (nat \<Rightarrow> u8) \<Rightarrow> nat \<Rightarrow> u8" where
  "copies ds src dst = fold (\<lambda>(d, s) m. m(d := src s)) ds dst"

definition resized :: "nat \<Rightarrow> AhbImage \<Rightarrow> AhbImage" where
  "resized n img = img\<lparr>ai_nv12 := (\<lambda>j. if j < min n (ai_nv12Size img) then ai_nv12 img j else 0), ai_nv12Size := n\<rparr>"

definition pixel_offsets :: "AhbImage \<Rightarrow> nat list" where
  "pixel_offsets img = concat (map (\<lambda>y. map (\<lambda>x. y * unat (ai_strideBytes img) + x * 4) [0..<unat (ai_width img)]) [0..<unat (ai_height img)])"

definition bgra_swap :: "AhbImage \<Rightarrow> (nat \<times> nat) list" where
  "bgra_swap img = concat (map (\<lambda>i. [(i, i + 2), (i + 1, i + 1), (i + 2, i), (i + 3, i + 3)]) (pixel_offsets img))"

text \<open>Copy offset and native offset of every sample, plane by plane, row by row.\<close>
definition yuv_samples :: "AhbImage \<Rightarrow> (nat \<times> nat) list" where
  "yuv_samples img =
     (let w = unat (ai_width img); h = unat (ai_height img)
      in concat (map (\<lambda>p.
           let plane = ai_planes img ! p; base = (if p \<noteq> 0 then w * h + p - 1 else 0)
           in concat (map (\<lambda>y. map (\<lambda>x.
                (base + y * w + x * (if p \<noteq> 0 then 2 else 1), hp_data plane + y * hp_rowStride plane + x * hp_pixelStride plane))
                [0..<(if p \<noteq> 0 then w div 2 else w)]) [0..<(if p \<noteq> 0 then h div 2 else h)])) [0..<3]))"

section \<open>Mapping\<close>

text \<open>\<open>pixels\<close> and \<open>out\<close> tell whether the caller passed a place for the result.\<close>
definition flImageMap_ahb :: "LockEnv \<Rightarrow> AhbImage \<Rightarrow> bool \<Rightarrow> flResult \<times> (AhbView \<times> u64) option \<times> AhbImage" where
  "flImageMap_ahb env img pixels =
     (if \<not> pixels then (FL_INVALID, None, img)
      else if ai_format img = FL_FORMAT_NV12 then (FL_FORMAT_UNSUPPORTED, None, img)
      else if ai_mapped img \<noteq> None then (FL_OK, Some (the (ai_mapped img), ai_strideBytes img), img)
      else if \<not> lk_ok env then (FL_FORMAT_UNSUPPORTED, None, img)
      else
        let img1 = img\<lparr>ai_locked := True\<rparr>
        in if ai_format img = FL_FORMAT_BGRA8 then
             (if lk_oom env then (FL_OOM, None, img1\<lparr>ai_locked := False\<rparr>)
              else
                let img2 = (resized (unat (ai_strideBytes img) * unat (ai_height img)) img1)\<lparr>ai_nativeMapped := True\<rparr>
                in (FL_OK, Some (CopyView, ai_strideBytes img),
                    img2\<lparr>ai_nv12 := copies (bgra_swap img2) (ai_bytes img2) (ai_nv12 img2), ai_mapped := Some CopyView\<rparr>))
           else (FL_OK, Some (NativeView, ai_strideBytes img), img1\<lparr>ai_mapped := Some NativeView\<rparr>))"

text \<open>Interleaved chroma directly behind one another: the native layout is NV12 already.\<close>
definition native_nv12 :: "AhbPlane list \<Rightarrow> bool" where
  "native_nv12 ps \<longleftrightarrow> hp_pixelStride (ps ! 0) = 1 \<and> hp_pixelStride (ps ! 1) = 2 \<and> hp_pixelStride (ps ! 2) = 2 \<and>
     hp_rowStride (ps ! 1) = hp_rowStride (ps ! 2) \<and> hp_data (ps ! 2) = hp_data (ps ! 1) + 1"

definition map_yuv :: "LockEnv \<Rightarrow> AhbImage \<Rightarrow> flResult \<times> AhbImage" where
  "map_yuv env img =
     (if lk_oom env then (FL_OOM, img)
      else
        let img1 = resized (unat (ai_width img) * unat (ai_height img) * 3 div 2) img
        in case lk_planes env of
             None \<Rightarrow> (FL_FORMAT_UNSUPPORTED, img1)
           | Some ps \<Rightarrow>
               if length ps \<noteq> 3 then (FL_FORMAT_UNSUPPORTED, img1\<lparr>ai_planes := ps\<rparr>)
               else
                 let img2 = img1\<lparr>ai_planes := ps, ai_locked := True, ai_nativeNv12 := native_nv12 ps,
                       ai_mapped := Some (if native_nv12 ps then NativeView else CopyView)\<rparr>
                 in (FL_OK, if native_nv12 ps then img2 else img2\<lparr>ai_nv12 := copies (yuv_samples img2) (ai_bytes img2) (ai_nv12 img2)\<rparr>))"

definition yuv_view :: "AhbImage \<Rightarrow> AhbMappedPlane list" where
  "yuv_view img =
     (let w = unat (ai_width img); h = unat (ai_height img)
      in if ai_nativeNv12 img
         then [\<lparr>ap_view = NativeView, ap_offset = hp_data (ai_planes img ! 0), ap_stride = hp_rowStride (ai_planes img ! 0), ap_rowBytes = w, ap_rows = h\<rparr>,
               \<lparr>ap_view = NativeView, ap_offset = hp_data (ai_planes img ! 1), ap_stride = hp_rowStride (ai_planes img ! 1), ap_rowBytes = w, ap_rows = h div 2\<rparr>]
         else [\<lparr>ap_view = CopyView, ap_offset = 0, ap_stride = w, ap_rowBytes = w, ap_rows = h\<rparr>,
               \<lparr>ap_view = CopyView, ap_offset = w * h, ap_stride = w, ap_rowBytes = w, ap_rows = h div 2\<rparr>])"

definition flImageMapPlanes_ahb :: "LockEnv \<Rightarrow> AhbImage \<Rightarrow> bool \<Rightarrow> flResult \<times> AhbMappedPlane list \<times> AhbImage" where
  "flImageMapPlanes_ahb env img out =
     (if \<not> out then (FL_INVALID, [], img)
      else if ai_format img = FL_FORMAT_NV12 then
        (case (if ai_mapped img = None then map_yuv env img else (FL_OK, img)) of
           (r, img1) \<Rightarrow> if r \<noteq> FL_OK then (r, [], img1) else (FL_OK, yuv_view img1, img1))
      else
        (case flImageMap_ahb env img True of
           (r, None, img1) \<Rightarrow> (r, [], img1)
         | (r, Some (view, stride), img1) \<Rightarrow>
             if r \<noteq> FL_OK then (r, [], img1)
             else (FL_OK, [\<lparr>ap_view = view, ap_offset = 0, ap_stride = unat stride, ap_rowBytes = unat (ai_width img) * 4, ap_rows = unat (ai_height img)\<rparr>], img1)))"

text \<open>The write-back loops assign in the opposite direction.\<close>
definition flImageUnmap_ahb :: "AhbImage \<Rightarrow> AhbImage" where
  "flImageUnmap_ahb img =
     (if ai_mapped img = None then img
      else
        let img1 = (if ai_format img = FL_FORMAT_BGRA8
               then img\<lparr>ai_bytes := copies (bgra_swap img) (if ai_mapped img = Some CopyView then ai_nv12 img else ai_bytes img) (ai_bytes img),
                        ai_nativeMapped := False\<rparr> else img);
            img2 = (if ai_format img = FL_FORMAT_NV12 \<and> \<not> ai_nativeNv12 img
               then img1\<lparr>ai_bytes := copies (map prod.swap (yuv_samples img1)) (ai_nv12 img1) (ai_bytes img1)\<rparr> else img1)
        in img2\<lparr>ai_locked := False, ai_mapped := None\<rparr>)"

text \<open>Unmapped, and the reference to the native buffer dropped.\<close>
definition freeImage_ahb :: "AhbImage \<Rightarrow> nat list" where
  "freeImage_ahb img = (case ai_ahb (flImageUnmap_ahb img) of None \<Rightarrow> [] | Some h \<Rightarrow> [h])"

text \<open>A client's writes through the view.\<close>
definition view_bytes :: "AhbImage \<Rightarrow> nat \<Rightarrow> u8" where
  "view_bytes img = (if ai_mapped img = Some CopyView then ai_nv12 img else ai_bytes img)"

definition write_view :: "(nat \<Rightarrow> u8) \<Rightarrow> AhbImage \<Rightarrow> AhbImage" where
  "write_view f img = (if ai_mapped img = Some CopyView then img\<lparr>ai_nv12 := f\<rparr> else img\<lparr>ai_bytes := f\<rparr>)"

section \<open>Lemmas\<close>

text \<open>The last assignment to an offset counts.\<close>
lemma copies_lookup: "copies ds src dst = (\<lambda>j. case map_of (rev ds) j of None \<Rightarrow> dst j | Some s \<Rightarrow> src s)"
proof (induction ds arbitrary: dst)
  case (Cons x ds)
  then show ?case by (cases x) (auto simp: copies_def map_add_def fun_eq_iff split: option.splits)
qed (simp add: copies_def)

lemma copies_at:
  assumes "distinct (map fst ds)"
  shows "(d, s) \<in> set ds \<Longrightarrow> copies ds src dst d = src s" "d \<notin> fst ` set ds \<Longrightarrow> copies ds src dst d = dst d"
proof -
  have dist: "distinct (map fst (rev ds))" using assms by (simp flip: rev_map)
  then show "(d, s) \<in> set ds \<Longrightarrow> copies ds src dst d = src s" by (simp add: copies_lookup)
  show "d \<notin> fst ` set ds \<Longrightarrow> copies ds src dst d = dst d"
    by (simp add: copies_lookup split: option.split) (metis image_iff map_of_SomeD fst_conv set_rev)
qed

text \<open>Copying back what was copied out changes nothing.\<close>
lemma copies_same:
  assumes "\<And>d s. (d, s) \<in> set ds \<Longrightarrow> src s = mem d"
  shows "copies ds src mem = mem"
  using assms
proof (induction ds)
  case (Cons x ds)
  then have "src (snd x) = mem (fst x)" by (cases x) auto
  then have "mem(fst x := src (snd x)) = mem" by (metis fun_upd_triv)
  with Cons show ?case by (cases x) (simp add: copies_def)
qed (simp add: copies_def)

lemma copies_back:
  assumes "distinct (map fst ds)"
  shows "copies (map prod.swap ds) (copies ds mem view) mem = mem"
  by (rule copies_same) (auto simp: copies_at(1) [OF assms])

lemma row_inj:
  assumes "y * w + a = y' * w + (a' :: nat)" "a < w" "a' < w"
  shows "y = y' \<and> a = a'"
proof -
  have "(y * w + a) div w = (y' * w + a') div w" "(y * w + a) mod w = (y' * w + a') mod w" using assms(1) by simp_all
  then show ?thesis using assms(2,3) by simp
qed

text \<open>A list of lists without repetition inside and across.\<close>
lemma distinct_concat_map:
  assumes "distinct xs" "\<And>x. x \<in> set xs \<Longrightarrow> distinct (f x)"
    "\<And>x y z. x \<in> set xs \<Longrightarrow> y \<in> set xs \<Longrightarrow> z \<in> set (f x) \<Longrightarrow> z \<in> set (f y) \<Longrightarrow> x = y"
  shows "distinct (concat (map f xs))"
  using assms
proof (induction xs)
  case (Cons x xs)
  have "set (f x) \<inter> set (concat (map f xs)) = {}" using Cons.prems(1) Cons.prems(3) [of x] by fastforce
  with Cons show ?case by simp
qed simp

text \<open>Rows of \<open>n\<close> samples, \<open>k\<close> bytes apart, do not overlap when they are \<open>w \<ge> n * k\<close> bytes apart.\<close>
lemma distinct_rows:
  assumes "n * k \<le> w" "0 < k"
  shows "distinct (concat (map (\<lambda>y. map (\<lambda>x. base + y * w + x * k) [0..<n]) [0..<m]))"
proof (rule distinct_concat_map)
  fix y y' z assume a: "z \<in> set (map (\<lambda>x. base + y * w + x * k) [0..<n])" "z \<in> set (map (\<lambda>x. base + y' * w + x * k) [0..<n])"
  from a(1) obtain x where z: "z = base + y * w + x * k" "x < n" unfolding set_map set_upt by (elim imageE) (rule that, auto)
  from a(2) obtain x' where z': "z = base + y' * w + x' * k" "x' < n" unfolding set_map set_upt by (elim imageE) (rule that, auto)
  have "x * k < w" "x' * k < w" using z(2) z'(2) assms by (metis less_le_trans mult_less_cancel2)+
  with row_inj [of y w "x * k" y' "x' * k"] z(1) z'(1) show "y = y'" by simp
qed (use assms(2) in \<open>auto simp: distinct_map inj_on_def\<close>)

section \<open>Offsets of the conversions\<close>

abbreviation image_w :: "AhbImage \<Rightarrow> nat" where "image_w img \<equiv> unat (ai_width img)"
abbreviation image_h :: "AhbImage \<Rightarrow> nat" where "image_h img \<equiv> unat (ai_height img)"

text \<open>The rows of a packed image are at least as wide as its pixels.\<close>
definition stride_ok :: "AhbImage \<Rightarrow> bool" where
  "stride_ok img \<longleftrightarrow> (ai_format img = FL_FORMAT_BGRA8 \<longrightarrow> image_w img * 4 \<le> unat (ai_strideBytes img))"

text \<open>The conversion that stands between the client's view and the native buffer: view offset and native offset of each byte.\<close>
definition conversion :: "AhbImage \<Rightarrow> (nat \<times> nat) list" where
  "conversion img = (if ai_format img = FL_FORMAT_BGRA8 then bgra_swap img
     else if ai_format img = FL_FORMAT_NV12 \<and> \<not> ai_nativeNv12 img then yuv_samples img else [])"

lemma pixel_offsets_rows:
  "pixel_offsets img = concat (map (\<lambda>y. map (\<lambda>x. 0 + y * unat (ai_strideBytes img) + x * 4) [0..<image_w img]) [0..<image_h img])"
  by (simp add: pixel_offsets_def)

lemma pixel_offsets_mod: "i \<in> set (pixel_offsets img) \<Longrightarrow> \<exists>y x. i = y * unat (ai_strideBytes img) + x * 4 \<and> x < image_w img \<and> y < image_h img"
  by (fastforce simp: pixel_offsets_def)

lemma bgra_fst: "map fst (bgra_swap img) = concat (map (\<lambda>i. [i, i + 1, i + 2, i + 3]) (pixel_offsets img))"
  by (simp add: bgra_swap_def map_concat comp_def)

lemma bgra_distinct:
  assumes "image_w img * 4 \<le> unat (ai_strideBytes img)"
  shows "distinct (map fst (bgra_swap img))"
  unfolding bgra_fst
proof (rule distinct_concat_map)
  show "distinct (pixel_offsets img)" unfolding pixel_offsets_rows by (rule distinct_rows) (use assms in simp_all)
  fix i j z assume a: "i \<in> set (pixel_offsets img)" "j \<in> set (pixel_offsets img)" "z \<in> set [i, i + 1, i + 2, i + 3]" "z \<in> set [j, j + 1, j + 2, j + 3]"
  let ?s = "unat (ai_strideBytes img)"
  obtain y x where i: "i = y * ?s + x * 4" "x < image_w img" using pixel_offsets_mod [OF a(1)] by auto
  obtain y' x' where j: "j = y' * ?s + x' * 4" "x' < image_w img" using pixel_offsets_mod [OF a(2)] by auto
  obtain c where c: "z = i + c" "c < 4" using a(3) by (auto simp: numeral_eq_Suc)
  obtain c' where c': "z = j + c'" "c' < 4" using a(4) by (auto simp: numeral_eq_Suc)
  have "y * ?s + (x * 4 + c) = y' * ?s + (x' * 4 + c')" using c c' i j by simp
  moreover have "x * 4 + c < ?s" "x' * 4 + c' < ?s" using c(2) c'(2) i(2) j(2) assms by simp_all
  ultimately have "y = y'" "x * 4 + c = x' * 4 + c'" using row_inj by blast+
  then show "i = j" using c(2) c'(2) i j by simp
qed simp

lemma bgra_symmetric: "set (map prod.swap (bgra_swap img)) = set (bgra_swap img)"
  by (auto simp: bgra_swap_def)

text \<open>The copy offsets of plane \<open>p\<close>.\<close>
definition yuv_plane_offsets :: "nat \<Rightarrow> nat \<Rightarrow> nat \<Rightarrow> nat list" where
  "yuv_plane_offsets w h p = concat (map (\<lambda>y. map (\<lambda>x. (if p \<noteq> 0 then w * h + p - 1 else 0) + y * w + x * (if p \<noteq> 0 then 2 else 1))
      [0..<(if p \<noteq> 0 then w div 2 else w)]) [0..<(if p \<noteq> 0 then h div 2 else h)])"

lemma yuv_fst: "map fst (yuv_samples img) = concat (map (yuv_plane_offsets (image_w img) (image_h img)) [0..<3])"
  by (simp add: yuv_samples_def yuv_plane_offsets_def [abs_def] Let_def map_concat comp_def)

lemma below_rows: "y < h \<Longrightarrow> a < w \<Longrightarrow> y * w + a < w * (h :: nat)"
  by (metis add.commute add_mono_thms_linordered_field(3) le_add1 less_le_trans mult.commute mult_Suc mult_le_mono2 nat_add_left_cancel_less not_less_eq_eq plus_1_eq_Suc Suc_leI)

text \<open>Luma samples lie below \<open>w * h\<close>; chroma samples of plane \<open>p\<close> behind it, at offsets of the parity of \<open>p - 1\<close> in their row.\<close>
lemma yuv_plane_range:
  assumes "z \<in> set (yuv_plane_offsets w h p)" "p < 3"
  shows "if p = 0 then z < w * h else \<exists>y a. z = w * h + (y * w + (2 * a + (p - 1))) \<and> y < h div 2 \<and> 2 * a + (p - 1) < w"
proof -
  obtain y x where z: "z = (if p \<noteq> 0 then w * h + p - 1 else 0) + y * w + x * (if p \<noteq> 0 then 2 else 1)"
    "x < (if p \<noteq> 0 then w div 2 else w)" "y < (if p \<noteq> 0 then h div 2 else h)" using assms(1) unfolding yuv_plane_offsets_def by fastforce
  show ?thesis
  proof (cases "p = 0")
    case True
    with z below_rows [of y h x w] show ?thesis by simp
  next
    case False
    with z assms(2) have "z = w * h + (y * w + (2 * x + (p - 1)))" "y < h div 2" "2 * x + (p - 1) < w" by auto
    with False show ?thesis by auto
  qed
qed

lemma yuv_distinct: "distinct (map fst (yuv_samples img))"
  unfolding yuv_fst
proof (rule distinct_concat_map)
  fix p q z
  let ?w = "image_w img" and ?h = "image_h img"
  assume a: "p \<in> set [0..<3]" "q \<in> set [0..<3]" "z \<in> set (yuv_plane_offsets ?w ?h p)" "z \<in> set (yuv_plane_offsets ?w ?h q)"
  then have pq: "p < 3" "q < 3" by simp_all
  note rp = yuv_plane_range [OF a(3) pq(1)] and rq = yuv_plane_range [OF a(4) pq(2)]
  show "p = q"
  proof (cases "p = 0 \<or> q = 0")
    case True
    then show ?thesis using rp rq by (auto split: if_splits)
  next
    case False
    then have np: "p \<noteq> 0" "q \<noteq> 0" by simp_all
    obtain y a where e: "z = ?w * ?h + (y * ?w + (2 * a + (p - 1)))" "2 * a + (p - 1) < ?w"
      using rp unfolding if_not_P [OF np(1)] by blast
    obtain y' a' where e': "z = ?w * ?h + (y' * ?w + (2 * a' + (q - 1)))" "2 * a' + (q - 1) < ?w"
      using rq unfolding if_not_P [OF np(2)] by blast
    have "y * ?w + (2 * a + (p - 1)) = y' * ?w + (2 * a' + (q - 1))" using e(1) e'(1) by linarith
    then have "2 * a + (p - 1) = 2 * a' + (q - 1)" using row_inj e(2) e'(2) by blast
    with False pq show ?thesis by presburger
  qed
next
  fix p assume "p \<in> set [0..<3]"
  show "distinct (yuv_plane_offsets (image_w img) (image_h img) p)" unfolding yuv_plane_offsets_def by (rule distinct_rows) auto
qed simp

lemma conversion_distinct: "stride_ok img \<Longrightarrow> distinct (map fst (conversion img))"
  by (simp add: conversion_def stride_ok_def bgra_distinct yuv_distinct)

section \<open>Theorems\<close>

lemma resized_fields [simp]:
  "ai_bytes (resized n img) = ai_bytes img" "ai_locked (resized n img) = ai_locked img" "ai_mapped (resized n img) = ai_mapped img"
  "ai_format (resized n img) = ai_format img" "ai_width (resized n img) = ai_width img" "ai_height (resized n img) = ai_height img"
  "ai_strideBytes (resized n img) = ai_strideBytes img" "ai_nv12Size (resized n img) = n"
  "ai_ahb (resized n img) = ai_ahb img" "ai_addr (resized n img) = ai_addr img" "ai_nativeNv12 (resized n img) = ai_nativeNv12 img"
  by (simp_all add: resized_def)

text \<open>What the conversions read of an image.\<close>
lemma conversion_cong:
  assumes "ai_format a = ai_format b" "ai_width a = ai_width b" "ai_height a = ai_height b" "ai_strideBytes a = ai_strideBytes b"
    "ai_planes a = ai_planes b" "ai_nativeNv12 a = ai_nativeNv12 b"
  shows "conversion a = conversion b" "bgra_swap a = bgra_swap b" "yuv_samples a = yuv_samples b"
  using assms by (simp_all add: conversion_def bgra_swap_def yuv_samples_def pixel_offsets_def)

text \<open>The state a successful call leaves: locked, and the view holds the converted bytes.\<close>
definition mapped_view :: "AhbImage \<Rightarrow> bool" where
  "mapped_view img \<longleftrightarrow> ai_locked img \<and>
     ai_mapped img = Some (if ai_format img = FL_FORMAT_BGRA8 \<or> (ai_format img = FL_FORMAT_NV12 \<and> \<not> ai_nativeNv12 img) then CopyView else NativeView) \<and>
     (\<forall>(d, s) \<in> set (conversion img). d < ai_nv12Size img \<and> view_bytes img d = ai_bytes img s)"

text \<open>The write-back of an unmap, over the conversion.\<close>
lemma unmap_bytes:
  assumes "ai_mapped img = Some (if ai_format img = FL_FORMAT_BGRA8 \<or> (ai_format img = FL_FORMAT_NV12 \<and> \<not> ai_nativeNv12 img) then CopyView else NativeView)"
  shows "ai_bytes (flImageUnmap_ahb img) = 
    (if ai_format img = FL_FORMAT_BGRA8 then copies (bgra_swap img) (ai_nv12 img) (ai_bytes img)
     else copies (map prod.swap (conversion img)) (ai_nv12 img) (ai_bytes img))"
  using assms by (auto simp: flImageUnmap_ahb_def conversion_def copies_def Let_def)

text \<open>Size of the converted copy.\<close>
definition copy_size :: "AhbImage \<Rightarrow> nat" where
  "copy_size img = (if ai_format img = FL_FORMAT_BGRA8 then unat (ai_strideBytes img) * image_h img else image_w img * image_h img * 3 div 2)"

lemma bgra_inside:
  assumes "(d, s) \<in> set (bgra_swap img)" "image_w img * 4 \<le> unat (ai_strideBytes img)"
  shows "d < unat (ai_strideBytes img) * image_h img"
proof -
  obtain i where i: "i \<in> set (pixel_offsets img)" "d < i + 4" using assms(1) by (auto simp: bgra_swap_def)
  obtain y x where e: "i = y * unat (ai_strideBytes img) + x * 4" "x < image_w img" "y < image_h img" using pixel_offsets_mod [OF i(1)] by auto
  have "x * 4 + 3 < unat (ai_strideBytes img)" using e(2) assms(2) by simp
  from below_rows [OF e(3) this] i(2) e(1) show ?thesis by simp
qed

lemma yuv_inside:
  assumes "(d, s) \<in> set (yuv_samples img)"
  shows "d < image_w img * image_h img * 3 div 2"
proof -
  let ?w = "image_w img" and ?h = "image_h img"
  have "d \<in> set (map fst (yuv_samples img))" using assms by force
  then obtain p where p: "p < 3" "d \<in> set (yuv_plane_offsets ?w ?h p)" unfolding yuv_fst by auto
  note r = yuv_plane_range [OF p(2) p(1)]
  show ?thesis
  proof (cases "p = 0")
    case True
    then show ?thesis using r by simp
  next
    case False
    obtain y a where e: "d = ?w * ?h + (y * ?w + (2 * a + (p - 1)))" "y < ?h div 2" "2 * a + (p - 1) < ?w"
      using r unfolding if_not_P [OF False] by blast
    have "d < ?w * ?h + ?w * (?h div 2)" using below_rows [OF e(2,3)] e(1) by simp
    also have "\<dots> \<le> ?w * ?h * 3 div 2"
    proof -
      have "2 * (?h div 2) \<le> ?h" by simp
      then have "?w * (2 * (?h div 2)) \<le> ?w * ?h" by (rule mult_le_mono2)
      then show ?thesis by (simp add: less_eq_div_iff_mult_less_eq algebra_simps)
    qed
    finally show ?thesis .
  qed
qed

lemma conversion_inside: "stride_ok img \<Longrightarrow> (d, s) \<in> set (conversion img) \<Longrightarrow> d < copy_size img"
  by (auto simp: conversion_def stride_ok_def copy_size_def bgra_inside yuv_inside split: if_splits)

text \<open>A successful first mapping.\<close>
lemma map_ok:
  assumes "flImageMap_ahb env img pixels = (FL_OK, v, img1)" "ai_mapped img = None" "stride_ok img"
  shows "mapped_view img1 \<and> ai_bytes img1 = ai_bytes img \<and> stride_ok img1"
proof (cases "ai_format img = FL_FORMAT_BGRA8")
  case True
  let ?i = "(resized (unat (ai_strideBytes img) * image_h img) (img\<lparr>ai_locked := True\<rparr>))\<lparr>ai_nativeMapped := True\<rparr>"
  have e: "img1 = ?i\<lparr>ai_nv12 := copies (bgra_swap ?i) (ai_bytes ?i) (ai_nv12 ?i), ai_mapped := Some CopyView\<rparr>"
    using assms(1,2) True by (auto simp: flImageMap_ahb_def Let_def split: if_splits)
  have b: "bgra_swap img1 = bgra_swap img" "bgra_swap ?i = bgra_swap img" using e by (simp_all add: bgra_swap_def pixel_offsets_def)
  have w: "image_w img * 4 \<le> unat (ai_strideBytes img)" using assms(3) True by (simp add: stride_ok_def)
  show ?thesis using e b w True bgra_inside [OF _ w] copies_at(1) [OF bgra_distinct [OF w]]
    by (auto simp: mapped_view_def view_bytes_def conversion_def stride_ok_def)
next
  case False
  then show ?thesis using assms by (auto simp: flImageMap_ahb_def mapped_view_def conversion_def stride_ok_def Let_def split: if_splits)
qed

lemma map_yuv_ok:
  assumes "map_yuv env img = (FL_OK, img1)" "ai_format img = FL_FORMAT_NV12"
  shows "mapped_view img1 \<and> ai_bytes img1 = ai_bytes img \<and> stride_ok img1"
proof -
  obtain ps where ps: "lk_planes env = Some ps" "length ps = 3" using assms(1) by (auto simp: map_yuv_def Let_def split: if_splits option.splits)
  define i where "i = (resized (image_w img * image_h img * 3 div 2) img)\<lparr>ai_planes := ps, ai_locked := True, ai_nativeNv12 := native_nv12 ps,
    ai_mapped := Some (if native_nv12 ps then NativeView else CopyView)\<rparr>"
  have e: "img1 = (if native_nv12 ps then i else i\<lparr>ai_nv12 := copies (yuv_samples i) (ai_bytes i) (ai_nv12 i)\<rparr>)"
    using assms(1) ps by (auto simp: map_yuv_def Let_def i_def split: if_splits)
  show ?thesis
  proof (cases "native_nv12 ps")
    case True
    then show ?thesis using e assms(2) by (simp add: mapped_view_def conversion_def stride_ok_def i_def)
  next
    case False
    then have s: "yuv_samples img1 = yuv_samples i" using e by (simp add: yuv_samples_def)
    show ?thesis using e s False assms(2) copies_at(1) [OF yuv_distinct [of i]] yuv_inside [of _ _ i]
      by (auto simp: mapped_view_def view_bytes_def conversion_def stride_ok_def i_def)
  qed
qed

lemma map_planes_ok:
  assumes "flImageMapPlanes_ahb env img out = (FL_OK, ps, img1)" "ai_mapped img = None" "stride_ok img"
  shows "mapped_view img1 \<and> ai_bytes img1 = ai_bytes img \<and> stride_ok img1"
  using assms map_yuv_ok [of env img img1] map_ok [of env img True _ img1]
  by (auto simp: flImageMapPlanes_ahb_def split: if_splits prod.splits option.splits)

text \<open>Locked exactly while mapped, and a mapping is of the kind the format calls for.\<close>
definition ahb_image_ok :: "AhbImage \<Rightarrow> bool" where
  "ahb_image_ok img \<longleftrightarrow> ai_locked img = (ai_mapped img \<noteq> None) \<and>
     (ai_mapped img \<noteq> None \<longrightarrow> ai_mapped img =
        Some (if ai_format img = FL_FORMAT_BGRA8 \<or> (ai_format img = FL_FORMAT_NV12 \<and> \<not> ai_nativeNv12 img) then CopyView else NativeView))"

definition example_ahb_image :: AhbImage where
  "example_ahb_image = (new_ahb_image 1)\<lparr>ai_ahb := Some 1, ai_format := FL_FORMAT_NV12, ai_width := 2, ai_height := 2, ai_strideBytes := 2,
     ai_bytes := (\<lambda>j. of_nat j)\<rparr>"

text \<open>A planar layout with the V plane in front of the U plane.\<close>
definition example_lock :: LockEnv where
  "example_lock = \<lparr>lk_ok = True, lk_planes = Some [\<lparr>hp_data = 0, hp_pixelStride = 1, hp_rowStride = 2\<rparr>,
     \<lparr>hp_data = 5, hp_pixelStride = 1, hp_rowStride = 1\<rparr>, \<lparr>hp_data = 4, hp_pixelStride = 1, hp_rowStride = 1\<rparr>], lk_oom = False\<rparr>"

text \<open>
  C18. Mapping is transparent.  On Android a successful \<^verbatim>\<open>flImageMapPlanes\<close> of an unmapped image locks the native buffer and, for BGRA
  and non-interleaved YUV, gives the client a converted copy; a \<^verbatim>\<open>flImageUnmap\<close> with no client write in between leaves
  every byte of the native buffer as it was, whatever plane layout the device reported, and unlocks it.
\<close>
theorem ahb_map_roundtrip:
  assumes "flImageMapPlanes_ahb env img True = (FL_OK, planes, img1)" "ai_mapped img = None" "stride_ok img"
  shows "ai_bytes (flImageUnmap_ahb img1) = ai_bytes img \<and> ai_locked img1 \<and> \<not> ai_locked (flImageUnmap_ahb img1) \<and>
    ai_mapped (flImageUnmap_ahb img1) = None"
proof -
  have m: "mapped_view img1" "ai_bytes img1 = ai_bytes img" "stride_ok img1" using map_planes_ok [OF assms] by simp_all
  have v: "view_bytes img1 d = ai_bytes img1 s" if "(d, s) \<in> set (conversion img1)" for d s using m(1) that by (auto simp: mapped_view_def)
  have "ai_bytes (flImageUnmap_ahb img1) = ai_bytes img1"
  proof (cases "conversion img1 = []")
    case True
    then show ?thesis using m(1) unmap_bytes [of img1] by (auto simp: mapped_view_def copies_def conversion_def split: if_splits)
  next
    case False
    then have nv: "ai_nv12 img1 = view_bytes img1" using m(1) by (auto simp: mapped_view_def view_bytes_def conversion_def split: if_splits)
    have sym: "copies (bgra_swap img1) (view_bytes img1) (ai_bytes img1) = ai_bytes img1" if "ai_format img1 = FL_FORMAT_BGRA8"
    proof (rule copies_same)
      fix d s assume "(d, s) \<in> set (bgra_swap img1)"
      then have "(s, d) \<in> set (bgra_swap img1)" using bgra_symmetric [of img1] by force
      then show "view_bytes img1 s = ai_bytes img1 d" using v that by (simp add: conversion_def)
    qed
    have "copies (map prod.swap (conversion img1)) (view_bytes img1) (ai_bytes img1) = ai_bytes img1" by (rule copies_same) (use v in auto)
    with sym show ?thesis using unmap_bytes [of img1] m(1) nv by (simp add: mapped_view_def)
  qed
  then show ?thesis using m by (auto simp: mapped_view_def flImageUnmap_ahb_def Let_def)
qed

lemma example_mapped: "fst (flImageMapPlanes_ahb example_lock example_ahb_image True) = FL_OK"
  by code_simp

lemma example_start: "ai_mapped example_ahb_image = None" "stride_ok example_ahb_image"
  by (simp_all add: example_ahb_image_def new_ahb_image_def stride_ok_def)

theorem ahb_map_roundtrip_witness:
  "ai_bytes (flImageUnmap_ahb (snd (snd (flImageMapPlanes_ahb example_lock example_ahb_image True)))) = ai_bytes example_ahb_image"
proof -
  obtain ps i where e: "flImageMapPlanes_ahb example_lock example_ahb_image True = (FL_OK, ps, i)"
    using example_mapped by (cases "flImageMapPlanes_ahb example_lock example_ahb_image True") auto
  from ahb_map_roundtrip [OF e example_start] show ?thesis by (simp add: e)
qed

lemma write_view_fields [simp]:
  "ai_mapped (write_view f img) = ai_mapped img" "ai_format (write_view f img) = ai_format img" "ai_nativeNv12 (write_view f img) = ai_nativeNv12 img"
  "ai_width (write_view f img) = ai_width img" "ai_height (write_view f img) = ai_height img"
  "ai_strideBytes (write_view f img) = ai_strideBytes img" "ai_planes (write_view f img) = ai_planes img"
  by (simp_all add: write_view_def)

lemma bgra_snd: "image_w img * 4 \<le> unat (ai_strideBytes img) \<Longrightarrow> (d, s) \<in> set (bgra_swap img) \<Longrightarrow> (s, d) \<in> set (bgra_swap img)"
  using bgra_symmetric [of img] by force



lemma unmap_image_ok: "ahb_image_ok img \<Longrightarrow> ahb_image_ok (flImageUnmap_ahb img)"
  by (auto simp: ahb_image_ok_def flImageUnmap_ahb_def Let_def)

lemma map_image_ok: "ahb_image_ok img \<Longrightarrow> ahb_image_ok (snd (snd (flImageMap_ahb env img pixels)))"
  by (auto simp: ahb_image_ok_def flImageMap_ahb_def Let_def)

text \<open>
  No lock leaks and none is dropped twice: every call of the image interface, failed ones included, leaves the native buffer locked exactly
  when the image is mapped.
\<close>
theorem ahb_lock_balance:
  assumes "ahb_image_ok img"
  shows "ahb_image_ok (snd (snd (flImageMap_ahb env img pixels))) \<and> ahb_image_ok (snd (snd (flImageMapPlanes_ahb env img out))) \<and>
    ahb_image_ok (flImageUnmap_ahb img)"
proof -
  have "ahb_image_ok (snd (map_yuv env img))" if "ai_format img = FL_FORMAT_NV12" "ai_mapped img = None"
    using assms that by (auto simp: ahb_image_ok_def map_yuv_def Let_def split: option.splits)
  then have "ahb_image_ok (snd (snd (flImageMapPlanes_ahb env img out)))"
    using assms map_image_ok [OF assms, of env True]
    by (auto simp: flImageMapPlanes_ahb_def split: prod.splits option.splits)
  then show ?thesis using assms unmap_image_ok map_image_ok by blast
qed

end
