(* ===== verification/FL_AhbChannel.thy ===== *)
theory FL_AhbChannel
  imports FL_Consumer FL_AhbImage
begin

text \<open>
  The channel object of the Android backend, \<^verbatim>\<open>struct flChannel\<close> of \<^verbatim>\<open>src/framelink_android.cpp\<close>, and its ring: adoption of
  native buffers (\<^verbatim>\<open>adoptRing\<close>), allocation (\<^verbatim>\<open>reallocRing\<close>), hand-over (\<^verbatim>\<open>handOverRing\<close>), import on the producer side
  (\<^verbatim>\<open>importRing\<close>), creation, opening and closing.  A native buffer is a handle, a natural number; the record \<open>AhbEnv\<close> holds
  what the platform answers about handles, \<open>Env\<close> the answers of the kernel.  \<open>ac_released\<close> logs the handles whose reference was
  dropped, \<open>ac_closed\<close> the descriptors that were closed.
\<close>

section \<open>Data\<close>

text \<open>\<^verbatim>\<open>AHardwareBuffer_Desc\<close>\<close>
record AhbDesc =
  hd_width :: u32
  hd_height :: u32
  hd_layers :: u32
  hd_format :: u32
  hd_usage :: u64
  hd_stride :: u32

abbreviation AHB_CPU_READ_RARELY :: u64 where "AHB_CPU_READ_RARELY \<equiv> 2"
abbreviation AHB_CPU_READ_MASK :: u64 where "AHB_CPU_READ_MASK \<equiv> 0xF"
abbreviation AHB_CPU_WRITE_OFTEN :: u64 where "AHB_CPU_WRITE_OFTEN \<equiv> 0x30"
abbreviation AHB_CPU_WRITE_MASK :: u64 where "AHB_CPU_WRITE_MASK \<equiv> 0xF0"
abbreviation AHB_GPU_SAMPLED_IMAGE :: u64 where "AHB_GPU_SAMPLED_IMAGE \<equiv> 0x100"
abbreviation AHB_GPU_COLOR_OUTPUT :: u64 where "AHB_GPU_COLOR_OUTPUT \<equiv> 0x200"

text \<open>
  Answers about native buffers: the identity of a handle (\<open>None\<close> where the library lacks the function), its description,
  the handle the \<open>i\<close>-th allocation yields, whether a description is supported, whether sending a handle succeeds, the
  \<open>i\<close>-th handle received, the address of the \<open>i\<close>-th new image.
\<close>
record AhbEnv =
  hb_getId :: "(nat \<Rightarrow> u64 option) option"
  hb_describe :: "nat \<Rightarrow> AhbDesc"
  hb_allocate :: "AhbDesc \<Rightarrow> nat \<Rightarrow> nat option"
  hb_supported :: "AhbDesc \<Rightarrow> bool"
  hb_send :: "nat \<Rightarrow> bool"
  hb_recv :: "nat \<Rightarrow> nat option"
  hb_addr :: "nat \<Rightarrow> nat"

record AhbChannel =
  ac_isConsumer :: bool
  ac_externalPool :: bool
  ac_delegated :: bool
  ac_interruptFd :: fd
  ac_name :: string
  ac_info :: flChannelInfo
  ac_flags :: u32
  ac_peerFeatures :: u32
  ac_bufferReferences :: BufferReferences
  ac_slotMetadata :: "flFrameMetadata list"
  ac_pendingMetadata :: flFrameMetadata
  ac_heldMetadata :: flFrameMetadata
  ac_images :: "AhbImage list"
  ac_sync :: SyncFds
  ac_submittingSlot :: u32
  ac_submittingValue :: u64
  ac_readyValue :: u64
  ac_peer :: IpcChannel
  ac_peerGone :: bool
  ac_hasPending :: bool
  ac_readers :: ReadLedger
  ac_leaseCompletions :: "LeaseCompletion list"
  ac_frameHeld :: bool
  ac_heldReady :: u64
  ac_retiredValue :: u64
  ac_heldSlot :: u32
  ac_pendingSlot :: u32
  ac_pendingReady :: u64
  ac_pendingPts :: i64
  ac_pendingArrival :: u64
  ac_heldArrival :: u64
  ac_sequence :: u64
  ac_link :: IpcChannel
  ac_slotSubmitValue :: "u64 list"
  ac_consumedValue :: u64
  ac_closed :: "fd list"
  ac_released :: "nat list"

text \<open>\<^verbatim>\<open>new flChannel()\<close>\<close>
definition new_ahb_channel :: AhbChannel where
  "new_ahb_channel = \<lparr>ac_isConsumer = False, ac_externalPool = False, ac_delegated = False, ac_interruptFd = -1, ac_name = [],
     ac_info = \<lparr>ci_version = 0, ci_width = 0, ci_height = 0, ci_format = 0, ci_poolSize = 0, ci_generation = 0\<rparr>,
     ac_flags = 0, ac_peerFeatures = 0, ac_bufferReferences = refs_init, ac_slotMetadata = replicate 16 zero_metadata,
     ac_pendingMetadata = zero_metadata, ac_heldMetadata = zero_metadata, ac_images = [], ac_sync = sync_init,
     ac_submittingSlot = UINT32_MAX, ac_submittingValue = 0, ac_readyValue = 0, ac_peer = ipc_null, ac_peerGone = False,
     ac_hasPending = False, ac_readers = ledger_init, ac_leaseCompletions = replicate 256 \<lparr>lc_token = 0, lc_fd = -1\<rparr>,
     ac_frameHeld = False, ac_heldReady = 0, ac_retiredValue = 0, ac_heldSlot = 0, ac_pendingSlot = 0, ac_pendingReady = 0,
     ac_pendingPts = -1, ac_pendingArrival = 0, ac_heldArrival = 0, ac_sequence = 0, ac_link = ipc_null,
     ac_slotSubmitValue = [], ac_consumedValue = 0, ac_closed = [], ac_released = []\<rparr>"

section \<open>Shared steps\<close>

definition log_closed_ahb :: "fd list \<Rightarrow> AhbChannel \<Rightarrow> AhbChannel" where
  "log_closed_ahb fds ch = ch\<lparr>ac_closed := ac_closed ch @ fds\<rparr>"

definition log_released :: "nat list \<Rightarrow> AhbChannel \<Rightarrow> AhbChannel" where
  "log_released hs ch = ch\<lparr>ac_released := ac_released ch @ hs\<rparr>"

definition advance_retired_ahb :: "Env \<Rightarrow> AhbChannel \<Rightarrow> AhbChannel" where
  "advance_retired_ahb env ch =
     (let (sy, v, closed) = sync_advance (en_signalled env) (ac_sync ch) (ac_retiredValue ch)
      in log_closed_ahb closed (ch\<lparr>ac_sync := sy, ac_retiredValue := v\<rparr>))"

definition advance_consumed_ahb :: "Env \<Rightarrow> AhbChannel \<Rightarrow> AhbChannel" where
  "advance_consumed_ahb env ch =
     (let (sy, v, closed) = sync_advance (en_signalled env) (ac_sync ch) (ac_consumedValue ch)
      in log_closed_ahb closed (ch\<lparr>ac_sync := sy, ac_consumedValue := v\<rparr>))"

definition clear_sync_ahb :: "AhbChannel \<Rightarrow> AhbChannel" where
  "clear_sync_ahb ch = (let (sy, closed) = sync_clear (ac_sync ch) in log_closed_ahb closed (ch\<lparr>ac_sync := sy\<rparr>))"

section \<open>The ring\<close>

text \<open>Geometry and format of a native buffer; the stride an image of it has.\<close>
definition desc_matches :: "AhbDesc \<Rightarrow> u32 \<Rightarrow> u32 \<Rightarrow> flFormat \<Rightarrow> bool" where
  "desc_matches d w h f \<longleftrightarrow> hd_width d = w \<and> hd_height d = h \<and> hd_layers d = 1 \<and> hd_format d = ahbFormatFor f"

definition desc_stride :: "AhbDesc \<Rightarrow> u32 \<Rightarrow> flFormat \<Rightarrow> u64" where
  "desc_stride d w f = (if f = FL_FORMAT_NV12 then ucast w else ucast (hd_stride d) * 4)"

definition usage_allows :: "u32 \<Rightarrow> AhbDesc \<Rightarrow> bool" where
  "usage_allows flags d \<longleftrightarrow> (flags AND FL_GPU_RENDER \<noteq> 0 \<longrightarrow> hd_usage d AND AHB_GPU_COLOR_OUTPUT \<noteq> 0) \<and>
     (flags AND FL_MAP_CPU \<noteq> 0 \<longrightarrow> hd_usage d AND AHB_CPU_READ_MASK \<noteq> 0 \<and> hd_usage d AND AHB_CPU_WRITE_MASK \<noteq> 0)"

definition ring_image :: "nat \<Rightarrow> nat \<Rightarrow> flFormat \<Rightarrow> u32 \<Rightarrow> u32 \<Rightarrow> u64 \<Rightarrow> AhbImage" where
  "ring_image addr h f width height stride =
     (new_ahb_image addr)\<lparr>ai_ahb := Some h, ai_format := f, ai_width := width, ai_height := height, ai_strideBytes := stride\<rparr>"

definition push_image :: "AhbImage \<Rightarrow> AhbChannel \<Rightarrow> AhbChannel" where
  "push_image img ch = ch\<lparr>ac_images := ac_images ch @ [img]\<rparr>"

text \<open>The loop over the caller's handles; \<open>ids\<close> are the identities of the earlier ones.\<close>
fun adopt_handles :: "AhbEnv \<Rightarrow> (nat \<Rightarrow> u64 option) \<Rightarrow> AhbChannel \<Rightarrow> nat \<Rightarrow> u64 list \<Rightarrow> nat option list \<Rightarrow> flResult \<times> AhbChannel" where
  "adopt_handles hb getId ch i ids [] =
     (FL_OK, ch\<lparr>ac_info := (ac_info ch)\<lparr>ci_generation := ci_generation (ac_info ch) + 1\<rparr>\<rparr>)"
| "adopt_handles hb getId ch i ids (None # hs) = (FL_INVALID, ch)"
| "adopt_handles hb getId ch i ids (Some h # hs) =
     (case getId h of
        None \<Rightarrow> (FL_INVALID, ch)
      | Some n \<Rightarrow>
          if n \<in> set ids then (FL_INVALID, ch)
          else
            let d = hb_describe hb h; info = ac_info ch
            in if \<not> desc_matches d (ci_width info) (ci_height info) (ci_format info) then (FL_FORMAT_UNSUPPORTED, ch)
               else if \<not> usage_allows (ac_flags ch) d then (FL_FORMAT_UNSUPPORTED, ch)
               else adopt_handles hb getId
                 (push_image (ring_image (hb_addr hb i) h (ci_format info) (hd_width d) (hd_height d) (desc_stride d (hd_width d) (ci_format info))) ch)
                 (Suc i) (ids @ [n]) hs)"

definition adoptRing_ahb :: "AhbEnv \<Rightarrow> AhbChannel \<Rightarrow> nat option list \<Rightarrow> flResult \<times> AhbChannel" where
  "adoptRing_ahb hb ch images =
     (case hb_getId hb of None \<Rightarrow> (FL_FORMAT_UNSUPPORTED, ch) | Some getId \<Rightarrow> adopt_handles hb getId ch 0 [] images)"

definition ring_usage :: "u32 \<Rightarrow> u64" where
  "ring_usage flags = AHB_GPU_SAMPLED_IMAGE OR (if flags AND FL_GPU_RENDER \<noteq> 0 then AHB_GPU_COLOR_OUTPUT else 0) OR
     (if flags AND FL_MAP_CPU \<noteq> 0 then AHB_CPU_WRITE_OFTEN OR AHB_CPU_READ_RARELY else 0)"

definition alloc_desc :: "u32 \<Rightarrow> flFormat \<Rightarrow> u32 \<Rightarrow> u32 \<Rightarrow> AhbDesc" where
  "alloc_desc flags f w h =
     \<lparr>hd_width = w, hd_height = h, hd_layers = 1, hd_format = ahbFormatFor f, hd_usage = ring_usage flags, hd_stride = 0\<rparr>"

text \<open>The allocation loop from slot \<open>i\<close>, \<open>n\<close> to go; \<open>Inl\<close> carries the handles released when an allocation fails.\<close>
fun alloc_handles :: "AhbEnv \<Rightarrow> AhbDesc \<Rightarrow> flFormat \<Rightarrow> nat \<Rightarrow> nat \<Rightarrow> AhbImage list \<Rightarrow> nat list + AhbImage list" where
  "alloc_handles hb d f 0 i fresh = Inr fresh"
| "alloc_handles hb d f (Suc n) i fresh =
     (case hb_allocate hb d i of
        None \<Rightarrow> Inl (concat (map freeImage_ahb fresh))
      | Some h \<Rightarrow> alloc_handles hb d f n (Suc i)
          (fresh @ [ring_image (hb_addr hb i) h f (hd_width d) (hd_height d) (desc_stride (hb_describe hb h) (hd_width d) f)]))"

definition reallocRing_ahb :: "AhbEnv \<Rightarrow> AhbChannel \<Rightarrow> u32 \<Rightarrow> u32 \<Rightarrow> nat \<Rightarrow> bool \<times> AhbChannel" where
  "reallocRing_ahb hb ch w h poolSize =
     (case alloc_handles hb (alloc_desc (ac_flags ch) (ci_format (ac_info ch)) w h) (ci_format (ac_info ch)) poolSize 0 [] of
        Inl freed \<Rightarrow> (False, log_released freed ch)
      | Inr fresh \<Rightarrow> (True, clear_sync_ahb (log_released (concat (map freeImage_ahb (ac_images ch)))
          (ch\<lparr>ac_images := fresh,
              ac_info := (ac_info ch)\<lparr>ci_width := w, ci_height := h, ci_generation := ci_generation (ac_info ch) + 1\<rparr>,
              ac_readers := resetEpoch (ac_readers ch), ac_heldReady := 0, ac_retiredValue := 0\<rparr>))))"

definition ring_handles :: "AhbChannel \<Rightarrow> nat list" where
  "ring_handles ch = concat (map (\<lambda>img. case ai_ahb img of None \<Rightarrow> [] | Some h \<Rightarrow> [h]) (ac_images ch))"

definition ring_desc_ahb :: "AhbChannel \<Rightarrow> RingDescMsg" where
  "ring_desc_ahb ch = zero_ringDesc\<lparr>
     rd_generation := ci_generation (ac_info ch), rd_width := ci_width (ac_info ch), rd_height := ci_height (ac_info ch),
     rd_format := ci_format (ac_info ch), rd_poolSize := of_nat (length (ac_images ch)),
     rd_stride := pad 16 0 (map ai_strideBytes (ac_images ch))\<rparr>"

text \<open>The description, then the handles in order until one cannot be sent.  The last component is what was sent.\<close>
definition handOverRing_ahb :: "Env \<Rightarrow> AhbEnv \<Rightarrow> AhbChannel \<Rightarrow> IpcChannel \<Rightarrow> bool \<times> IpcChannel \<times> nat list" where
  "handOverRing_ahb env hb ch link =
     (let (sent, link') = ipc_send (en_sendmsg env) link MsgRingDesc (ring_bytes (ring_desc_ahb ch))
      in if \<not> sent then (False, link', [])
         else (list_all (hb_send hb) (ring_handles ch), link', takeWhile (hb_send hb) (ring_handles ch)))"

text \<open>Handles of a ring that was not replaced: received and dropped.\<close>
fun drain_handles :: "AhbEnv \<Rightarrow> nat \<Rightarrow> nat \<Rightarrow> AhbChannel \<Rightarrow> flResult \<times> AhbChannel" where
  "drain_handles hb 0 i ch = (FL_OK, ch)"
| "drain_handles hb (Suc n) i ch =
     (case hb_recv hb i of
        None \<Rightarrow> (FL_DISCONNECTED, ch)
      | Some h \<Rightarrow> drain_handles hb n (Suc i) (log_released [h] ch))"

definition import_done :: "RingDescMsg \<Rightarrow> AhbChannel \<Rightarrow> AhbChannel" where
  "import_done rd ch = ch\<lparr>ac_slotSubmitValue := replicate (unat (rd_poolSize rd)) 0, ac_consumedValue := 0, ac_readyValue := 0,
     ac_info := (ac_info ch)\<lparr>ci_generation := rd_generation rd, ci_width := rd_width rd, ci_height := rd_height rd,
       ci_format := rd_format rd, ci_poolSize := rd_poolSize rd\<rparr>\<rparr>"

fun import_handles :: "AhbEnv \<Rightarrow> RingDescMsg \<Rightarrow> nat \<Rightarrow> nat \<Rightarrow> AhbChannel \<Rightarrow> flResult \<times> AhbChannel" where
  "import_handles hb rd 0 i ch = (FL_OK, import_done rd ch)"
| "import_handles hb rd (Suc n) i ch =
     (case hb_recv hb i of
        None \<Rightarrow> (FL_DISCONNECTED, ch)
      | Some h \<Rightarrow>
          let d = hb_describe hb h
          in if \<not> desc_matches d (rd_width rd) (rd_height rd) (rd_format rd) \<or>
                rd_stride rd ! i \<noteq> desc_stride d (rd_width rd) (rd_format rd) then (FL_INVALID, log_released [h] ch)
             else import_handles hb rd n (Suc i)
               (push_image (ring_image (hb_addr hb i) h (rd_format rd) (rd_width rd) (rd_height rd) (rd_stride rd ! i)) ch))"

definition ring_ok :: "RingDescMsg \<Rightarrow> bool" where
  "ring_ok rd \<longleftrightarrow> rd_generation rd \<noteq> 0 \<and> rd_poolSize rd \<noteq> 0 \<and> unat (rd_poolSize rd) \<le> kMaxPool \<and> rd_width rd \<noteq> 0 \<and> rd_height rd \<noteq> 0 \<and>
     rd_width rd \<le> 8192 \<and> rd_height rd \<le> 8192 \<and> ahbFormatFor (rd_format rd) \<noteq> 0 \<and>
     \<not> (rd_format rd = FL_FORMAT_NV12 \<and> (rd_width rd OR rd_height rd) AND 1 \<noteq> 0)"

definition importRing_ahb :: "AhbEnv \<Rightarrow> AhbChannel \<Rightarrow> RingDescMsg \<Rightarrow> flResult \<times> AhbChannel" where
  "importRing_ahb hb ch rd =
     (if \<not> ring_ok rd then (FL_INVALID, ch)
      else if rd_generation rd = ci_generation (ac_info ch) \<and> ac_images ch \<noteq> [] then drain_handles hb (unat (rd_poolSize rd)) 0 ch
      else
        let ch1 = clear_sync_ahb ch; ch2 = (log_released (concat (map freeImage_ahb (ac_images ch1))) ch1)\<lparr>ac_images := []\<rparr>
        in import_handles hb rd (unat (rd_poolSize rd)) 0 ch2)"

end
