(* ===== verification/FL_AhbProducer.thy ===== *)
theory FL_AhbProducer
  imports FL_AhbChannel
begin

text \<open>
  The producer calls of the Android backend, \<^verbatim>\<open>src/framelink_android.cpp\<close>, and the calls of \<^verbatim>\<open>src/fl_read_api.inc\<close> it shares with the other
  backends.  The two backends keep the same slot and fence protocol over different images: \<open>as_linux\<close> forgets the native
  buffers and the conversion state of an Android channel, and the calls commute with it, so what is proved of the Linux
  producer holds of this one.
\<close>

section \<open>Release messages\<close>

definition applyRelease_ahb :: "Env \<Rightarrow> AhbChannel \<Rightarrow> Message \<Rightarrow> AhbChannel" where
  "applyRelease_ahb env ch msg =
     (if ms_type msg \<noteq> MsgFrameReleased then ch
      else case frame_of (ms_payload msg) of
          None \<Rightarrow> ch
        | Some fr \<Rightarrow>
            advance_consumed_ahb env (log_closed_ahb (tl (ms_fds msg))
              (ch\<lparr>ac_sync := (ac_sync ch)\<lparr>sy_releases := sy_releases (ac_sync ch) @
                 [(fm_readyValue fr, if ms_fds msg = [] then -1 else hd (ms_fds msg))]\<rparr>\<rparr>)))"

text \<open>Receiving on the producer's link, with the descriptors the receive closed.\<close>
definition recv_link_ahb :: "AhbChannel \<Rightarrow> Message option \<times> AhbChannel" where
  "recv_link_ahb ch = (let (m, link, closed) = ipc_recv (ac_link ch) in (m, log_closed_ahb closed (ch\<lparr>ac_link := link\<rparr>)))"

lemma recv_link_ahb_shrinks: "recv_link_ahb ch = (Some m, ch') \<Longrightarrow> length (ic_inbox (ac_link ch')) < length (ic_inbox (ac_link ch))"
  by (auto simp: recv_link_ahb_def ipc_recv_def log_closed_ahb_def Let_def split: if_splits list.splits prod.splits)

lemma applyRelease_ahb_link [simp]: "ac_link (applyRelease_ahb env ch msg) = ac_link ch"
  by (simp add: applyRelease_ahb_def advance_consumed_ahb_def log_closed_ahb_def Let_def split: option.splits prod.splits)

text \<open>Draining stops when no datagram is queued, or when the connection is lost.\<close>
function drainProducerMessages_ahb :: "Env \<Rightarrow> AhbChannel \<Rightarrow> AhbChannel" where
  "drainProducerMessages_ahb env ch =
     (if ic_inbox (ac_link ch) = [] then ch
      else case recv_link_ahb ch of
          (None, ch') \<Rightarrow> ch'
        | (Some m, ch') \<Rightarrow> drainProducerMessages_ahb env (applyRelease_ahb env ch' m))"
  by pat_completeness auto
termination
  by (relation "measure (\<lambda>(env, ch). length (ic_inbox (ac_link ch)))") (auto dest: recv_link_ahb_shrinks [OF sym])

declare drainProducerMessages_ahb.simps [simp del]

section \<open>Acquisition\<close>

definition slot_free_ahb :: "AhbChannel \<Rightarrow> nat \<Rightarrow> bool" where
  "slot_free_ahb ch i \<longleftrightarrow> ac_slotSubmitValue ch ! i \<le> ac_consumedValue ch \<and> \<not> refs_busy (ac_bufferReferences ch) (of_nat i)"

definition arrive_ahb :: "Datagram list \<Rightarrow> AhbChannel \<Rightarrow> AhbChannel" where
  "arrive_ahb ds ch = ch\<lparr>ac_link := (ac_link ch)\<lparr>ic_inbox := ic_inbox (ac_link ch) @ ds\<rparr>\<rparr>"

definition take_slot_ahb :: "AhbChannel \<Rightarrow> nat \<Rightarrow> AhbChannel" where
  "take_slot_ahb ch i = ch\<lparr>ac_slotSubmitValue := (ac_slotSubmitValue ch)[i := UINT64_MAX],
     ac_slotMetadata := (ac_slotMetadata ch)[i := zero_metadata]\<rparr>"

definition slot_buffer_ahb :: "AhbChannel \<Rightarrow> nat \<Rightarrow> flBuffer" where
  "slot_buffer_ahb ch i = \<lparr>bf_slot = of_nat i, bf_image = Some (ai_addr (ac_images ch ! i))\<rparr>"

definition acquire_round_ahb ::
  "(nat \<Rightarrow> Env) \<Rightarrow> (nat \<Rightarrow> Datagram list) \<Rightarrow> nat \<Rightarrow> AhbChannel \<times> flBuffer option \<Rightarrow>
   flResult option \<times> AhbChannel \<times> flBuffer option" where
  "acquire_round_ahb envs arrivals k s =
     (let (ch, out) = s; ch1 = drainProducerMessages_ahb (envs k) (arrive_ahb (arrivals k) ch)
      in if \<not> ic_connected (ac_link ch1) then (Some FL_DISCONNECTED, ch1, out)
         else
           let ch2 = advance_consumed_ahb (envs k) ch1
           in case find (slot_free_ahb ch2) [0..<length (ac_images ch2)] of
                Some i \<Rightarrow> (Some FL_OK, take_slot_ahb ch2 i, assign out (slot_buffer_ahb ch2 i))
              | None \<Rightarrow> (None, ch2, out))"

definition flAcquireBuffer_ahb ::
  "(nat \<Rightarrow> Env) \<Rightarrow> (nat \<Rightarrow> Datagram list) \<Rightarrow> AhbChannel \<Rightarrow> flBuffer option \<Rightarrow> u32 \<Rightarrow>
   (flResult \<times> (AhbChannel \<times> flBuffer option) \<times> nat) option" where
  "flAcquireBuffer_ahb envs arrivals ch out timeoutMs =
     (if ac_isConsumer ch \<or> out = None then Some (FL_INVALID, (ch, out), 0)
      else if \<not> ic_connected (ac_link ch) then Some (FL_DISCONNECTED, (ch, out), 0)
      else timed_loop 2 timeoutMs (acquire_round_ahb envs arrivals) FL_TIMEOUT 0 0 (ch, out))"

section \<open>Submission\<close>

text \<open>\<^verbatim>\<open>buf && buf->slot < images.size() && buf->image == images[buf->slot]\<close>\<close>
definition buffer_member_ahb :: "AhbChannel \<Rightarrow> flBuffer option \<Rightarrow> bool" where
  "buffer_member_ahb ch buf \<longleftrightarrow>
     (case buf of None \<Rightarrow> False
      | Some b \<Rightarrow> unat (bf_slot b) < length (ac_images ch) \<and> bf_image b = Some (ai_addr (ac_images ch ! unat (bf_slot b))))"

definition metadataReservation_ahb :: "AhbChannel \<Rightarrow> flBuffer option \<Rightarrow> bool" where
  "metadataReservation_ahb ch buf \<longleftrightarrow> buffer_member_ahb ch buf \<and> ac_slotSubmitValue ch ! unat (bf_slot (the buf)) = UINT64_MAX"

definition unmap_slot_ahb :: "AhbChannel \<Rightarrow> nat \<Rightarrow> AhbChannel" where
  "unmap_slot_ahb ch i = ch\<lparr>ac_images := (ac_images ch)[i := flImageUnmap_ahb (ac_images ch ! i)]\<rparr>"

definition flCancelBuffer_ahb :: "AhbChannel \<Rightarrow> flBuffer option \<Rightarrow> flResult \<times> AhbChannel" where
  "flCancelBuffer_ahb ch buf =
     (if ac_isConsumer ch \<or> \<not> metadataReservation_ahb ch buf then (FL_INVALID, ch)
      else
        let slot = bf_slot (the buf)
        in if ac_submittingValue ch \<noteq> 0 \<and> ac_submittingSlot ch = slot then (FL_BUSY, ch)
           else (FL_OK, (unmap_slot_ahb ch (unat slot))\<lparr>ac_slotSubmitValue := (ac_slotSubmitValue ch)[unat slot := 0]\<rparr>))"

definition flBeginSubmit_ahb :: "AhbChannel \<Rightarrow> flBuffer option \<Rightarrow> u64 option \<Rightarrow> flResult \<times> AhbChannel \<times> u64 option" where
  "flBeginSubmit_ahb ch buf signalValue =
     (if ac_isConsumer ch \<or> signalValue = None \<or> \<not> metadataReservation_ahb ch buf then (FL_INVALID, ch, signalValue)
      else if \<not> ic_connected (ac_link ch) then (FL_DISCONNECTED, ch, signalValue)
      else if ac_submittingValue ch \<noteq> 0 then (FL_BUSY, ch, signalValue)
      else if ac_peerFeatures ch AND push_bit 16 FrameMetadataFeature \<noteq> 0 \<and>
        md_version (ac_slotMetadata ch ! unat (bf_slot (the buf))) = 0 then (FL_FORMAT_UNSUPPORTED, ch, signalValue)
      else if ac_readyValue ch \<ge> UINT64_MAX - 1 then (FL_INVALID, ch, signalValue)
      else
        let v = ac_readyValue ch + 1
        in (FL_OK, ch\<lparr>ac_submittingSlot := bf_slot (the buf), ac_submittingValue := v, ac_readyValue := v\<rparr>, Some v))"

text \<open>Recording the submitted value, closing the transaction, and the send.\<close>
definition publish_ahb :: "Env \<Rightarrow> AhbChannel \<Rightarrow> u32 \<Rightarrow> u64 \<Rightarrow> i64 \<Rightarrow> fd \<Rightarrow> flResult \<times> AhbChannel" where
  "publish_ahb env ch slot value pts fd =
     (let ch1 = ch\<lparr>ac_slotSubmitValue := (ac_slotSubmitValue ch)[unat slot := value], ac_submittingValue := 0,
            ac_submittingSlot := UINT32_MAX\<rparr>;
          (sent, link) = sendFrame (en_sendmsg env) (ac_link ch1) (ready_message slot value pts)
            (ac_slotMetadata ch1 ! unat slot) fd
      in (if sent then FL_OK else FL_DISCONNECTED, ch1\<lparr>ac_link := link\<rparr>))"

definition flEndSubmit_ahb :: "Env \<Rightarrow> AhbChannel \<Rightarrow> flBuffer option \<Rightarrow> u64 \<Rightarrow> i64 \<Rightarrow> flResult \<times> AhbChannel" where
  "flEndSubmit_ahb env ch buf signalValue pts =
     (if ac_isConsumer ch \<or> \<not> metadataReservation_ahb ch buf \<or> signalValue = 0 \<or> signalValue \<noteq> ac_submittingValue ch \<or>
        bf_slot (the buf) \<noteq> ac_submittingSlot ch then (FL_INVALID, ch)
      else if \<not> ic_connected (ac_link ch) then (FL_DISCONNECTED, ch)
      else publish_ahb env (unmap_slot_ahb ch (unat (bf_slot (the buf)))) (bf_slot (the buf)) signalValue pts (-1))"

definition flSubmit_ahb :: "Env \<Rightarrow> AhbChannel \<Rightarrow> flBuffer option \<Rightarrow> i64 \<Rightarrow> flResult \<times> AhbChannel" where
  "flSubmit_ahb env ch buf pts =
     (let (r, ch1, v) = flBeginSubmit_ahb ch buf (Some 0)
      in if r = FL_OK then flEndSubmit_ahb env ch1 buf (the v) pts else (r, ch1))"

definition flSubmitSyncFd_ahb :: "Env \<Rightarrow> AhbChannel \<Rightarrow> flBuffer option \<Rightarrow> fd \<Rightarrow> i64 \<Rightarrow> flResult \<times> AhbChannel" where
  "flSubmitSyncFd_ahb env ch buf fd pts =
     (if ac_isConsumer ch \<or> \<not> buffer_member_ahb ch buf then (FL_INVALID, ch)
      else if \<not> ic_connected (ac_link ch) then (FL_DISCONNECTED, ch)
      else
        let (begun, ch1, v) = flBeginSubmit_ahb ch buf (Some 0)
        in if begun \<noteq> FL_OK then (begun, ch1)
           else publish_ahb env (unmap_slot_ahb ch1 (unat (bf_slot (the buf)))) (bf_slot (the buf)) (the v) pts fd)"

section \<open>Metadata and references\<close>

definition flSetFrameMetadata_ahb :: "AhbChannel \<Rightarrow> flBuffer option \<Rightarrow> flFrameMetadata option \<Rightarrow> flResult \<times> AhbChannel" where
  "flSetFrameMetadata_ahb ch buf metadata =
     (if ac_isConsumer ch \<or> metadata = None \<or> \<not> metadataReservation_ahb ch buf then (FL_INVALID, ch)
      else if ac_submittingValue ch \<noteq> 0 then (FL_BUSY, ch)
      else if ac_peerFeatures ch AND FrameMetadataFeature = 0 then (FL_FORMAT_UNSUPPORTED, ch)
      else if validateMetadata (the metadata) \<noteq> FL_OK then (validateMetadata (the metadata), ch)
      else (FL_OK, ch\<lparr>ac_slotMetadata := (ac_slotMetadata ch)[unat (bf_slot (the buf)) := the metadata]\<rparr>))"

definition flRetainBufferReference_ahb ::
  "AhbChannel \<Rightarrow> u64 \<Rightarrow> flBuffer option \<Rightarrow> u64 option \<Rightarrow> flResult \<times> AhbChannel \<times> u64 \<times> u64 option" where
  "flRetainBufferReference_ahb ch next buf reference =
     (if ac_isConsumer ch \<or> reference = None \<or> \<not> metadataReservation_ahb ch buf then (FL_INVALID, ch, next, reference)
      else
        let (r, refs, next', out) = refs_retain (ac_bufferReferences ch) next (bf_slot (the buf)) (the reference)
        in (r, ch\<lparr>ac_bufferReferences := refs\<rparr>, next', Some out))"

definition flReleaseBufferReference_ahb :: "AhbChannel \<Rightarrow> u64 \<Rightarrow> flResult \<times> AhbChannel" where
  "flReleaseBufferReference_ahb ch reference =
     (if ac_isConsumer ch then (FL_INVALID, ch)
      else let (r, refs) = refs_release (ac_bufferReferences ch) reference in (r, ch\<lparr>ac_bufferReferences := refs\<rparr>))"

section \<open>Abstraction\<close>

definition as_linux :: "AhbChannel \<Rightarrow> flChannel" where
  "as_linux ch =
     \<lparr>ch_isConsumer = ac_isConsumer ch, ch_externalPool = ac_externalPool ch, ch_name = ac_name ch, ch_info = ac_info ch, ch_flags =
      ac_flags ch, ch_peerFeatures = ac_peerFeatures ch, ch_bufferReferences = ac_bufferReferences ch, ch_slotMetadata = ac_slotMetadata
      ch, ch_pendingMetadata = ac_pendingMetadata ch, ch_heldMetadata = ac_heldMetadata ch, ch_images = map (\<lambda>img. new_image
      (ai_addr img)) (ac_images ch), ch_sync = ac_sync ch, ch_submittingSlot = ac_submittingSlot ch, ch_submittingValue =
      ac_submittingValue ch, ch_readyValue = ac_readyValue ch, ch_peer = ac_peer ch, ch_peerGone = ac_peerGone ch, ch_hasPending =
      ac_hasPending ch, ch_readers = ac_readers ch, ch_leaseCompletions = ac_leaseCompletions ch, ch_frameHeld = ac_frameHeld ch,
      ch_heldReady = ac_heldReady ch, ch_retiredValue = ac_retiredValue ch, ch_heldSlot = ac_heldSlot ch, ch_pendingSlot =
      ac_pendingSlot ch, ch_pendingReady = ac_pendingReady ch, ch_pendingPts = ac_pendingPts ch, ch_pendingArrival = ac_pendingArrival
      ch, ch_heldArrival = ac_heldArrival ch, ch_sequence = ac_sequence ch, ch_link = ac_link ch, ch_slotSubmitValue =
      ac_slotSubmitValue ch, ch_consumedValue = ac_consumedValue ch, ch_closed = ac_closed ch\<rparr>"

lemma as_linux_fields [simp]:
  "ch_isConsumer (as_linux ch) = ac_isConsumer ch"
  "ch_externalPool (as_linux ch) = ac_externalPool ch"
  "ch_name (as_linux ch) = ac_name ch"
  "ch_info (as_linux ch) = ac_info ch"
  "ch_flags (as_linux ch) = ac_flags ch"
  "ch_peerFeatures (as_linux ch) = ac_peerFeatures ch"
  "ch_bufferReferences (as_linux ch) = ac_bufferReferences ch"
  "ch_slotMetadata (as_linux ch) = ac_slotMetadata ch"
  "ch_pendingMetadata (as_linux ch) = ac_pendingMetadata ch"
  "ch_heldMetadata (as_linux ch) = ac_heldMetadata ch"
  "ch_images (as_linux ch) = map (\<lambda>img. new_image (ai_addr img)) (ac_images ch)"
  "ch_sync (as_linux ch) = ac_sync ch"
  "ch_submittingSlot (as_linux ch) = ac_submittingSlot ch"
  "ch_submittingValue (as_linux ch) = ac_submittingValue ch"
  "ch_readyValue (as_linux ch) = ac_readyValue ch"
  "ch_peer (as_linux ch) = ac_peer ch"
  "ch_peerGone (as_linux ch) = ac_peerGone ch"
  "ch_hasPending (as_linux ch) = ac_hasPending ch"
  "ch_readers (as_linux ch) = ac_readers ch"
  "ch_leaseCompletions (as_linux ch) = ac_leaseCompletions ch"
  "ch_frameHeld (as_linux ch) = ac_frameHeld ch"
  "ch_heldReady (as_linux ch) = ac_heldReady ch"
  "ch_retiredValue (as_linux ch) = ac_retiredValue ch"
  "ch_heldSlot (as_linux ch) = ac_heldSlot ch"
  "ch_pendingSlot (as_linux ch) = ac_pendingSlot ch"
  "ch_pendingReady (as_linux ch) = ac_pendingReady ch"
  "ch_pendingPts (as_linux ch) = ac_pendingPts ch"
  "ch_pendingArrival (as_linux ch) = ac_pendingArrival ch"
  "ch_heldArrival (as_linux ch) = ac_heldArrival ch"
  "ch_sequence (as_linux ch) = ac_sequence ch"
  "ch_link (as_linux ch) = ac_link ch"
  "ch_slotSubmitValue (as_linux ch) = ac_slotSubmitValue ch"
  "ch_consumedValue (as_linux ch) = ac_consumedValue ch"
  "ch_closed (as_linux ch) = ac_closed ch"
  by (simp_all add: as_linux_def)

lemma as_linux_update [simp]:
  "as_linux (ac_isConsumer_update (\<lambda>_. x_isConsumer) ch) = ch_isConsumer_update (\<lambda>_. x_isConsumer) (as_linux ch)"
  "as_linux (ac_externalPool_update (\<lambda>_. x_externalPool) ch) = ch_externalPool_update (\<lambda>_. x_externalPool) (as_linux ch)"
  "as_linux (ac_name_update (\<lambda>_. x_name) ch) = ch_name_update (\<lambda>_. x_name) (as_linux ch)"
  "as_linux (ac_info_update (\<lambda>_. x_info) ch) = ch_info_update (\<lambda>_. x_info) (as_linux ch)"
  "as_linux (ac_flags_update (\<lambda>_. x_flags) ch) = ch_flags_update (\<lambda>_. x_flags) (as_linux ch)"
  "as_linux (ac_peerFeatures_update (\<lambda>_. x_peerFeatures) ch) = ch_peerFeatures_update (\<lambda>_. x_peerFeatures) (as_linux ch)"
  "as_linux (ac_bufferReferences_update (\<lambda>_. x_bufferReferences) ch) = ch_bufferReferences_update (\<lambda>_. x_bufferReferences) (as_linux ch)"
  "as_linux (ac_slotMetadata_update (\<lambda>_. x_slotMetadata) ch) = ch_slotMetadata_update (\<lambda>_. x_slotMetadata) (as_linux ch)"
  "as_linux (ac_pendingMetadata_update (\<lambda>_. x_pendingMetadata) ch) = ch_pendingMetadata_update (\<lambda>_. x_pendingMetadata) (as_linux ch)"
  "as_linux (ac_heldMetadata_update (\<lambda>_. x_heldMetadata) ch) = ch_heldMetadata_update (\<lambda>_. x_heldMetadata) (as_linux ch)"
  "as_linux (ch\<lparr>ac_images := imgs\<rparr>) = (as_linux ch)\<lparr>ch_images := map (\<lambda>img. new_image (ai_addr img)) imgs\<rparr>"
  "as_linux (ac_sync_update (\<lambda>_. x_sync) ch) = ch_sync_update (\<lambda>_. x_sync) (as_linux ch)"
  "as_linux (ac_submittingSlot_update (\<lambda>_. x_submittingSlot) ch) = ch_submittingSlot_update (\<lambda>_. x_submittingSlot) (as_linux ch)"
  "as_linux (ac_submittingValue_update (\<lambda>_. x_submittingValue) ch) = ch_submittingValue_update (\<lambda>_. x_submittingValue) (as_linux ch)"
  "as_linux (ac_readyValue_update (\<lambda>_. x_readyValue) ch) = ch_readyValue_update (\<lambda>_. x_readyValue) (as_linux ch)"
  "as_linux (ac_peer_update (\<lambda>_. x_peer) ch) = ch_peer_update (\<lambda>_. x_peer) (as_linux ch)"
  "as_linux (ac_peerGone_update (\<lambda>_. x_peerGone) ch) = ch_peerGone_update (\<lambda>_. x_peerGone) (as_linux ch)"
  "as_linux (ac_hasPending_update (\<lambda>_. x_hasPending) ch) = ch_hasPending_update (\<lambda>_. x_hasPending) (as_linux ch)"
  "as_linux (ac_readers_update (\<lambda>_. x_readers) ch) = ch_readers_update (\<lambda>_. x_readers) (as_linux ch)"
  "as_linux (ac_leaseCompletions_update (\<lambda>_. x_leaseCompletions) ch) = ch_leaseCompletions_update (\<lambda>_. x_leaseCompletions) (as_linux ch)"
  "as_linux (ac_frameHeld_update (\<lambda>_. x_frameHeld) ch) = ch_frameHeld_update (\<lambda>_. x_frameHeld) (as_linux ch)"
  "as_linux (ac_heldReady_update (\<lambda>_. x_heldReady) ch) = ch_heldReady_update (\<lambda>_. x_heldReady) (as_linux ch)"
  "as_linux (ac_retiredValue_update (\<lambda>_. x_retiredValue) ch) = ch_retiredValue_update (\<lambda>_. x_retiredValue) (as_linux ch)"
  "as_linux (ac_heldSlot_update (\<lambda>_. x_heldSlot) ch) = ch_heldSlot_update (\<lambda>_. x_heldSlot) (as_linux ch)"
  "as_linux (ac_pendingSlot_update (\<lambda>_. x_pendingSlot) ch) = ch_pendingSlot_update (\<lambda>_. x_pendingSlot) (as_linux ch)"
  "as_linux (ac_pendingReady_update (\<lambda>_. x_pendingReady) ch) = ch_pendingReady_update (\<lambda>_. x_pendingReady) (as_linux ch)"
  "as_linux (ac_pendingPts_update (\<lambda>_. x_pendingPts) ch) = ch_pendingPts_update (\<lambda>_. x_pendingPts) (as_linux ch)"
  "as_linux (ac_pendingArrival_update (\<lambda>_. x_pendingArrival) ch) = ch_pendingArrival_update (\<lambda>_. x_pendingArrival) (as_linux ch)"
  "as_linux (ac_heldArrival_update (\<lambda>_. x_heldArrival) ch) = ch_heldArrival_update (\<lambda>_. x_heldArrival) (as_linux ch)"
  "as_linux (ac_sequence_update (\<lambda>_. x_sequence) ch) = ch_sequence_update (\<lambda>_. x_sequence) (as_linux ch)"
  "as_linux (ac_link_update (\<lambda>_. x_link) ch) = ch_link_update (\<lambda>_. x_link) (as_linux ch)"
  "as_linux (ac_slotSubmitValue_update (\<lambda>_. x_slotSubmitValue) ch) = ch_slotSubmitValue_update (\<lambda>_. x_slotSubmitValue) (as_linux ch)"
  "as_linux (ac_consumedValue_update (\<lambda>_. x_consumedValue) ch) = ch_consumedValue_update (\<lambda>_. x_consumedValue) (as_linux ch)"
  "as_linux (ac_closed_update (\<lambda>_. x_closed) ch) = ch_closed_update (\<lambda>_. x_closed) (as_linux ch)"
  "as_linux (ac_delegated_update (\<lambda>_. x_delegated) ch) = as_linux ch"
  "as_linux (ac_interruptFd_update (\<lambda>_. x_interruptFd) ch) = as_linux ch"
  "as_linux (ac_released_update (\<lambda>_. x_released) ch) = as_linux ch"
  by (simp_all add: as_linux_def)

lemma im_addr_new [simp]: "im_addr (new_image a) = a"
  by (simp add: new_image_def)

lemma as_linux_log [simp]: "as_linux (log_closed_ahb fds ch) = log_closed fds (as_linux ch)" "as_linux (log_released hs ch) = as_linux ch"
  by (simp_all add: log_closed_ahb_def log_closed_def log_released_def)

lemma as_linux_sync [simp]:
  "as_linux (advance_consumed_ahb env ch) = advance_consumed env (as_linux ch)"
  "as_linux (advance_retired_ahb env ch) = advance_retired env (as_linux ch)"
  "as_linux (clear_sync_ahb ch) = clear_sync (as_linux ch)"
  by (simp_all add: advance_consumed_ahb_def advance_consumed_def advance_retired_ahb_def advance_retired_def clear_sync_ahb_def clear_sync_def
      split: prod.split)

lemma unmap_addr [simp]: "ai_addr (flImageUnmap_ahb img) = ai_addr img" "ai_ahb (flImageUnmap_ahb img) = ai_ahb img"
  by (simp_all add: flImageUnmap_ahb_def Let_def)

lemma new_image_unmap [simp]: "flImageUnmap (new_image a) = (new_image a, [])"
  by (simp add: flImageUnmap_def new_image_def zero_view_def)

text \<open>Unmapping an image is invisible after abstraction.\<close>
lemma map_addr_update: "map (\<lambda>img. new_image (ai_addr img)) (xs[i := flImageUnmap_ahb (xs ! i)]) = map (\<lambda>img. new_image (ai_addr img)) xs"
  by (cases "i < length xs") (simp_all add: map_update list_update_same_conv list_update_beyond)

lemma as_linux_images: "(as_linux ch)\<lparr>ch_images := map (\<lambda>img. new_image (ai_addr img)) (ac_images ch)\<rparr> = as_linux ch"
  by (simp add: as_linux_def)

lemma as_linux_unmap [simp]: "as_linux (unmap_slot_ahb ch i) = as_linux ch"
  by (simp add: unmap_slot_ahb_def map_addr_update as_linux_images)

lemma unmap_as_linux [simp]: "i < length (ac_images ch) \<Longrightarrow> unmap_slot (as_linux ch) i = as_linux ch"
  by (simp add: unmap_slot_def) (metis as_linux_images list_update_id nth_map)

section \<open>Calls\<close>

lemma recv_link_as_linux: "recv_link (as_linux ch) = (let (m, ch') = recv_link_ahb ch in (m, as_linux ch'))"
  by (simp add: recv_link_def recv_link_ahb_def split: prod.split)

lemma applyRelease_as_linux [simp]: "as_linux (applyRelease_ahb env ch m) = applyRelease env (as_linux ch) m"
  by (simp add: applyRelease_ahb_def applyRelease_def split: option.split)

lemma drain_as_linux [simp]: "as_linux (drainProducerMessages_ahb env ch) = drainProducerMessages env (as_linux ch)"
proof (induction env ch rule: drainProducerMessages_ahb.induct)
  case (1 env ch)
  show ?case
    using 1 by (subst drainProducerMessages_ahb.simps, subst drainProducerMessages.simps)
      (auto simp: recv_link_as_linux Let_def split: prod.splits option.splits)
qed

lemma arrive_as_linux [simp]: "as_linux (arrive_ahb ds ch) = arrive ds (as_linux ch)"
  by (simp add: arrive_ahb_def arrive_def)

lemma slot_free_as_linux [simp]: "slot_free (as_linux ch) = slot_free_ahb ch"
  by (simp add: fun_eq_iff slot_free_def slot_free_ahb_def)

lemma take_slot_as_linux [simp]: "as_linux (take_slot_ahb ch i) = take_slot (as_linux ch) i"
  by (simp add: take_slot_ahb_def take_slot_def)

lemma find_upt_less: "find P [0..<n] = Some i \<Longrightarrow> i < n"
  by (metis atLeastLessThan_iff find_Some_iff nth_mem set_upt length_upt)

lemma slot_buffer_as_linux: "i < length (ac_images ch) \<Longrightarrow> slot_buffer (as_linux ch) i = slot_buffer_ahb ch i"
  by (simp add: slot_buffer_def slot_buffer_ahb_def)

lemma acquire_tail_as_linux:
  "(case find (slot_free (as_linux d)) [0..<length (ch_images (as_linux d))] of
      Some i \<Rightarrow> (Some FL_OK, take_slot (as_linux d) i, assign out (slot_buffer (as_linux d) i)) | None \<Rightarrow> (None, as_linux d, out)) =
   (let (r, ch', out') = (case find (slot_free_ahb d) [0..<length (ac_images d)] of
      Some i \<Rightarrow> (Some FL_OK, take_slot_ahb d i, assign out (slot_buffer_ahb d i)) | None \<Rightarrow> (None, d, out)) in (r, as_linux ch', out'))"
  by (auto simp: slot_buffer_as_linux dest: find_upt_less split: option.split)

lemma acquire_round_as_linux:
  "acquire_round envs ds k (as_linux ch, out) = (let (r, ch', out') = acquire_round_ahb envs ds k (ch, out) in (r, as_linux ch', out'))"
proof -
  let ?c = "drainProducerMessages_ahb (envs k) (arrive_ahb (ds k) ch)"
  have c: "drainProducerMessages (envs k) (arrive (ds k) (as_linux ch)) = as_linux ?c" by simp
  have d: "advance_consumed (envs k) (as_linux ?c) = as_linux (advance_consumed_ahb (envs k) ?c)" by (simp only: as_linux_sync)
  show ?thesis
    unfolding acquire_round_def acquire_round_ahb_def Let_def case_prod_conv c d as_linux_fields(31) acquire_tail_as_linux
    by (simp only: Let_def case_prod_conv split: if_split prod.split) auto
qed

text \<open>Two timed loops whose rounds agree under an abstraction.\<close>
lemma timed_loop_abs:
  assumes "\<And>k s. body2 k (f s) = (fst (body1 k s), f (snd (body1 k s)))"
    "timed_loop step timeoutMs body1 expired k waited s = Some (r, s', k')"
  shows "timed_loop step timeoutMs body2 expired k waited (f s) = Some (r, f s', k')"
proof -
  have "\<forall>r s' k'. y = (r, s', k') \<longrightarrow> timed_loop step timeoutMs body2 expired k waited (f s) = Some (r, f s', k')"
    if "timed_loop step timeoutMs body1 expired k waited s = Some y" for y
    using that assms(1)
  proof (induction rule: timed_loop.raw_induct [rotated, consumes 1, case_names round])
    case (round rec step timeoutMs body expired k waited s y)
    show ?case
    proof (cases "body k s")
      case (Pair ro s1)
      then have b: "body2 k (f s) = (ro, f s1)" using round(3) by simp
      show ?thesis
      proof (cases "ro = None \<and> \<not> waited \<ge> timeoutMs")
        case True
        then have "rec step timeoutMs body expired (Suc k) (waited + step) s1 = Some y" using round(2) Pair by simp
        then show ?thesis using round(1) round(3) True b by (subst timed_loop.simps) simp
      next
        case False
        then show ?thesis using round(2) Pair b by (subst timed_loop.simps) (auto split: option.splits if_splits)
      qed
    qed
  qed
  with assms(2) show ?thesis by blast
qed

lemma buffer_member_as_linux [simp]: "buffer_member (as_linux ch) buf = buffer_member_ahb ch buf"
  by (auto simp: buffer_member_def buffer_member_ahb_def split: option.split)

lemma metadataReservation_as_linux [simp]: "metadataReservation (as_linux ch) buf = metadataReservation_ahb ch buf"
  by (simp add: metadataReservation_def metadataReservation_ahb_def)

lemma reservation_slot: "metadataReservation_ahb ch buf \<Longrightarrow> unat (bf_slot (the buf)) < length (ac_images ch)"
  by (auto simp: metadataReservation_ahb_def buffer_member_ahb_def split: option.splits)

lemma cancel_as_linux: "flCancelBuffer (as_linux ch) buf = (let (r, ch') = flCancelBuffer_ahb ch buf in (r, as_linux ch'))"
  by (simp add: flCancelBuffer_def flCancelBuffer_ahb_def Let_def reservation_slot)

lemma begin_as_linux: "flBeginSubmit (as_linux ch) buf v = (let (r, ch', v') = flBeginSubmit_ahb ch buf v in (r, as_linux ch', v'))"
  by (simp add: flBeginSubmit_def flBeginSubmit_ahb_def Let_def)

lemma publish_as_linux: "publish env (as_linux ch) slot v pts fd = (let (r, ch') = publish_ahb env ch slot v pts fd in (r, as_linux ch'))"
  by (simp add: publish_def publish_ahb_def Let_def split: prod.split)

lemma end_as_linux: "flEndSubmit env (as_linux ch) buf v pts = (let (r, ch') = flEndSubmit_ahb env ch buf v pts in (r, as_linux ch'))"
proof -
  have "publish env (as_linux ch) slot x pts (-1) =
      (let (r, ch') = publish_ahb env (unmap_slot_ahb ch i) slot x pts (-1) in (r, as_linux ch'))" for slot x i
    using publish_as_linux [of env "unmap_slot_ahb ch i" slot x pts "-1"] by simp
  then show ?thesis by (simp add: flEndSubmit_def flEndSubmit_ahb_def)
qed

lemma submit_as_linux: "flSubmit env (as_linux ch) buf pts = (let (r, ch') = flSubmit_ahb env ch buf pts in (r, as_linux ch'))"
  by (simp add: flSubmit_def flSubmit_ahb_def begin_as_linux end_as_linux Let_def split: prod.split)

lemma begin_images: "flBeginSubmit_ahb ch buf v = (r, ch', v') \<Longrightarrow> ac_images ch' = ac_images ch"
  by (auto simp: flBeginSubmit_ahb_def Let_def split: if_splits)

lemma submit_fd_as_linux:
  "flSubmitSyncFd env (as_linux ch) buf fd pts = (let (r, ch') = flSubmitSyncFd_ahb env ch buf fd pts in (r, as_linux ch'))"
proof (cases "buffer_member_ahb ch buf")
  case True
  then have l: "unat (bf_slot (the buf)) < length (ac_images ch)" by (auto simp: buffer_member_ahb_def split: option.splits)
  obtain r ch1 v where b: "flBeginSubmit_ahb ch buf (Some 0) = (r, ch1, v)" by (cases "flBeginSubmit_ahb ch buf (Some 0)")
  have "unat (bf_slot (the buf)) < length (ac_images ch1)" using l begin_images [OF b] by simp
  then have "publish env (unmap_slot (as_linux ch1) (unat (bf_slot (the buf)))) (bf_slot (the buf)) (the v) pts fd =
      (let (r, ch') = publish_ahb env (unmap_slot_ahb ch1 (unat (bf_slot (the buf)))) (bf_slot (the buf)) (the v) pts fd in (r, as_linux ch'))"
    using publish_as_linux [of env "unmap_slot_ahb ch1 (unat (bf_slot (the buf)))" "bf_slot (the buf)" "the v" pts fd] by simp
  then show ?thesis by (simp add: flSubmitSyncFd_def flSubmitSyncFd_ahb_def begin_as_linux b)
qed (simp add: flSubmitSyncFd_def flSubmitSyncFd_ahb_def)

lemma metadata_as_linux: "flSetFrameMetadata (as_linux ch) buf md = (let (r, ch') = flSetFrameMetadata_ahb ch buf md in (r, as_linux ch'))"
  by (simp add: flSetFrameMetadata_def flSetFrameMetadata_ahb_def)

lemma references_as_linux:
  "flRetainBufferReference (as_linux ch) nxt buf ref = (let (r, ch', n, out) = flRetainBufferReference_ahb ch nxt buf ref in (r, as_linux ch', n, out))"
  "flReleaseBufferReference (as_linux ch) t = (let (r, ch') = flReleaseBufferReference_ahb ch t in (r, as_linux ch'))"
  by (simp_all add: flRetainBufferReference_def flRetainBufferReference_ahb_def flReleaseBufferReference_def flReleaseBufferReference_ahb_def
      split: prod.split)

lemma acquire_as_linux:
  assumes "flAcquireBuffer_ahb envs ds ch out t = Some (r, (ch', out'), k)"
  shows "flAcquireBuffer envs ds (as_linux ch) out t = Some (r, (as_linux ch', out'), k)"
proof -
  have round: "acquire_round envs ds k (apfst as_linux s) =
      (fst (acquire_round_ahb envs ds k s), apfst as_linux (snd (acquire_round_ahb envs ds k s)))" for k s
    by (cases s) (simp add: acquire_round_as_linux split_beta Let_def apfst_def map_prod_def)
  show ?thesis
  proof (cases "ac_isConsumer ch \<or> out = None \<or> \<not> ic_connected (ac_link ch)")
    case True
    then show ?thesis using assms by (auto simp: flAcquireBuffer_ahb_def flAcquireBuffer_def split: if_splits)
  next
    case False
    then have "timed_loop 2 t (acquire_round_ahb envs ds) FL_TIMEOUT 0 0 (ch, out) = Some (r, (ch', out'), k)"
      using assms by (auto simp: flAcquireBuffer_ahb_def)
    from timed_loop_abs [where f = "apfst as_linux", OF round this] False show ?thesis by (auto simp: flAcquireBuffer_def)
  qed
qed

end
