(* ===== verification/FL_AhbOpen.thy ===== *)
theory FL_AhbOpen
  imports FL_AhbProducer
begin

text \<open>
  Geometry requests, opening, creation and closing of channels on Android, \<^verbatim>\<open>src/framelink_android.cpp\<close>, and what the ring keeps across
  hand-over and import.  The thread a consumer starts is in the next theory; \<open>spawn\<close> tells whether it could be started.
\<close>

section \<open>Geometry requests\<close>

text \<open>The wait for the answer: releases are applied, anything but a ring description ends the call.\<close>
function request_loop_ahb :: "Env \<Rightarrow> AhbEnv \<Rightarrow> AhbChannel \<Rightarrow> flResult \<times> AhbChannel" where
  "request_loop_ahb env hb ch =
     (case recv_link_ahb ch of
        (None, ch') \<Rightarrow> (FL_DISCONNECTED, ch')
      | (Some m, ch') \<Rightarrow>
          if ms_type m = MsgFrameReleased then request_loop_ahb env hb (applyRelease_ahb env ch' m)
          else case (if ms_type m = MsgRingDesc then ring_of (ms_payload m) else None) of
              None \<Rightarrow> (FL_DISCONNECTED, ch')
            | Some rd \<Rightarrow>
                if rd_poolSize rd = 0 \<or> unat (rd_poolSize rd) > kMaxPool then (FL_DISCONNECTED, ch') else importRing_ahb hb ch' rd)"
  by pat_completeness auto
termination
  by (relation "measure (\<lambda>(env, hb, ch). length (ic_inbox (ac_link ch)))") (auto dest: recv_link_ahb_shrinks [OF sym])

declare request_loop_ahb.simps [simp del]

definition flRequestGeometry_ahb :: "Env \<Rightarrow> AhbEnv \<Rightarrow> AhbChannel \<Rightarrow> u32 \<Rightarrow> u32 \<Rightarrow> flFormat \<Rightarrow> flResult \<times> AhbChannel" where
  "flRequestGeometry_ahb env hb ch width height format =
     (if ac_isConsumer ch \<or> width = 0 \<or> height = 0 then (FL_INVALID, ch)
      else if \<not> ic_connected (ac_link ch) then (FL_DISCONNECTED, ch)
      else if \<not> refs_empty (ac_bufferReferences ch) then (FL_BUSY, ch)
      else if UINT64_MAX \<in> set (ac_slotSubmitValue ch) then (FL_BUSY, ch)
      else
        let (sent, link) = ipc_send (en_sendmsg env) (ac_link ch) MsgRequestGeometry
              (geometry_bytes \<lparr>gm_width = width, gm_height = height, gm_format = format, gm_pad = 0\<rparr>)
        in if \<not> sent then (FL_DISCONNECTED, ch\<lparr>ac_link := link\<rparr>) else request_loop_ahb env hb (ch\<lparr>ac_link := link\<rparr>))"

section \<open>Closing and opening\<close>

text \<open>What deleting the channel object closes.\<close>
definition delete_channel_ahb :: "AhbChannel \<Rightarrow> fd list" where
  "delete_channel_ahb ch = ac_closed ch @ snd (sync_clear (ac_sync ch)) @ snd (ipc_close (ac_link ch)) @ snd (ipc_close (ac_peer ch))"

text \<open>\<^verbatim>\<open>flClose\<close>, for a consumer after its thread has ended: the producer's link, the handles released and the descriptors closed.\<close>
definition flClose_ahb :: "Env \<Rightarrow> AhbChannel \<Rightarrow> IpcChannel \<times> nat list \<times> fd list" where
  "flClose_ahb env ch =
     (let link = (if \<not> ac_isConsumer ch \<and> ic_connected (ac_link ch)
            then snd (sendWithFds (en_sendmsg env) (ac_link ch) MsgBye None 0 None 0) else ac_link ch)
      in (link, ac_released ch @ concat (map freeImage_ahb (ac_images ch)),
          closing (ac_interruptFd ch) @ delete_channel_ahb (ch\<lparr>ac_link := link\<rparr>)))"

text \<open>Results of opening and creating: the code, the channel, and the handles released and descriptors closed when there is none.\<close>
type_synonym opened = "flResult \<times> AhbChannel option \<times> nat list \<times> fd list"

definition abandon :: "flResult \<Rightarrow> AhbChannel \<Rightarrow> opened" where
  "abandon r ch = (r, None, ac_released ch, delete_channel_ahb ch)"

definition closed_with :: "Env \<Rightarrow> flResult \<Rightarrow> AhbChannel \<Rightarrow> opened" where
  "closed_with env r ch = (let (link, handles, fds) = flClose_ahb env ch in (r, None, handles, fds))"

definition open_ring_ahb :: "Env \<Rightarrow> AhbEnv \<Rightarrow> u32 \<Rightarrow> AhbChannel \<Rightarrow> opened" where
  "open_ring_ahb env hb pid ch =
     (let (sent, link) = ipc_send (en_sendmsg env) (ac_link ch) MsgHello (hello_bytes (hello_mine (localFeatures 0) pid));
          ch1 = ch\<lparr>ac_link := link\<rparr>
      in if \<not> sent then abandon FL_INTERNAL ch1
         else
           let (ring, ch2) = recv_link_ahb ch1
           in case ring of
                None \<Rightarrow> abandon FL_DISCONNECTED ch2
              | Some m \<Rightarrow>
                  if ms_fds m \<noteq> [] then abandon FL_INVALID (log_closed_ahb (ms_fds m) ch2)
                  else if ms_type m = MsgBusy then abandon FL_BUSY ch2
                  else case (if ms_type m = MsgRingDesc then ring_of (ms_payload m) else None) of
                      None \<Rightarrow> abandon FL_DISCONNECTED ch2
                    | Some rd \<Rightarrow>
                        if rd_poolSize rd = 0 \<or> unat (rd_poolSize rd) > kMaxPool then abandon FL_DISCONNECTED ch2
                        else
                          let (r, ch3) = importRing_ahb hb (ch2\<lparr>ac_info := (ac_info ch2)\<lparr>ci_version := FL_VERSION\<rparr>\<rparr>) rd
                          in if r \<noteq> FL_OK then closed_with env FL_DISCONNECTED ch3 else (FL_OK, Some ch3, [], []))"

definition openProducer_ahb :: "Env \<Rightarrow> AhbEnv \<Rightarrow> u32 \<Rightarrow> string option \<Rightarrow> IpcChannel \<Rightarrow> bool \<Rightarrow> opened" where
  "openProducer_ahb env hb pid name conn out =
     (if name = None \<or> \<not> out then (FL_INVALID, None, [], snd (ipc_close conn))
      else
        let ch0 = new_ahb_channel\<lparr>ac_name := the name, ac_link := conn\<rparr>
        in if \<not> ic_connected conn then abandon FL_NOT_FOUND ch0
           else
             let (hello, ch) = recv_link_ahb ch0
             in case hello of
                  None \<Rightarrow> abandon FL_DISCONNECTED ch
                | Some m \<Rightarrow>
                    if ms_fds m \<noteq> [] then abandon FL_INVALID (log_closed_ahb (ms_fds m) ch)
                    else if ms_type m = MsgBusy then abandon FL_BUSY ch
                    else case (if ms_type m = MsgHello \<and> length (ms_payload m) = 24 then hello_of (ms_payload m) else None) of
                        None \<Rightarrow> abandon FL_DISCONNECTED ch
                      | Some srv \<Rightarrow>
                          if hm_version srv \<noteq> FL_VERSION then abandon FL_VERSION_MISMATCH ch
                          else if \<not> compatibleFeatures (localFeatures 0) (hm_pad srv) then abandon FL_VERSION_MISMATCH ch
                          else open_ring_ahb env hb pid (ch\<lparr>ac_peerFeatures := hm_pad srv\<rparr>))"

text \<open>\<open>conn\<close> is what \<^verbatim>\<open>Channel::connect(name, 300)\<close> returned.\<close>
definition flOpenProducer_ahb :: "Env \<Rightarrow> AhbEnv \<Rightarrow> u32 \<Rightarrow> string option \<Rightarrow> IpcChannel \<Rightarrow> bool \<Rightarrow> opened" where
  "flOpenProducer_ahb env hb pid name conn out =
     (if name = None \<or> \<not> out then (FL_INVALID, None, [], []) else openProducer_ahb env hb pid name conn out)"

definition flOpenProducerFromSocketFd_ahb :: "Env \<Rightarrow> AhbEnv \<Rightarrow> SocketFacts \<Rightarrow> u32 \<Rightarrow> fd \<Rightarrow> u32 \<Rightarrow> bool \<Rightarrow> opened" where
  "flOpenProducerFromSocketFd_ahb env hb sf pid fd timeout out =
     (let (link, closed, bound) = adoptConnectedFd sf fd timeout
      in if \<not> ic_connected link then (FL_INVALID, None, [], closed) else openProducer_ahb env hb pid (Some ''broker-video'') link out)"

section \<open>Creation\<close>

definition created_ahb :: "string \<Rightarrow> u32 \<Rightarrow> u32 \<Rightarrow> flFormat \<Rightarrow> u32 \<Rightarrow> u32 \<Rightarrow> bool \<Rightarrow> bool \<Rightarrow> AhbChannel" where
  "created_ahb name w h format poolSize flags fromFd external =
     new_ahb_channel\<lparr>ac_isConsumer := True, ac_delegated := fromFd, ac_name := name, ac_flags := flags, ac_externalPool := external,
       ac_info := \<lparr>ci_version = FL_VERSION, ci_width = w, ci_height = h, ci_format = format, ci_poolSize = poolSize, ci_generation = 0\<rparr>\<rparr>"

text \<open>A refused creation also drops the connection it was given.\<close>
definition with_link :: "IpcChannel \<Rightarrow> opened \<Rightarrow> opened" where
  "with_link link res = (let (r, ch, handles, fds) = res in (r, ch, handles, fds @ snd (ipc_close link)))"

definition createChannel_ahb ::
  "Env \<Rightarrow> AhbEnv \<Rightarrow> bool \<Rightarrow> string option \<Rightarrow> u32 \<Rightarrow> u32 \<Rightarrow> flFormat \<Rightarrow> u32 \<Rightarrow> u32 \<Rightarrow> bool \<Rightarrow> IpcChannel \<Rightarrow> bool \<Rightarrow> nat option list option \<Rightarrow> opened" where
  "createChannel_ahb env hb spawn name w h format poolSize flags out link fromFd external =
     (if name = None \<or> \<not> out \<or> w = 0 \<or> h = 0 \<or> w > 8192 \<or> h > 8192 then with_link link (FL_INVALID, None, [], [])
      else if ahbFormatFor format = 0 then with_link link (FL_FORMAT_UNSUPPORTED, None, [], [])
      else if format = FL_FORMAT_NV12 \<and> (w OR h) AND 1 \<noteq> 0 then with_link link (FL_INVALID, None, [], [])
      else if poolSize = 0 \<or> unat poolSize > kMaxPool then with_link link (FL_INVALID, None, [], [])
      else if external = None \<and> flags AND FL_GPU_RENDER \<noteq> 0 \<and> \<not> hb_supported hb (alloc_desc flags format w h)
        then with_link link (FL_FORMAT_UNSUPPORTED, None, [], [])
      else
        let ch = created_ahb (the name) w h format poolSize flags fromFd (external \<noteq> None);
            (allocation, ch1) = (case external of
                Some images \<Rightarrow> adoptRing_ahb hb ch (take (unat poolSize) images)
              | None \<Rightarrow> let (ok, ch') = reallocRing_ahb hb ch w h (unat poolSize) in (if ok then FL_OK else FL_OOM, ch'))
        in if allocation \<noteq> FL_OK then with_link link (closed_with env allocation ch1)
           else
             let ch2 = (if fromFd then ch1\<lparr>ac_interruptFd := en_dup env (ic_fd link)\<rparr> else ch1)
             in if fromFd \<and> ac_interruptFd ch2 < 0 then with_link link (closed_with env FL_INTERNAL ch2)
                else if \<not> spawn then with_link link (closed_with env FL_INTERNAL ch2)
                else (FL_OK, Some ch2, [], []))"

definition external_flags :: u32 where
  "external_flags = FL_MAP_CPU OR FL_GPU_SYNC OR FL_DEFER_RELEASE OR FL_GPU_RENDER OR FL_TRACK_ARRIVAL OR FL_REQUIRE_FRAME_METADATA"

definition flCreateChannelEx_ahb where
  "flCreateChannelEx_ahb env hb spawn name w h format poolSize flags out =
     createChannel_ahb env hb spawn name w h format poolSize flags out ipc_null False None"

definition flCreateChannelOnAdapter_ahb where
  "flCreateChannelOnAdapter_ahb env hb spawn name w h format poolSize flags (luid :: u8 list) out =
     flCreateChannelEx_ahb env hb spawn name w h format poolSize flags out"

definition flCreateChannel_ahb where
  "flCreateChannel_ahb env hb spawn name w h format poolSize out = flCreateChannelEx_ahb env hb spawn name w h format poolSize 0 out"

definition flCreateChannelFromSocketFd_ahb where
  "flCreateChannelFromSocketFd_ahb env hb sf spawn fd w h format poolSize flags timeout out =
     (let (link, closed, bound) = adoptConnectedFd sf fd timeout
      in if \<not> ic_connected link then (FL_INVALID, None, [], closed)
         else createChannel_ahb env hb spawn (Some ''broker-video'') w h format poolSize flags out link True None)"

definition flCreateChannelFromHardwareBuffers_ahb where
  "flCreateChannelFromHardwareBuffers_ahb env hb spawn name w h format poolSize flags images out =
     (if images = None \<or> flags AND NOT external_flags \<noteq> 0 then (FL_INVALID, None, [], [])
      else createChannel_ahb env hb spawn name w h format poolSize flags out ipc_null False images)"

definition flCreateChannelFromSocketFdWithHardwareBuffers_ahb where
  "flCreateChannelFromSocketFdWithHardwareBuffers_ahb env hb sf spawn fd w h format poolSize flags timeout images out =
     (let (link, closed, bound) = adoptConnectedFd sf fd timeout
      in if \<not> ic_connected link \<or> images = None \<or> flags AND NOT external_flags \<noteq> 0
         then (FL_INVALID, None, [], closed @ snd (ipc_close link))
         else createChannel_ahb env hb spawn (Some ''broker-external-video'') w h format poolSize flags out link True images)"

section \<open>Calls as events\<close>

text \<open>As \<open>prod_exec\<close> on Linux; \<open>hb\<close> is used by geometry requests only.\<close>
fun prod_exec_ahb :: "AhbEnv \<Rightarrow> AhbChannel \<Rightarrow> prod_event \<Rightarrow> flResult option \<times> AhbChannel" where
  "prod_exec_ahb hb ch (PeRound env ds) = (let (r, ch', out) = acquire_round_ahb (\<lambda>k. env) (\<lambda>k. ds) 0 (ch, Some \<lparr>bf_slot = 0, bf_image = None\<rparr>) in (r, ch'))"
| "prod_exec_ahb hb ch (PeCancel buf) = (let (r, ch') = flCancelBuffer_ahb ch buf in (Some r, ch'))"
| "prod_exec_ahb hb ch (PeBegin buf) = (let (r, ch', v) = flBeginSubmit_ahb ch buf (Some 0) in (Some r, ch'))"
| "prod_exec_ahb hb ch (PeEnd env buf v pts) = (let (r, ch') = flEndSubmit_ahb env ch buf v pts in (Some r, ch'))"
| "prod_exec_ahb hb ch (PeSubmit env buf pts) = (let (r, ch') = flSubmit_ahb env ch buf pts in (Some r, ch'))"
| "prod_exec_ahb hb ch (PeSubmitFd env buf fd pts) = (let (r, ch') = flSubmitSyncFd_ahb env ch buf fd pts in (Some r, ch'))"
| "prod_exec_ahb hb ch (PeMetadata buf md) = (let (r, ch') = flSetFrameMetadata_ahb ch buf md in (Some r, ch'))"
| "prod_exec_ahb hb ch (PeRetain next buf) = (let (r, ch', next', out) = flRetainBufferReference_ahb ch next buf (Some 0) in (Some r, ch'))"
| "prod_exec_ahb hb ch (PeRelease t) = (let (r, ch') = flReleaseBufferReference_ahb ch t in (Some r, ch'))"
| "prod_exec_ahb hb ch (PeGeometry env w h f) = (let (r, ch') = flRequestGeometry_ahb env hb ch w h f in (Some r, ch'))"

lemma prod_exec_as_linux:
  assumes "\<nexists>env w h f. e = PeGeometry env w h f"
  shows "prod_exec (as_linux ch) e = (let (r, ch') = prod_exec_ahb hb ch e in (r, as_linux ch'))"
  using assms
  by (cases e) (simp_all add: acquire_round_as_linux cancel_as_linux begin_as_linux end_as_linux submit_as_linux submit_fd_as_linux
      metadata_as_linux references_as_linux split_beta Let_def)

section \<open>Handles\<close>

definition handle_total :: "AhbChannel \<Rightarrow> nat multiset" where
  "handle_total ch = mset (ac_released ch) + mset (ring_handles ch)"

lemma freed_handles: "concat (map freeImage_ahb (ac_images ch)) = ring_handles ch"
  by (simp add: ring_handles_def freeImage_ahb_def [abs_def])

lemma handle_total_steps [simp]:
  "handle_total (log_released hs ch) = handle_total ch + mset hs"
  "handle_total (push_image (ring_image a h f w ht st) ch) = handle_total ch + {#h#}"
  "handle_total (clear_sync_ahb ch) = handle_total ch" "handle_total (import_done rd ch) = handle_total ch"
  by (simp_all add: handle_total_def log_released_def push_image_def ring_image_def ring_handles_def clear_sync_ahb_def log_closed_ahb_def
      import_done_def split: prod.split)

lemma emptied_ring: "handle_total ((log_released (concat (map freeImage_ahb (ac_images ch))) ch)\<lparr>ac_images := []\<rparr>) = handle_total ch"
  by (simp add: handle_total_def log_released_def freed_handles) (simp add: ring_handles_def)

text \<open>The \<open>n\<close> handles received from the \<open>i\<close>-th on.\<close>
definition received :: "AhbEnv \<Rightarrow> nat \<Rightarrow> nat \<Rightarrow> nat list" where
  "received hb i n = map (\<lambda>k. the (hb_recv hb k)) [i..<i + n]"

lemma received_Suc: "hb_recv hb i = Some h \<Longrightarrow> received hb i (Suc n) = h # received hb (Suc i) n"
  by (simp add: received_def upt_conv_Cons del: upt_Suc)

lemma received_0 [simp]: "received hb i 0 = []"
  by (simp add: received_def)

lemma received_prefix:
  assumes "hb_recv hb i = Some h" "m \<le> n" "\<forall>k < m. hb_recv hb (Suc i + k) \<noteq> None" "t' = t + {#h#} + mset (received hb (Suc i) m)"
  shows "\<exists>m' \<le> Suc n. (\<forall>k < m'. hb_recv hb (i + k) \<noteq> None) \<and> t' = t + mset (received hb i m') \<and> (m = n \<longrightarrow> m' = Suc n)"
proof (intro exI conjI)
  show "\<forall>k < Suc m. hb_recv hb (i + k) \<noteq> None" using assms(1,3) by (auto simp: less_Suc_eq_0_disj)
qed (use assms in \<open>simp_all add: received_Suc\<close>)

lemma drain_handles_total:
  assumes "drain_handles hb n i ch = (r, ch')"
  shows "\<exists>m \<le> n. (\<forall>k < m. hb_recv hb (i + k) \<noteq> None) \<and> handle_total ch' = handle_total ch + mset (received hb i m) \<and> (r = FL_OK \<longrightarrow> m = n)"
  using assms
proof (induction hb n i ch rule: drain_handles.induct)
  case (2 hb n i ch)
  show ?case
  proof (cases "hb_recv hb i")
    case None
    then show ?thesis using 2(2) by auto
  next
    case (Some h)
    with 2 obtain m where "m \<le> n" "\<forall>k < m. hb_recv hb (Suc i + k) \<noteq> None"
      "handle_total ch' = handle_total ch + {#h#} + mset (received hb (Suc i) m)" "r = FL_OK \<longrightarrow> m = n" by fastforce
    with received_prefix [OF Some this(1-3)] show ?thesis by blast
  qed
qed simp

lemma import_handles_total:
  assumes "import_handles hb rd n i ch = (r, ch')"
  shows "\<exists>m \<le> n. (\<forall>k < m. hb_recv hb (i + k) \<noteq> None) \<and> handle_total ch' = handle_total ch + mset (received hb i m) \<and> (r = FL_OK \<longrightarrow> m = n)"
  using assms
proof (induction hb rd n i ch rule: import_handles.induct)
  case (2 hb rd n i ch)
  show ?case
  proof (cases "hb_recv hb i")
    case None
    then show ?thesis using 2(2) by auto
  next
    case (Some h)
    let ?d = "hb_describe hb h"
    show ?thesis
    proof (cases "desc_matches ?d (rd_width rd) (rd_height rd) (rd_format rd) \<and> rd_stride rd ! i = desc_stride ?d (rd_width rd) (rd_format rd)")
      case True
      with Some 2 obtain m where "m \<le> n" "\<forall>k < m. hb_recv hb (Suc i + k) \<noteq> None"
        "handle_total ch' = handle_total ch + {#h#} + mset (received hb (Suc i) m)" "r = FL_OK \<longrightarrow> m = n" by (fastforce simp: Let_def)
      with received_prefix [OF Some this(1-3)] show ?thesis by blast
    next
      case False
      then have "r = FL_INVALID" "ch' = log_released [h] ch" using Some 2(2) by (auto simp: Let_def)
      then show ?thesis using Some by (intro exI [of _ 1]) (simp add: received_Suc)
    qed
  qed
qed auto

text \<open>
  C21. No native buffer leaks on import.  However \<^verbatim>\<open>importRing\<close> ends on Android (a refused description, a duplicate generation, a handle that does
  not arrive, a buffer of the wrong geometry, a full import), every handle received from the socket and every handle of
  the previous ring is afterwards either in the ring or released, exactly once; a successful import has received exactly one handle per slot.
\<close>
theorem ahb_import_conserves_handles:
  assumes "importRing_ahb hb ch rd = (r, ch')"
  shows "\<exists>n \<le> unat (rd_poolSize rd). (\<forall>i < n. hb_recv hb i \<noteq> None) \<and>
    handle_total ch' = handle_total ch + mset (received hb 0 n) \<and> (r = FL_OK \<longrightarrow> n = unat (rd_poolSize rd))"
proof (cases "ring_ok rd")
  case False
  then show ?thesis using assms by (intro exI [of _ 0]) (auto simp: importRing_ahb_def)
next
  case True
  let ?c = "(log_released (concat (map freeImage_ahb (ac_images (clear_sync_ahb ch)))) (clear_sync_ahb ch))\<lparr>ac_images := []\<rparr>"
  have t: "handle_total ?c = handle_total ch" using emptied_ring [of "clear_sync_ahb ch"] by simp
  show ?thesis
  proof (cases "rd_generation rd = ci_generation (ac_info ch) \<and> ac_images ch \<noteq> []")
    case dup: True
    then show ?thesis using assms True drain_handles_total [of hb "unat (rd_poolSize rd)" 0 ch r ch'] by (simp add: importRing_ahb_def)
  next
    case False
    then have "import_handles hb rd (unat (rd_poolSize rd)) 0 ?c = (r, ch')" using assms True by (auto simp: importRing_ahb_def Let_def)
    from import_handles_total [OF this] t show ?thesis by simp
  qed
qed

definition example_ahb_env :: AhbEnv where
  "example_ahb_env = \<lparr>hb_getId = Some (\<lambda>h. Some (of_nat h)),
     hb_describe = (\<lambda>h. \<lparr>hd_width = 8, hd_height = 8, hd_layers = 1, hd_format = AHB_YUV420, hd_usage = 0x332, hd_stride = 8\<rparr>),
     
     hb_allocate = (\<lambda>d i. if hd_width d = 8 \<and> hd_height d = 8 \<and> hd_layers d = 1 \<and> hd_format d = AHB_YUV420 then Some (100 + i) else None),
     hb_supported = (\<lambda>d. True), hb_send = (\<lambda>h. True), hb_recv = (\<lambda>i. if i < 2 then Some (100 + i) else None),
     hb_addr = (\<lambda>i. i + 1)\<rparr>"

definition example_ahb_ring :: AhbChannel where
  "example_ahb_ring = snd (reallocRing_ahb example_ahb_env (created_ahb ''cam'' 8 8 FL_FORMAT_NV12 2 0 False False) 8 8 2)"

theorem ahb_import_conserves_handles_witness:
  "fst (importRing_ahb example_ahb_env new_ahb_channel (ring_desc_ahb example_ahb_ring)) = FL_OK \<and>
   handle_total (snd (importRing_ahb example_ahb_env new_ahb_channel (ring_desc_ahb example_ahb_ring))) = {#100, 101#}"
proof -
  let ?rd = "ring_desc_ahb example_ahb_ring"
  have r: "fst (importRing_ahb example_ahb_env new_ahb_channel ?rd) = FL_OK" by code_simp
  then obtain ch' where e: "importRing_ahb example_ahb_env new_ahb_channel ?rd = (FL_OK, ch')" by (metis prod.collapse)
  have "rd_poolSize ?rd = 2" by code_simp
  with ahb_import_conserves_handles [OF e] have "handle_total ch' = handle_total new_ahb_channel + mset (received example_ahb_env 0 2)" by auto
  moreover have "handle_total new_ahb_channel = {#}" by (simp add: handle_total_def new_ahb_channel_def ring_handles_def)
  moreover have "received example_ahb_env 0 2 = [100, 101]" by code_simp
  ultimately show ?thesis using r e by simp
qed

section \<open>The ring across processes\<close>

text \<open>Every image has a native buffer of the ring's geometry, and the stride that follows from it.\<close>
definition image_fits :: "AhbEnv \<Rightarrow> u32 \<Rightarrow> u32 \<Rightarrow> flFormat \<Rightarrow> AhbImage \<Rightarrow> bool" where
  "image_fits hb w h f img \<longleftrightarrow> (case ai_ahb img of None \<Rightarrow> False | Some k \<Rightarrow>
     desc_matches (hb_describe hb k) w h f \<and> ai_strideBytes img = desc_stride (hb_describe hb k) w f)"

definition ahb_ring_wf :: "AhbEnv \<Rightarrow> AhbChannel \<Rightarrow> bool" where
  "ahb_ring_wf hb ch \<longleftrightarrow> list_all (image_fits hb (ci_width (ac_info ch)) (ci_height (ac_info ch)) (ci_format (ac_info ch))) (ac_images ch)"

definition handle_fits :: "AhbEnv \<Rightarrow> RingDescMsg \<Rightarrow> nat \<Rightarrow> bool" where
  "handle_fits hb rd k \<longleftrightarrow> (case hb_recv hb k of None \<Rightarrow> False | Some h \<Rightarrow>
     desc_matches (hb_describe hb h) (rd_width rd) (rd_height rd) (rd_format rd) \<and>
     rd_stride rd ! k = desc_stride (hb_describe hb h) (rd_width rd) (rd_format rd))"

definition imported_image :: "AhbEnv \<Rightarrow> RingDescMsg \<Rightarrow> nat \<Rightarrow> AhbImage" where
  "imported_image hb rd k = ring_image (hb_addr hb k) (the (hb_recv hb k)) (rd_format rd) (rd_width rd) (rd_height rd) (rd_stride rd ! k)"

lemma import_prefix:
  assumes "\<forall>k < n. handle_fits hb rd (i + k)"
  shows "import_handles hb rd (n + m) i ch = import_handles hb rd m (i + n) (ch\<lparr>ac_images := ac_images ch @ map (imported_image hb rd) [i..<i + n]\<rparr>)"
  using assms
proof (induction n arbitrary: i ch)
  case (Suc n)
  have f: "\<forall>k < n. handle_fits hb rd (Suc i + k)" using Suc.prems by (metis Suc_mono add_Suc_shift)
  obtain h where h: "hb_recv hb i = Some h" "desc_matches (hb_describe hb h) (rd_width rd) (rd_height rd) (rd_format rd)"
    "rd_stride rd ! i = desc_stride (hb_describe hb h) (rd_width rd) (rd_format rd)"
    using Suc.prems [rule_format, of 0] by (auto simp: handle_fits_def split: option.splits)
  have "import_handles hb rd (Suc n + m) i ch = import_handles hb rd (n + m) (Suc i) (push_image (imported_image hb rd i) ch)"
    using h by (simp add: Let_def imported_image_def)
  also have "\<dots> = import_handles hb rd m (i + Suc n) (ch\<lparr>ac_images := ac_images ch @ map (imported_image hb rd) [i..<i + Suc n]\<rparr>)"
    using Suc.IH [OF f, of "push_image (imported_image hb rd i) ch"] by (simp add: push_image_def upt_conv_Cons del: upt_Suc)
  finally show ?case .
qed simp

lemma import_complete:
  assumes "\<forall>k < n. handle_fits hb rd k" "ac_images ch = []"
  shows "import_handles hb rd n 0 ch = (FL_OK, import_done rd (ch\<lparr>ac_images := map (imported_image hb rd) [0..<n]\<rparr>))"
  using import_prefix [of n hb rd 0 0 ch] assms by simp

text \<open>A ring as the loop of \<^verbatim>\<open>importRing\<close> starts from it.\<close>
definition import_start :: "AhbChannel \<Rightarrow> AhbChannel" where
  "import_start ch = (log_released (concat (map freeImage_ahb (ac_images (clear_sync_ahb ch)))) (clear_sync_ahb ch))\<lparr>ac_images := []\<rparr>"

lemma import_start_fields [simp]:
  "ac_images (import_start ch) = []" "ac_slotSubmitValue (import_start ch) = ac_slotSubmitValue ch" "ac_info (import_start ch) = ac_info ch"
  "ac_link (import_start ch) = ac_link ch" "ac_slotMetadata (import_start ch) = ac_slotMetadata ch"
  "ac_submittingValue (import_start ch) = ac_submittingValue ch" "ac_consumedValue (import_start ch) = ac_consumedValue ch"
  by (simp_all add: import_start_def log_released_def clear_sync_ahb_def log_closed_ahb_def split: prod.split)

lemma importRing_new:
  assumes "ring_ok rd" "rd_generation rd \<noteq> ci_generation (ac_info ch) \<or> ac_images ch = []"
  shows "importRing_ahb hb ch rd = import_handles hb rd (unat (rd_poolSize rd)) 0 (import_start ch)"
  using assms by (auto simp: importRing_ahb_def import_start_def Let_def)

lemma ring_handles_map: "ahb_ring_wf hb ch \<Longrightarrow> ring_handles ch = map (\<lambda>img. the (ai_ahb img)) (ac_images ch)"
proof -
  have "concat (map (\<lambda>img. case ai_ahb img of None \<Rightarrow> [] | Some h \<Rightarrow> [h]) xs) = map (\<lambda>img. the (ai_ahb img)) xs"
    if "list_all (\<lambda>img. ai_ahb img \<noteq> None) xs" for xs using that by (induction xs) auto
  moreover assume "ahb_ring_wf hb ch"
  then have "list_all (\<lambda>img. ai_ahb img \<noteq> None) (ac_images ch)" by (auto simp: ahb_ring_wf_def image_fits_def list_all_iff split: option.splits)
  ultimately show ?thesis by (simp add: ring_handles_def)
qed

text \<open>
  C20. The ring survives the hand-over.  When the producer receives the description \<^verbatim>\<open>handOverRing\<close> sends and the handles it sends, in order, of a
  well-formed ring (as adoption and allocation make them), \<^verbatim>\<open>importRing\<close> succeeds and both processes have the same native buffers in the same
  slots with the same strides, the same geometry, format and generation, and every slot is free.
\<close>
theorem ahb_ring_roundtrip:
  assumes "ahb_ring_wf hb ch" "ring_ok (ring_desc_ahb ch)" "length (ac_images ch) \<le> kMaxPool"
    "hb_describe hb' = hb_describe hb" "\<forall>i < length (ac_images ch). hb_recv hb' i = Some (ring_handles ch ! i)"
    "ci_generation (ac_info ch) \<noteq> ci_generation (ac_info p) \<or> ac_images p = []"
  shows "\<exists>p'. importRing_ahb hb' p (ring_desc_ahb ch) = (FL_OK, p') \<and> ring_handles p' = ring_handles ch \<and>
    map ai_strideBytes (ac_images p') = map ai_strideBytes (ac_images ch) \<and> ci_width (ac_info p') = ci_width (ac_info ch) \<and>
    ci_height (ac_info p') = ci_height (ac_info ch) \<and> ci_format (ac_info p') = ci_format (ac_info ch) \<and>
    ci_generation (ac_info p') = ci_generation (ac_info ch) \<and> ac_slotSubmitValue p' = replicate (length (ac_images ch)) 0"
proof -
  let ?rd = "ring_desc_ahb ch" and ?n = "length (ac_images ch)"
  have n: "unat (rd_poolSize ?rd) = ?n" using assms(3) by (simp add: ring_desc_ahb_def unat_of_nat32)
  have g: "rd_generation ?rd = ci_generation (ac_info ch)" "rd_width ?rd = ci_width (ac_info ch)" "rd_height ?rd = ci_height (ac_info ch)"
    "rd_format ?rd = ci_format (ac_info ch)" by (simp_all add: ring_desc_ahb_def)
  have st: "rd_stride ?rd ! k = ai_strideBytes (ac_images ch ! k)" if "k < ?n" for k
    using that assms(3) by (simp add: ring_desc_ahb_def pad_def nth_append)
  have rh: "ring_handles ch = map (\<lambda>img. the (ai_ahb img)) (ac_images ch)" by (rule ring_handles_map [OF assms(1)])
  have wf: "\<exists>h. ai_ahb (ac_images ch ! k) = Some h \<and> desc_matches (hb_describe hb h) (ci_width (ac_info ch)) (ci_height (ac_info ch)) (ci_format (ac_info ch)) \<and>
      ai_strideBytes (ac_images ch ! k) = desc_stride (hb_describe hb h) (ci_width (ac_info ch)) (ci_format (ac_info ch))" if "k < ?n" for k
    using that assms(1) by (auto simp: ahb_ring_wf_def image_fits_def list_all_length split: option.splits)
  have fits: "\<forall>k < ?n. handle_fits hb' ?rd k"
    using wf assms(4,5) st g rh by (fastforce simp: handle_fits_def)
  let ?p = "import_done ?rd ((import_start p)\<lparr>ac_images := map (imported_image hb' ?rd) [0..<?n]\<rparr>)"
  have "rd_generation ?rd \<noteq> ci_generation (ac_info p) \<or> ac_images p = []" unfolding g(1) by (rule assms(6))
  from importRing_new [OF assms(2) this, of hb'] have "importRing_ahb hb' p ?rd = import_handles hb' ?rd ?n 0 (import_start p)" unfolding n .
  also have "\<dots> = (FL_OK, ?p)" by (rule import_complete [OF fits import_start_fields(1)])
  finally have "importRing_ahb hb' p ?rd = (FL_OK, ?p)" .
  moreover have "map (\<lambda>img. the (ai_ahb img)) (map (imported_image hb' ?rd) [0..<?n]) = ring_handles ch"
    by (rule nth_equalityI) (use assms(5) in \<open>simp_all add: rh imported_image_def ring_image_def\<close>)
  moreover have "ring_handles ?p = map (\<lambda>img. the (ai_ahb img)) (map (imported_image hb' ?rd) [0..<?n])"
  proof -
    have "concat (map (\<lambda>img. case ai_ahb img of None \<Rightarrow> [] | Some h \<Rightarrow> [h]) (map (imported_image hb' ?rd) ks)) =
      map (\<lambda>img. the (ai_ahb img)) (map (imported_image hb' ?rd) ks)" for ks
      by (induction ks) (simp_all add: imported_image_def ring_image_def)
    then show ?thesis by (simp add: ring_handles_def import_done_def)
  qed
  moreover have "map ai_strideBytes (map (imported_image hb' ?rd) [0..<?n]) = map ai_strideBytes (ac_images ch)"
    by (rule nth_equalityI) (simp_all add: st imported_image_def ring_image_def)
  ultimately show ?thesis using n g by (intro exI [of _ ?p]) (simp add: import_done_def)
qed

theorem ahb_ring_roundtrip_witness:
  "ahb_ring_wf example_ahb_env example_ahb_ring \<and>
   (\<exists>p'. importRing_ahb example_ahb_env new_ahb_channel (ring_desc_ahb example_ahb_ring) = (FL_OK, p') \<and> ring_handles p' = [100, 101])"
proof -
  have w: "ahb_ring_wf example_ahb_env example_ahb_ring" by code_simp
  have o: "ring_ok (ring_desc_ahb example_ahb_ring)" by code_simp
  have h: "ring_handles example_ahb_ring = [100, 101]" by code_simp
  have l: "length (ac_images example_ahb_ring) = 2" by code_simp
  have "\<forall>i < length (ac_images example_ahb_ring). hb_recv example_ahb_env i = Some (ring_handles example_ahb_ring ! i)"
    unfolding l h by (auto simp: example_ahb_env_def less_Suc_eq numeral_eq_Suc)
  from ahb_ring_roundtrip [OF w o _ refl this, of new_ahb_channel] l h w show ?thesis by (auto simp: new_ahb_channel_def)
qed


text \<open>A producer with a ring of one slot.\<close>
definition example_ahb_producer :: AhbChannel where
  "example_ahb_producer = new_ahb_channel\<lparr>ac_images := [ring_image 9 50 FL_FORMAT_NV12 4 4 4], ac_slotSubmitValue := [0],
     ac_info := \<lparr>ci_version = FL_VERSION, ci_width = 4, ci_height = 4, ci_format = FL_FORMAT_NV12, ci_poolSize = 1, ci_generation = 7\<rparr>,
     ac_link := ipc_null\<lparr>ic_connected := True, ic_fd := 3\<rparr>\<rparr>"


section \<open>Invariant\<close>

lemma import_ok_cases:
  assumes "importRing_ahb hb ch rd = (FL_OK, ch')"
  shows "prod_view (as_linux ch') = prod_view (as_linux ch) \<or>
    (\<exists>c. ch' = import_done rd c \<and> length (ac_images c) = unat (rd_poolSize rd) \<and> ring_ok rd \<and>
       ac_slotMetadata c = ac_slotMetadata ch \<and> ac_submittingValue c = ac_submittingValue ch)"
proof -
  have d: "prod_view (as_linux ch') = prod_view (as_linux ch)" if "drain_handles hb n i ch = (r, ch')" for n i r ch
    using that by (induction hb n i ch rule: drain_handles.induct) (auto split: option.splits)
  have imp: "\<exists>c. ch' = import_done rd c \<and> length (ac_images c) = length (ac_images ch) + n \<and>
      ac_slotMetadata c = ac_slotMetadata ch \<and> ac_submittingValue c = ac_submittingValue ch"
    if "import_handles hb rd n i ch = (FL_OK, ch')" for n i ch
    using that
    by (induction hb rd n i ch rule: import_handles.induct) (auto simp: Let_def push_image_def split: option.splits if_splits)
  show ?thesis
  proof (cases "rd_generation rd = ci_generation (ac_info ch) \<and> ac_images ch \<noteq> []")
    case True
    then show ?thesis using assms d by (auto simp: importRing_ahb_def split: if_splits)
  next
    case False
    moreover from this have o: "ring_ok rd" using assms by (auto simp: importRing_ahb_def split: if_splits)
    ultimately have "import_handles hb rd (unat (rd_poolSize rd)) 0 (import_start ch) = (FL_OK, ch')" using assms importRing_new by auto
    from imp [OF this] o show ?thesis by auto
  qed
qed

lemma prod_inv_import_ahb:
  assumes "importRing_ahb hb ch rd = (FL_OK, ch')" "prod_inv (as_linux ch)" "ac_submittingValue ch = 0"
  shows "prod_inv (as_linux ch')"
  using import_ok_cases [OF assms(1)]
proof
  assume "prod_view (as_linux ch') = prod_view (as_linux ch)"
  then show ?thesis using assms(2) prod_inv_cong by blast
next
  assume "\<exists>c. ch' = import_done rd c \<and> length (ac_images c) = unat (rd_poolSize rd) \<and> ring_ok rd \<and>
    ac_slotMetadata c = ac_slotMetadata ch \<and> ac_submittingValue c = ac_submittingValue ch"
  then show ?thesis using assms(2,3) by (auto simp: prod_inv_def import_done_def ring_ok_def)
qed

lemma recv_as_linux_view: "recv_link_ahb ch = (m, c) \<Longrightarrow> prod_view (as_linux c) = prod_view (as_linux ch)"
  using recv_link_fields [of "as_linux ch"] by (simp add: recv_link_as_linux)

lemma request_loop_ahb_inv:
  "prod_inv (as_linux ch) \<Longrightarrow> ac_submittingValue ch = 0 \<Longrightarrow> request_loop_ahb env hb ch = (FL_OK, ch') \<Longrightarrow> prod_inv (as_linux ch')"
proof (induction env hb ch arbitrary: ch' rule: request_loop_ahb.induct)
  case (1 env hb ch)
  obtain mo c1 where r: "recv_link_ahb ch = (mo, c1)" by (cases "recv_link_ahb ch")
  have v: "prod_view (as_linux c1) = prod_view (as_linux ch)" by (rule recv_as_linux_view [OF r])
  have c1: "prod_inv (as_linux c1)" "ac_submittingValue c1 = 0"
    using v prod_inv_cong [OF v] "1.prems"(1,2) by (simp_all add: prod_view_def)
  from "1.prems"(3) r obtain m where mo: "mo = Some m" by (cases mo) (auto simp: request_loop_ahb.simps [of env hb ch])
  show ?case
  proof (cases "ms_type m = MsgFrameReleased")
    case True
    have "request_loop_ahb env hb (applyRelease_ahb env c1 m) = (FL_OK, ch')"
      using "1.prems"(3) r mo True by (simp add: request_loop_ahb.simps [of env hb ch])
    moreover have "prod_inv (as_linux (applyRelease_ahb env c1 m))" using c1(1) prod_inv_cong [OF applyRelease_view] by simp
    moreover have "ac_submittingValue (applyRelease_ahb env c1 m) = 0"
      using c1(2) by (simp add: applyRelease_ahb_def advance_consumed_ahb_def log_closed_ahb_def split: option.split prod.split)
    ultimately show ?thesis using "1.IH" [OF r [symmetric] mo True] by blast
  next
    case False
    with "1.prems"(3) r mo obtain rd where "importRing_ahb hb c1 rd = (FL_OK, ch')"
      by (auto simp: request_loop_ahb.simps [of env hb ch] split: option.splits if_splits)
    then show ?thesis using c1 prod_inv_import_ahb by blast
  qed
qed

lemma prod_inv_geometry_ahb:
  assumes "prod_inv (as_linux ch)" "flRequestGeometry_ahb env hb ch w h f = (FL_OK, ch')"
  shows "prod_inv (as_linux ch')"
proof -
  obtain link where l: "request_loop_ahb env hb (ch\<lparr>ac_link := link\<rparr>) = (FL_OK, ch')" "UINT64_MAX \<notin> set (ac_slotSubmitValue ch)"
    using assms(2) by (auto simp: flRequestGeometry_ahb_def Let_def split: if_splits prod.splits)
  have s: "ac_submittingValue ch = 0" using l(2) assms(1) unfolding prod_inv_def as_linux_fields by (metis length_map nth_mem)
  have "prod_view (as_linux (ch\<lparr>ac_link := link\<rparr>)) = prod_view (as_linux ch)" by (simp add: prod_view_def)
  from prod_inv_cong [OF this] assms(1) have i: "prod_inv (as_linux (ch\<lparr>ac_link := link\<rparr>))" by blast
  show ?thesis by (rule request_loop_ahb_inv [OF i _ l(1)]) (simp add: s)
qed



text \<open>
  The producer's timeline stays well formed on Android too, successful geometry requests included.
\<close>
theorem ahb_producer_invariant:
  assumes "prod_inv (as_linux ch)" "prod_exec_ahb hb ch e = (r, ch')" "(\<exists>env w h f. e = PeGeometry env w h f) \<longrightarrow> r = Some FL_OK"
  shows "prod_inv (as_linux ch')"
proof (cases "\<exists>env w h f. e = PeGeometry env w h f")
  case True
  then show ?thesis using assms prod_inv_geometry_ahb by (auto split: prod.splits)
next
  case False
  then have "prod_exec (as_linux ch) e = (r, as_linux ch')" using prod_exec_as_linux [of e ch hb] assms(2) by simp
  from producer_step_inv [OF assms(1) this] False show ?thesis by blast
qed

section \<open>Adoption and allocation make well-formed rings\<close>

lemma adopt_handles_ok:
  assumes "adopt_handles hb getId ch i ids hs = (FL_OK, ch')" "ahb_ring_wf hb ch" "distinct ids"
  shows "ahb_ring_wf hb ch' \<and> None \<notin> set hs \<and> ring_handles ch' = ring_handles ch @ map the hs \<and>
    distinct (map Some ids @ map (\<lambda>h. getId (the h)) hs) \<and> list_all (\<lambda>h. usage_allows (ac_flags ch) (hb_describe hb (the h))) hs"
  using assms
proof (induction hb getId ch i ids hs rule: adopt_handles.induct)
  case (1 hb getId ch i ids)
  then show ?case by (auto simp: ahb_ring_wf_def ring_handles_def distinct_map)
next
  case (3 hb getId ch i ids h hs)
  let ?d = "hb_describe hb h"
  let ?c = "push_image (ring_image (hb_addr hb i) h (ci_format (ac_info ch)) (hd_width ?d) (hd_height ?d) (desc_stride ?d (hd_width ?d) (ci_format (ac_info ch)))) ch"
  obtain n where n: "getId h = Some n" "n \<notin> set ids" "desc_matches ?d (ci_width (ac_info ch)) (ci_height (ac_info ch)) (ci_format (ac_info ch))"
    "usage_allows (ac_flags ch) ?d" "adopt_handles hb getId ?c (Suc i) (ids @ [n]) hs = (FL_OK, ch')"
    using 3(2) by (auto simp: Let_def split: option.splits if_splits)
  have w: "ahb_ring_wf hb ?c" using 3(3) n(3) by (simp add: ahb_ring_wf_def push_image_def ring_image_def image_fits_def desc_matches_def)
  have "ring_handles ?c = ring_handles ch @ [h]" "ac_flags ?c = ac_flags ch" by (simp_all add: ring_handles_def push_image_def ring_image_def)
  with 3(1) [OF n(1,2) refl refl _ _ n(5) w] n 3(4) show ?case by auto
qed simp

lemma alloc_handles_ok:
  assumes "alloc_handles hb d f n i fresh = Inr imgs"
    "\<And>j h. hb_allocate hb d j = Some h \<Longrightarrow> desc_matches (hb_describe hb h) (hd_width d) (hd_height d) f"
    "list_all (image_fits hb (hd_width d) (hd_height d) f) fresh"
  shows "list_all (image_fits hb (hd_width d) (hd_height d) f) imgs \<and> length imgs = length fresh + n"
  using assms
proof (induction hb d f n i fresh rule: alloc_handles.induct)
  case (2 hb d f n i fresh)
  then obtain h where h: "hb_allocate hb d i = Some h" by (auto split: option.splits)
  with 2 show ?case by (simp add: ring_image_def image_fits_def)
qed simp

text \<open>
  Rings are well formed from the start.  A successful adoption of native buffers has them all in the ring in order, of the channel's
  geometry and with the usage its flags need, and no buffer twice (by the platform's identity, not the handle); a successful allocation
  yields a full ring whose buffers have the requested geometry, given that the platform's allocator delivers what was asked.
\<close>
theorem ahb_new_rings_wf:
  assumes "ac_images ch = []" "hb_getId hb = Some getId"
    "\<And>d i k. hb_allocate hb d i = Some k \<Longrightarrow> hd_width (hb_describe hb k) = hd_width d \<and> hd_height (hb_describe hb k) = hd_height d \<and>
       hd_layers (hb_describe hb k) = hd_layers d \<and> hd_format (hb_describe hb k) = hd_format d"
  shows "(adoptRing_ahb hb ch images = (FL_OK, ch1) \<longrightarrow> ahb_ring_wf hb ch1 \<and> map Some (ring_handles ch1) = images \<and>
      distinct (map getId (ring_handles ch1)) \<and> list_all (\<lambda>k. usage_allows (ac_flags ch) (hb_describe hb k)) (ring_handles ch1)) \<and>
    (reallocRing_ahb hb ch w h n = (True, ch2) \<longrightarrow> ahb_ring_wf hb ch2 \<and> length (ac_images ch2) = n \<and> ci_width (ac_info ch2) = w \<and> ci_height (ac_info ch2) = h)"
proof (intro conjI impI)
  assume "adoptRing_ahb hb ch images = (FL_OK, ch1)"
  then have a: "adopt_handles hb getId ch 0 [] images = (FL_OK, ch1)" using assms(2) by (simp add: adoptRing_ahb_def)
  have "ahb_ring_wf hb ch" using assms(1) by (simp add: ahb_ring_wf_def)
  from adopt_handles_ok [OF a this] assms(1)
  have r: "ahb_ring_wf hb ch1" "None \<notin> set images" "ring_handles ch1 = map the images" "distinct (map (\<lambda>h. getId (the h)) images)"
    "list_all (\<lambda>h. usage_allows (ac_flags ch) (hb_describe hb (the h))) images" by (simp_all add: ring_handles_def)
  have "map Some (map the images) = images" using r(2) by (induction images) auto
  with r show "ahb_ring_wf hb ch1" "map Some (ring_handles ch1) = images" "distinct (map getId (ring_handles ch1))"
    "list_all (\<lambda>k. usage_allows (ac_flags ch) (hb_describe hb k)) (ring_handles ch1)" by (simp_all add: comp_def list_all_iff)
next
  let ?d = "alloc_desc (ac_flags ch) (ci_format (ac_info ch)) w h"
  assume "reallocRing_ahb hb ch w h n = (True, ch2)"
  then obtain imgs where i: "alloc_handles hb ?d (ci_format (ac_info ch)) n 0 [] = Inr imgs"
    "ac_images ch2 = imgs" "ci_width (ac_info ch2) = w" "ci_height (ac_info ch2) = h" "ci_format (ac_info ch2) = ci_format (ac_info ch)"
    by (auto simp: reallocRing_ahb_def clear_sync_ahb_def log_closed_ahb_def log_released_def split: sum.splits prod.splits)
  have m: "desc_matches (hb_describe hb k) (hd_width ?d) (hd_height ?d) (ci_format (ac_info ch))" if "hb_allocate hb ?d j = Some k" for j k
    using assms(3) [OF that] by (simp add: desc_matches_def alloc_desc_def)
  have "list_all (image_fits hb (hd_width ?d) (hd_height ?d) (ci_format (ac_info ch))) imgs \<and> length imgs = n"
    using alloc_handles_ok [OF i(1) m] by auto
  with i(2-5) show "ahb_ring_wf hb ch2" "length (ac_images ch2) = n" "ci_width (ac_info ch2) = w" "ci_height (ac_info ch2) = h"
    by (simp_all add: ahb_ring_wf_def alloc_desc_def)
qed

theorem ahb_new_rings_wf_witness:
  "fst (adoptRing_ahb example_ahb_env (created_ahb ''cam'' 8 8 FL_FORMAT_NV12 2 FL_MAP_CPU False True) [Some 5, Some 6]) = FL_OK \<and>
   ring_handles (snd (adoptRing_ahb example_ahb_env (created_ahb ''cam'' 8 8 FL_FORMAT_NV12 2 FL_MAP_CPU False True) [Some 5, Some 6])) = [5, 6]"
proof -
  let ?c = "created_ahb ''cam'' 8 8 FL_FORMAT_NV12 2 FL_MAP_CPU False True"
  have r: "fst (adoptRing_ahb example_ahb_env ?c [Some 5, Some 6]) = FL_OK" by code_simp
  then obtain ch1 where e: "adoptRing_ahb example_ahb_env ?c [Some 5, Some 6] = (FL_OK, ch1)" by (metis prod.collapse)
  have "ac_images ?c = []" by (simp add: created_ahb_def new_ahb_channel_def)
  moreover have "hb_getId example_ahb_env = Some (\<lambda>h. Some (of_nat h))" by (simp add: example_ahb_env_def)
  moreover have "hd_width (hb_describe example_ahb_env k) = hd_width d \<and> hd_height (hb_describe example_ahb_env k) = hd_height d \<and>
      hd_layers (hb_describe example_ahb_env k) = hd_layers d \<and> hd_format (hb_describe example_ahb_env k) = hd_format d"
    if "hb_allocate example_ahb_env d i = Some k" for d i k using that by (simp add: example_ahb_env_def split: if_splits)
  ultimately have "map Some (ring_handles ch1) = [Some 5, Some 6]"
    using ahb_new_rings_wf [of ?c example_ahb_env "\<lambda>h. Some (of_nat h)" "[Some 5, Some 6]" ch1] e by blast
  then show ?thesis using r e by auto
qed

end
