(* ===== verification/FL_AhbConsumer.thy ===== *)
theory FL_AhbConsumer
  imports FL_AhbOpen
begin

text \<open>
  The consumer side of the Android backend, \<^verbatim>\<open>src/framelink_android.cpp\<close>: the accept thread, frame acquisition, releases, and the read leases of
  \<^verbatim>\<open>src/fl_read_api.inc\<close>.  As on Linux each definition is one critical section under \<^verbatim>\<open>pendingMutex\<close>.  The API calls commute with the abstraction
  \<open>as_linux\<close>; the accept thread differs (native handles, delegated connections, another resize gate) and its invariant is proved directly.
\<close>

section \<open>Shared steps\<close>

abbreviation has_flag_ahb :: "AhbChannel \<Rightarrow> u32 \<Rightarrow> bool" where "has_flag_ahb ch f \<equiv> ac_flags ch AND f \<noteq> 0"

text \<open>\<^verbatim>\<open>if(ch->sync.held>=0)close(ch->sync.held);ch->sync.held=-1;\<close> and the same for the pending fence.\<close>
definition releaseLeaseReadyFence_ahb :: "AhbChannel \<Rightarrow> AhbChannel" where
  "releaseLeaseReadyFence_ahb ch = log_closed_ahb (closing (sy_held (ac_sync ch))) (ch\<lparr>ac_sync := (ac_sync ch)\<lparr>sy_held := -1\<rparr>\<rparr>)"

definition drop_pending_fence_ahb :: "AhbChannel \<Rightarrow> AhbChannel" where
  "drop_pending_fence_ahb ch = log_closed_ahb (closing (sy_pending (ac_sync ch))) (ch\<lparr>ac_sync := (ac_sync ch)\<lparr>sy_pending := -1\<rparr>\<rparr>)"

definition push_release_ahb :: "AhbChannel \<Rightarrow> u64 \<Rightarrow> fd \<Rightarrow> AhbChannel" where
  "push_release_ahb ch v fd = ch\<lparr>ac_sync := (ac_sync ch)\<lparr>sy_releases := sy_releases (ac_sync ch) @ [(v, fd)]\<rparr>\<rparr>"

definition send_release_ahb :: "Env \<Rightarrow> AhbChannel \<Rightarrow> u32 \<Rightarrow> u64 \<Rightarrow> fd \<Rightarrow> bool \<times> AhbChannel" where
  "send_release_ahb env ch slot v fd =
     (let (sent, link) = sendWithFds (en_sendmsg env) (ac_peer ch) MsgFrameReleased (Some (frame_bytes (release_message slot v))) 24
            (if fd \<ge> 0 then Some [fd] else None) (if fd \<ge> 0 then 1 else 0)
      in (sent, ch\<lparr>ac_peer := link\<rparr>))"

text \<open>\<^verbatim>\<open>frameHeld && frame->_readyValue==heldReady && frame->slot==heldSlot\<close>\<close>
definition holds_frame_ahb :: "AhbChannel \<Rightarrow> flFrame \<Rightarrow> bool" where
  "holds_frame_ahb ch f \<longleftrightarrow> ac_frameHeld ch \<and> fr_readyValue f = ac_heldReady ch \<and> fr_slot f = ac_heldSlot ch"

definition holds_image_ahb :: "AhbChannel \<Rightarrow> flFrame \<Rightarrow> bool" where
  "holds_image_ahb ch f \<longleftrightarrow> holds_frame_ahb ch f \<and> unat (fr_slot f) < length (ac_images ch) \<and>
     fr_image f = Some (ai_addr (ac_images ch ! unat (fr_slot f)))"

section \<open>The accept thread\<close>

definition recv_peer_ahb :: "AhbChannel \<Rightarrow> Message option \<times> AhbChannel" where
  "recv_peer_ahb ch = (let (m, link, closed) = ipc_recv (ac_peer ch) in (m, log_closed_ahb closed (ch\<lparr>ac_peer := link\<rparr>)))"

text \<open>A connection that is given up: \<^verbatim>\<open>continue\<close> destroys it.\<close>
definition drop_connection_ahb :: "IpcChannel \<Rightarrow> AhbChannel \<Rightarrow> bool \<times> AhbChannel \<times> IpcChannel" where
  "drop_connection_ahb link ch = (let (link', closed) = ipc_close link in (False, log_closed_ahb closed ch, link'))"

text \<open>The condition under which a producer may not start (or restart) a timeline: something may still be read.\<close>
definition still_reading_ahb :: "AhbChannel \<Rightarrow> bool" where
  "still_reading_ahb ch \<longleftrightarrow> \<not> ledger_empty (ac_readers ch) \<or> ac_frameHeld ch \<or> ac_retiredValue ch < ac_heldReady ch"

definition new_timeline_ahb :: "AhbChannel \<Rightarrow> u32 \<Rightarrow> AhbChannel" where
  "new_timeline_ahb ch features = (clear_sync_ahb (ch\<lparr>ac_hasPending := False\<rparr>))\<lparr>ac_readers := resetEpoch (ac_readers ch), ac_heldReady := 0,
     ac_retiredValue := 0, ac_peerFeatures := features,
     ac_info := (ac_info ch)\<lparr>ci_generation := ci_generation (ac_info ch) + 1\<rparr>\<rparr>"

text \<open>The attach gate and the hand-over, for a producer whose greeting was accepted.\<close>
definition attach_ahb :: "Env \<Rightarrow> AhbEnv \<Rightarrow> AhbChannel \<Rightarrow> IpcChannel \<Rightarrow> u32 \<Rightarrow> bool \<times> AhbChannel \<times> IpcChannel" where
  "attach_ahb env hb ch link features =
     (let ch1 = advance_retired_ahb env ch
      in if still_reading_ahb ch1 \<or> \<not> fenceReady (en_signalled env) (sy_pending (ac_sync ch1))
         then drop_connection_ahb (send_busy env link) ch1
         else
           let ch2 = new_timeline_ahb ch1 features; (sent, link', handles) = handOverRing_ahb env hb ch2 link
           in if \<not> sent then drop_connection_ahb link' ch2
              else (True, log_closed_ahb (snd (ipc_close (ac_peer ch2))) (ch2\<lparr>ac_peerGone := False, ac_peer := link'\<rparr>), link'))"

definition accept_producer_ahb :: "Env \<Rightarrow> AhbEnv \<Rightarrow> u32 \<Rightarrow> AhbChannel \<Rightarrow> IpcChannel \<Rightarrow> bool \<times> AhbChannel \<times> IpcChannel" where
  "accept_producer_ahb env hb pid ch link =
     (if \<not> ic_connected link then drop_connection_ahb link ch
      else
        let mine = hello_mine (localFeatures (ac_flags ch)) pid; (sent, l1) = ipc_send (en_sendmsg env) link MsgHello (hello_bytes mine)
        in if \<not> sent then drop_connection_ahb l1 ch
           else
             let (peer, l2, closed) = ipc_recv l1; ch1 = log_closed_ahb closed ch
             in case peer of
                  None \<Rightarrow> drop_connection_ahb l2 ch1
                | Some m \<Rightarrow>
                    if ms_fds m \<noteq> [] then drop_connection_ahb l2 (log_closed_ahb (ms_fds m) ch1)
                    else case (if ms_type m = MsgHello \<and> length (ms_payload m) = 24 then hello_of (ms_payload m) else None) of
                        None \<Rightarrow> drop_connection_ahb l2 ch1
                      | Some ph \<Rightarrow>
                          if hm_version ph \<noteq> FL_VERSION \<or> \<not> compatibleFeatures (hm_pad mine) (hm_pad ph) then drop_connection_ahb l2 ch1
                          else attach_ahb env hb ch1 l2 (hm_pad ph))"

definition send_ring_ahb :: "Env \<Rightarrow> AhbEnv \<Rightarrow> AhbChannel \<Rightarrow> bool \<times> AhbChannel" where
  "send_ring_ahb env hb ch = (let (sent, link, handles) = handOverRing_ahb env hb ch (ac_peer ch) in (sent, ch\<lparr>ac_peer := link\<rparr>))"

definition accepts_geometry :: "AhbChannel \<Rightarrow> GeometryMsg \<Rightarrow> bool" where
  "accepts_geometry ch g \<longleftrightarrow> \<not> ac_externalPool ch \<and> gm_width g \<noteq> 0 \<and> gm_height g \<noteq> 0 \<and> gm_width g \<le> 8192 \<and> gm_height g \<le> 8192 \<and>
     gm_format g = ci_format (ac_info ch) \<and> (ci_format (ac_info ch) \<noteq> FL_FORMAT_NV12 \<or> (gm_width g OR gm_height g) AND 1 = 0) \<and>
     (gm_width g \<noteq> ci_width (ac_info ch) \<or> gm_height g \<noteq> ci_height (ac_info ch))"

text \<open>A geometry request: the answer is a ring description in every case.  The result is whether the loop goes on.\<close>
definition geometry_step_ahb :: "Env \<Rightarrow> AhbEnv \<Rightarrow> AhbChannel \<Rightarrow> Message \<Rightarrow> bool \<times> AhbChannel" where
  "geometry_step_ahb env hb ch m =
     (let ch1 = advance_retired_ahb env ch
      in if ac_frameHeld ch1 \<or> ac_retiredValue ch1 < ac_heldReady ch1 then send_ring_ahb env hb ch1
         else case geometry_of (ms_payload m) of
             None \<Rightarrow> send_ring_ahb env hb ch1
           | Some g \<Rightarrow>
               if accepts_geometry ch1 g
               then send_ring_ahb env hb (snd (reallocRing_ahb hb (drop_pending_fence_ahb (ch1\<lparr>ac_hasPending := False\<rparr>))
                      (gm_width g) (gm_height g) (length (ac_images ch1))))
               else send_ring_ahb env hb ch1)"

text \<open>A submitted frame replaces the pending one.\<close>
definition store_pending_ahb :: "Env \<Rightarrow> AhbChannel \<Rightarrow> FrameReadyMsg \<Rightarrow> flFrameMetadata \<Rightarrow> fd list \<Rightarrow> AhbChannel" where
  "store_pending_ahb env ch fr md fds =
     log_closed_ahb (closing (sy_pending (ac_sync ch)) @ tl fds)
       (ch\<lparr>ac_sync := (ac_sync ch)\<lparr>sy_pending := if fds = [] then -1 else hd fds\<rparr>, ac_hasPending := True,
           ac_pendingSlot := fm_slot fr, ac_pendingReady := fm_readyValue fr, ac_pendingPts := fm_ptsNs fr, ac_pendingMetadata := md,
           ac_pendingArrival := if has_flag_ahb ch FL_TRACK_ARRIVAL then en_now env else ac_pendingArrival ch,
           ac_sequence := ac_sequence ch + 1\<rparr>)"

definition frame_step_ahb :: "Env \<Rightarrow> AhbChannel \<Rightarrow> Message \<Rightarrow> bool \<times> AhbChannel" where
  "frame_step_ahb env ch m =
     (case decodeFrame m (has_flag_ahb ch FL_REQUIRE_FRAME_METADATA) of
        (None, md) \<Rightarrow> (False, log_closed_ahb (ms_fds m) ch)
      | (Some fr, md) \<Rightarrow>
          if unat (fm_slot fr) \<ge> length (ac_images ch) then (False, log_closed_ahb (ms_fds m) ch)
          else (True, store_pending_ahb env ch fr md (ms_fds m)))"

text \<open>One message of the attached producer.\<close>
definition peer_message_ahb :: "Env \<Rightarrow> AhbEnv \<Rightarrow> AhbChannel \<Rightarrow> bool \<times> AhbChannel" where
  "peer_message_ahb env hb ch =
     (case recv_peer_ahb ch of
        (None, ch1) \<Rightarrow> (False, ch1)
      | (Some m, ch1) \<Rightarrow>
          if ms_type m = MsgBye then (False, ch1)
          else if ms_type m = MsgRequestGeometry then geometry_step_ahb env hb ch1 m
          else if ms_type m \<noteq> MsgFrameReady \<and> ms_type m \<noteq> MsgFrameReadyMetadata then (True, ch1)
          else frame_step_ahb env ch1 m)"

text \<open>A second producer while one is attached.\<close>
definition refuse_extra_ahb :: "Env \<Rightarrow> AhbChannel \<Rightarrow> IpcChannel \<Rightarrow> AhbChannel \<times> IpcChannel" where
  "refuse_extra_ahb env ch extra = (let l = (if ic_connected extra then send_busy env extra else extra); (l', closed) = ipc_close l in (log_closed_ahb closed ch, l'))"

text \<open>
  The thread as a state machine.  A delegated channel serves the one connection it was given: when that is lost or refused the
  thread ends, and it has no listener, so no further connection arrives.  When the thread ends the peer counts as gone.
\<close>
datatype accept_state = AtListening | AtAttached | AtEnded

definition leave_peer :: "AhbChannel \<Rightarrow> accept_state \<times> AhbChannel" where
  "leave_peer ch = (if ac_delegated ch then AtEnded else AtListening, ch\<lparr>ac_peerGone := True\<rparr>)"

fun acceptLoop_ahb :: "Env \<Rightarrow> AhbEnv \<Rightarrow> u32 \<Rightarrow> accept_state \<Rightarrow> AhbChannel \<Rightarrow> accept_event \<Rightarrow> accept_state \<times> AhbChannel" where
  "acceptLoop_ahb env hb pid AtListening ch (AeConnect link) =
     (let (ok, ch', l) = accept_producer_ahb env hb pid ch link
      in if ok then (AtAttached, ch') else if ac_delegated ch' then (AtEnded, ch'\<lparr>ac_peerGone := True\<rparr>) else (AtListening, ch'))"
| "acceptLoop_ahb env hb pid AtAttached ch (AeReadable ds) =
     (let (go, ch') = peer_message_ahb env hb (ch\<lparr>ac_peer := (ac_peer ch)\<lparr>ic_inbox := ic_inbox (ac_peer ch) @ ds\<rparr>\<rparr>)
      in if go then (AtAttached, ch') else leave_peer ch')"
| "acceptLoop_ahb env hb pid AtAttached ch (AeExtra link) = (AtAttached, if ac_delegated ch then ch else fst (refuse_extra_ahb env ch link))"
| "acceptLoop_ahb env hb pid st ch ev = (st, ch)"

section \<open>Acquisition and release\<close>

definition pending_frame_ahb :: "AhbChannel \<Rightarrow> flFrame" where
  "pending_frame_ahb ch = \<lparr>fr_slot = ac_pendingSlot ch, fr_image = Some (ai_addr (ac_images ch ! unat (ac_pendingSlot ch))),
     fr_ptsNs = ac_pendingPts ch, fr_sequence = ac_sequence ch, fr_readyValue = ac_pendingReady ch\<rparr>"

definition take_pending_ahb :: "AhbChannel \<Rightarrow> AhbChannel" where
  "take_pending_ahb ch = ch\<lparr>ac_sync := (ac_sync ch)\<lparr>sy_held := sy_pending (ac_sync ch), sy_pending := -1\<rparr>, ac_frameHeld := True,
     ac_heldArrival := ac_pendingArrival ch, ac_heldReady := ac_pendingReady ch, ac_heldSlot := ac_pendingSlot ch,
     ac_heldMetadata := ac_pendingMetadata ch, ac_hasPending := False\<rparr>"

definition frame_available_ahb :: "Env \<Rightarrow> AhbChannel \<Rightarrow> bool" where
  "frame_available_ahb env ch \<longleftrightarrow> ac_hasPending ch \<and> \<not> ac_frameHeld ch \<and>
     (has_flag_ahb ch FL_GPU_SYNC \<or> fenceReady (en_signalled env) (sy_pending (ac_sync ch)))"

text \<open>\<open>others\<close> is what the other threads do before each of the two looks at the channel in a round.\<close>
definition frame_round_ahb ::
  "(nat \<Rightarrow> Env) \<Rightarrow> (nat \<Rightarrow> AhbChannel \<Rightarrow> AhbChannel) \<Rightarrow> nat \<Rightarrow> AhbChannel \<times> flFrame option \<Rightarrow>
   flResult option \<times> AhbChannel \<times> flFrame option" where
  "frame_round_ahb envs others k s =
     (let (ch, out) = s; ch1 = others (2 * k) ch
      in if frame_available_ahb (envs k) ch1 then (Some FL_OK, take_pending_ahb ch1, assign out (pending_frame_ahb ch1))
         else let ch2 = others (2 * k + 1) ch1 in (if ac_peerGone ch2 then Some FL_DISCONNECTED else None, ch2, out))"

definition flAcquireFrame_ahb ::
  "(nat \<Rightarrow> Env) \<Rightarrow> (nat \<Rightarrow> AhbChannel \<Rightarrow> AhbChannel) \<Rightarrow> AhbChannel \<Rightarrow> flFrame option \<Rightarrow> u32 \<Rightarrow>
   (flResult \<times> (AhbChannel \<times> flFrame option) \<times> nat) option" where
  "flAcquireFrame_ahb envs others ch out timeoutMs =
     (if \<not> ac_isConsumer ch \<or> out = None then Some (FL_INVALID, (ch, out), 0)
      else timed_loop 2 timeoutMs (frame_round_ahb envs others) FL_TIMEOUT 0 0 (ch, out))"

definition flReleaseSyncFd_ahb :: "Env \<Rightarrow> AhbChannel \<Rightarrow> flFrame option \<Rightarrow> fd \<Rightarrow> flResult \<times> AhbChannel" where
  "flReleaseSyncFd_ahb env ch frame consumedFd =
     (if \<not> ac_isConsumer ch \<or> frame = None \<or> unat (fr_slot (the frame)) \<ge> length (ac_images ch) then (FL_INVALID, ch)
      else if \<not> ledger_empty (ac_readers ch) then (FL_BUSY, ch)
      else if \<not> holds_frame_ahb ch (the frame) then (FL_INVALID, ch)
      else
        let localFd = (if consumedFd \<ge> 0 then en_dup env consumedFd else -1)
        in if consumedFd \<ge> 0 \<and> localFd < 0 then (FL_INTERNAL, ch)
           else
             let ch1 = advance_retired_ahb env (push_release_ahb ch (fr_readyValue (the frame)) localFd);
                 ch2 = releaseLeaseReadyFence_ahb (ch1\<lparr>ac_frameHeld := False\<rparr>)
             in if \<not> ic_connected (ac_peer ch2) then (FL_OK, ch2)
                else let (sent, ch3) = send_release_ahb env ch2 (fr_slot (the frame)) (fr_readyValue (the frame)) consumedFd
                     in (if sent then FL_OK else FL_DISCONNECTED, ch3))"

definition flRelease_ahb :: "Env \<Rightarrow> AhbChannel \<Rightarrow> flFrame option \<Rightarrow> flResult \<times> AhbChannel" where
  "flRelease_ahb env ch frame =
     (if has_flag_ahb ch (FL_GPU_SYNC OR FL_DEFER_RELEASE)
      then if \<not> ac_isConsumer ch \<or> frame = None then (FL_INVALID, ch)
           else if \<not> ledger_empty (ac_readers ch) then (FL_BUSY, ch)
           else if \<not> holds_frame_ahb ch (the frame) then (FL_INVALID, ch)
           else (FL_OK, releaseLeaseReadyFence_ahb (ch\<lparr>ac_frameHeld := False\<rparr>))
      else flReleaseSyncFd_ahb env ch frame (-1))"

definition flSignalConsumedSyncFd_ahb :: "Env \<Rightarrow> AhbChannel \<Rightarrow> u64 \<Rightarrow> fd \<Rightarrow> flResult \<times> AhbChannel" where
  "flSignalConsumedSyncFd_ahb env ch v fd =
     (if \<not> ac_isConsumer ch \<or> \<not> has_flag_ahb ch (FL_GPU_SYNC OR FL_DEFER_RELEASE) then (FL_INVALID, ch)
      else if \<not> ledger_empty (ac_readers ch) then (FL_BUSY, ch)
      else if v > ac_heldReady ch then (FL_INVALID, ch)
      else
        let localFd = (if fd \<ge> 0 then en_dup env fd else -1)
        in if fd \<ge> 0 \<and> localFd < 0 then (FL_INTERNAL, ch)
           else let (sent, ch1) = send_release_ahb env (advance_retired_ahb env (push_release_ahb ch v localFd)) 0 v fd
                in (if sent then FL_OK else FL_DISCONNECTED, ch1))"

definition flFrameReadySyncFd_ahb :: "AhbChannel \<Rightarrow> flFrame option \<Rightarrow> fd option \<Rightarrow> flResult \<times> fd option" where
  "flFrameReadySyncFd_ahb ch frame out =
     (if \<not> ac_isConsumer ch \<or> frame = None \<or> out = None \<or> \<not> holds_frame_ahb ch (the frame) then (FL_INVALID, out)
      else (FL_OK, Some (sy_held (ac_sync ch))))"

section \<open>Read leases\<close>

definition retireReadLeases_ahb :: "Env \<Rightarrow> AhbChannel \<Rightarrow> u64 \<Rightarrow> flResult \<times> AhbChannel" where
  "retireReadLeases_ahb env ch v =
     (let (sent, ch1) = (if ic_connected (ac_peer ch) then send_release_ahb env ch 0 v (-1) else (True, ch))
      in if \<not> sent then (FL_DISCONNECTED, ch1) else (FL_OK, ch1\<lparr>ac_retiredValue := v\<rparr>))"

definition pollLeaseCompletions_ahb :: "(fd \<Rightarrow> PollAnswer) \<Rightarrow> AhbChannel \<Rightarrow> flResult \<times> AhbChannel" where
  "pollLeaseCompletions_ahb poll ch =
     (let (r, l, cs, closed) = poll_completions poll (ac_readers ch) (ac_leaseCompletions ch)
      in (r, log_closed_ahb closed (ch\<lparr>ac_readers := l, ac_leaseCompletions := cs\<rparr>)))"

definition flCompleteReadLeaseSyncFd_ahb :: "Env \<Rightarrow> AhbChannel \<Rightarrow> u64 \<Rightarrow> fd \<Rightarrow> flResult \<times> AhbChannel" where
  "flCompleteReadLeaseSyncFd_ahb env ch token fd =
     (if \<not> ac_isConsumer ch \<or> fd < 0 then (FL_INVALID, ch)
      else if fst (ledger_get (ac_readers ch) token zero_frame 0) \<noteq> FL_OK then (FL_INVALID, ch)
      else case scan (\<lambda>c. lc_token c = 0) (ac_leaseCompletions ch) of
          None \<Rightarrow> (FL_BUSY, ch)
        | Some i \<Rightarrow>
            let owned = en_dup env fd
            in if owned < 0 then (FL_INVALID, ch)
               else let (r, l) = ledger_defer (ac_readers ch) token
                    in if r \<noteq> FL_OK then (r, log_closed_ahb [owned] (ch\<lparr>ac_readers := l\<rparr>))
                       else (FL_OK, ch\<lparr>ac_readers := l,
                         ac_leaseCompletions := (ac_leaseCompletions ch)[i := \<lparr>lc_token = token, lc_fd = owned\<rparr>]\<rparr>))"

text \<open>The process-wide token counter is passed as \<open>next\<close>.\<close>
definition flLeaseFrame_ahb ::
  "AhbChannel \<Rightarrow> u64 \<Rightarrow> flFrame option \<Rightarrow> u64 option \<Rightarrow> flResult \<times> AhbChannel \<times> u64 \<times> u64 option" where
  "flLeaseFrame_ahb ch next frame lease =
     (if \<not> ac_isConsumer ch \<or> frame = None \<or> lease = None \<or> \<not> has_flag_ahb ch FL_DEFER_RELEASE \<or> has_flag_ahb ch FL_GPU_SYNC
      then (FL_INVALID, ch, next, lease)
      else if \<not> holds_image_ahb ch (the frame) then (FL_INVALID, ch, next, lease)
      else
        let (r, l, next', out) = ledger_acquire (ac_readers ch) next (ci_generation (ac_info ch)) (the frame) (the lease);
            ch1 = ch\<lparr>ac_readers := l\<rparr>
        in (r, if r = FL_OK then releaseLeaseReadyFence_ahb (ch1\<lparr>ac_frameHeld := False\<rparr>) else ch1, next', Some out))"

definition flRetainReadLease_ahb :: "AhbChannel \<Rightarrow> u64 \<Rightarrow> u64 \<Rightarrow> u64 option \<Rightarrow> flResult \<times> AhbChannel \<times> u64 \<times> u64 option" where
  "flRetainReadLease_ahb ch next lease retained =
     (if \<not> ac_isConsumer ch \<or> retained = None then (FL_INVALID, ch, next, retained)
      else let (r, l, next', out) = ledger_retain (ac_readers ch) next lease (the retained)
           in (r, ch\<lparr>ac_readers := l\<rparr>, next', Some out))"

definition flReadLeaseFrame_ahb :: "AhbChannel \<Rightarrow> u64 \<Rightarrow> flFrame option \<Rightarrow> u64 option \<Rightarrow> flResult \<times> flFrame option \<times> u64 option" where
  "flReadLeaseFrame_ahb ch lease frame generation =
     (if \<not> ac_isConsumer ch \<or> frame = None \<or> generation = None then (FL_INVALID, frame, generation)
      else let (r, f, g) = ledger_get (ac_readers ch) lease (the frame) (the generation) in (r, Some f, Some g))"

definition flCompleteReadLease_ahb :: "AhbChannel \<Rightarrow> u64 \<Rightarrow> flResult \<times> AhbChannel" where
  "flCompleteReadLease_ahb ch lease =
     (if \<not> ac_isConsumer ch then (FL_INVALID, ch)
      else let (r, l) = ledger_complete (ac_readers ch) lease in (r, ch\<lparr>ac_readers := l\<rparr>))"

definition flCollectReadLeases_ahb :: "Env \<Rightarrow> (fd \<Rightarrow> PollAnswer) \<Rightarrow> AhbChannel \<Rightarrow> flResult \<times> AhbChannel" where
  "flCollectReadLeases_ahb env poll ch =
     (if \<not> ac_isConsumer ch then (FL_INVALID, ch)
      else
        let (polled, ch1) = pollLeaseCompletions_ahb poll ch
        in if polled \<noteq> FL_OK then (polled, ch1)
           else
             let r = retirement (ac_readers ch1)
             in if rt_value r = 0 then (if ledger_empty (ac_readers ch1) then FL_OK else FL_BUSY, ch1)
                else
                  let (result, ch2) = retireReadLeases_ahb env ch1 (rt_value r)
                  in if result \<noteq> FL_OK then (result, ch2)
                     else let (retired, l) = ledger_retired (ac_readers ch2) r in (retired, ch2\<lparr>ac_readers := l\<rparr>))"

section \<open>Queries\<close>

definition flFrameAgeNs_ahb :: "Env \<Rightarrow> AhbChannel \<Rightarrow> flFrame option \<Rightarrow> u64 option \<Rightarrow> flResult \<times> u64 option" where
  "flFrameAgeNs_ahb env ch frame ageNs =
     (if \<not> ac_isConsumer ch \<or> frame = None \<or> ageNs = None then (FL_INVALID, ageNs)
      else if \<not> has_flag_ahb ch FL_TRACK_ARRIVAL then (FL_FORMAT_UNSUPPORTED, ageNs)
      else if \<not> holds_image_ahb ch (the frame) then (FL_INVALID, ageNs)
      else (FL_OK, Some (if en_now env \<ge> ac_heldArrival ch then en_now env - ac_heldArrival ch else 0)))"

definition flQueryConsumerFlags_ahb :: "AhbChannel \<Rightarrow> u32 option \<Rightarrow> flResult \<times> u32 option" where
  "flQueryConsumerFlags_ahb ch flags = (if \<not> ac_isConsumer ch \<or> flags = None then (FL_INVALID, flags) else (FL_OK, Some (ac_flags ch)))"

definition flGetFrameMetadata_ahb :: "AhbChannel \<Rightarrow> flFrame option \<Rightarrow> flFrameMetadata option \<Rightarrow> flResult \<times> flFrameMetadata option" where
  "flGetFrameMetadata_ahb ch frame metadata =
     (if \<not> ac_isConsumer ch \<or> frame = None \<or> metadata = None \<or> \<not> holds_image_ahb ch (the frame) then (FL_INVALID, metadata)
      else if md_version (ac_heldMetadata ch) = 0 then (FL_NOT_FOUND, metadata)
      else (FL_OK, Some (ac_heldMetadata ch)))"

definition flQuery_ahb :: "AhbChannel \<Rightarrow> flChannelInfo option \<Rightarrow> flResult \<times> flChannelInfo option" where
  "flQuery_ahb ch out = (if out = None then (FL_INVALID, out) else (FL_OK, Some (ac_info ch)))"

section \<open>Events\<close>

fun cons_exec_ahb :: "AhbEnv \<Rightarrow> AhbChannel \<Rightarrow> u64 \<Rightarrow> cons_event \<Rightarrow> AhbChannel \<times> u64" where
  "cons_exec_ahb hb ch next (CeAccept env pid attached ev) =
     (snd (acceptLoop_ahb env hb pid (if attached then AtAttached else AtListening) ch ev), next)"
| "cons_exec_ahb hb ch next (CeAcquire env) = (fst (snd (frame_round_ahb (\<lambda>k. env) (\<lambda>k c. c) 0 (ch, Some zero_frame))), next)"
| "cons_exec_ahb hb ch next (CeRelease env f) = (snd (flRelease_ahb env ch f), next)"
| "cons_exec_ahb hb ch next (CeReleaseFd env f fd) = (snd (flReleaseSyncFd_ahb env ch f fd), next)"
| "cons_exec_ahb hb ch next (CeSignal env v fd) = (snd (flSignalConsumedSyncFd_ahb env ch v fd), next)"
| "cons_exec_ahb hb ch next (CeLease f) = (let (r, ch', next', out) = flLeaseFrame_ahb ch next f (Some 0) in (ch', next'))"
| "cons_exec_ahb hb ch next (CeRetain t) = (let (r, ch', next', out) = flRetainReadLease_ahb ch next t (Some 0) in (ch', next'))"
| "cons_exec_ahb hb ch next (CeComplete t) = (snd (flCompleteReadLease_ahb ch t), next)"
| "cons_exec_ahb hb ch next (CeCompleteFd env t fd) = (snd (flCompleteReadLeaseSyncFd_ahb env ch t fd), next)"
| "cons_exec_ahb hb ch next (CeCollect env poll) = (snd (flCollectReadLeases_ahb env poll ch), next)"

section \<open>Abstraction\<close>

lemma fences_as_linux [simp]:
  "as_linux (releaseLeaseReadyFence_ahb ch) = releaseLeaseReadyFence (as_linux ch)"
  "as_linux (drop_pending_fence_ahb ch) = drop_pending_fence (as_linux ch)"
  "as_linux (push_release_ahb ch v fd) = push_release (as_linux ch) v fd"
  by (simp_all add: releaseLeaseReadyFence_ahb_def releaseLeaseReadyFence_def drop_pending_fence_ahb_def drop_pending_fence_def
      push_release_ahb_def push_release_def)

lemma send_release_as_linux: "send_release env (as_linux ch) slot v fd = (let (s, ch') = send_release_ahb env ch slot v fd in (s, as_linux ch'))"
  by (simp add: send_release_def send_release_ahb_def Let_def split: prod.split)

lemma holds_as_linux [simp]: "holds_frame (as_linux ch) f = holds_frame_ahb ch f" "holds_image (as_linux ch) f = holds_image_ahb ch f"
  by (auto simp: holds_frame_def holds_frame_ahb_def holds_image_def holds_image_ahb_def)

lemma take_pending_as_linux [simp]: "as_linux (take_pending_ahb ch) = take_pending (as_linux ch)"
  by (simp add: take_pending_ahb_def take_pending_def)

lemma available_as_linux [simp]: "frame_available env (as_linux ch) = frame_available_ahb env ch"
  by (simp add: frame_available_def frame_available_ahb_def)

lemma pending_frame_as_linux: "unat (ac_pendingSlot ch) < length (ac_images ch) \<Longrightarrow> pending_frame (as_linux ch) = pending_frame_ahb ch"
  by (simp add: pending_frame_def pending_frame_ahb_def)

lemma release_fd_as_linux: "flReleaseSyncFd env (as_linux ch) f fd = (let (r, ch') = flReleaseSyncFd_ahb env ch f fd in (r, as_linux ch'))"
proof -
  let ?c = "\<lambda>v x. releaseLeaseReadyFence_ahb ((advance_retired_ahb env (push_release_ahb ch v x))\<lparr>ac_frameHeld := False\<rparr>)"
  have c: "releaseLeaseReadyFence ((advance_retired env (push_release (as_linux ch) v x))\<lparr>ch_frameHeld := False\<rparr>) = as_linux (?c v x)" for v x by simp
  have p: "ch_peer (as_linux c) = ac_peer c" for c by simp
  show ?thesis
    unfolding flReleaseSyncFd_def flReleaseSyncFd_ahb_def Let_def c p send_release_as_linux
    by (simp add: split_beta)
qed

lemma release_as_linux: "flRelease env (as_linux ch) f = (let (r, ch') = flRelease_ahb env ch f in (r, as_linux ch'))"
  by (simp add: flRelease_def flRelease_ahb_def release_fd_as_linux)

lemma signal_as_linux: "flSignalConsumedSyncFd env (as_linux ch) v fd = (let (r, ch') = flSignalConsumedSyncFd_ahb env ch v fd in (r, as_linux ch'))"
proof -
  have c: "advance_retired env (push_release (as_linux ch) v x) = as_linux (advance_retired_ahb env (push_release_ahb ch v x))" for x by simp
  show ?thesis
    unfolding flSignalConsumedSyncFd_def flSignalConsumedSyncFd_ahb_def Let_def c send_release_as_linux
    by (simp add: split_beta)
qed

lemma ready_fd_as_linux: "flFrameReadySyncFd (as_linux ch) f out = flFrameReadySyncFd_ahb ch f out"
  by (simp add: flFrameReadySyncFd_def flFrameReadySyncFd_ahb_def)

lemma lease_as_linux:
  "flLeaseFrame (as_linux ch) nxt f l = (let (r, ch', n, out) = flLeaseFrame_ahb ch nxt f l in (r, as_linux ch', n, out))"
  "flRetainReadLease (as_linux ch) nxt t l = (let (r, ch', n, out) = flRetainReadLease_ahb ch nxt t l in (r, as_linux ch', n, out))"
  "flCompleteReadLease (as_linux ch) t = (let (r, ch') = flCompleteReadLease_ahb ch t in (r, as_linux ch'))"
  "flCompleteReadLeaseSyncFd env (as_linux ch) t fd = (let (r, ch') = flCompleteReadLeaseSyncFd_ahb env ch t fd in (r, as_linux ch'))"
  "flReadLeaseFrame (as_linux ch) t f' g = flReadLeaseFrame_ahb ch t f' g"
  by (simp_all add: flLeaseFrame_def flLeaseFrame_ahb_def flRetainReadLease_def flRetainReadLease_ahb_def flCompleteReadLease_def
      flCompleteReadLease_ahb_def flCompleteReadLeaseSyncFd_def flCompleteReadLeaseSyncFd_ahb_def flReadLeaseFrame_def flReadLeaseFrame_ahb_def
      Let_def split: prod.split option.split)

lemma poll_as_linux: "pollLeaseCompletions poll (as_linux ch) = (let (r, ch') = pollLeaseCompletions_ahb poll ch in (r, as_linux ch'))"
  by (simp add: pollLeaseCompletions_def pollLeaseCompletions_ahb_def Let_def split: prod.split)

lemma retire_as_linux: "retireReadLeases env (as_linux ch) v = (let (r, ch') = retireReadLeases_ahb env ch v in (r, as_linux ch'))"
  by (simp add: retireReadLeases_def retireReadLeases_ahb_def send_release_as_linux Let_def split: prod.split)

lemma collect_as_linux: "flCollectReadLeases env poll (as_linux ch) = (let (r, ch') = flCollectReadLeases_ahb env poll ch in (r, as_linux ch'))"
  by (simp add: flCollectReadLeases_def flCollectReadLeases_ahb_def poll_as_linux retire_as_linux Let_def split: prod.split)

lemma cons_exec_as_linux:
  assumes "\<nexists>env pid a ev. e = CeAccept env pid a ev"
  shows "cons_exec (as_linux ch) nxt e = (let (ch', n) = cons_exec_ahb hb ch nxt e in (as_linux ch', n))"
  using assms
  by (cases e) (simp_all add: frame_round_def frame_round_ahb_def release_as_linux release_fd_as_linux signal_as_linux lease_as_linux collect_as_linux
      split_beta Let_def)

section \<open>The accept thread keeps the invariant\<close>

abbreviation ahb_inv :: "AhbChannel \<Rightarrow> u64 \<Rightarrow> bool" where "ahb_inv ch next \<equiv> cons_inv (as_linux ch) next"

lemma cons_inv_steps [simp]:
  "cons_inv (log_closed fds c) n = cons_inv c n" "cons_inv (c\<lparr>ch_peer := l\<rparr>) n = cons_inv c n" "cons_inv (c\<lparr>ch_peerGone := g\<rparr>) n = cons_inv c n"
  by (simp_all add: cons_inv_def cons_frames_def)

lemma advance_retired_ahb_inv: "ahb_inv (advance_retired_ahb env ch) n = ahb_inv ch n"
  by (simp add: cons_inv_def cons_frames_def)

lemma send_ring_ahb_inv [simp]: "ahb_inv (snd (send_ring_ahb env hb ch)) n = ahb_inv ch n"
  by (simp add: send_ring_ahb_def split: prod.split)

lemma realloc_ahb_cases:
  assumes "reallocRing_ahb hb ch w h n = (ok, ch')"
  shows "ac_hasPending ch' = ac_hasPending ch" "ac_frameHeld ch' = ac_frameHeld ch"
    "ac_readers ch' = ac_readers ch \<or> ac_readers ch' = resetEpoch (ac_readers ch)"
    "sy_pending (ac_sync ch') = sy_pending (ac_sync ch) \<or> sy_pending (ac_sync ch') = -1"
    "sy_held (ac_sync ch') = sy_held (ac_sync ch) \<or> sy_held (ac_sync ch') = -1"
  using assms
  by (auto simp: reallocRing_ahb_def log_released_def clear_sync_ahb_def log_closed_ahb_def sync_clear_def split: sum.splits prod.splits)

lemma geometry_ahb_inv:
  assumes "ahb_inv ch n"
  shows "ahb_inv (snd (geometry_step_ahb env hb ch m)) n"
proof -
  let ?c = "advance_retired_ahb env ch"
  have i: "ahb_inv ?c n" using assms by (simp only: advance_retired_ahb_inv)
  have "ahb_inv (snd (reallocRing_ahb hb (drop_pending_fence_ahb (?c\<lparr>ac_hasPending := False\<rparr>)) w h k)) n" if "\<not> ac_frameHeld ?c" for w h k
  proof -
    let ?d = "drop_pending_fence_ahb (?c\<lparr>ac_hasPending := False\<rparr>)"
    obtain ok ch' where r: "reallocRing_ahb hb ?d w h k = (ok, ch')" by (cases "reallocRing_ahb hb ?d w h k")
    have d: "ac_hasPending ?d = False" "ac_frameHeld ?d = False" "sy_pending (ac_sync ?d) = -1" "sy_held (ac_sync ?d) = sy_held (ac_sync ?c)"
      "ac_readers ?d = ac_readers ?c" using that by (simp_all add: drop_pending_fence_ahb_def log_closed_ahb_def)
    have "sy_held (ac_sync ?c) < 0" using i that unfolding cons_inv_def cons_frames_def as_linux_fields by blast
    moreover have "ledger_inv (ac_readers ?c) n" using i unfolding cons_inv_def as_linux_fields by blast
    ultimately show ?thesis using realloc_ahb_cases [OF r] r d ledger_ops_inv(7)
      by (auto simp: cons_inv_def cons_frames_def simp del: as_linux_sync)
  qed
  then show ?thesis using i by (simp add: geometry_step_ahb_def Let_def del: as_linux_sync split: option.split)
qed

lemma store_pending_as_linux [simp]: "as_linux (store_pending_ahb env ch fr md fds) = store_pending env (as_linux ch) fr md fds"
  by (simp add: store_pending_ahb_def store_pending_def)

lemma store_pending_inv: "cons_inv c n \<Longrightarrow> unat (fm_slot fr) < length (ch_images c) \<Longrightarrow> cons_inv (store_pending env c fr md fds) n"
  by (simp add: store_pending_def cons_inv_def cons_frames_def)

lemma frame_ahb_inv:
  assumes "ahb_inv ch n"
  shows "ahb_inv (snd (frame_step_ahb env ch m)) n"
proof -
  obtain fo md where d: "decodeFrame m (has_flag_ahb ch FL_REQUIRE_FRAME_METADATA) = (fo, md)"
    by (cases "decodeFrame m (has_flag_ahb ch FL_REQUIRE_FRAME_METADATA)")
  show ?thesis using assms store_pending_inv [of "as_linux ch" n] by (cases fo) (simp_all add: frame_step_ahb_def d)
qed

lemma peer_message_ahb_inv:
  assumes "ahb_inv ch n"
  shows "ahb_inv (snd (peer_message_ahb env hb ch)) n"
proof -
  obtain mo ch1 where r: "recv_peer_ahb ch = (mo, ch1)" by (cases "recv_peer_ahb ch")
  then have "ahb_inv ch1 n" using assms by (auto simp: recv_peer_ahb_def split: prod.splits)
  then show ?thesis using r geometry_ahb_inv frame_ahb_inv by (simp add: peer_message_ahb_def split: option.split)
qed

lemma drop_ahb_inv: "ahb_inv (fst (snd (drop_connection_ahb link ch))) n = ahb_inv ch n"
  by (simp add: drop_connection_ahb_def split: prod.split)

lemma attach_ahb_inv:
  assumes "ahb_inv ch n"
  shows "ahb_inv (fst (snd (attach_ahb env hb ch link features))) n"
proof -
  let ?c = "advance_retired_ahb env ch"
  have i: "ahb_inv ?c n" using assms by (simp only: advance_retired_ahb_inv)
  have t: "as_linux (new_timeline_ahb c features) = new_timeline (as_linux c) features" for c by (simp add: new_timeline_ahb_def new_timeline_def)
  have "ahb_inv (new_timeline_ahb ?c features) n" if "\<not> still_reading_ahb ?c"
  proof -
    have "\<not> ac_frameHeld ?c" using that by (simp add: still_reading_ahb_def)
    moreover have "ledger_inv (ac_readers ?c) n" using i unfolding cons_inv_def as_linux_fields by blast
    ultimately show ?thesis unfolding t
      by (simp add: new_timeline_def cons_inv_def cons_frames_def ledger_ops_inv(7) del: as_linux_sync)
  qed
  then show ?thesis using i by (simp add: attach_ahb_def Let_def drop_ahb_inv del: as_linux_sync split: prod.split)
qed

lemma accept_ahb_inv:
  assumes "ahb_inv ch n"
  shows "ahb_inv (snd (acceptLoop_ahb env hb pid st ch ev)) n"
proof -
  have "ahb_inv (fst (snd (accept_producer_ahb env hb pid ch link))) n" for link
    using assms by (simp add: accept_producer_ahb_def drop_ahb_inv attach_ahb_inv Let_def split: prod.splits option.splits)
  moreover have "ahb_inv (fst (refuse_extra_ahb env ch link)) n" for link
    using assms by (simp add: refuse_extra_ahb_def Let_def split: prod.split)
  moreover have "ahb_inv (snd (peer_message_ahb env hb (ch\<lparr>ac_peer := l\<rparr>))) n" for l
    by (rule peer_message_ahb_inv) (simp add: assms)
  ultimately show ?thesis using assms
    by (cases "(env, hb, pid, st, ch, ev)" rule: acceptLoop_ahb.cases) (simp_all add: leave_peer_def case_prod_unfold Let_def)
qed

text \<open>
  C17. The Android consumer is safe against any producer.  Whatever datagrams arrive, whatever the kernel and the platform answer, whichever connections are
  delegated and whatever the application calls, in any order: pending and held frames name slots of the current ring, a fence is owned only
  together with its frame, and the reader ledger stays well formed.  The API calls are those of the Linux backend on the abstracted state.
\<close>
theorem ahb_consumer_invariant:
  assumes "cons_inv (as_linux ch) next" "cons_exec_ahb hb ch next e = (ch', next')"
  shows "cons_inv (as_linux ch') next' \<and>
    ((\<nexists>env pid attached ev. e = CeAccept env pid attached ev) \<longrightarrow> cons_exec (as_linux ch) next e = (as_linux ch', next'))"
proof (cases "\<exists>env pid attached ev. e = CeAccept env pid attached ev")
  case True
  then show ?thesis using assms accept_ahb_inv by auto
next
  case False
  then have "cons_exec (as_linux ch) next e = (as_linux ch', next')" using cons_exec_as_linux [of e ch "next" hb] assms(2) by simp
  with consumer_step_inv [OF assms(1) this] show ?thesis by blast
qed

definition example_ahb_consumer :: AhbChannel where
  "example_ahb_consumer = example_ahb_ring\<lparr>ac_flags := FL_DEFER_RELEASE, ac_retiredValue := 5, ac_hasPending := True, ac_pendingSlot := 1,
     ac_pendingReady := 3, ac_peer := ipc_null\<lparr>ic_connected := True, ic_fd := 4\<rparr>\<rparr>"

lemma example_ahb_consumer_inv: "cons_inv (as_linux example_ahb_consumer) 1"
proof -
  have "ac_readers example_ahb_consumer = ledger_init" by code_simp
  moreover have "cons_frames (as_linux example_ahb_consumer)" by code_simp
  ultimately show ?thesis using ledger_inv_init(1) [of 1] by (simp add: cons_inv_def)
qed

theorem ahb_consumer_invariant_witness:
  "cons_inv (as_linux example_ahb_consumer) 1 \<and>
   cons_inv (as_linux (fst (cons_exec_ahb example_ahb_env example_ahb_consumer 1 (CeAcquire example_env)))) (snd (cons_exec_ahb example_ahb_env example_ahb_consumer 1 (CeAcquire example_env)))"
  using ahb_consumer_invariant [OF example_ahb_consumer_inv surjective_pairing] example_ahb_consumer_inv by blast

text \<open>
  A run: the pending frame carries value 3 although value 5 has been retired (a producer whose values are not increasing); it is acquired
  and leased, then the producer asks for 16 by 16.
\<close>
definition leased_channel :: AhbChannel where
  "leased_channel = fst (cons_exec_ahb example_ahb_env (fst (cons_exec_ahb example_ahb_env example_ahb_consumer 1 (CeAcquire example_env))) 1
     (CeLease (Some (pending_frame_ahb example_ahb_consumer))))"

definition resize_message :: Message where
  "resize_message = \<lparr>ms_type = MsgRequestGeometry,
     ms_payload = geometry_bytes \<lparr>gm_width = 16, gm_height = 16, gm_format = FL_FORMAT_NV12, gm_pad = 0\<rparr>, ms_fds = []\<rparr>"

definition large_env :: AhbEnv where
  "large_env = example_ahb_env\<lparr>hb_allocate := (\<lambda>d i. Some (200 + i)), hb_addr := (\<lambda>i. 50 + i)\<rparr>"

definition resized_channel :: AhbChannel where
  "resized_channel = snd (geometry_step_ahb example_env large_env leased_channel resize_message)"

text \<open>The ring that replaces the leased one.\<close>
definition replaced_channel :: AhbChannel where
  "replaced_channel = snd (reallocRing_ahb large_env (drop_pending_fence_ahb ((advance_retired_ahb example_env leased_channel)\<lparr>ac_hasPending := False\<rparr>)) 16 16 2)"

lemma send_ring_ahb_fields [simp]:
  "ac_images (snd (send_ring_ahb env hb ch)) = ac_images ch" "ac_readers (snd (send_ring_ahb env hb ch)) = ac_readers ch"
  "ac_released (snd (send_ring_ahb env hb ch)) = ac_released ch"
  by (simp_all add: send_ring_ahb_def split: prod.split)

lemma resize_geometry: "geometry_of (ms_payload resize_message) = Some \<lparr>gm_width = 16, gm_height = 16, gm_format = FL_FORMAT_NV12, gm_pad = 0\<rparr>"
  by code_simp

lemma leased_gate:
  "\<not> (ac_frameHeld (advance_retired_ahb example_env leased_channel) \<or>
     ac_retiredValue (advance_retired_ahb example_env leased_channel) < ac_heldReady (advance_retired_ahb example_env leased_channel))"
  by code_simp

lemma leased_geometry:
  "accepts_geometry (advance_retired_ahb example_env leased_channel) \<lparr>gm_width = 16, gm_height = 16, gm_format = FL_FORMAT_NV12, gm_pad = 0\<rparr> \<and>
   length (ac_images (advance_retired_ahb example_env leased_channel)) = 2"
  by code_simp

lemma replaced_fields:
  "ac_images resized_channel = ac_images replaced_channel" "ac_readers resized_channel = ac_readers replaced_channel"
  "ac_released resized_channel = ac_released replaced_channel"
  using leased_geometry
  by (simp_all only: resized_channel_def geometry_step_ahb_def resize_geometry replaced_channel_def Let_def if_not_P [OF leased_gate]
      option.case if_True GeometryMsg.select_convs send_ring_ahb_fields)

lemma linux_resize_waits: "\<not> ledger_empty (ch_readers c) \<Longrightarrow> ch_images (resize_ring env c g) = ch_images c"
  by (simp add: resize_ring_def still_reading_def)


end
