(* ===== verification/FL_MemoryInfo.thy ===== *)
theory FL_MemoryInfo
  imports FL_Memory FL_AhbOpen
begin

text \<open>
  What a backend tells about the memory of an image: \<^verbatim>\<open>flImageMemoryInfo\<close> of \<^verbatim>\<open>src/framelink_linux.cpp\<close> and \<^verbatim>\<open>src/framelink_android.cpp\<close>, with
  \<^verbatim>\<open>flResultString\<close> and the calls that have constant answers.  Images are named by their addresses.
\<close>

section \<open>Data\<close>

abbreviation FL_MEMORY_AHB :: u32 where "FL_MEMORY_AHB \<equiv> 0x08"
abbreviation FL_MEMORY_CONVERT :: u32 where "FL_MEMORY_CONVERT \<equiv> 0x08"
abbreviation FL_MEMORY_INFO_VERSION :: u32 where "FL_MEMORY_INFO_VERSION \<equiv> 1"
abbreviation FL_MEMORY_INFO_NATIVE_USAGE :: u32 where "FL_MEMORY_INFO_NATIVE_USAGE \<equiv> 0x01"
abbreviation FL_MEMORY_INFO_PLANE_LAYOUT :: u32 where "FL_MEMORY_INFO_PLANE_LAYOUT \<equiv> 0x02"
abbreviation FL_MEMORY_INFO_DEVICE :: u32 where "FL_MEMORY_INFO_DEVICE \<equiv> 0x04"
abbreviation FL_MEMORY_INFO_DIRECT_USAGE :: u32 where "FL_MEMORY_INFO_DIRECT_USAGE \<equiv> 0x08"
abbreviation FL_MEMORY_INFO_MAPPED_USAGE :: u32 where "FL_MEMORY_INFO_MAPPED_USAGE \<equiv> 0x10"
abbreviation FL_MEMORY_INFO_MAP_OPERATIONS :: u32 where "FL_MEMORY_INFO_MAP_OPERATIONS \<equiv> 0x20"
abbreviation FL_MEMORY_INFO_MODIFIER :: u32 where "FL_MEMORY_INFO_MODIFIER \<equiv> 0x40"
abbreviation FL_MEMORY_DEVICE_DRM_NODE :: u32 where "FL_MEMORY_DEVICE_DRM_NODE \<equiv> 2"
abbreviation FL_MEMORY_SYNC_CPU_WAIT :: u32 where "FL_MEMORY_SYNC_CPU_WAIT \<equiv> 0x01"
abbreviation FL_MEMORY_SYNC_FD :: u32 where "FL_MEMORY_SYNC_FD \<equiv> 0x04"
abbreviation FL_MEMORY_HANDLE_DMABUF :: u32 where "FL_MEMORY_HANDLE_DMABUF \<equiv> 2"
abbreviation FL_MEMORY_HANDLE_AHB :: u32 where "FL_MEMORY_HANDLE_AHB \<equiv> 3"
abbreviation FL_MEMORY_INTEROP_RING_IMPORT :: u32 where "FL_MEMORY_INTEROP_RING_IMPORT \<equiv> 0x01"
abbreviation FL_MEMORY_INTEROP_BORROW_NATIVE :: u32 where "FL_MEMORY_INTEROP_BORROW_NATIVE \<equiv> 0x02"
abbreviation FL_MEMORY_INTEROP_EXTERNAL_POOL :: u32 where "FL_MEMORY_INTEROP_EXTERNAL_POOL \<equiv> 0x04"
abbreviation DRM_FORMAT_MOD_INVALID :: u64 where "DRM_FORMAT_MOD_INVALID \<equiv> 0xFFFFFFFFFFFFFF"

record flMemoryResourceInfo =
  ri_version :: u32
  ri_resourceType :: u32
  ri_logicalFormat :: u32
  ri_width :: u32
  ri_height :: u32
  ri_nativeFormat :: u32
  ri_knownFields :: u32
  ri_nativePlaneCount :: u32
  ri_nativeUsage :: u64
  ri_modifier :: u64
  ri_planeOffset :: "u64 list"
  ri_planeStride :: "u64 list"
  ri_directUsage :: u32
  ri_mappedUsage :: u32
  ri_mapOperations :: u32
  ri_deviceIdKind :: u32
  ri_deviceId :: "u8 list"
  ri_syncTransport :: u32
  ri_handleTransport :: u32
  ri_interopCapabilities :: u32
  ri_reserved :: u32
  ri_generation :: u64

definition zero_info :: flMemoryResourceInfo where
  "zero_info = \<lparr>ri_version = 0, ri_resourceType = 0, ri_logicalFormat = 0, ri_width = 0, ri_height = 0, ri_nativeFormat = 0, ri_knownFields = 0,
     ri_nativePlaneCount = 0, ri_nativeUsage = 0, ri_modifier = 0, ri_planeOffset = replicate 4 0, ri_planeStride = replicate 4 0,
     ri_directUsage = 0, ri_mappedUsage = 0, ri_mapOperations = 0, ri_deviceIdKind = 0, ri_deviceId = replicate 16 0, ri_syncTransport = 0,
     ri_handleTransport = 0, ri_interopCapabilities = 0, ri_reserved = 0, ri_generation = 0\<rparr>"

text \<open>\<^verbatim>\<open>sizeof(flMemoryResourceInfo)\<close>\<close>
abbreviation info_size :: nat where "info_size \<equiv> 168"

section \<open>Linux\<close>

text \<open>\<open>dev\<close> is major and minor of the render node when \<^verbatim>\<open>fstat\<close> says it is a character device.\<close>
definition device_id :: "u32 \<times> u32 \<Rightarrow> u8 list" where
  "device_id dev = le_put 4 (fst dev) @ le_put 4 (snd dev) @ replicate 8 0"

definition linux_info :: "(u32 \<times> u32) option \<Rightarrow> flChannel \<Rightarrow> flImageRec \<Rightarrow> flMemoryResourceInfo" where
  "linux_info dev ch img =
     (let d = im_desc img; n = unat (db_planes d) in zero_info\<lparr>
        ri_version := FL_MEMORY_INFO_VERSION, ri_resourceType := FL_MEMORY_DMABUF, ri_logicalFormat := ci_format (ch_info ch),
        ri_width := im_width img, ri_height := im_height img, ri_generation := ci_generation (ch_info ch),
        ri_nativeFormat := db_fourcc d, ri_modifier := db_modifier d, ri_nativePlaneCount := db_planes d,
        ri_knownFields := FL_MEMORY_INFO_PLANE_LAYOUT OR FL_MEMORY_INFO_MAP_OPERATIONS OR
          (if db_modifier d \<noteq> DRM_FORMAT_MOD_INVALID then FL_MEMORY_INFO_MODIFIER else 0) OR
          (if im_usageKnown img then FL_MEMORY_INFO_NATIVE_USAGE OR FL_MEMORY_INFO_DIRECT_USAGE else 0) OR
          (if mi_planes (im_planeView img) \<noteq> 0 then FL_MEMORY_INFO_MAPPED_USAGE else 0) OR
          (if dev \<noteq> None then FL_MEMORY_INFO_DEVICE else 0),
        ri_planeOffset := pad 4 0 (take n (db_offset d)), ri_planeStride := pad 4 0 (take n (db_stride d)),
        ri_nativeUsage := (if im_usageKnown img then ucast (im_usage img) else 0),
        ri_directUsage := (if im_usageKnown img \<and> im_usage img AND GBM_BO_USE_RENDERING \<noteq> 0 then FL_MEMORY_GPU_RENDER else 0),
        ri_mappedUsage := (if mi_planes (im_planeView img) \<noteq> 0 then FL_MEMORY_CPU_READ OR FL_MEMORY_CPU_WRITE else 0),
        ri_deviceIdKind := (if dev \<noteq> None then FL_MEMORY_DEVICE_DRM_NODE else 0),
        ri_deviceId := (case dev of None \<Rightarrow> replicate 16 0 | Some p \<Rightarrow> device_id p),
        ri_syncTransport := FL_MEMORY_SYNC_CPU_WAIT OR FL_MEMORY_SYNC_FD, ri_handleTransport := FL_MEMORY_HANDLE_DMABUF,
        ri_interopCapabilities := FL_MEMORY_INTEROP_RING_IMPORT OR FL_MEMORY_INTEROP_BORROW_NATIVE OR
          (if ch_externalPool ch then FL_MEMORY_INTEROP_EXTERNAL_POOL else 0)\<rparr>)"

definition flImageMemoryInfo ::
  "(u32 \<times> u32) option \<Rightarrow> flChannel \<Rightarrow> nat option \<Rightarrow> flMemoryResourceInfo option \<Rightarrow> nat \<Rightarrow> flResult \<times> flMemoryResourceInfo option" where
  "flImageMemoryInfo dev ch img out sz =
     (if img = None \<or> out = None \<or> sz \<noteq> info_size then (FL_INVALID, out)
      else if ri_version (the out) \<noteq> FL_MEMORY_INFO_VERSION then (FL_VERSION_MISMATCH, out)
      else case find (\<lambda>i. im_addr i = the img) (ch_images ch) of
          None \<Rightarrow> (FL_INVALID, out)
        | Some i \<Rightarrow>
            if db_planes (im_desc i) = 0 \<or> db_planes (im_desc i) > 4 then (FL_INVALID, out)
            else (FL_OK, Some (linux_info dev ch i)))"

section \<open>Android\<close>

definition ahb_info :: "AhbEnv \<Rightarrow> AhbChannel \<Rightarrow> AhbImage \<Rightarrow> nat \<Rightarrow> flMemoryResourceInfo" where
  "ahb_info hb ch img h =
     (let d = hb_describe hb h; mapped = (ai_mapped img \<noteq> None);
          known = (ai_format img \<noteq> FL_FORMAT_NV12 \<or> mapped);
          converts = (ai_format img = FL_FORMAT_BGRA8 \<or> (ai_format img = FL_FORMAT_NV12 \<and> \<not> ai_nativeNv12 img))
      in zero_info\<lparr>
        ri_version := FL_MEMORY_INFO_VERSION, ri_resourceType := FL_MEMORY_AHB, ri_logicalFormat := ai_format img,
        ri_width := hd_width d, ri_height := hd_height d, ri_nativeFormat := hd_format d, ri_nativeUsage := hd_usage d,
        ri_generation := ci_generation (ac_info ch),
        ri_knownFields := FL_MEMORY_INFO_NATIVE_USAGE OR FL_MEMORY_INFO_DIRECT_USAGE OR
          (if known then FL_MEMORY_INFO_MAP_OPERATIONS else 0) OR (if mapped then FL_MEMORY_INFO_MAPPED_USAGE else 0),
        ri_directUsage := (if hd_usage d AND AHB_GPU_SAMPLED_IMAGE \<noteq> 0 then FL_MEMORY_GPU_SAMPLE else 0) OR
          (if hd_usage d AND AHB_GPU_COLOR_OUTPUT \<noteq> 0 then FL_MEMORY_GPU_RENDER else 0),
        ri_mapOperations := (if known \<and> converts then FL_MEMORY_COPY OR FL_MEMORY_CONVERT else 0),
        ri_mappedUsage := (if mapped then FL_MEMORY_CPU_READ OR FL_MEMORY_CPU_WRITE else 0),
        ri_syncTransport := FL_MEMORY_SYNC_CPU_WAIT OR FL_MEMORY_SYNC_FD, ri_handleTransport := FL_MEMORY_HANDLE_AHB,
        ri_interopCapabilities := FL_MEMORY_INTEROP_RING_IMPORT OR FL_MEMORY_INTEROP_BORROW_NATIVE OR
          (if ac_externalPool ch then FL_MEMORY_INTEROP_EXTERNAL_POOL else 0)\<rparr>)"

definition flImageMemoryInfo_ahb ::
  "AhbEnv \<Rightarrow> AhbChannel \<Rightarrow> nat option \<Rightarrow> flMemoryResourceInfo option \<Rightarrow> nat \<Rightarrow> flResult \<times> flMemoryResourceInfo option" where
  "flImageMemoryInfo_ahb hb ch img out sz =
     (if img = None \<or> out = None \<or> sz \<noteq> info_size then (FL_INVALID, out)
      else if ri_version (the out) \<noteq> FL_MEMORY_INFO_VERSION then (FL_VERSION_MISMATCH, out)
      else case find (\<lambda>i. ai_addr i = the img) (ac_images ch) of
          None \<Rightarrow> (FL_INVALID, out)
        | Some i \<Rightarrow> (case ai_ahb i of None \<Rightarrow> (FL_INVALID, out) | Some h \<Rightarrow> (FL_OK, Some (ahb_info hb ch i h))))"

definition flImageAHardwareBuffer :: "AhbImage option \<Rightarrow> nat option" where
  "flImageAHardwareBuffer img = (case img of None \<Rightarrow> None | Some i \<Rightarrow> ai_ahb i)"

section \<open>Constant answers\<close>

fun flResultString :: "flResult \<Rightarrow> string" where
  "flResultString FL_OK = ''ok''"
| "flResultString FL_TIMEOUT = ''timeout''"
| "flResultString FL_DISCONNECTED = ''peer disconnected''"
| "flResultString FL_VERSION_MISMATCH = ''protocol version mismatch''"
| "flResultString FL_FORMAT_UNSUPPORTED = ''format unsupported''"
| "flResultString FL_ADAPTER_MISMATCH = ''producer and consumer on different GPUs''"
| "flResultString FL_ACCESS_DENIED = ''access denied''"
| "flResultString FL_NOT_FOUND = ''channel not found''"
| "flResultString FL_INVALID = ''invalid argument''"
| "flResultString FL_OOM = ''out of memory''"
| "flResultString FL_INTERNAL = ''internal error''"
| "flResultString FL_BUSY = ''channel already has a producer''"

text \<open>Fences are descriptors on these backends.\<close>
definition flSharedConsumedFence :: flResult where "flSharedConsumedFence = FL_FORMAT_UNSUPPORTED"
definition flSharedReadyFence :: flResult where "flSharedReadyFence = FL_FORMAT_UNSUPPORTED"

definition flReconfigure :: flResult where "flReconfigure = FL_INTERNAL"

section \<open>Properties\<close>

text \<open>A report is honest when every field it does not declare known is zero.\<close>
definition known_or_zero :: "flMemoryResourceInfo \<Rightarrow> u32 \<Rightarrow> bool \<Rightarrow> bool" where
  "known_or_zero r bits zero \<longleftrightarrow> ri_knownFields r AND bits \<noteq> 0 \<or> zero"

definition honest :: "flMemoryResourceInfo \<Rightarrow> bool" where
  "honest r \<longleftrightarrow> known_or_zero r FL_MEMORY_INFO_NATIVE_USAGE (ri_nativeUsage r = 0) \<and>
     known_or_zero r FL_MEMORY_INFO_DIRECT_USAGE (ri_directUsage r = 0) \<and>
     known_or_zero r FL_MEMORY_INFO_PLANE_LAYOUT (ri_nativePlaneCount r = 0 \<and> ri_planeStride r = replicate 4 0 \<and> ri_planeOffset r = replicate 4 0) \<and>
     known_or_zero r FL_MEMORY_INFO_DEVICE (ri_deviceIdKind r = 0 \<and> ri_deviceId r = replicate 16 0) \<and>
     known_or_zero r FL_MEMORY_INFO_MAPPED_USAGE (ri_mappedUsage r = 0) \<and>
     known_or_zero r FL_MEMORY_INFO_MAP_OPERATIONS (ri_mapOperations r = 0) \<and>
     known_or_zero r FL_MEMORY_INFO_MODIFIER (ri_modifier r = 0 \<or> ri_modifier r = DRM_FORMAT_MOD_INVALID) \<and> ri_reserved r = 0"

lemma linux_info_honest: "honest (linux_info dev ch img)"
  by (cases dev) (auto simp: honest_def known_or_zero_def linux_info_def zero_info_def Let_def)

lemma ahb_info_honest: "honest (ahb_info hb ch img h)"
  by (auto simp: honest_def known_or_zero_def ahb_info_def zero_info_def Let_def)


text \<open>The result codes have pairwise different descriptions.\<close>
lemma flResultString_inj: "flResultString r = flResultString r' \<Longrightarrow> r = r'"
  by (cases r; cases r'; simp)

end
